(* ===== verification/Prelude.thy ===== *)
theory Prelude
  imports Main "HOL-Library.List_Lexorder" "HOL-Library.Char_ord" "HOL-Library.Product_Lexorder"
begin

text \<open>
  What every component of the bus shares: Rust strings and the standard-library operations the
  sources call on them, results with early return, clamping and machine-width addition, and
  relational tables as lists of rows with the statements the SQL of \<^verbatim>\<open>src/src/store\<close> is made of
  (\<^verbatim>\<open>UPDATE .. WHERE\<close>, \<^verbatim>\<open>DELETE .. WHERE\<close>, a lookup by key, \<^verbatim>\<open>COALESCE\<close>).

  A \<^typ>\<open>string\<close> is the byte sequence of a Rust \<^verbatim>\<open>String\<close> and \<^const>\<open>length\<close> is its \<^verbatim>\<open>len()\<close>.
  Trimming and lower-casing are exact on ASCII text; bytes above 127 are left as they are.
  Time is an \<^typ>\<open>int\<close> in microseconds, the resolution of \<^verbatim>\<open>timestamptz\<close>.
\<close>

named_theorems tbl \<open>facts on table statements\<close>
named_theorems bus_defs \<open>definitions a component's own proofs unfold\<close>

type_synonym uuid = nat
type_synonym time = int

section \<open>Strings\<close>

definition is_whitespace :: "char \<Rightarrow> bool" where
  "is_whitespace c \<longleftrightarrow> (of_char c :: nat) \<in> {9, 10, 11, 12, 13, 32}"

definition is_ascii_upper :: "char \<Rightarrow> bool" where
  "is_ascii_upper c \<longleftrightarrow> 65 \<le> (of_char c :: nat) \<and> (of_char c :: nat) \<le> 90"

definition lower_char :: "char \<Rightarrow> char" where
  "lower_char c = (if is_ascii_upper c then char_of ((of_char c :: nat) + 32) else c)"

definition to_lowercase :: "string \<Rightarrow> string" where
  "to_lowercase s = map lower_char s"

definition trim_start :: "string \<Rightarrow> string" where
  "trim_start s = dropWhile is_whitespace s"

definition trim_end :: "string \<Rightarrow> string" where
  "trim_end s = rev (dropWhile is_whitespace (rev s))"

definition trim :: "string \<Rightarrow> string" where
  "trim s = trim_end (trim_start s)"

lemma of_char_less_256 [simp]: "(of_char c :: nat) < 256"
  by (metis of_char_mod_256 mod_less_divisor zero_less_numeral)

lemma of_char_lower:
  "(of_char (lower_char c) :: nat) = (if is_ascii_upper c then of_char c + 32 else of_char c)"
  by (simp add: lower_char_def is_ascii_upper_def)

lemma lower_char_not_upper [simp]: "\<not> is_ascii_upper (lower_char c)"
  by (simp add: is_ascii_upper_def of_char_lower)

lemma lower_char_idem [simp]: "lower_char (lower_char c) = lower_char c"
  by (metis lower_char_def lower_char_not_upper)

lemma is_whitespace_lower [simp]: "is_whitespace (lower_char c) = is_whitespace c"
  by (auto simp: is_whitespace_def of_char_lower is_ascii_upper_def)

lemma to_lowercase_idem [simp]: "to_lowercase (to_lowercase s) = to_lowercase s"
  by (simp add: to_lowercase_def)

lemma length_to_lowercase [simp]: "length (to_lowercase s) = length s"
  by (simp add: to_lowercase_def)

lemma to_lowercase_Nil_iff [simp]: "to_lowercase s = [] \<longleftrightarrow> s = []"
  by (simp add: to_lowercase_def)

lemma to_lowercase_Nil [simp]: "to_lowercase [] = []"
  by (simp add: to_lowercase_def)

lemma trim_Nil [simp]: "trim [] = []"
  by (simp add: trim_def trim_start_def trim_end_def)

lemma trim_start_length: "length (trim_start s) \<le> length s"
  by (simp add: trim_start_def length_dropWhile_le)

lemma trim_length: "length (trim s) \<le> length s"
proof -
  have "length (trim s) \<le> length (trim_start s)"
    by (metis trim_def trim_end_def length_dropWhile_le length_rev)
  also have "\<dots> \<le> length s" by (rule trim_start_length)
  finally show ?thesis .
qed

text \<open>A string is trimmed when neither end is white space; trimming gives one and keeps one.\<close>

definition trimmed :: "string \<Rightarrow> bool" where
  "trimmed s \<longleftrightarrow> s = [] \<or> (\<not> is_whitespace (hd s) \<and> \<not> is_whitespace (last s))"

lemma trimmed_Nil [simp]: "trimmed []"
  by (simp add: trimmed_def)

lemma hd_trim_end: "\<not> is_whitespace (hd s) \<Longrightarrow> trim_end s \<noteq> [] \<Longrightarrow> \<not> is_whitespace (hd (trim_end s))"
proof -
  assume hd: "\<not> is_whitespace (hd s)" and ne: "trim_end s \<noteq> []"
  have "s = rev (dropWhile is_whitespace (rev s)) @ rev (takeWhile is_whitespace (rev s))"
    by (metis rev_append rev_rev_ident takeWhile_dropWhile_id)
  then have "s = trim_end s @ rev (takeWhile is_whitespace (rev s))"
    by (simp add: trim_end_def)
  with ne have "hd s = hd (trim_end s)" by (metis hd_append2)
  with hd show ?thesis by simp
qed

lemma trimmed_trim [simp]: "trimmed (trim s)"
proof (cases "trim s = []")
  case True
  then show ?thesis by (simp add: trimmed_def)
next
  case False
  then have start: "trim_start s \<noteq> []"
    by (auto simp: trim_def trim_end_def)
  then have "\<not> is_whitespace (hd (trim_start s))"
    by (simp add: trim_start_def hd_dropWhile)
  with False have "\<not> is_whitespace (hd (trim s))"
    by (simp add: trim_def hd_trim_end)
  moreover have "\<not> is_whitespace (last (trim s))"
    using False by (simp add: trim_def trim_end_def last_rev hd_dropWhile)
  ultimately show ?thesis by (simp add: trimmed_def)
qed

lemma trim_trimmed: "trimmed s \<Longrightarrow> trim s = s"
proof (cases s)
  case Nil
  then show ?thesis by simp
next
  case (Cons c cs)
  assume tr: "trimmed s"
  with Cons have "trim_start s = s"
    by (simp add: trimmed_def trim_start_def)
  moreover have "dropWhile is_whitespace (rev s) = rev s"
    using tr Cons by (metis dropWhile_eq_self_iff hd_rev list.distinct(1) trimmed_def)
  ultimately show ?thesis by (simp add: trim_def trim_end_def)
qed

lemma trim_idem [simp]: "trim (trim s) = trim s"
  by (simp add: trim_trimmed)

lemma trimmed_to_lowercase [simp]: "trimmed (to_lowercase s) = trimmed s"
  by (auto simp: trimmed_def to_lowercase_def hd_map last_map)

lemma trim_to_lowercase [simp]: "trim (to_lowercase (trim s)) = to_lowercase (trim s)"
  by (simp add: trim_trimmed)

definition contains_char :: "char \<Rightarrow> string \<Rightarrow> bool" where
  "contains_char c s \<longleftrightarrow> c \<in> set s"

fun strip_prefix :: "string \<Rightarrow> string \<Rightarrow> string option" where
  "strip_prefix [] s = Some s"
| "strip_prefix (p # ps) [] = None"
| "strip_prefix (p # ps) (c # cs) = (if p = c then strip_prefix ps cs else None)"

definition starts_with :: "string \<Rightarrow> string \<Rightarrow> bool" where
  "starts_with p s \<longleftrightarrow> take (length p) s = p"

lemma starts_with_iff: "starts_with p s \<longleftrightarrow> (\<exists>r. s = p @ r)"
proof
  assume "starts_with p s"
  then have "s = p @ drop (length p) s" by (metis append_take_drop_id starts_with_def)
  then show "\<exists>r. s = p @ r" ..
qed (auto simp: starts_with_def)

text \<open>Lower-case hexadecimal, two digits a byte (\<^verbatim>\<open>{b:02x}\<close>).\<close>

definition hex_digit :: "nat \<Rightarrow> char" where
  "hex_digit n = ''0123456789abcdef'' ! n"

definition hex_of :: "string \<Rightarrow> string" where
  "hex_of bytes = concat (map (\<lambda>c. [hex_digit (of_char c div 16), hex_digit (of_char c mod 16)]) bytes)"

text \<open>\<^verbatim>\<open>str::split_once(c)\<close>: the text before and after the first \<open>c\<close>.\<close>

fun split_once :: "char \<Rightarrow> string \<Rightarrow> (string \<times> string) option" where
  "split_once c [] = None"
| "split_once c (x # xs) =
     (if x = c then Some ([], xs)
      else map_option (\<lambda>(a, b). (x # a, b)) (split_once c xs))"

lemma split_once_None: "split_once c s = None \<longleftrightarrow> c \<notin> set s"
  by (induction s) auto

lemma split_once_Some: "split_once c s = Some (a, b) \<longleftrightarrow> s = a @ c # b \<and> c \<notin> set a"
proof (induction s arbitrary: a)
  case Nil
  then show ?case by simp
next
  case (Cons x xs)
  show ?case
  proof (cases a)
    case Nil
    then show ?thesis by auto
  next
    case (Cons y ys)
    then show ?thesis using Cons.IH [of ys] by auto
  qed
qed

section \<open>Results, options and numbers\<close>

text \<open>\<^verbatim>\<open>Result<T, E>\<close> is a sum with the error on the left; \<open>bindE\<close> is the \<^verbatim>\<open>?\<close> operator.\<close>

definition bindE :: "'e + 'a \<Rightarrow> ('a \<Rightarrow> 'e + 'b) \<Rightarrow> 'e + 'b" where
  "bindE r f = (case r of Inl e \<Rightarrow> Inl e | Inr x \<Rightarrow> f x)"

lemma bindE_Inl [simp]: "bindE (Inl e) f = Inl e"
  by (simp add: bindE_def)

lemma bindE_Inr [simp]: "bindE (Inr x) f = f x"
  by (simp add: bindE_def)

lemma bindE_eq_Inr: "bindE r f = Inr y \<longleftrightarrow> (\<exists>x. r = Inr x \<and> f x = Inr y)"
  by (cases r) auto

lemma bindE_eq_Inl: "bindE r f = Inl e \<longleftrightarrow> r = Inl e \<or> (\<exists>x. r = Inr x \<and> f x = Inl e)"
  by (cases r) auto

fun traverse :: "('a \<Rightarrow> 'e + 'b) \<Rightarrow> 'a list \<Rightarrow> 'e + 'b list" where
  "traverse f [] = Inr []"
| "traverse f (x # xs) = bindE (f x) (\<lambda>y. bindE (traverse f xs) (\<lambda>ys. Inr (y # ys)))"

lemma traverse_eq_Inr:
  "traverse f xs = Inr ys \<longleftrightarrow> length xs = length ys \<and> (\<forall>i < length xs. f (xs ! i) = Inr (ys ! i))"
proof (induction xs arbitrary: ys)
  case Nil
  then show ?case by auto
next
  case (Cons x xs)
  then show ?case
    by (cases ys) (auto simp: bindE_eq_Inr nth_Cons split: nat.splits)
qed

definition traverse_opt :: "('a \<Rightarrow> 'e + 'b) \<Rightarrow> 'a option \<Rightarrow> 'e + 'b option" where
  "traverse_opt f x = (case x of None \<Rightarrow> Inr None | Some v \<Rightarrow> bindE (f v) (\<lambda>y. Inr (Some y)))"

definition ok_or :: "'a option \<Rightarrow> 'e \<Rightarrow> 'e + 'a" where
  "ok_or x e = (case x of None \<Rightarrow> Inl e | Some v \<Rightarrow> Inr v)"

lemma ok_or_simps [simp]: "ok_or None e = Inl e" "ok_or (Some v) e = Inr v"
  by (simp_all add: ok_or_def)

lemma ok_or_eq_Inr: "ok_or x e = Inr v \<longleftrightarrow> x = Some v"
  by (cases x) auto

definition opt_filter :: "('a \<Rightarrow> bool) \<Rightarrow> 'a option \<Rightarrow> 'a option" where
  "opt_filter P x = (case x of None \<Rightarrow> None | Some v \<Rightarrow> if P v then Some v else None)"

lemma opt_filter_simps [simp]:
  "opt_filter P None = None" "opt_filter P (Some v) = (if P v then Some v else None)"
  by (simp_all add: opt_filter_def)

text \<open>\<^verbatim>\<open>Option::unwrap_or\<close>, which is SQL's two-argument \<^verbatim>\<open>COALESCE\<close> as well.\<close>

definition unwrap_or :: "'a \<Rightarrow> 'a option \<Rightarrow> 'a" where
  "unwrap_or d x = (case x of None \<Rightarrow> d | Some v \<Rightarrow> v)"

lemma unwrap_or_simps [simp]: "unwrap_or d None = d" "unwrap_or d (Some v) = v"
  by (simp_all add: unwrap_or_def)

abbreviation coalesce_str :: "string option \<Rightarrow> string" where
  "coalesce_str \<equiv> unwrap_or []"

definition clamp :: "int \<Rightarrow> int \<Rightarrow> int \<Rightarrow> int" where
  "clamp lo hi x = (if x < lo then lo else if hi < x then hi else x)"

lemma clamp_bounds: "lo \<le> hi \<Longrightarrow> lo \<le> clamp lo hi x \<and> clamp lo hi x \<le> hi"
  by (simp add: clamp_def)

lemma clamp_id: "lo \<le> x \<Longrightarrow> x \<le> hi \<Longrightarrow> clamp lo hi x = x"
  by (simp add: clamp_def)

text \<open>\<^verbatim>\<open>i64\<close> addition of a release build wraps around at 64 bits.\<close>

definition i64_max :: int where
  "i64_max = 9223372036854775807"

definition i64_wrap :: "int \<Rightarrow> int" where
  "i64_wrap x = (x + 9223372036854775808) mod 18446744073709551616 - 9223372036854775808"

definition i64_add :: "int \<Rightarrow> int \<Rightarrow> int" where
  "i64_add a b = i64_wrap (a + b)"

lemma i64_wrap_id: "- 9223372036854775808 \<le> x \<Longrightarrow> x \<le> i64_max \<Longrightarrow> i64_wrap x = x"
  by (simp add: i64_wrap_def i64_max_def)

definition secs :: "int \<Rightarrow> time" where
  "secs n = n * 1000000"

lemma secs_mono: "a \<le> b \<Longrightarrow> secs a \<le> secs b"
  by (simp add: secs_def)

lemma secs_pos: "0 < a \<Longrightarrow> 0 < secs a"
  by (simp add: secs_def)

section \<open>Tables\<close>

definition upd_where :: "('r \<Rightarrow> bool) \<Rightarrow> ('r \<Rightarrow> 'r) \<Rightarrow> 'r list \<Rightarrow> 'r list" where
  "upd_where P f rows = map (\<lambda>r. if P r then f r else r) rows"

definition del_where :: "('r \<Rightarrow> bool) \<Rightarrow> 'r list \<Rightarrow> 'r list" where
  "del_where P rows = filter (\<lambda>r. \<not> P r) rows"

definition exists_row :: "('r \<Rightarrow> bool) \<Rightarrow> 'r list \<Rightarrow> bool" where
  "exists_row P rows \<longleftrightarrow> (\<exists>r \<in> set rows. P r)"

definition count_rows :: "('r \<Rightarrow> bool) \<Rightarrow> 'r list \<Rightarrow> nat" where
  "count_rows P rows = length (filter P rows)"

lemma upd_where_Nil [simp]: "upd_where P f [] = []"
  by (simp add: upd_where_def)

lemma upd_where_Cons [simp]: "upd_where P f (r # rs) = (if P r then f r else r) # upd_where P f rs"
  by (simp add: upd_where_def)

lemma upd_where_append [simp]: "upd_where P f (xs @ ys) = upd_where P f xs @ upd_where P f ys"
  by (simp add: upd_where_def)

lemma length_upd_where [simp]: "length (upd_where P f rows) = length rows"
  by (simp add: upd_where_def)

lemma set_upd_where [tbl]: "set (upd_where P f rows) = (\<lambda>r. if P r then f r else r) ` set rows"
  by (simp add: upd_where_def)

lemma upd_where_other: "r \<in> set rows \<Longrightarrow> \<not> P r \<Longrightarrow> r \<in> set (upd_where P f rows)"
  by (simp add: set_upd_where rev_image_eqI)

lemma upd_where_hit: "r \<in> set rows \<Longrightarrow> P r \<Longrightarrow> f r \<in> set (upd_where P f rows)"
  by (simp add: set_upd_where rev_image_eqI)

lemma upd_where_none [tbl]: "\<forall>r \<in> set rows. \<not> P r \<Longrightarrow> upd_where P f rows = rows"
  by (induction rows) auto

lemma map_upd_where_same [tbl]:
  "(\<And>r. P r \<Longrightarrow> k (f r) = k r) \<Longrightarrow> map k (upd_where P f rows) = map k rows"
  by (induction rows) auto

lemma map_upd_where_set:
  "(\<And>r. r \<in> set rows \<Longrightarrow> P r \<Longrightarrow> k (f r) = k r) \<Longrightarrow> map k (upd_where P f rows) = map k rows"
  by (induction rows) auto

lemma find_upd_where [tbl]:
  "(\<And>r. P r \<Longrightarrow> Q (f r) = Q r) \<Longrightarrow>
   find Q (upd_where P f rows) = map_option (\<lambda>r. if P r then f r else r) (find Q rows)"
  by (induction rows) auto

lemma find_upd_where_Some:
  "find Q rows = Some z \<Longrightarrow> (\<And>r. P r \<Longrightarrow> Q (f r) = Q r) \<Longrightarrow>
   find Q (upd_where P f rows) = Some (if P z then f z else z)"
  by (simp add: find_upd_where)

lemma find_upd_where_other:
  "(\<And>r. P r \<Longrightarrow> \<not> Q r \<and> \<not> Q (f r)) \<Longrightarrow> find Q (upd_where P f rows) = find Q rows"
  by (induction rows) auto

lemma image_upd_where_same:
  "(\<And>r. P r \<Longrightarrow> k (f r) = k r) \<Longrightarrow> k ` set (upd_where P f rows) = k ` set rows"
  by (metis list.set_map map_upd_where_same)

lemma find_filter_None: "(\<And>r. Q r \<Longrightarrow> P r) \<Longrightarrow> find Q (del_where P rows) = None"
  by (auto simp: del_where_def find_None_iff)

lemma find_del_where [tbl]:
  "(\<And>r. Q r \<Longrightarrow> \<not> P r) \<Longrightarrow> find Q (del_where P rows) = find Q rows"
  by (induction rows) (auto simp: del_where_def)

lemma filter_del_where: "(\<And>r. Q r \<Longrightarrow> \<not> P r) \<Longrightarrow> filter Q (del_where P rows) = filter Q rows"
  by (induction rows) (auto simp: del_where_def)

lemma set_del_where [tbl]: "set (del_where P rows) = {r \<in> set rows. \<not> P r}"
  by (auto simp: del_where_def)

lemma find_append: "find P (xs @ ys) = (case find P xs of None \<Rightarrow> find P ys | Some r \<Rightarrow> Some r)"
  by (induction xs) auto

lemma find_SomeD: "find P xs = Some r \<Longrightarrow> r \<in> set xs \<and> P r"
  by (auto simp: find_Some_iff)

lemma find_None_set: "find P xs = None \<longleftrightarrow> (\<forall>r \<in> set xs. \<not> P r)"
  by (auto simp: find_None_iff)

lemma exists_row_find: "exists_row P rows \<longleftrightarrow> find P rows \<noteq> None"
  by (auto simp: exists_row_def find_None_set)

lemma exists_row_code [code]: "exists_row P rows = list_ex P rows"
  by (simp add: exists_row_def list_ex_iff)

lemma find_unique:
  "distinct (map k rows) \<Longrightarrow> r \<in> set rows \<Longrightarrow> find (\<lambda>x. k x = k r) rows = Some r"
proof (induction rows)
  case Nil
  then show ?case by simp
next
  case (Cons x xs)
  then show ?case by (cases "x = r") (auto simp: rev_image_eqI)
qed

lemma distinct_map_inj: "distinct (map k rows) \<Longrightarrow> a \<in> set rows \<Longrightarrow> b \<in> set rows \<Longrightarrow> k a = k b \<Longrightarrow> a = b"
  by (auto simp: distinct_map inj_on_def)

lemma distinct_map_del_where [tbl]: "distinct (map k rows) \<Longrightarrow> distinct (map k (del_where P rows))"
  by (simp add: del_where_def distinct_map_filter)

end
