(* ===== verification/Schema.thy ===== *)
theory Schema
  imports Prelude
begin

text \<open>
  The data the store works on: errors (\<^verbatim>\<open>error.rs\<close>), the identity a request carries (\<^verbatim>\<open>AuthCtx\<close>),
  the rows of the tables the SQL names (\<^verbatim>\<open>migrations/\<close>) and the database as one record of tables;
  then the helpers of \<^verbatim>\<open>store/mod.rs\<close> that every component calls.

  A row keeps the columns the modelled statements read or write. \<^verbatim>\<open>gen_random_uuid()\<close> and random
  tokens are arguments of the operations that draw them, and a primary key that is already taken is
  the unique violation Postgres raises (\<open>Db\<close>). Error texts are reduced to a short tag that names
  the case; the variant and the condition are the code's.
  What the sources take from elsewhere (JSON, SHA-256, base64, full-text search, header decoding,
  how a UUID prints and parses, which microsecond counts are a date) is the record
  \<open>ext\<close> of functions, an argument of every operation that uses one.
\<close>

section \<open>Errors, identities and external functions\<close>

datatype bus_error =
    NotFound string
  | Invalid string
  | Conflict string
  | Unauthenticated string
  | Forbidden string
  | Db string

datatype error_data =
    InvalidParams string
  | InvalidRequest string
  | InternalError string

definition error_data_of :: "bus_error \<Rightarrow> error_data" where
  "error_data_of err = (case err of
      NotFound m \<Rightarrow> InvalidParams (''not found: '' @ m)
    | Invalid m \<Rightarrow> InvalidParams m
    | Conflict m \<Rightarrow> InvalidParams (''conflict: '' @ m)
    | Unauthenticated m \<Rightarrow> InvalidRequest (''unauthenticated: '' @ m)
    | Forbidden m \<Rightarrow> InvalidRequest (''forbidden: '' @ m)
    | Db e \<Rightarrow> InternalError ''database error'')"

type_synonym 'a res = "bus_error + 'a"

record auth_ctx =
  au_agent_id :: uuid
  au_agent_name :: string
  au_team_id :: uuid
  au_team_slug :: string
  au_session :: string
  au_session_id :: "uuid option"
  au_session_epoch :: "int option"
  au_token_id :: "uuid option"

definition session_is_authenticated :: "auth_ctx \<Rightarrow> bool" where
  "session_is_authenticated auth \<longleftrightarrow> au_session_id auth \<noteq> None"

text \<open>The window a request acts as: its agent and its session label.\<close>

definition window_of :: "auth_ctx \<Rightarrow> uuid \<times> string" where
  "window_of auth = (au_agent_id auth, au_session auth)"

datatype json =
    JNull | JBool bool | JNum string | JStr string
  | JArr "json list" | JObj "(string \<times> json) list"

record ext =
  x_json_parse :: "string \<Rightarrow> json option"
  x_json_len :: "json \<Rightarrow> nat option"
  x_sha256 :: "string \<Rightarrow> string"
  x_b64_decode :: "string \<Rightarrow> string option"
  x_b64_encode :: "string \<Rightarrow> string"
  x_fts :: "string \<Rightarrow> string \<Rightarrow> bool"
  x_header_str :: "string \<Rightarrow> string option"
  x_uuid_str :: "uuid \<Rightarrow> string"
  x_uuid_parse :: "string \<Rightarrow> uuid option"
  x_micros_ok :: "int \<Rightarrow> bool"

section \<open>Rows\<close>

record team_row =
  tm_id :: uuid
  tm_slug :: string
  tm_name :: string
  tm_attachment_bytes_limit :: "int option"

record agent_row =
  ag_id :: uuid
  ag_team_id :: uuid
  ag_name :: string
  ag_display_name :: "string option"
  ag_disabled_at :: "time option"

record token_row =
  tk_id :: uuid
  tk_agent_id :: uuid
  tk_token_hash :: string
  tk_prefix :: string
  tk_label :: "string option"
  tk_created_at :: time
  tk_last_used_at :: "time option"
  tk_revoked_at :: "time option"
  tk_issued_by_admin :: "uuid option"

record session_row =
  se_id :: uuid
  se_agent_id :: uuid
  se_parent_token :: uuid
  se_label :: string
  se_token_hash :: string
  se_prefix :: string
  se_epoch :: int
  se_created_at :: time
  se_last_used_at :: "time option"
  se_expires_at :: time
  se_revoked_at :: "time option"

record presence_row =
  pr_agent_id :: uuid
  pr_session :: string
  pr_status :: string
  pr_repo :: "string option"
  pr_branch :: "string option"
  pr_activity :: "string option"
  pr_project :: "string option"
  pr_role :: "string option"
  pr_updated_at :: time
  pr_expires_at :: time
  pr_attention :: "string option"
  pr_attention_at :: "time option"
  pr_last_tool_at :: "time option"
  pr_last_inbox_read_at :: "time option"
  pr_wake :: "string option"
  pr_wake_until :: "time option"
  pr_wake_token :: "string option"
  pr_wake_result :: "string option"
  pr_wake_result_at :: "time option"

record channel_row =
  ch_id :: uuid
  ch_team_id :: uuid
  ch_name :: string
  ch_topic :: "string option"
  ch_created_by :: "uuid option"
  ch_created_at :: time

record message_row =
  ms_id :: int
  ms_team_id :: uuid
  ms_channel_id :: "uuid option"
  ms_recipient_agent_id :: "uuid option"
  ms_recipient_session :: "string option"
  ms_sender_agent_id :: uuid
  ms_sender_session :: "string option"
  ms_body :: string
  ms_reply_to :: "int option"
  ms_metadata :: json
  ms_announce :: bool
  ms_created_at :: time

record cursor_row =
  rc_agent_id :: uuid
  rc_scope :: string
  rc_last_message_id :: int
  rc_updated_at :: time

datatype task_status = Open | Claimed | Done | Cancelled

record task_row =
  ta_id :: uuid
  ta_team_id :: uuid
  ta_key :: string
  ta_title :: string
  ta_description :: "string option"
  ta_status :: task_status
  ta_claimed_by :: "uuid option"
  ta_claimed_session :: "string option"
  ta_claimed_at :: "time option"
  ta_lease_expires_at :: "time option"
  ta_result :: "string option"
  ta_metadata :: json
  ta_created_by :: "uuid option"
  ta_created_at :: time
  ta_updated_at :: time

record task_event_row =
  te_id :: int
  te_task_id :: uuid
  te_agent_id :: "uuid option"
  te_event :: string
  te_detail :: "string option"
  te_created_at :: time

record lock_row =
  lk_team_id :: uuid
  lk_name :: string
  lk_holder_agent_id :: uuid
  lk_holder_session :: "string option"
  lk_purpose :: "string option"
  lk_acquired_at :: time
  lk_expires_at :: time

record note_row =
  no_id :: uuid
  no_team_id :: uuid
  no_scope :: string
  no_key :: string
  no_value :: string
  no_tags :: "string list"
  no_updated_by :: "uuid option"
  no_updated_at :: time

record revision_row =
  nr_id :: int
  nr_note_id :: uuid
  nr_value :: string
  nr_updated_by :: "uuid option"
  nr_created_at :: time

record attachment_row =
  at_id :: int
  at_team_id :: uuid
  at_message_id :: "int option"
  at_task_id :: "uuid option"
  at_uploader_agent_id :: uuid
  at_filename :: string
  at_content_type :: string
  at_size_bytes :: int
  at_data :: string
  at_created_at :: time

text \<open>The database. A \<open>_seq\<close> field is the last value its \<^verbatim>\<open>BIGSERIAL\<close> sequence handed out.\<close>

record db =
  d_teams :: "team_row list"
  d_agents :: "agent_row list"
  d_tokens :: "token_row list"
  d_sessions :: "session_row list"
  d_presence :: "presence_row list"
  d_channels :: "channel_row list"
  d_messages :: "message_row list"
  d_message_seq :: int
  d_cursors :: "cursor_row list"
  d_tasks :: "task_row list"
  d_deps :: "(uuid \<times> uuid) list"
  d_events :: "task_event_row list"
  d_event_seq :: int
  d_locks :: "lock_row list"
  d_notes :: "note_row list"
  d_revisions :: "revision_row list"
  d_revision_seq :: int
  d_attachments :: "attachment_row list"
  d_attachment_seq :: int

definition empty_db :: db where
  "empty_db = \<lparr>d_teams = [], d_agents = [], d_tokens = [], d_sessions = [], d_presence = [],
     d_channels = [], d_messages = [], d_message_seq = 0, d_cursors = [], d_tasks = [],
     d_deps = [], d_events = [], d_event_seq = 0, d_locks = [], d_notes = [],
     d_revisions = [], d_revision_seq = 0, d_attachments = [], d_attachment_seq = 0\<rparr>"

section \<open>Transactions\<close>

text \<open>
  A transaction body computes an error or a value with the database it would commit. \<open>transact\<close>
  is \<^verbatim>\<open>pool.begin()\<close> to \<^verbatim>\<open>commit()\<close>: an early return drops the handle, which rolls back.
\<close>

type_synonym 'a tx = "db \<Rightarrow> bus_error + ('a \<times> db)"

definition transact :: "('s \<Rightarrow> bus_error + ('a \<times> 's)) \<Rightarrow> 's \<Rightarrow> 'a res \<times> 's" where
  "transact body d = (case body d of Inl e \<Rightarrow> (Inl e, d) | Inr (x, d') \<Rightarrow> (Inr x, d'))"

lemma transact_Inl: "body d = Inl e \<Longrightarrow> transact body d = (Inl e, d)"
  by (simp add: transact_def)

lemma transact_Inr: "body d = Inr (x, d') \<Longrightarrow> transact body d = (Inr x, d')"
  by (simp add: transact_def)

lemma transact_error_rolls_back: "fst (transact body d) = Inl e \<Longrightarrow> snd (transact body d) = d"
  by (auto simp: transact_def split: sum.splits)

lemma transact_commits: "fst (transact body d) = Inr x \<Longrightarrow> body d = Inr (x, snd (transact body d))"
  by (auto simp: transact_def split: sum.splits)

lemma transact_cases:
  obtains (rolled_back) e where "body d = Inl e" "transact body d = (Inl e, d)"
        | (committed) x d' where "body d = Inr (x, d')" "transact body d = (Inr x, d')"
  by (cases "body d") (auto simp: transact_def)

section \<open>Shared helpers of the store\<close>

definition trim_hashes :: "string \<Rightarrow> string" where
  "trim_hashes s = dropWhile (\<lambda>c. c = CHR ''#'') s"

definition normalize_channel :: "string \<Rightarrow> string" where
  "normalize_channel name = to_lowercase (trim (trim_hashes (trim name)))"

definition MAX_METADATA_BYTES :: int where
  "MAX_METADATA_BYTES = 16 * 1024"

definition normalize_metadata :: "ext \<Rightarrow> json option \<Rightarrow> json option" where
  "normalize_metadata X metadata = (case metadata of
      Some (JStr raw) \<Rightarrow>
        (case x_json_parse X raw of
           Some (JObj m) \<Rightarrow> Some (JObj m)
         | _ \<Rightarrow> Some (JStr raw))
    | other \<Rightarrow> other)"

definition check_metadata :: "ext \<Rightarrow> json option \<Rightarrow> unit res" where
  "check_metadata X metadata = (case metadata of
      None \<Rightarrow> Inr ()
    | Some value \<Rightarrow>
        (case x_json_len X value of
           None \<Rightarrow> Inl (Invalid ''metadata is not serialisable JSON'')
         | Some bytes \<Rightarrow>
             if int bytes > MAX_METADATA_BYTES then Inl (Invalid ''metadata over the limit'') else Inr ()))"

definition check_text :: "string \<Rightarrow> int \<Rightarrow> string res" where
  "check_text value limit =
     (if int (length value) > limit then Inl (Invalid ''text over the limit'')
      else let trimmed_value = trim value in
        if int (length trimmed_value) > limit then Inl (Invalid ''text over the limit'')
        else Inr trimmed_value)"

definition session_label :: "auth_ctx \<Rightarrow> string option" where
  "session_label auth = (if au_session auth \<noteq> [] then Some (au_session auth) else None)"

definition agent_id_by_name :: "db \<Rightarrow> uuid \<Rightarrow> string \<Rightarrow> uuid res" where
  "agent_id_by_name d team name =
     (let name = trim name in
      ok_or (map_option ag_id (find (\<lambda>a. ag_team_id a = team \<and> ag_name a = name) (d_agents d)))
        (NotFound ''no agent of that name in this team''))"

definition channel_id_by_name :: "db \<Rightarrow> uuid \<Rightarrow> string \<Rightarrow> uuid res" where
  "channel_id_by_name d team name =
     (let name = normalize_channel name in
      ok_or (map_option ch_id (find (\<lambda>c. ch_team_id c = team \<and> ch_name c = name) (d_channels d)))
        (NotFound ''no channel of that name''))"

text \<open>\<^verbatim>\<open>fetch_optional\<close>: the first row of a result. \<open>ack\<close> is the model's \<^verbatim>\<open>Ack\<close>.\<close>

definition fetch_optional :: "'a list \<Rightarrow> 'a option" where
  "fetch_optional rows = (case rows of [] \<Rightarrow> None | r # _ \<Rightarrow> Some r)"

record ack =
  ak_ok :: bool
  ak_detail :: string

definition agent_name_of :: "db \<Rightarrow> uuid \<Rightarrow> string option" where
  "agent_name_of d a = map_option ag_name (find (\<lambda>r. ag_id r = a) (d_agents d))"

lemma fetch_optional_sort:
  assumes "fetch_optional (sort_key k xs) = Some c"
  shows "c \<in> set xs \<and> (\<forall>x \<in> set xs. k c \<le> k x)"
proof -
  obtain ys where ys: "sort_key k xs = c # ys"
    using assms by (auto simp: fetch_optional_def split: list.splits)
  have "sorted (map k (c # ys))" and "set (c # ys) = set xs"
    by (simp_all add: ys [symmetric])
  then show ?thesis by auto
qed

lemma fetch_optional_None: "fetch_optional xs = None \<longleftrightarrow> xs = []"
  by (simp add: fetch_optional_def split: list.split)

lemma sort_key_Nil_iff [simp]: "sort_key k xs = [] \<longleftrightarrow> xs = []"
  by (metis length_0_conv length_sort)

lemma check_text_Inr:
  "check_text v m = Inr t \<longleftrightarrow> int (length v) \<le> m \<and> t = trim v"
  using trim_length [of v] by (auto simp: check_text_def Let_def)

lemma coalesce_session_label [simp]: "coalesce_str (session_label auth) = au_session auth"
  by (simp add: session_label_def)

end
