(* ===== verification/Contracts.thy ===== *)
theory Contracts
  imports Schema
begin

text \<open>
  The contracts several components share, as locales: a lease (a lock, a task claim and an outbox
  slot are held the same way), a write fenced by the caller's session, and an invariant kept by
  every operation of a component. Each is interpreted on the model's own operations in the theory
  that provides them.
\<close>

section \<open>Runs of operations\<close>

text \<open>
  A run is a list of requests, executed one transaction after another. \<open>exec\<close> is what one request
  does to the state; \<open>runs\<close> folds it over a run.
\<close>

fun runs :: "('q \<Rightarrow> 's \<Rightarrow> 's) \<Rightarrow> 'q list \<Rightarrow> 's \<Rightarrow> 's" where
  "runs exec [] s = s"
| "runs exec (q # qs) s = runs exec qs (exec q s)"

lemma runs_append: "runs exec (xs @ ys) s = runs exec ys (runs exec xs s)"
  by (induction xs arbitrary: s) auto

locale kept_invariant =
  fixes exec :: "'q \<Rightarrow> 's \<Rightarrow> 's"
    and invar :: "'s \<Rightarrow> bool"
  assumes invar_step: "invar s \<Longrightarrow> invar (exec q s)"
begin

lemma invar_runs: "invar s \<Longrightarrow> invar (runs exec qs s)"
  by (induction qs arbitrary: s) (auto intro: invar_step)

end

section \<open>Leases\<close>

text \<open>
  A resource \<open>k\<close> is held by \<open>w\<close> until the instant \<open>e\<close>: \<open>held s k = Some (w, e)\<close>. The law a
  provider promises is that while the lease is live no request of anybody else changes it;
  \<open>before q e\<close> says the request \<open>q\<close> runs before the instant \<open>e\<close>, or at no time that matters.
\<close>

locale lease = kept_invariant exec invar
  for exec :: "'q \<Rightarrow> 's \<Rightarrow> 's"
    and invar :: "'s \<Rightarrow> bool" +
  fixes held :: "'s \<Rightarrow> 'k \<Rightarrow> ('w \<times> time) option"
    and actor :: "'q \<Rightarrow> 'w"
    and before :: "'q \<Rightarrow> time \<Rightarrow> bool"
  assumes others_keep:
    "invar s \<Longrightarrow> held s k = Some (w, e) \<Longrightarrow> before q e \<Longrightarrow> actor q \<noteq> w \<Longrightarrow>
     held (exec q s) k = Some (w, e)"
begin

text \<open>A live lease survives every interleaving of other actors' requests.\<close>

lemma lease_survives:
  assumes "invar s" and "held s k = Some (w, e)"
    and "\<forall>q \<in> set qs. before q e \<and> actor q \<noteq> w"
  shows "held (runs exec qs s) k = Some (w, e)"
  using assms
proof (induction qs arbitrary: s)
  case Nil
  then show ?case by simp
next
  case (Cons q qs)
  have "held (exec q s) k = Some (w, e)"
    using Cons.prems by (intro others_keep) auto
  moreover have "invar (exec q s)"
    using Cons.prems by (intro invar_step) auto
  ultimately show ?case using Cons.IH Cons.prems(3) by simp
qed

text \<open>So nobody else comes to hold it: two holders in one run are separated by the expiry.\<close>

lemma lease_exclusive:
  assumes "invar s" and "held s k = Some (w, e)"
    and "\<forall>q \<in> set qs. actor q \<noteq> w"
    and "held (runs exec qs s) k = Some (w', e')" and "w' \<noteq> w"
  shows "\<exists>q \<in> set qs. \<not> before q e"
proof (rule ccontr)
  assume "\<not> (\<exists>q \<in> set qs. \<not> before q e)"
  then have "\<forall>q \<in> set qs. before q e \<and> actor q \<noteq> w"
    using assms(3) by auto
  then have "held (runs exec qs s) k = Some (w, e)"
    using assms(1,2) by (intro lease_survives)
  with assms(4,5) show False by simp
qed

end

section \<open>Fenced writes\<close>

text \<open>
  A write that re-checks its caller inside its own transaction: a caller the gate refuses gets an
  error and the state is untouched. \<open>stale\<close> is a class of callers the gate refuses for good.
\<close>

locale fenced =
  fixes exec :: "'q \<Rightarrow> 's \<Rightarrow> 's"
    and refused :: "'s \<Rightarrow> 'q \<Rightarrow> bool"
    and stale :: "'s \<Rightarrow> 'q \<Rightarrow> bool"
  assumes refused_writes_nothing: "refused s q \<Longrightarrow> exec q s = s"
    and stale_is_refused: "stale s q \<Longrightarrow> refused s q"
    and stale_forever: "stale s q \<Longrightarrow> stale (exec q' s) q"
begin

lemma stale_runs: "stale s q \<Longrightarrow> stale (runs exec qs s) q"
  by (induction qs arbitrary: s) (auto intro: stale_forever)

text \<open>Once stale, a caller's requests can be dropped from any later run without a trace.\<close>

lemma stale_requests_are_void:
  assumes "\<forall>q \<in> set qs. P q \<longrightarrow> stale s q"
  shows "runs exec qs s = runs exec (filter (\<lambda>q. \<not> P q) qs) s"
  using assms
proof (induction qs arbitrary: s)
  case Nil
  then show ?case by simp
next
  case (Cons q qs)
  show ?case
  proof (cases "P q")
    case True
    with Cons.prems have "exec q s = s"
      by (auto intro: refused_writes_nothing stale_is_refused)
    with True Cons show ?thesis by simp
  next
    case False
    have "\<forall>x \<in> set qs. P x \<longrightarrow> stale (exec q s) x"
      using Cons.prems by (auto intro: stale_forever)
    with False Cons.IH show ?thesis by simp
  qed
qed

end


section \<open>Keyed stores\<close>

text \<open>
  A store seen as a finite map: writing a key updates the map there and deleting it removes the key,
  whatever else the operations record. A run of writes and deletions is then a run of map updates.
\<close>

datatype ('k, 'v) kv_op = Put 'k 'v | Del 'k

fun map_op :: "('k, 'v) kv_op \<Rightarrow> ('k \<rightharpoonup> 'v) \<Rightarrow> ('k \<rightharpoonup> 'v)" where
  "map_op (Put k v) m = m(k \<mapsto> v)"
| "map_op (Del k) m = m(k := None)"

text \<open>The map updates a run amounts to: \<open>effect s q\<close> is what \<open>q\<close> does in \<open>s\<close>, \<open>None\<close> when it is refused.\<close>

fun effects :: "('q \<Rightarrow> 's \<Rightarrow> 's) \<Rightarrow> ('s \<Rightarrow> 'q \<Rightarrow> ('k, 'v) kv_op option) \<Rightarrow> 'q list \<Rightarrow> 's \<Rightarrow> ('k, 'v) kv_op list" where
  "effects exec effect [] s = []"
| "effects exec effect (q # qs) s =
     (case effect s q of None \<Rightarrow> [] | Some e \<Rightarrow> [e]) @ effects exec effect qs (exec q s)"

locale keyed_store =
  fixes invar :: "'s \<Rightarrow> bool"
    and lookup :: "'s \<Rightarrow> 'k \<Rightarrow> 'v option"
    and store_op :: "'q \<Rightarrow> 's \<Rightarrow> 's"
    and effect :: "'s \<Rightarrow> 'q \<Rightarrow> ('k, 'v) kv_op option"
  assumes store_invar: "invar s \<Longrightarrow> invar (store_op q s)"
    and store_lookup: "invar s \<Longrightarrow> lookup (store_op q s) =
      (case effect s q of None \<Rightarrow> lookup s | Some e \<Rightarrow> map_op e (lookup s))"
begin

lemma store_runs_invar: "invar s \<Longrightarrow> invar (runs store_op qs s)"
  by (induction qs arbitrary: s) (auto intro: store_invar)

lemma store_runs: "invar s \<Longrightarrow> lookup (runs store_op qs s) = fold map_op (effects store_op effect qs s) (lookup s)"
  by (induction qs arbitrary: s) (auto simp: store_invar store_lookup split: option.split)

end

section \<open>Logs drained by a cursor\<close>

text \<open>
  An append-only log read with a cursor: a read hands out what lies between the cursor before it and
  the cursor after it, and whatever is appended lands past the cursor. \<open>out q s\<close> is what the request
  \<open>q\<close> hands out of this log in \<open>s\<close>; \<open>outputs\<close> collects it over a run.
\<close>

fun outputs :: "('q \<Rightarrow> 's \<Rightarrow> 's) \<Rightarrow> ('q \<Rightarrow> 's \<Rightarrow> 'o list) \<Rightarrow> 'q list \<Rightarrow> 's \<Rightarrow> 'o list" where
  "outputs exec out [] s = []"
| "outputs exec out (q # qs) s = out q s @ outputs exec out qs (exec q s)"

definition between :: "('m \<Rightarrow> int) \<Rightarrow> int \<Rightarrow> int \<Rightarrow> 'm list \<Rightarrow> 'm list" where
  "between k lo hi ms = filter (\<lambda>m. lo < k m \<and> k m \<le> hi) ms"

lemma between_append [simp]: "between k lo hi (xs @ ys) = between k lo hi xs @ between k lo hi ys"
  by (simp add: between_def)

lemma between_past: "\<forall>m \<in> set ms. hi < k m \<Longrightarrow> between k lo hi ms = []"
  by (force simp: between_def filter_empty_conv)

lemma between_join:
  "sorted (map k ms) \<Longrightarrow> a \<le> b \<Longrightarrow> b \<le> c \<Longrightarrow> between k a b ms @ between k b c ms = between k a c ms"
proof (induction ms)
  case Nil
  then show ?case by (simp add: between_def)
next
  case (Cons m ms)
  then have IH: "between k a b ms @ between k b c ms = between k a c ms" by simp
  show ?case
  proof (cases "k m \<le> b")
    case True
    with Cons.prems IH show ?thesis by (auto simp: between_def)
  next
    case False
    with Cons.prems have "between k a b ms = []" by (intro between_past) force
    with False Cons.prems IH show ?thesis by (auto simp: between_def)
  qed
qed

locale drained_log =
  fixes exec :: "'q \<Rightarrow> 's \<Rightarrow> 's"
    and invar :: "'s \<Rightarrow> bool"
    and admitted :: "'q \<Rightarrow> bool"
    and log :: "'s \<Rightarrow> 'm list"
    and k :: "'m \<Rightarrow> int"
    and cursor :: "'s \<Rightarrow> int"
    and out :: "'q \<Rightarrow> 's \<Rightarrow> int list"
  assumes log_invar: "invar s \<Longrightarrow> admitted q \<Longrightarrow> invar (exec q s)"
    and log_sorted: "invar s \<Longrightarrow> sorted (map k (log s))"
    and cursor_grows: "invar s \<Longrightarrow> admitted q \<Longrightarrow> cursor s \<le> cursor (exec q s)"
    and hands_out: "invar s \<Longrightarrow> admitted q \<Longrightarrow> out q s = map k (between k (cursor s) (cursor (exec q s)) (log s))"
    and appends: "invar s \<Longrightarrow> admitted q \<Longrightarrow>
      \<exists>new. log (exec q s) = log s @ new \<and> (\<forall>m \<in> set new. cursor (exec q s) < k m)"
begin

lemma runs_log:
  assumes "invar s" and "\<forall>q \<in> set qs. admitted q"
  shows "invar (runs exec qs s) \<and> cursor s \<le> cursor (runs exec qs s) \<and>
    (\<exists>new. log (runs exec qs s) = log s @ new \<and> (\<forall>m \<in> set new. cursor s < k m))"
  using assms
proof (induction qs arbitrary: s)
  case Nil
  then show ?case by simp
next
  case (Cons q qs)
  then have q: "admitted q" and s: "invar s" by simp_all
  from appends [OF s q] obtain a where a: "log (exec q s) = log s @ a" "\<forall>m \<in> set a. cursor (exec q s) < k m"
    by auto
  from Cons.IH [OF log_invar [OF s q]] Cons.prems(2) obtain b where
    b: "log (runs exec qs (exec q s)) = log (exec q s) @ b" "\<forall>m \<in> set b. cursor (exec q s) < k m"
    and rest: "invar (runs exec qs (exec q s))" "cursor (exec q s) \<le> cursor (runs exec qs (exec q s))"
    by auto
  have "\<forall>m \<in> set (a @ b). cursor s < k m"
    using a(2) b(2) cursor_grows [OF s q] by fastforce
  then show ?case using a(1) b(1) rest cursor_grows [OF s q] by auto
qed

text \<open>Nothing is lost, nothing is handed out twice, and the order is the log's.\<close>

lemma drained_exactly:
  assumes "invar s" and "\<forall>q \<in> set qs. admitted q"
  shows "outputs exec out qs s = map k (between k (cursor s) (cursor (runs exec qs s)) (log (runs exec qs s)))"
  using assms
proof (induction qs arbitrary: s)
  case Nil
  then show ?case by (auto simp: between_def)
next
  case (Cons q qs)
  then have q: "admitted q" and s: "invar s" and qs: "\<forall>q \<in> set qs. admitted q" by simp_all
  note s' = log_invar [OF s q]
  from appends [OF s q] obtain a where a: "log (exec q s) = log s @ a" "\<forall>m \<in> set a. cursor (exec q s) < k m"
    by auto
  from runs_log [OF s' qs] obtain b where
    b: "log (runs exec qs (exec q s)) = log (exec q s) @ b" "\<forall>m \<in> set b. cursor (exec q s) < k m"
    and e: "invar (runs exec qs (exec q s))" "cursor (exec q s) \<le> cursor (runs exec qs (exec q s))"
    by auto
  have "between k (cursor s) (cursor (exec q s)) (log (runs exec qs (exec q s))) =
      between k (cursor s) (cursor (exec q s)) (log s)"
    using a b by (simp add: between_past)
  then show ?case
    using Cons.IH [OF s' qs] hands_out [OF s q]
      between_join [OF log_sorted [OF e(1)] cursor_grows [OF s q] e(2)]
    by (simp flip: map_append)
qed

end

end
