(* ===== verification/RateLimit.thy ===== *)
theory RateLimit
  imports Complex_Main Contracts
begin

text \<open>
  \<^verbatim>\<open>src/src/ratelimit.rs\<close>: a token bucket per presented credential, with an idle sweep every
  512 requests and a hard ceiling on tracked callers.

  The \<^verbatim>\<open>HashMap\<close> is an association list with distinct keys, an \<^verbatim>\<open>Instant\<close> a natural number of
  nanoseconds. \<^verbatim>\<open>f64\<close> values are rationals and \<open>rnd\<close> is the rounding applied to the result of each
  floating-point operation; it is an argument, so a fact proved for every \<open>rnd\<close> holds of the
  double-precision code, and one proved for \<open>exact\<close> is about the arithmetic the code approximates.
\<close>

section \<open>The limiter\<close>

type_synonym rounding = "rat \<Rightarrow> rat"

definition exact :: rounding where
  "exact x = x"

definition NANOS :: nat where
  "NANOS = 1000000000"

definition IDLE_EVICTION :: nat where
  "IDLE_EVICTION = 600 * NANOS"

definition SWEEP_EVERY :: nat where
  "SWEEP_EVERY = 512"

definition MAX_TRACKED :: nat where
  "MAX_TRACKED = 10000"

record bucket =
  b_tokens :: rat
  b_last :: nat

record limiter =
  rl_buckets :: "(string \<times> bucket) list"
  rl_since_sweep :: nat
  rl_refill_per_sec :: rat
  rl_burst :: rat

datatype verdict = Admitted | Throttled nat

definition new_limiter :: "rounding \<Rightarrow> nat \<Rightarrow> limiter option" where
  "new_limiter rnd per_minute =
     (if per_minute = 0 then None
      else let burst = max (rnd (of_nat per_minute / 10)) 10 in
        Some \<lparr>rl_buckets = [], rl_since_sweep = 0,
              rl_refill_per_sec = rnd (of_nat per_minute / 60), rl_burst = burst\<rparr>)"

text \<open>\<^verbatim>\<open>Instant::duration_since\<close> saturates at zero; \<^verbatim>\<open>as_secs_f64\<close> adds the fraction in floats.\<close>

definition duration_since :: "nat \<Rightarrow> nat \<Rightarrow> nat" where
  "duration_since now earlier = now - earlier"

definition as_secs_f64 :: "rounding \<Rightarrow> nat \<Rightarrow> rat" where
  "as_secs_f64 rnd n =
     rnd (of_nat (n div NANOS) + rnd (of_nat (n mod NANOS) / of_nat NANOS))"

definition retain_active :: "nat \<Rightarrow> (string \<times> bucket) list \<Rightarrow> (string \<times> bucket) list" where
  "retain_active now bs = filter (\<lambda>(k, b). duration_since now (b_last b) < IDLE_EVICTION) bs"

definition put_bucket :: "string \<Rightarrow> bucket \<Rightarrow> (string \<times> bucket) list \<Rightarrow> (string \<times> bucket) list" where
  "put_bucket k b bs = map (\<lambda>(k', b'). if k' = k then (k, b) else (k', b')) bs"

definition sweep :: "nat \<Rightarrow> limiter \<Rightarrow> limiter" where
  "sweep now l =
     (let n = rl_since_sweep l + 1 in
      if n \<ge> SWEEP_EVERY
      then l\<lparr>rl_since_sweep := 0, rl_buckets := retain_active now (rl_buckets l)\<rparr>
      else l\<lparr>rl_since_sweep := n\<rparr>)"

text \<open>The lookup, or the admission of a caller not tracked yet: \<open>None\<close> at the ceiling.\<close>

definition track :: "nat \<Rightarrow> string \<Rightarrow> limiter \<Rightarrow> bucket option \<times> limiter" where
  "track now key l =
     (case map_of (rl_buckets l) key of
        Some b \<Rightarrow> (Some b, l)
      | None \<Rightarrow>
          let bs = (if length (rl_buckets l) \<ge> MAX_TRACKED
                    then retain_active now (rl_buckets l) else rl_buckets l);
              l' = l\<lparr>rl_buckets := bs\<rparr> in
          if length bs \<ge> MAX_TRACKED then (None, l')
          else let b = \<lparr>b_tokens = rl_burst l, b_last = now\<rparr> in
            (Some b, l'\<lparr>rl_buckets := (key, b) # bs\<rparr>))"

definition charge :: "rounding \<Rightarrow> nat \<Rightarrow> limiter \<Rightarrow> bucket \<Rightarrow> verdict \<times> bucket" where
  "charge rnd now l b =
     (let elapsed = as_secs_f64 rnd (duration_since now (b_last b));
          tokens = min (rnd (b_tokens b + rnd (elapsed * rl_refill_per_sec l))) (rl_burst l) in
      if tokens \<ge> 1 then (Admitted, \<lparr>b_tokens = rnd (tokens - 1), b_last = now\<rparr>)
      else let deficit = rnd (1 - tokens) in
        (Throttled (nat (max \<lceil>rnd (deficit / rl_refill_per_sec l)\<rceil> 1)),
         \<lparr>b_tokens = tokens, b_last = now\<rparr>))"

definition check :: "rounding \<Rightarrow> nat \<Rightarrow> string \<Rightarrow> limiter \<Rightarrow> verdict \<times> limiter" where
  "check rnd now key l =
     (case track now key (sweep now l) of
        (None, l') \<Rightarrow> (Throttled 60, l')
      | (Some b, l') \<Rightarrow>
          let (v, b') = charge rnd now l' b in
          (v, l'\<lparr>rl_buckets := put_bucket key b' (rl_buckets l')\<rparr>))"

lemmas limiter_defs [bus_defs] = sweep_def track_def charge_def check_def Let_def

section \<open>Tracking is bounded\<close>

definition limiter_wf :: "limiter \<Rightarrow> bool" where
  "limiter_wf l \<longleftrightarrow> distinct (map fst (rl_buckets l)) \<and> length (rl_buckets l) \<le> MAX_TRACKED"

lemma map_fst_put_bucket [simp]: "map fst (put_bucket k b bs) = map fst bs"
  by (auto simp: put_bucket_def)

lemma length_put_bucket [simp]: "length (put_bucket k b bs) = length bs"
  by (simp add: put_bucket_def)

lemma distinct_retain: "distinct (map fst bs) \<Longrightarrow> distinct (map fst (retain_active now bs))"
  by (simp add: retain_active_def distinct_map_filter)

lemma length_retain: "length (retain_active now bs) \<le> length bs"
  by (simp add: retain_active_def)

lemma sweep_wf: "limiter_wf l \<Longrightarrow> limiter_wf (sweep now l)"
  by (auto simp: limiter_wf_def sweep_def Let_def distinct_retain intro: order_trans [OF length_retain])

lemma fst_retain_subset: "fst ` set (retain_active now bs) \<subseteq> fst ` set bs"
  by (auto simp: retain_active_def)

lemma track_wf: "limiter_wf l \<Longrightarrow> limiter_wf (snd (track now key l))"
  using fst_retain_subset [of now "rl_buckets l"] length_retain [of now "rl_buckets l"]
  by (auto simp: limiter_wf_def track_def Let_def distinct_retain map_of_eq_None_iff
      intro: order_trans [OF length_retain] split: option.splits)

lemma check_wf: "limiter_wf l \<Longrightarrow> limiter_wf (snd (check rnd now key l))"
  using track_wf [OF sweep_wf, of l now key now]
  by (auto simp: check_def limiter_wf_def Let_def split: prod.splits option.splits)

text \<open>One request of a run: an instant and the key it is charged to.\<close>

definition serve :: "rounding \<Rightarrow> nat \<times> string \<Rightarrow> limiter \<Rightarrow> limiter" where
  "serve rnd q l = snd (check rnd (fst q) (snd q) l)"

interpretation bounded: kept_invariant "serve rnd" limiter_wf for rnd
  by unfold_locales (simp add: serve_def check_wf)

lemma new_limiter_wf: "new_limiter rnd pm = Some l \<Longrightarrow> limiter_wf l"
  by (auto simp: new_limiter_def limiter_wf_def Let_def split: if_splits)

section \<open>The sustained rate\<close>

text \<open>
  \<open>level\<close> is what a caller could spend at an instant, a caller that is not tracked counting as
  full. Eviction is invisible to it: a bucket idle for the eviction window has refilled.
\<close>

definition level :: "limiter \<Rightarrow> string \<Rightarrow> nat \<Rightarrow> rat" where
  "level l k now = (case map_of (rl_buckets l) k of
      None \<Rightarrow> rl_burst l
    | Some b \<Rightarrow> min (rl_burst l)
        (b_tokens b + as_secs_f64 exact (duration_since now (b_last b)) * rl_refill_per_sec l))"

definition limiter_ok :: "limiter \<Rightarrow> bool" where
  "limiter_ok l \<longleftrightarrow> limiter_wf l \<and> (\<forall>(k, b) \<in> set (rl_buckets l). 0 \<le> b_tokens b) \<and>
     0 < rl_refill_per_sec l \<and> 1 \<le> rl_burst l \<and> rl_burst l \<le> 600 * rl_refill_per_sec l"

fun admissions :: "rounding \<Rightarrow> string \<Rightarrow> (nat \<times> string) list \<Rightarrow> limiter \<Rightarrow> nat" where
  "admissions rnd k [] l = 0"
| "admissions rnd k ((now, key) # qs) l =
     (case check rnd now key l of
        (v, l') \<Rightarrow> (if key = k \<and> v = Admitted then 1 else 0) + admissions rnd k qs l')"

lemma as_secs_exact: "as_secs_f64 exact n = of_nat n / of_nat NANOS"
proof -
  have "(of_nat n :: rat) = of_nat (n div NANOS) * of_nat NANOS + of_nat (n mod NANOS)"
    by (metis div_mult_mod_eq of_nat_add of_nat_mult)
  then show ?thesis
    by (simp add: as_secs_f64_def exact_def add_divide_distrib NANOS_def)
qed

lemma as_secs_nonneg: "0 \<le> as_secs_f64 exact n"
  by (simp add: as_secs_exact)

lemma new_limiter_ok: "new_limiter exact pm = Some l \<Longrightarrow> limiter_ok l"
  using new_limiter_wf [of exact pm l]
  by (auto simp: new_limiter_def limiter_ok_def Let_def exact_def split: if_splits)

lemma bucket_tokens_nonneg:
  "limiter_ok l \<Longrightarrow> map_of (rl_buckets l) k = Some b \<Longrightarrow> 0 \<le> b_tokens b"
  using map_of_SomeD [of "rl_buckets l" k b] by (auto simp: limiter_ok_def)

lemma level_bounds: "limiter_ok l \<Longrightarrow> 0 \<le> level l k now \<and> level l k now \<le> rl_burst l"
  using bucket_tokens_nonneg [of l k] as_secs_nonneg
  by (auto simp: level_def limiter_ok_def split: option.splits)

lemma level_later:
  assumes "limiter_ok l" and "now \<le> later"
  shows "level l k later \<le> level l k now + as_secs_f64 exact (later - now) * rl_refill_per_sec l"
proof (cases "map_of (rl_buckets l) k")
  case None
  then show ?thesis using assms as_secs_nonneg
    by (simp add: level_def limiter_ok_def)
next
  case (Some b)
  have "as_secs_f64 exact (later - b_last b)
      \<le> as_secs_f64 exact (now - b_last b) + as_secs_f64 exact (later - now)"
    by (simp add: as_secs_exact NANOS_def add_divide_distrib [symmetric] divide_right_mono
        flip: of_nat_add)
  then have "as_secs_f64 exact (later - b_last b) * rl_refill_per_sec l
      \<le> (as_secs_f64 exact (now - b_last b) + as_secs_f64 exact (later - now)) * rl_refill_per_sec l"
    using assms by (intro mult_right_mono) (auto simp: limiter_ok_def)
  moreover have "0 \<le> as_secs_f64 exact (later - now) * rl_refill_per_sec l"
    using assms as_secs_nonneg by (simp add: limiter_ok_def)
  ultimately show ?thesis using Some
    by (auto simp: level_def duration_since_def distrib_right min_def)
qed

lemma map_of_retain:
  "distinct (map fst bs) \<Longrightarrow>
   map_of (retain_active now bs) k =
     opt_filter (\<lambda>b. duration_since now (b_last b) < IDLE_EVICTION) (map_of bs k)"
  by (induction bs) (auto simp: retain_active_def opt_filter_def split: option.splits,
      auto simp: map_of_eq_None_iff rev_image_eqI)

lemma level_cong:
  "map_of (rl_buckets l') k = map_of (rl_buckets l) k \<Longrightarrow> rl_burst l' = rl_burst l \<Longrightarrow>
   rl_refill_per_sec l' = rl_refill_per_sec l \<Longrightarrow> level l' k now = level l k now"
  by (simp add: level_def split: option.split)

lemma idle_is_full:
  assumes "limiter_ok l" and "map_of (rl_buckets l) k = Some b"
    and "\<not> duration_since now (b_last b) < IDLE_EVICTION"
  shows "level l k now = rl_burst l"
proof -
  have "(600 :: rat) \<le> as_secs_f64 exact (duration_since now (b_last b))"
  proof -
    have "600 * NANOS \<le> duration_since now (b_last b)"
      using assms(3) by (simp add: IDLE_EVICTION_def)
    then have "(of_nat (600 * NANOS) :: rat) \<le> of_nat (duration_since now (b_last b))"
      by (simp only: of_nat_le_iff)
    then show ?thesis by (simp add: as_secs_exact NANOS_def)
  qed
  then have "600 * rl_refill_per_sec l
      \<le> as_secs_f64 exact (duration_since now (b_last b)) * rl_refill_per_sec l"
    using assms(1) by (intro mult_right_mono) (auto simp: limiter_ok_def)
  moreover have "rl_burst l \<le> 600 * rl_refill_per_sec l"
    using assms(1) by (simp add: limiter_ok_def)
  moreover have "0 \<le> b_tokens b" by (rule bucket_tokens_nonneg [OF assms(1,2)])
  ultimately show ?thesis using assms(2) by (simp add: level_def)
qed

lemma level_retain:
  assumes "limiter_ok l"
  shows "level (l\<lparr>rl_buckets := retain_active now (rl_buckets l)\<rparr>) k now = level l k now"
proof (cases "map_of (rl_buckets l) k")
  case None
  with assms show ?thesis
    by (simp add: level_def map_of_retain limiter_ok_def limiter_wf_def)
next
  case (Some b)
  show ?thesis
  proof (cases "duration_since now (b_last b) < IDLE_EVICTION")
    case True
    with Some assms show ?thesis
      by (simp add: level_def map_of_retain limiter_ok_def limiter_wf_def)
  next
    case False
    with idle_is_full [OF assms Some] Some assms show ?thesis
      by (simp add: level_def map_of_retain limiter_ok_def limiter_wf_def)
  qed
qed

lemma level_sweep: "limiter_ok l \<Longrightarrow> level (sweep now l) k now = level l k now"
proof -
  assume ok: "limiter_ok l"
  have "level (l\<lparr>rl_since_sweep := 0, rl_buckets := bs\<rparr>) k now = level (l\<lparr>rl_buckets := bs\<rparr>) k now" for bs
    by (rule level_cong) simp_all
  moreover have "level (l\<lparr>rl_since_sweep := n\<rparr>) k now = level l k now" for n
    by (rule level_cong) simp_all
  ultimately show ?thesis using level_retain [OF ok] by (simp add: sweep_def Let_def)
qed

lemma tokens_retain:
  "\<forall>(k, b) \<in> set bs. 0 \<le> b_tokens b \<Longrightarrow> \<forall>(k, b) \<in> set (retain_active now bs). 0 \<le> b_tokens b"
  by (auto simp: retain_active_def)

lemma sweep_ok: "limiter_ok l \<Longrightarrow> limiter_ok (sweep now l)"
  using sweep_wf [of l now] tokens_retain [of "rl_buckets l" now]
  by (auto simp: limiter_ok_def sweep_def Let_def)

lemma track_cases:
  assumes "track now key l = (b, l')" and "limiter_ok l"
  shows "limiter_ok l' \<and> rl_burst l' = rl_burst l \<and> rl_refill_per_sec l' = rl_refill_per_sec l
    \<and> map_of (rl_buckets l') key = b \<and> (\<forall>k. level l' k now = level l k now)"
proof (cases "map_of (rl_buckets l) key")
  case (Some b0)
  with assms show ?thesis by (auto simp: track_def)
next
  case None
  let ?bs = "if MAX_TRACKED \<le> length (rl_buckets l) then retain_active now (rl_buckets l) else rl_buckets l"
  have lv: "level (l\<lparr>rl_buckets := ?bs\<rparr>) k now = level l k now" for k
    using level_retain [OF assms(2)] by simp
  have none: "map_of ?bs key = None"
    using None assms(2) by (simp add: map_of_retain limiter_ok_def limiter_wf_def)
  have ok: "limiter_ok l'"
    using track_wf [of l now key] assms tokens_retain [of "rl_buckets l" now] None
    by (auto simp: limiter_ok_def track_def Let_def split: if_splits)
  have full: "level (l\<lparr>rl_buckets := (key, \<lparr>b_tokens = rl_burst l, b_last = now\<rparr>) # ?bs\<rparr>) k now
      = level (l\<lparr>rl_buckets := ?bs\<rparr>) k now" for k
  proof (cases "k = key")
    case True
    with none show ?thesis by (simp add: level_def as_secs_exact duration_since_def)
  next
    case False
    then show ?thesis by (intro level_cong) simp_all
  qed
  show ?thesis
    using assms(1) None none lv full ok by (auto simp: track_def Let_def split: if_splits)
qed

lemma map_of_put_bucket:
  "map_of (put_bucket key b bs) k = (if k = key \<and> map_of bs key \<noteq> None then Some b else map_of bs k)"
  by (induction bs) (auto simp: put_bucket_def)

lemma put_bucket_tokens:
  "\<forall>(k, b) \<in> set bs. 0 \<le> b_tokens b \<Longrightarrow> 0 \<le> b_tokens b' \<Longrightarrow>
   \<forall>(k, b) \<in> set (put_bucket key b' bs). 0 \<le> b_tokens b"
  by (auto simp: put_bucket_def split: if_splits)

lemma charge_exact:
  assumes "limiter_ok l" and "map_of (rl_buckets l) key = Some b" and "charge exact now l b = (v, b')"
  shows "(v = Admitted \<longleftrightarrow> 1 \<le> level l key now) \<and> b_last b' = now \<and>
    b_tokens b' = level l key now - (if v = Admitted then 1 else 0) \<and> 0 \<le> b_tokens b'"
proof -
  have "level l key now = min (b_tokens b + as_secs_f64 exact (duration_since now (b_last b)) * rl_refill_per_sec l) (rl_burst l)"
    using assms(2) by (simp add: level_def min.commute)
  moreover have "0 \<le> level l key now"
    using level_bounds [OF assms(1)] by blast
  ultimately show ?thesis
    using assms(3) by (auto simp: charge_def Let_def exact_def split: if_splits)
qed

lemma check_level:
  assumes "limiter_ok l" and "check exact now key l = (v, l')"
  shows "limiter_ok l' \<and> rl_burst l' = rl_burst l \<and> rl_refill_per_sec l' = rl_refill_per_sec l \<and>
    level l' k now = level l k now - (if key = k \<and> v = Admitted then 1 else 0)"
proof -
  let ?s = "sweep now l"
  obtain b t where tr: "track now key ?s = (b, t)" by (cases "track now key ?s")
  have s: "limiter_ok ?s" "rl_burst ?s = rl_burst l" "rl_refill_per_sec ?s = rl_refill_per_sec l"
    using sweep_ok [OF assms(1)] by (simp_all add: sweep_def Let_def)
  note t = track_cases [OF tr s(1)]
  have lv: "level t k now = level l k now" for k
    using t level_sweep [OF assms(1)] by simp
  show ?thesis
  proof (cases b)
    case None
    with assms(2) tr t s lv show ?thesis by (auto simp: check_def)
  next
    case (Some b0)
    obtain v' b' where ch: "charge exact now t b0 = (v', b')" by (cases "charge exact now t b0")
    have c: "(v' = Admitted \<longleftrightarrow> 1 \<le> level t key now) \<and> b_last b' = now \<and>
        b_tokens b' = level t key now - (if v' = Admitted then 1 else 0) \<and> 0 \<le> b_tokens b'"
      using t Some by (intro charge_exact [OF _ _ ch]) auto
    have l': "v = v'" "l' = t\<lparr>rl_buckets := put_bucket key b' (rl_buckets t)\<rparr>"
      using assms(2) tr Some ch by (auto simp: check_def Let_def)
    have "limiter_ok l'"
      using t c put_bucket_tokens [of "rl_buckets t" b' key] l'
      by (auto simp: limiter_ok_def limiter_wf_def)
    moreover have "level l' k now = level t k now - (if key = k \<and> v = Admitted then 1 else 0)"
    proof (cases "k = key")
      case True
      have le: "level t key now \<le> rl_burst t" using level_bounds t by blast
      have "map_of (rl_buckets l') key = Some b'"
        using t Some l' by (simp add: map_of_put_bucket)
      then have "level l' key now = min (rl_burst t) (b_tokens b')"
        using c l' by (simp add: level_def as_secs_exact duration_since_def)
      then show ?thesis using True c l' le by simp
    next
      case False
      then have "level l' k now = level t k now"
        using l' by (intro level_cong) (simp_all add: map_of_put_bucket)
      then show ?thesis using False by simp
    qed
    ultimately show ?thesis using t s l' lv by simp
  qed
qed

interpretation exact_levels: kept_invariant "serve exact" limiter_ok
  using check_level by unfold_locales (auto simp: serve_def prod_eq_iff)

lemma runs_limiter_constants:
  "limiter_ok l \<Longrightarrow> rl_burst (runs (serve exact) qs l) = rl_burst l \<and>
   rl_refill_per_sec (runs (serve exact) qs l) = rl_refill_per_sec l"
proof (induction qs arbitrary: l)
  case Nil
  then show ?case by simp
next
  case (Cons q qs)
  have "rl_burst (serve exact q l) = rl_burst l \<and> rl_refill_per_sec (serve exact q l) = rl_refill_per_sec l"
    using check_level [OF Cons.prems] by (auto simp: serve_def prod_eq_iff)
  with Cons.IH [OF exact_levels.invar_step [OF Cons.prems]] show ?case by simp
qed

lemma admissions_bound:
  assumes "limiter_ok l" and "sorted (map fst qs)"
    and "\<forall>(t, key) \<in> set qs. t0 \<le> t \<and> t \<le> t1" and "t0 \<le> t1"
  shows "of_nat (admissions exact k qs l)
    \<le> level l k t0 + as_secs_f64 exact (t1 - t0) * rl_refill_per_sec l"
  using assms
proof (induction qs arbitrary: l t0)
  case Nil
  then show ?case
    using level_bounds [OF Nil(1)] as_secs_nonneg by (auto simp: limiter_ok_def)
next
  case (Cons q qs)
  obtain now key where q: "q = (now, key)" by (cases q)
  obtain v l' where ch: "check exact now key l = (v, l')" by (cases "check exact now key l")
  note c = check_level [OF Cons.prems(1) ch, of k]
  have t: "t0 \<le> now" "now \<le> t1" using Cons.prems(3) q by auto
  have "of_nat (admissions exact k qs l')
      \<le> level l' k now + as_secs_f64 exact (t1 - now) * rl_refill_per_sec l'"
    using Cons.prems t c q by (intro Cons.IH) auto
  moreover have "level l k now \<le> level l k t0 + as_secs_f64 exact (now - t0) * rl_refill_per_sec l"
    using level_later Cons.prems(1) t by blast
  moreover have "as_secs_f64 exact (t1 - t0) = as_secs_f64 exact (now - t0) + as_secs_f64 exact (t1 - now)"
    using t by (simp add: as_secs_exact add_divide_distrib [symmetric] flip: of_nat_add)
  ultimately show ?case using q ch c by (auto simp: distrib_right)
qed

lemma track_succeeds:
  assumes "limiter_wf l" and "map_of (rl_buckets l) key \<noteq> None"
  shows "fst (track now key (sweep now l)) \<noteq> None"
proof (cases "map_of (rl_buckets (sweep now l)) key")
  case (Some b)
  then show ?thesis by (simp add: track_def)
next
  case None
  then have bs: "rl_buckets (sweep now l) = retain_active now (rl_buckets l)"
    using assms(2) by (auto simp: sweep_def Let_def split: if_splits)
  obtain b where b: "(key, b) \<in> set (rl_buckets l)"
    using assms(2) by (auto dest: map_of_SomeD)
  moreover have "(key, b) \<notin> set (retain_active now (rl_buckets l))"
    using None bs by (auto simp: map_of_eq_None_iff rev_image_eqI)
  ultimately have "\<not> (case (key, b) of (k, b) \<Rightarrow> duration_since now (b_last b) < IDLE_EVICTION)"
    by (auto simp: retain_active_def)
  with b have "length (retain_active now (rl_buckets l)) < length (rl_buckets l)"
    unfolding retain_active_def by (rule length_filter_less)
  then have "length (rl_buckets (sweep now l)) < MAX_TRACKED"
    using assms(1) bs by (simp add: limiter_wf_def)
  with None show ?thesis by (simp add: track_def Let_def)
qed

lemma check_admits:
  assumes "limiter_ok l" and "map_of (rl_buckets l) key \<noteq> None" and "1 \<le> level l key now"
  shows "fst (check exact now key l) = Admitted"
proof -
  let ?s = "sweep now l"
  obtain b t where tr: "track now key ?s = (b, t)" by (cases "track now key ?s")
  note t = track_cases [OF tr sweep_ok [OF assms(1)]]
  obtain b0 where b0: "b = Some b0"
    using track_succeeds [of l key now] assms(1,2) tr by (auto simp: limiter_ok_def)
  obtain v b' where ch: "charge exact now t b0 = (v, b')" by (cases "charge exact now t b0")
  have "v = Admitted \<longleftrightarrow> 1 \<le> level t key now"
    using t b0 charge_exact [OF _ _ ch] by auto
  moreover have "level t key now = level l key now"
    using t level_sweep [OF assms(1)] by simp
  ultimately show ?thesis using assms(3) tr b0 ch by (simp add: check_def)
qed

lemma check_throttled:
  assumes "limiter_ok l" and "check exact now key l = (Throttled r, l')"
    and "map_of (rl_buckets l') key \<noteq> None"
  shows "1 - level l' key now \<le> of_nat r * rl_refill_per_sec l' \<and>
    (\<exists>b. map_of (rl_buckets l') key = Some b \<and> b_last b = now)"
proof -
  let ?s = "sweep now l"
  obtain b t where tr: "track now key ?s = (b, t)" by (cases "track now key ?s")
  note t = track_cases [OF tr sweep_ok [OF assms(1)]]
  have "b \<noteq> None"
    using assms(2,3) tr t by (cases b) (auto simp: check_def)
  then obtain b0 where b0: "b = Some b0" by auto
  obtain v b' where ch: "charge exact now t b0 = (v, b')" by (cases "charge exact now t b0")
  have v: "v = Throttled r" and l': "l' = t\<lparr>rl_buckets := put_bucket key b' (rl_buckets t)\<rparr>"
    using assms(2) tr b0 ch by (auto simp: check_def Let_def)
  let ?lv = "level t key now"
  have lv: "level l' key now = ?lv"
    using check_level [OF assms(1,2), of key] t level_sweep [OF assms(1)] by simp
  have r: "r = nat (max \<lceil>(1 - ?lv) / rl_refill_per_sec t\<rceil> 1)"
    using ch v t b0 by (auto simp: charge_def Let_def exact_def level_def min.commute split: if_splits)
  have pos: "0 < rl_refill_per_sec t" using t by (simp add: limiter_ok_def)
  have "(1 - ?lv) / rl_refill_per_sec t \<le> of_int (max \<lceil>(1 - ?lv) / rl_refill_per_sec t\<rceil> 1)"
    by linarith
  also have "\<dots> = of_nat r" using r by simp
  finally have "1 - ?lv \<le> of_nat r * rl_refill_per_sec t"
    using pos by (simp add: divide_le_eq)
  moreover have "b_last b' = now"
    using charge_exact [OF _ _ ch] t b0 by blast
  ultimately show ?thesis using l' lv t b0 by (simp add: map_of_put_bucket)
qed

lemma level_refills:
  assumes "limiter_ok l" and "map_of (rl_buckets l) k = Some b" and "b_last b = now"
    and "now + r * NANOS \<le> later"
  shows "min (rl_burst l) (level l k now + of_nat r * rl_refill_per_sec l) \<le> level l k later"
proof -
  have "r * NANOS \<le> later - now" using assms(4) by simp
  then have "(of_nat (r * NANOS) :: rat) \<le> of_nat (later - now)" by (simp only: of_nat_le_iff)
  then have "of_nat r \<le> as_secs_f64 exact (later - now)"
    by (simp add: as_secs_exact NANOS_def)
  then have "of_nat r * rl_refill_per_sec l \<le> as_secs_f64 exact (later - now) * rl_refill_per_sec l"
    using assms(1) by (intro mult_right_mono) (auto simp: limiter_ok_def)
  moreover have "level l k now \<le> b_tokens b"
    using assms(2,3) by (simp add: level_def duration_since_def as_secs_exact)
  ultimately show ?thesis
    using assms(2,3) by (auto simp: level_def [of l k later] duration_since_def min_def)
qed

section \<open>Properties\<close>

text \<open>Whatever sequence of requests arrives, at whatever instants and for whatever keys, a
  limiter never tracks more than \<^verbatim>\<open>MAX_TRACKED\<close> callers, and never one caller twice. Holds for every
  rounding of the floating-point operations.\<close>

theorem tracking_is_bounded:
  assumes "new_limiter rnd per_minute = Some l0"
  shows "length (rl_buckets (runs (serve rnd) qs l0)) \<le> MAX_TRACKED \<and>
    distinct (map fst (rl_buckets (runs (serve rnd) qs l0)))"
  using bounded.invar_runs [OF new_limiter_wf [OF assms]] by (auto simp: limiter_wf_def)

theorem tracking_is_bounded_witness:
  "length (rl_buckets (runs (serve exact) [(0, ''a''), (5, ''b'')] (the (new_limiter exact 60)))) \<le> MAX_TRACKED"
proof -
  have "new_limiter exact 60 = Some (the (new_limiter exact 60))"
    by (simp add: new_limiter_def Let_def)
  from tracking_is_bounded [OF this] show ?thesis by blast
qed



text \<open>\<^verbatim>\<open>Retry-After\<close> is honest. A tracked caller that is throttled and comes back after the
  number of seconds it was told, whatever the limiter served before, is admitted. Stated for exact
  arithmetic.\<close>

theorem retry_after_is_enough:
  assumes "new_limiter exact per_minute = Some l0" and "l = runs (serve exact) past l0"
    and "check exact now key l = (Throttled r, l')" and "map_of (rl_buckets l') key \<noteq> None"
    and "now + r * NANOS \<le> later"
  shows "fst (check exact later key l') = Admitted"
proof -
  have ok: "limiter_ok l"
    unfolding assms(2) by (rule exact_levels.invar_runs [OF new_limiter_ok [OF assms(1)]])
  have ok': "limiter_ok l'" and l': "rl_burst l' = rl_burst l"
    using check_level [OF ok assms(3)] by auto
  obtain b where b: "map_of (rl_buckets l') key = Some b" "b_last b = now"
    and "1 - level l' key now \<le> of_nat r * rl_refill_per_sec l'"
    using check_throttled [OF ok assms(3,4)] by blast
  then have "level l' key now + of_nat r * rl_refill_per_sec l' \<ge> 1" by simp
  moreover have "min (rl_burst l') (level l' key now + of_nat r * rl_refill_per_sec l') \<le> level l' key later"
    by (rule level_refills [OF ok' b assms(5)])
  moreover have "1 \<le> rl_burst l'" using ok' by (simp add: limiter_ok_def)
  ultimately have "1 \<le> level l' key later" by simp
  then show ?thesis by (rule check_admits [OF ok' assms(4)])
qed

lemma serve_alone:
  assumes "rl_buckets l = [(k, \<lparr>b_tokens = t, b_last = now\<rparr>)]" and "t \<le> rl_burst l"
    and "rl_since_sweep l + 1 < SWEEP_EVERY"
  shows "check exact now k l =
    (if 1 \<le> t then (Admitted, l\<lparr>rl_buckets := [(k, \<lparr>b_tokens = t - 1, b_last = now\<rparr>)],
                              rl_since_sweep := rl_since_sweep l + 1\<rparr>)
     else (Throttled (nat (max \<lceil>(1 - t) / rl_refill_per_sec l\<rceil> 1)),
           l\<lparr>rl_since_sweep := rl_since_sweep l + 1\<rparr>))"
  using assms
  by (simp add: check_def sweep_def track_def charge_def Let_def as_secs_exact duration_since_def
      exact_def put_bucket_def min_def)

definition drained :: limiter where
  "drained = runs (serve exact) (map (\<lambda>_. (0, ''k'')) [(1::nat)..<11]) (the (new_limiter exact 60))"

lemma drained_eq:
  "drained = \<lparr>rl_buckets = [(''k'', \<lparr>b_tokens = 0, b_last = 0\<rparr>)], rl_since_sweep = 10,
     rl_refill_per_sec = 1, rl_burst = 10\<rparr>"
proof -
  have "serve exact (0, ''k'') (the (new_limiter exact 60)) =
    \<lparr>rl_buckets = [(''k'', \<lparr>b_tokens = 9, b_last = 0\<rparr>)], rl_since_sweep = 1,
     rl_refill_per_sec = 1, rl_burst = 10\<rparr>"
    by (simp add: serve_def new_limiter_def check_def sweep_def track_def charge_def Let_def
        as_secs_exact duration_since_def exact_def put_bucket_def SWEEP_EVERY_def MAX_TRACKED_def)
  moreover have "map (\<lambda>_. (0 :: nat, ''k'')) [(1::nat)..<11] =
    [(0, ''k''), (0, ''k''), (0, ''k''), (0, ''k''), (0, ''k''), (0, ''k''), (0, ''k''), (0, ''k''),
     (0, ''k''), (0, ''k'')]"
    by (simp add: upt_rec)
  ultimately show ?thesis
    by (simp add: drained_def serve_def serve_alone SWEEP_EVERY_def)
qed

theorem retry_after_is_enough_witness:
  "check exact 0 ''k'' drained = (Throttled 1, drained\<lparr>rl_since_sweep := 11\<rparr>) \<and>
   fst (check exact (0 + 1 * NANOS) ''k'' (drained\<lparr>rl_since_sweep := 11\<rparr>)) = Admitted"
proof -
  have t: "check exact 0 ''k'' drained = (Throttled 1, drained\<lparr>rl_since_sweep := 11\<rparr>)"
    by (subst serve_alone [where t = 0]) (simp_all add: drained_eq SWEEP_EVERY_def)
  moreover have "new_limiter exact 60 = Some (the (new_limiter exact 60))"
    by (simp add: new_limiter_def Let_def)
  ultimately have "fst (check exact (0 + 1 * NANOS) ''k'' (drained\<lparr>rl_since_sweep := 11\<rparr>)) = Admitted"
    using retry_after_is_enough [OF _ drained_def t] by (simp add: drained_eq)
  with t show ?thesis by blast
qed

text \<open>Callers are independent. A request charged to one key leaves what every other key can
  spend as it was, at every instant of a limiter's life. Stated for exact arithmetic.\<close>

theorem keys_are_independent:
  assumes "new_limiter exact per_minute = Some l0" and "l = runs (serve exact) past l0"
    and "k \<noteq> key"
  shows "level (snd (check exact now key l)) k now = level l k now"
proof -
  have "limiter_ok l"
    unfolding assms(2) by (rule exact_levels.invar_runs [OF new_limiter_ok [OF assms(1)]])
  from check_level [OF this, of now key _ _ k] assms(3) show ?thesis
    by (auto simp: prod_eq_iff)
qed

theorem keys_are_independent_witness:
  "level (snd (check exact 3 ''a'' (the (new_limiter exact 60)))) ''b'' 3
    = level (the (new_limiter exact 60)) ''b'' 3"
proof -
  have "new_limiter exact 60 = Some (the (new_limiter exact 60))"
    by (simp add: new_limiter_def Let_def)
  from keys_are_independent [OF this, of _ "[]" "''b''" "''a''" 3] show ?thesis by simp
qed

end
