(* ===== verification/Demo.thy ===== *)
theory Demo
  imports Schema
begin

text \<open>
  A small installation the witnesses of the other theories evaluate: one team with two agents, an
  agent token each, one live window of the first agent, a channel and two tasks. The external
  functions are concrete: JSON never parses and is two bytes long, digests and base64 are the
  identity, a search matches when the document starts with the query, a header value is its own text.
\<close>

definition demo_ext :: ext where
  "demo_ext = \<lparr>x_json_parse = (\<lambda>s. None), x_json_len = (\<lambda>j. Some 2), x_sha256 = (\<lambda>s. s),
     x_b64_decode = Some, x_b64_encode = (\<lambda>s. s), x_fts = (\<lambda>doc q. take (length q) doc = q),
     x_header_str = Some, x_uuid_str = (\<lambda>i. replicate i (CHR ''0'')), x_uuid_parse = (\<lambda>s. None),
     x_micros_ok = (\<lambda>u. True)\<rparr>"

definition demo_session :: session_row where
  "demo_session = \<lparr>se_id = 100, se_agent_id = 10, se_parent_token = 50, se_label = ''api'',
     se_token_hash = ''acss_1'', se_prefix = ''acss_1'', se_epoch = 1, se_created_at = 0,
     se_last_used_at = None, se_expires_at = 5000000000, se_revoked_at = None\<rparr>"

definition demo_task :: "uuid \<Rightarrow> string \<Rightarrow> task_row" where
  "demo_task i k = \<lparr>ta_id = i, ta_team_id = 1, ta_key = k, ta_title = k, ta_description = None,
     ta_status = Open, ta_claimed_by = None, ta_claimed_session = None, ta_claimed_at = None,
     ta_lease_expires_at = None, ta_result = None, ta_metadata = JObj [], ta_created_by = Some 10,
     ta_created_at = int i, ta_updated_at = 0\<rparr>"

definition demo_db :: db where
  "demo_db = empty_db\<lparr>
     d_teams := [\<lparr>tm_id = 1, tm_slug = ''core'', tm_name = ''Core'', tm_attachment_bytes_limit = Some 100\<rparr>],
     d_agents := [\<lparr>ag_id = 10, ag_team_id = 1, ag_name = ''ana'', ag_display_name = None, ag_disabled_at = None\<rparr>,
                  \<lparr>ag_id = 11, ag_team_id = 1, ag_name = ''bo'', ag_display_name = None, ag_disabled_at = None\<rparr>],
     d_tokens := [\<lparr>tk_id = 50, tk_agent_id = 10, tk_token_hash = ''acs_ana'', tk_prefix = ''acs_ana'',
                    tk_label = None, tk_created_at = 0, tk_last_used_at = None, tk_revoked_at = None, tk_issued_by_admin = None\<rparr>,
                  \<lparr>tk_id = 51, tk_agent_id = 11, tk_token_hash = ''acs_bo'', tk_prefix = ''acs_bo'',
                    tk_label = None, tk_created_at = 0, tk_last_used_at = None, tk_revoked_at = None, tk_issued_by_admin = None\<rparr>],
     d_sessions := [demo_session],
     d_channels := [\<lparr>ch_id = 30, ch_team_id = 1, ch_name = ''dev'', ch_topic = None,
                      ch_created_by = Some 10, ch_created_at = 0\<rparr>],
     d_tasks := [demo_task 1 ''a'', demo_task 2 ''b''],
     d_deps := [(2, 1)]\<rparr>"

text \<open>Agent \<open>ana\<close> through her window \<open>api\<close>, and agent \<open>bo\<close> with a plain agent token.\<close>

definition ana_api :: auth_ctx where
  "ana_api = \<lparr>au_agent_id = 10, au_agent_name = ''ana'', au_team_id = 1, au_team_slug = ''core'',
     au_session = ''api'', au_session_id = Some 100, au_session_epoch = Some 1, au_token_id = None\<rparr>"

definition bo :: auth_ctx where
  "bo = \<lparr>au_agent_id = 11, au_agent_name = ''bo'', au_team_id = 1, au_team_slug = ''core'',
     au_session = [], au_session_id = None, au_session_epoch = None, au_token_id = Some 51\<rparr>"

lemmas demo_defs = demo_ext_def demo_session_def demo_task_def demo_db_def ana_api_def bo_def empty_db_def

end
