(* ===== verification/Auth.thy ===== *)
theory Auth
  imports RateLimit Demo
begin

text \<open>
  \<^verbatim>\<open>src/src/auth.rs\<close>: session labels, the headers a request carries, and how a bearer credential
  becomes an \<^typ>\<open>auth_ctx\<close>. Request headers are a function from header names to raw values; the
  middleware's state is the rate limiter (when configured) and the database.
\<close>

section \<open>Constants and errors\<close>

definition TOKEN_PREFIX :: string where "TOKEN_PREFIX = ''acs_''"
definition SESSION_TOKEN_PREFIX :: string where "SESSION_TOKEN_PREFIX = ''acss_''"
definition ADMIN_TOKEN_PREFIX :: string where "ADMIN_TOKEN_PREFIX = ''acsa_''"
definition EPOCH_HEADER :: string where "EPOCH_HEADER = ''x-crew-epoch''"
definition SESSION_HEADER :: string where "SESSION_HEADER = ''x-crew-session''"
definition SESSION_TTL_SECS :: int where "SESSION_TTL_SECS = 24 * 3600"
definition MAX_SESSION_TTL_SECS :: int where "MAX_SESSION_TTL_SECS = 24 * 3600"
definition MAX_SESSION_BYTES :: nat where "MAX_SESSION_BYTES = 64"

datatype auth_error =
    Missing
  | InvalidToken
  | Disabled
  | Internal
  | RateLimited nat
  | BadSession string
  | SessionExpired
  | SessionMismatch string string
  | StaleEpoch int int

datatype label_error = TooLong nat | NotAscii | HasControl | Unexpanded | HasSlash

definition status_of :: "auth_error \<Rightarrow> nat" where
  "status_of e = (case e of
      Missing \<Rightarrow> 401 | InvalidToken \<Rightarrow> 401 | Disabled \<Rightarrow> 403 | Internal \<Rightarrow> 500
    | RateLimited n \<Rightarrow> 429 | SessionExpired \<Rightarrow> 401 | SessionMismatch p c \<Rightarrow> 403
    | StaleEpoch c s \<Rightarrow> 409 | BadSession w \<Rightarrow> 400)"

definition is_ascii_char :: "char \<Rightarrow> bool" where
  "is_ascii_char c \<longleftrightarrow> (of_char c :: nat) < 128"

definition is_control :: "char \<Rightarrow> bool" where
  "is_control c \<longleftrightarrow> (of_char c :: nat) < 32 \<or> (of_char c :: nat) = 127"

section \<open>Session labels\<close>

definition normalize_session :: "string \<Rightarrow> label_error + string" where
  "normalize_session raw =
     (let label = to_lowercase (trim raw) in
      if label = [] then Inr []
      else if length label > MAX_SESSION_BYTES then Inl (TooLong (length label))
      else if \<not> list_all is_ascii_char label then Inl NotAscii
      else if list_ex is_control label then Inl HasControl
      else if list_ex (\<lambda>c. c = CHR ''$'' \<or> c = CHR ''{'' \<or> c = CHR ''}'') label then Inl Unexpanded
      else if contains_char (CHR ''/'') label then Inl HasSlash
      else Inr label)"

text \<open>What a label that came out of the validator looks like.\<close>

definition valid_label :: "string \<Rightarrow> bool" where
  "valid_label l \<longleftrightarrow> length l \<le> MAX_SESSION_BYTES \<and> trimmed l \<and> to_lowercase l = l \<and>
     (\<forall>c \<in> set l. is_ascii_char c \<and> \<not> is_control c \<and> c \<notin> {CHR ''$'', CHR ''{'', CHR ''}'', CHR ''/''})"

lemma normalize_session_valid: "normalize_session raw = Inr l \<Longrightarrow> valid_label l"
proof -
  assume r: "normalize_session raw = Inr l"
  let ?l = "to_lowercase (trim raw)"
  show ?thesis
  proof (cases "?l = []")
    case True
    with r show ?thesis by (simp add: normalize_session_def valid_label_def)
  next
    case False
    with r have "l = ?l" "length ?l \<le> MAX_SESSION_BYTES" "list_all is_ascii_char ?l"
      "\<not> list_ex is_control ?l" "\<not> list_ex (\<lambda>c. c = CHR ''$'' \<or> c = CHR ''{'' \<or> c = CHR ''}'') ?l"
      "\<not> contains_char (CHR ''/'') ?l"
      by (simp_all add: normalize_session_def Let_def split: if_split_asm)
    then show ?thesis
      by (auto simp: valid_label_def list_all_iff list_ex_iff contains_char_def)
  qed
qed

lemma normalize_session_fixed: "valid_label l \<Longrightarrow> normalize_session l = Inr l"
  by (auto simp: normalize_session_def valid_label_def Let_def list_all_iff list_ex_iff
      contains_char_def trim_trimmed)

section \<open>Headers\<close>

type_synonym headers = "string \<Rightarrow> string option"

definition is_digit :: "char \<Rightarrow> bool" where
  "is_digit c \<longleftrightarrow> 48 \<le> (of_char c :: nat) \<and> (of_char c :: nat) \<le> 57"

definition digits_value :: "string \<Rightarrow> int" where
  "digits_value s = foldl (\<lambda>n c. 10 * n + int (of_char c - 48)) 0 s"

text \<open>\<^verbatim>\<open>str::parse::<i64>()\<close>: an optional sign, at least one digit, in range.\<close>

definition parse_i64 :: "string \<Rightarrow> int option" where
  "parse_i64 s =
     (let (sign, ds) = (case s of
          [] \<Rightarrow> (1, [])
        | c # cs \<Rightarrow> if c = CHR ''-'' then (- 1, cs) else if c = CHR ''+'' then (1, cs) else (1, s));
          v = sign * digits_value ds in
      if ds = [] \<or> \<not> list_all is_digit ds then None
      else if v < - 9223372036854775808 \<or> i64_max < v then None
      else Some v)"

definition epoch_from_headers :: "ext \<Rightarrow> headers \<Rightarrow> auth_error + int option" where
  "epoch_from_headers X h = (case h EPOCH_HEADER of
      None \<Rightarrow> Inr None
    | Some value \<Rightarrow>
        bindE (ok_or (opt_filter (\<lambda>v. v \<noteq> []) (map_option trim (x_header_str X value)))
                (BadSession ''epoch must be ASCII''))
          (\<lambda>raw. bindE (ok_or (parse_i64 raw) (BadSession ''epoch must be a positive integer''))
            (\<lambda>epoch. if epoch \<le> 0 then Inl (BadSession ''epoch must be a positive integer'')
                     else Inr (Some epoch))))"

definition label_error_text :: "label_error \<Rightarrow> string" where
  "label_error_text e = (case e of
      TooLong n \<Rightarrow> ''is over the limit'' | NotAscii \<Rightarrow> ''must be ASCII''
    | HasControl \<Rightarrow> ''must not contain control characters''
    | Unexpanded \<Rightarrow> ''looks like an unexpanded variable'' | HasSlash \<Rightarrow> ''must not contain a slash'')"

definition session_from_headers :: "ext \<Rightarrow> headers \<Rightarrow> auth_error + string" where
  "session_from_headers X h = (case h SESSION_HEADER of
      None \<Rightarrow> Inr []
    | Some value \<Rightarrow>
        bindE (ok_or (x_header_str X value) (BadSession ''must be ASCII''))
          (\<lambda>raw. case normalize_session raw of
             Inl why \<Rightarrow> Inl (BadSession (label_error_text why))
           | Inr label \<Rightarrow> Inr label))"

section \<open>Credentials\<close>

text \<open>The random bytes, already hex-encoded, are the argument.\<close>

definition generate_token :: "string \<Rightarrow> string" where
  "generate_token hexbytes = TOKEN_PREFIX @ hexbytes"

definition generate_session_token :: "string \<Rightarrow> string" where
  "generate_session_token hexbytes = SESSION_TOKEN_PREFIX @ hexbytes"

definition generate_admin_token :: "string \<Rightarrow> string" where
  "generate_admin_token hexbytes = ADMIN_TOKEN_PREFIX @ hexbytes"

definition hash_token :: "ext \<Rightarrow> string \<Rightarrow> string" where
  "hash_token X raw = x_sha256 X (trim raw)"

definition token_prefix :: "string \<Rightarrow> string" where
  "token_prefix raw = take 12 raw"

definition agent_by_id :: "db \<Rightarrow> uuid \<Rightarrow> agent_row option" where
  "agent_by_id d a = find (\<lambda>r. ag_id r = a) (d_agents d)"

definition team_by_id :: "db \<Rightarrow> uuid \<Rightarrow> team_row option" where
  "team_by_id d t = find (\<lambda>r. tm_id r = t) (d_teams d)"

definition token_by_id :: "db \<Rightarrow> uuid \<Rightarrow> token_row option" where
  "token_by_id d t = find (\<lambda>r. tk_id r = t) (d_tokens d)"

definition session_by_id :: "db \<Rightarrow> uuid \<Rightarrow> session_row option" where
  "session_by_id d i = find (\<lambda>r. se_id r = i) (d_sessions d)"

definition resolve_session_token :: "ext \<Rightarrow> time \<Rightarrow> string \<Rightarrow> db \<Rightarrow> (auth_error + auth_ctx) \<times> db" where
  "resolve_session_token X now raw d =
     (case find (\<lambda>s. se_token_hash s = hash_token X raw) (d_sessions d) of
        None \<Rightarrow> (Inl InvalidToken, d)
      | Some s \<Rightarrow>
     (case token_by_id d (se_parent_token s) of
        None \<Rightarrow> (Inl InvalidToken, d)
      | Some t \<Rightarrow>
     (case agent_by_id d (se_agent_id s) of
        None \<Rightarrow> (Inl InvalidToken, d)
      | Some a \<Rightarrow>
     (case team_by_id d (ag_team_id a) of
        None \<Rightarrow> (Inl InvalidToken, d)
      | Some tm \<Rightarrow>
        if ag_disabled_at a \<noteq> None then (Inl Disabled, d)
        else if tk_revoked_at t \<noteq> None \<or> se_revoked_at s \<noteq> None then (Inl InvalidToken, d)
        else if se_expires_at s \<le> now then (Inl SessionExpired, d)
        else
          (Inr \<lparr>au_agent_id = ag_id a, au_agent_name = ag_name a, au_team_id = tm_id tm,
                au_team_slug = tm_slug tm, au_session = se_label s, au_session_id = Some (se_id s),
                au_session_epoch = Some (se_epoch s), au_token_id = None\<rparr>,
           d\<lparr>d_sessions := upd_where
               (\<lambda>r. se_id r = se_id s \<and>
                 (case se_last_used_at r of None \<Rightarrow> True | Some u \<Rightarrow> u < now - secs 60))
               (\<lambda>r. r\<lparr>se_last_used_at := Some now\<rparr>) (d_sessions d)\<rparr>)))))"

definition resolve_token :: "ext \<Rightarrow> time \<Rightarrow> string \<Rightarrow> db \<Rightarrow> (auth_error + auth_ctx) \<times> db" where
  "resolve_token X now raw d =
     (if starts_with SESSION_TOKEN_PREFIX raw then resolve_session_token X now raw d
      else if \<not> starts_with TOKEN_PREFIX raw then (Inl InvalidToken, d)
      else
     (case find (\<lambda>t. tk_token_hash t = hash_token X raw \<and> tk_revoked_at t = None) (d_tokens d) of
        None \<Rightarrow> (Inl InvalidToken, d)
      | Some t \<Rightarrow>
     (case agent_by_id d (tk_agent_id t) of
        None \<Rightarrow> (Inl InvalidToken, d)
      | Some a \<Rightarrow>
     (case team_by_id d (ag_team_id a) of
        None \<Rightarrow> (Inl InvalidToken, d)
      | Some tm \<Rightarrow>
        if ag_disabled_at a \<noteq> None then (Inl Disabled, d)
        else
          (Inr \<lparr>au_agent_id = ag_id a, au_agent_name = ag_name a, au_team_id = tm_id tm,
                au_team_slug = tm_slug tm, au_session = [], au_session_id = None,
                au_session_epoch = None, au_token_id = Some (tk_id t)\<rparr>,
           d\<lparr>d_tokens := upd_where (\<lambda>r. tk_id r = tk_id t)
               (\<lambda>r. r\<lparr>tk_last_used_at := Some now\<rparr>) (d_tokens d)\<rparr>)))))"

section \<open>The middleware\<close>

definition bearer_of :: "ext \<Rightarrow> headers \<Rightarrow> auth_error + string" where
  "bearer_of X h =
     ok_or (opt_filter (\<lambda>v. v \<noteq> []) (map_option trim
       (Option.bind (Option.bind (h ''authorization'') (x_header_str X))
         (\<lambda>v. case strip_prefix ''Bearer '' v of Some r \<Rightarrow> Some r | None \<Rightarrow> strip_prefix ''bearer '' v))))
     Missing"

record auth_state =
  as_limiter :: "limiter option"
  as_db :: db

definition charge_limiter ::
    "rounding \<Rightarrow> nat \<Rightarrow> string \<Rightarrow> limiter option \<Rightarrow> (auth_error + unit) \<times> limiter option" where
  "charge_limiter rnd inst key lm = (case lm of
      None \<Rightarrow> (Inr (), None)
    | Some l \<Rightarrow>
        (case check rnd inst key l of
           (Admitted, l') \<Rightarrow> (Inr (), Some l')
         | (Throttled n, l') \<Rightarrow> (Inl (RateLimited n), Some l')))"

definition admit :: "string \<Rightarrow> int option \<Rightarrow> auth_ctx \<Rightarrow> auth_error + auth_ctx" where
  "admit session epoch ctx = (case au_session_id ctx of
      None \<Rightarrow> Inr (ctx\<lparr>au_session := session\<rparr>)
    | Some _ \<Rightarrow>
        if session \<noteq> [] \<and> session \<noteq> au_session ctx
        then Inl (SessionMismatch (au_session ctx) session)
        else (case (au_session_epoch ctx, epoch) of
            (Some current, Some sent) \<Rightarrow>
              if sent < current then Inl (StaleEpoch current sent) else Inr ctx
          | _ \<Rightarrow> Inr ctx))"

definition require_bearer ::
    "ext \<Rightarrow> rounding \<Rightarrow> nat \<Rightarrow> time \<Rightarrow> headers \<Rightarrow> auth_state \<Rightarrow> (auth_error + auth_ctx) \<times> auth_state" where
  "require_bearer X rnd inst now h st =
     (case bearer_of X h of
        Inl e \<Rightarrow> (Inl e, st)
      | Inr raw \<Rightarrow>
     (case charge_limiter rnd inst (hex_of (hash_token X raw)) (as_limiter st) of
        (Inl e, lm) \<Rightarrow> (Inl e, st\<lparr>as_limiter := lm\<rparr>)
      | (Inr _, lm) \<Rightarrow>
     (case session_from_headers X h of
        Inl e \<Rightarrow> (Inl e, st\<lparr>as_limiter := lm\<rparr>)
      | Inr session \<Rightarrow>
     (case epoch_from_headers X h of
        Inl e \<Rightarrow> (Inl e, st\<lparr>as_limiter := lm\<rparr>)
      | Inr epoch \<Rightarrow>
     (case resolve_token X now raw (as_db st) of
        (Inl e, d) \<Rightarrow> (Inl e, st\<lparr>as_limiter := lm, as_db := d\<rparr>)
      | (Inr ctx, d) \<Rightarrow> (admit session epoch ctx, st\<lparr>as_limiter := lm, as_db := d\<rparr>))))))"

section \<open>Lemmas\<close>

lemma starts_with_append [simp]: "starts_with p (p @ s)"
  by (auto simp: starts_with_iff)

lemma prefixes_are_disjoint:
  "starts_with SESSION_TOKEN_PREFIX s \<Longrightarrow> \<not> starts_with TOKEN_PREFIX s"
  "starts_with ADMIN_TOKEN_PREFIX s \<Longrightarrow> \<not> starts_with TOKEN_PREFIX s"
  "starts_with ADMIN_TOKEN_PREFIX s \<Longrightarrow> \<not> starts_with SESSION_TOKEN_PREFIX s"
  by (auto simp: starts_with_iff SESSION_TOKEN_PREFIX_def TOKEN_PREFIX_def ADMIN_TOKEN_PREFIX_def)

text \<open>What the rows behind an authenticated request must look like.\<close>

definition live_token :: "ext \<Rightarrow> db \<Rightarrow> string \<Rightarrow> auth_ctx \<Rightarrow> bool" where
  "live_token X d raw ctx \<longleftrightarrow> (\<exists>t \<in> set (d_tokens d). tk_token_hash t = hash_token X raw \<and>
     tk_revoked_at t = None \<and> tk_agent_id t = au_agent_id ctx \<and> au_token_id ctx = Some (tk_id t))"

definition live_session :: "ext \<Rightarrow> time \<Rightarrow> db \<Rightarrow> string \<Rightarrow> auth_ctx \<Rightarrow> bool" where
  "live_session X now d raw ctx \<longleftrightarrow> (\<exists>s \<in> set (d_sessions d). \<exists>t \<in> set (d_tokens d).
     se_token_hash s = hash_token X raw \<and> se_revoked_at s = None \<and> now < se_expires_at s \<and>
     tk_id t = se_parent_token s \<and> tk_revoked_at t = None \<and>
     se_agent_id s = au_agent_id ctx \<and> au_session ctx = se_label s \<and>
     au_session_id ctx = Some (se_id s) \<and> au_session_epoch ctx = Some (se_epoch s))"

definition live_agent :: "db \<Rightarrow> auth_ctx \<Rightarrow> bool" where
  "live_agent d ctx \<longleftrightarrow> (\<exists>a \<in> set (d_agents d). ag_id a = au_agent_id ctx \<and>
     ag_team_id a = au_team_id ctx \<and> ag_disabled_at a = None)"

lemmas by_id_defs = agent_by_id_def team_by_id_def token_by_id_def session_by_id_def

lemma resolve_session_token_sound:
  assumes "resolve_session_token X now raw d = (Inr ctx, d')"
  shows "live_session X now d raw ctx \<and> live_agent d ctx \<and> au_token_id ctx = None"
  using assms unfolding resolve_session_token_def
  by (force simp: by_id_defs live_session_def live_agent_def
      split: option.splits if_splits dest!: find_SomeD)

lemma resolve_token_sound:
  assumes "resolve_token X now raw d = (Inr ctx, d')"
  shows "live_agent d ctx \<and>
    (case au_session_id ctx of
       None \<Rightarrow> live_token X d raw ctx \<and> au_session_epoch ctx = None
     | Some i \<Rightarrow> live_session X now d raw ctx \<and> au_token_id ctx = None)"
proof (cases "starts_with SESSION_TOKEN_PREFIX raw")
  case True
  with assms have r: "resolve_session_token X now raw d = (Inr ctx, d')"
    by (simp add: resolve_token_def)
  then obtain i where "au_session_id ctx = Some i"
    using resolve_session_token_sound [OF r] by (auto simp: live_session_def)
  with resolve_session_token_sound [OF r] show ?thesis by simp
next
  case False
  with assms show ?thesis
    by (force simp: resolve_token_def by_id_defs live_token_def live_agent_def
        split: option.splits if_splits dest!: find_SomeD)
qed

text \<open>Authentication writes bookkeeping columns and nothing else.\<close>

lemma resolve_session_token_frame:
  "snd (resolve_session_token X now raw d) = d\<lparr>d_sessions := d_sessions (snd (resolve_session_token X now raw d))\<rparr>
   \<and> map (se_last_used_at_update (\<lambda>_. None)) (d_sessions (snd (resolve_session_token X now raw d)))
     = map (se_last_used_at_update (\<lambda>_. None)) (d_sessions d)"
  by (auto simp: resolve_session_token_def map_upd_where_same split: option.splits)

lemma admit_sound:
  assumes "admit session epoch ctx = Inr ctx'"
  shows "(au_session_id ctx = None \<longrightarrow> ctx' = ctx\<lparr>au_session := session\<rparr>) \<and>
    (au_session_id ctx \<noteq> None \<longrightarrow> ctx' = ctx \<and> session \<in> {[], au_session ctx} \<and>
      (\<forall>c s. au_session_epoch ctx = Some c \<longrightarrow> epoch = Some s \<longrightarrow> c \<le> s))"
  using assms by (auto simp: admit_def split: option.splits if_splits)

section \<open>Properties\<close>

text \<open>A session label that comes out of the validator is short, trimmed, lower-case, printable
  ASCII without the characters reserved for templates and addresses, and validating it again gives
  it back unchanged; so \<^verbatim>\<open>Market-Data\<close> and \<^verbatim>\<open>market-data\<close> are one session.\<close>

theorem normalize_session_canonical:
  assumes "normalize_session raw = Inr l"
  shows "valid_label l \<and> normalize_session l = Inr l"
  using normalize_session_valid [OF assms] normalize_session_fixed by blast

theorem normalize_session_canonical_witness:
  "normalize_session '' Market-Data '' = Inr ''market-data'' \<and> valid_label ''market-data''"
proof -
  have "normalize_session '' Market-Data '' = Inr ''market-data''" by code_simp
  with normalize_session_canonical [OF this] show ?thesis by blast
qed

text \<open>The three credential classes are told apart by their prefix before any lookup: an
  administrative credential is refused with nothing read or written, and a session credential never
  authenticates as an agent token, whatever the database holds.\<close>

theorem credential_classes_never_mix:
  "resolve_token X now (generate_admin_token r) d = (Inl InvalidToken, d) \<and>
   (\<forall>ctx d'. resolve_token X now (generate_session_token r) d = (Inr ctx, d') \<longrightarrow>
      au_token_id ctx = None \<and> au_session_id ctx \<noteq> None)"
proof (intro conjI allI impI)
  show "resolve_token X now (generate_admin_token r) d = (Inl InvalidToken, d)"
    using prefixes_are_disjoint [of "ADMIN_TOKEN_PREFIX @ r"]
    by (simp add: resolve_token_def generate_admin_token_def)
next
  fix ctx d'
  assume "resolve_token X now (generate_session_token r) d = (Inr ctx, d')"
  then have r: "resolve_session_token X now (generate_session_token r) d = (Inr ctx, d')"
    by (simp add: resolve_token_def generate_session_token_def)
  from resolve_session_token_sound [OF this]
  show "au_token_id ctx = None" and "au_session_id ctx \<noteq> None"
    by (auto simp: live_session_def)
qed

theorem credential_classes_never_mix_witness:
  "fst (resolve_token demo_ext 7 (generate_session_token ''1'') demo_db) = Inr ana_api \<and>
   au_token_id ana_api = None \<and> au_session_id ana_api \<noteq> None"
proof -
  have r: "fst (resolve_token demo_ext 7 (generate_session_token ''1'') demo_db) = Inr ana_api"
    by code_simp
  then have "resolve_token demo_ext 7 (generate_session_token ''1'') demo_db
    = (Inr ana_api, snd (resolve_token demo_ext 7 (generate_session_token ''1'') demo_db))"
    by (metis prod.collapse)
  with r credential_classes_never_mix [of demo_ext 7 "''1''" demo_db] show ?thesis by blast
qed

text \<open>C32: what a request past the middleware proves. Its agent exists and is enabled; with an agent
  token, the token presented is stored and not revoked and the label is the header's; with a session
  credential, the window is registered, not revoked, not expired, hangs off a token that is not
  revoked, its label and epoch are the row's whatever the headers say, and an epoch header it sent
  is not older than the row's.\<close>

theorem require_bearer_sound:
  assumes "require_bearer X rnd inst now h st = (Inr ctx, st')"
  shows "\<exists>raw. bearer_of X h = Inr raw \<and> live_agent (as_db st) ctx \<and>
    (case au_session_id ctx of
       None \<Rightarrow> live_token X (as_db st) raw ctx \<and> session_from_headers X h = Inr (au_session ctx)
     | Some i \<Rightarrow> live_session X now (as_db st) raw ctx \<and>
         (\<forall>sent current. epoch_from_headers X h = Inr (Some sent) \<longrightarrow>
            au_session_epoch ctx = Some current \<longrightarrow> current \<le> sent))"
proof -
  obtain raw session epoch ctx0 d where
    raw: "bearer_of X h = Inr raw" and s: "session_from_headers X h = Inr session"
    and e: "epoch_from_headers X h = Inr epoch"
    and r: "resolve_token X now raw (as_db st) = (Inr ctx0, d)"
    and a: "admit session epoch ctx0 = Inr ctx"
    using assms by (auto simp: require_bearer_def split: sum.splits prod.splits)
  note rs = resolve_token_sound [OF r] and ad = admit_sound [OF a]
  show ?thesis
  proof (cases "au_session_id ctx0")
    case None
    with ad have "ctx = ctx0\<lparr>au_session := session\<rparr>" by simp
    with None raw s rs show ?thesis by (auto simp: live_token_def live_agent_def)
  next
    case (Some i)
    with raw s e rs ad show ?thesis by auto
  qed
qed

theorem require_bearer_sound_witness:
  "\<exists>raw. bearer_of demo_ext (\<lambda>k. if k = ''authorization'' then Some ''Bearer acss_1'' else None) = Inr raw \<and>
    live_session demo_ext 7 demo_db raw ana_api"
proof -
  let ?h = "\<lambda>k. if k = ''authorization'' then Some ''Bearer acss_1'' else None"
  let ?st = "\<lparr>as_limiter = None, as_db = demo_db\<rparr>"
  have "fst (require_bearer demo_ext exact 0 7 ?h ?st) = Inr ana_api" by code_simp
  then have "require_bearer demo_ext exact 0 7 ?h ?st
    = (Inr ana_api, snd (require_bearer demo_ext exact 0 7 ?h ?st))"
    by (metis prod.collapse)
  from require_bearer_sound [OF this] show ?thesis by (auto simp: ana_api_def)
qed

end
