(* ===== verification/Sessions.thy ===== *)
theory Sessions
  imports Auth
begin

text \<open>
  \<^verbatim>\<open>src/src/store/sessions.rs\<close>: registering, resuming, renewing and revoking windows, the guard
  every mutation runs inside its transaction, and the window check of inbox reads.

  Each operation takes the transaction's \<^verbatim>\<open>now()\<close>; the row locks (\<^verbatim>\<open>FOR NO KEY UPDATE\<close>,
  \<^verbatim>\<open>FOR SHARE\<close>) are what makes an operation one atomic step of a run.
\<close>

section \<open>Operations\<close>

record issued =
  is_id :: uuid
  is_token :: string
  is_label :: string
  is_epoch :: int
  is_expires_at :: time

definition ttl_of :: "int option \<Rightarrow> int" where
  "ttl_of requested = clamp 60 MAX_SESSION_TTL_SECS (unwrap_or SESSION_TTL_SECS requested)"

definition parent_revoked :: "db \<Rightarrow> session_row \<Rightarrow> bool" where
  "parent_revoked d s \<longleftrightarrow> exists_row (\<lambda>t. tk_id t = se_parent_token s \<and> tk_revoked_at t \<noteq> None) (d_tokens d)"

definition parent_live :: "db \<Rightarrow> uuid \<Rightarrow> uuid \<Rightarrow> bool" where
  "parent_live d parent agent \<longleftrightarrow>
     (case find (\<lambda>t. tk_id t = parent \<and> tk_agent_id t = agent) (d_tokens d) of
        None \<Rightarrow> False | Some t \<Rightarrow> tk_revoked_at t = None)"

text \<open>The locks on the agent row are \<^verbatim>\<open>fetch_one\<close>s: no such agent is a database error.\<close>

definition lock_agent :: "db \<Rightarrow> uuid \<Rightarrow> unit res" where
  "lock_agent d a = (if exists_row (\<lambda>r. ag_id r = a) (d_agents d) then Inr () else Inl (Db ''no rows''))"

text \<open>
  The upsert of a registration: a fresh row, or the dead row of that label taken over with its
  epoch bumped, or nothing when the row there is live.
\<close>

definition upsert_session ::
    "time \<Rightarrow> uuid \<Rightarrow> string \<Rightarrow> string \<Rightarrow> uuid \<Rightarrow> uuid \<Rightarrow> string \<Rightarrow> time \<Rightarrow> db
     \<Rightarrow> bus_error + ((uuid \<times> int \<times> time) option \<times> db)" where
  "upsert_session now new_id hash prefix agent parent label expires d =
     (case find (\<lambda>s. se_agent_id s = agent \<and> se_label s = label) (d_sessions d) of
        None \<Rightarrow>
          if exists_row (\<lambda>s. se_id s = new_id \<or> se_token_hash s = hash) (d_sessions d)
          then Inl (Db ''duplicate key'')
          else Inr (Some (new_id, 1, expires),
            d\<lparr>d_sessions := d_sessions d @
              [\<lparr>se_id = new_id, se_agent_id = agent, se_parent_token = parent, se_label = label,
                se_token_hash = hash, se_prefix = prefix, se_epoch = 1, se_created_at = now,
                se_last_used_at = None, se_expires_at = expires, se_revoked_at = None\<rparr>]\<rparr>)
      | Some s \<Rightarrow>
          if se_revoked_at s \<noteq> None \<or> se_expires_at s \<le> now \<or> parent_revoked d s
          then if exists_row (\<lambda>r. se_token_hash r = hash \<and> \<not> (se_agent_id r = agent \<and> se_label r = label))
                    (d_sessions d)
          then Inl (Db ''duplicate key'')
          else Inr (Some (se_id s, se_epoch s + 1, expires),
            d\<lparr>d_sessions := upd_where (\<lambda>r. se_agent_id r = agent \<and> se_label r = label)
                (\<lambda>r. r\<lparr>se_parent_token := parent, se_token_hash := hash, se_prefix := prefix,
                       se_epoch := se_epoch r + 1, se_expires_at := expires,
                       se_revoked_at := None, se_last_used_at := None\<rparr>) (d_sessions d)\<rparr>)
          else Inr (None, d))"

definition register ::
    "ext \<Rightarrow> time \<Rightarrow> uuid \<Rightarrow> string \<Rightarrow> auth_ctx \<Rightarrow> uuid \<Rightarrow> string \<Rightarrow> int option \<Rightarrow> db \<Rightarrow> issued res \<times> db" where
  "register X now new_id rand auth parent_token label ttl_seconds d =
     (if session_is_authenticated auth then (Inl (Forbidden ''a session credential cannot register''), d)
      else case normalize_session label of
        Inl why \<Rightarrow> (Inl (Invalid ''the session label is not valid''), d)
      | Inr label \<Rightarrow>
        if label = [] then (Inl (Invalid ''a session label is required''), d)
        else
          let ttl = ttl_of ttl_seconds; raw = generate_session_token rand;
              (row, d') = transact (\<lambda>d.
                bindE (lock_agent d (au_agent_id auth)) (\<lambda>_.
                if \<not> parent_live d parent_token (au_agent_id auth)
                then Inl (Unauthenticated ''the token was revoked'')
                else upsert_session now new_id (hash_token X raw) (token_prefix raw)
                       (au_agent_id auth) parent_token label (now + secs ttl) d)) d in
          (bindE row (\<lambda>r. case r of
               None \<Rightarrow> Inl (Conflict ''already registered and still live'')
             | Some (i, epoch, expires) \<Rightarrow>
                 Inr \<lparr>is_id = i, is_token = raw, is_label = label, is_epoch = epoch,
                      is_expires_at = expires\<rparr>), d'))"

definition guard :: "time \<Rightarrow> auth_ctx \<Rightarrow> db \<Rightarrow> unit res" where
  "guard now auth d = (case (au_session_id auth, au_session_epoch auth) of
      (Some session_id, Some epoch) \<Rightarrow>
        (case session_by_id d session_id of
           None \<Rightarrow> Inl (Unauthenticated ''this session no longer exists'')
         | Some s \<Rightarrow>
             if se_revoked_at s \<noteq> None \<or> se_expires_at s \<le> now
             then Inl (Unauthenticated ''this session credential is no longer valid'')
             else if se_epoch s \<noteq> epoch then Inl (Conflict ''this connection is stale'')
             else Inr ())
    | _ \<Rightarrow> Inr ())"

text \<open>
  How a mutation begins: \<^verbatim>\<open>pool.begin()\<close>, then the guard on that connection, then the statements,
  then the commit.
\<close>

definition guarded :: "time \<Rightarrow> auth_ctx \<Rightarrow> 'a tx \<Rightarrow> db \<Rightarrow> 'a res \<times> db" where
  "guarded now auth body = transact (\<lambda>d. bindE (guard now auth d) (\<lambda>_. body d))"

text \<open>The fenced update of a resume; \<open>None\<close> when no row matches.\<close>

definition rotate_session ::
    "time \<Rightarrow> uuid \<Rightarrow> int \<Rightarrow> string \<Rightarrow> string \<Rightarrow> time \<Rightarrow> db \<Rightarrow> bus_error + ((int \<times> time \<times> string) \<times> db)" where
  "rotate_session now session_id epoch hash prefix expires d =
     (let P = (\<lambda>s. se_id s = session_id \<and> se_revoked_at s = None \<and> se_epoch s = epoch \<and> \<not> parent_revoked d s) in
      case find P (d_sessions d) of
        None \<Rightarrow> Inl (Unauthenticated ''this session credential is no longer the window's'')
      | Some s \<Rightarrow>
          if exists_row (\<lambda>r. se_token_hash r = hash \<and> \<not> P r) (d_sessions d) then Inl (Db ''duplicate key'')
          else Inr ((se_epoch s + 1, expires, se_label s),
            d\<lparr>d_sessions := upd_where P
                (\<lambda>r. r\<lparr>se_token_hash := hash, se_prefix := prefix, se_epoch := se_epoch r + 1,
                       se_expires_at := expires, se_last_used_at := None\<rparr>) (d_sessions d)\<rparr>))"

definition resume :: "ext \<Rightarrow> time \<Rightarrow> string \<Rightarrow> auth_ctx \<Rightarrow> int option \<Rightarrow> db \<Rightarrow> issued res \<times> db" where
  "resume X now rand auth ttl_seconds d = (case au_session_id auth of
      None \<Rightarrow> (Inl (Forbidden ''resume_session needs the session credential''), d)
    | Some session_id \<Rightarrow>
        let ttl = ttl_of ttl_seconds; raw = generate_session_token rand;
            (row, d') = transact (\<lambda>d.
              bindE (lock_agent d (au_agent_id auth)) (\<lambda>_.
                rotate_session now session_id (unwrap_or 0 (au_session_epoch auth)) (hash_token X raw)
                  (token_prefix raw) (now + secs ttl) d)) d in
        (bindE row (\<lambda>(epoch, expires, label).
           Inr \<lparr>is_id = session_id, is_token = raw, is_label = label, is_epoch = epoch,
                is_expires_at = expires\<rparr>), d'))"

definition renew :: "time \<Rightarrow> auth_ctx \<Rightarrow> int option \<Rightarrow> db \<Rightarrow> issued res \<times> db" where
  "renew now auth ttl_seconds d = (case au_session_id auth of
      None \<Rightarrow> (Inl (Forbidden ''renew_session needs a session credential''), d)
    | Some session_id \<Rightarrow>
        let expires = now + secs (ttl_of ttl_seconds);
            P = (\<lambda>s. se_id s = session_id \<and> se_revoked_at s = None \<and>
                     se_epoch s = unwrap_or 0 (au_session_epoch auth)) in
        case find P (d_sessions d) of
          None \<Rightarrow> (Inl (NotFound ''this session has been revoked''), d)
        | Some s \<Rightarrow>
            (Inr \<lparr>is_id = session_id, is_token = [], is_label = se_label s, is_epoch = se_epoch s,
                  is_expires_at = expires\<rparr>,
             d\<lparr>d_sessions := upd_where P (\<lambda>r. r\<lparr>se_expires_at := expires\<rparr>) (d_sessions d)\<rparr>))"

definition revoke_target :: "auth_ctx \<Rightarrow> string option \<Rightarrow> string res" where
  "revoke_target auth label = (case opt_filter (\<lambda>l. l \<noteq> []) (map_option trim label) of
      Some l \<Rightarrow> (case normalize_session l of
          Inl why \<Rightarrow> Inl (Invalid ''the session label is not valid'') | Inr t \<Rightarrow> Inr t)
    | None \<Rightarrow>
        if \<not> session_is_authenticated auth then Inl (Invalid ''say which session to revoke'')
        else Inr (au_session auth))"

definition revoke :: "time \<Rightarrow> auth_ctx \<Rightarrow> string option \<Rightarrow> db \<Rightarrow> string res \<times> db" where
  "revoke now auth label d = (case revoke_target auth label of
      Inl e \<Rightarrow> (Inl e, d)
    | Inr target \<Rightarrow>
        transact (\<lambda>d.
          bindE (lock_agent d (au_agent_id auth)) (\<lambda>_.
          bindE (guard now auth d) (\<lambda>_.
            let mine = (\<lambda>s. se_agent_id s = au_agent_id auth \<and> se_label s = target) in
            if exists_row (\<lambda>s. mine s \<and> se_revoked_at s = None) (d_sessions d)
            then Inr (target, d\<lparr>d_sessions := upd_where (\<lambda>s. mine s \<and> se_revoked_at s = None)
                       (\<lambda>s. s\<lparr>se_revoked_at := Some now\<rparr>) (d_sessions d)\<rparr>)
            else if \<not> exists_row mine (d_sessions d) then Inl (NotFound ''no session of yours of that name'')
            else Inr (target, d)))) d)"

definition require_window :: "auth_ctx \<Rightarrow> db \<Rightarrow> unit res" where
  "require_window auth d =
     (if au_session auth = [] \<or> au_session_id auth \<noteq> None then Inr ()
      else if count_rows (\<lambda>s. se_agent_id s = au_agent_id auth \<and> se_label s = au_session auth) (d_sessions d) = 0
      then Inr ()
      else Inl (Forbidden ''a registered window, and this call carries an agent token''))"

record session_identity =
  si_session_id :: uuid
  si_epoch :: int
  si_registered_at :: time
  si_expires_at :: time
  si_expires_in_seconds :: int

text \<open>\<^verbatim>\<open>num_seconds()\<close> truncates towards zero; \<^verbatim>\<open>max(0)\<close> drops the negative case.\<close>

definition seconds_left :: "time \<Rightarrow> time \<Rightarrow> int" where
  "seconds_left until now = (if until \<le> now then 0 else (until - now) div 1000000)"

definition identity :: "time \<Rightarrow> auth_ctx \<Rightarrow> db \<Rightarrow> session_identity option" where
  "identity now auth d = Option.bind (au_session_id auth) (\<lambda>i.
     map_option (\<lambda>s. \<lparr>si_session_id = i, si_epoch = se_epoch s, si_registered_at = se_created_at s,
         si_expires_at = se_expires_at s, si_expires_in_seconds = seconds_left (se_expires_at s) now\<rparr>)
       (session_by_id d i))"

record session_credential =
  sc_session_token :: "string option"
  sc_session_id :: uuid
  sc_session :: string
  sc_address :: string
  sc_epoch :: int
  sc_expires_at :: time
  sc_expires_in_seconds :: int

definition credential_of :: "time \<Rightarrow> issued \<Rightarrow> string \<Rightarrow> session_credential" where
  "credential_of now i agent =
     \<lparr>sc_session_token = (if is_token i \<noteq> [] then Some (is_token i) else None),
      sc_session_id = is_id i, sc_session = is_label i, sc_address = agent @ ''/'' @ is_label i,
      sc_epoch = is_epoch i, sc_expires_at = is_expires_at i,
      sc_expires_in_seconds = seconds_left (is_expires_at i) now\<rparr>"

section \<open>Well-formed session tables\<close>

definition sessions_wf :: "db \<Rightarrow> bool" where
  "sessions_wf d \<longleftrightarrow> distinct (map se_id (d_sessions d)) \<and>
     distinct (map (\<lambda>s. (se_agent_id s, se_label s)) (d_sessions d)) \<and>
     distinct (map se_token_hash (d_sessions d)) \<and>
     (\<forall>s \<in> set (d_sessions d). 0 < se_epoch s \<and> valid_label (se_label s) \<and> se_label s \<noteq> [])"


lemma guarded_passed: "guard now auth d = Inr () \<Longrightarrow> guarded now auth body d = transact body d"
  by (simp add: guarded_def transact_def)

lemma guarded_refused: "guard now auth d = Inl e \<Longrightarrow> guarded now auth body d = (Inl e, d)"
  by (simp add: guarded_def transact_def)

lemma guard_cases:
  obtains (refused) e where "guard now auth d = Inl e" | (passed) "guard now auth d = Inr ()"
  by (cases "guard now auth d") auto

lemma guarded_state:
  "snd (guarded now auth body d) = (if guard now auth d = Inr () then snd (transact body d) else d)"
  by (cases rule: guard_cases [of now auth d]) (simp_all add: guarded_passed guarded_refused)

lemma guarded_Inr:
  assumes "guarded now auth body d = (Inr x, d')"
  shows "guard now auth d = Inr () \<and> body d = Inr (x, d')"
  using assms
  by (cases rule: guard_cases [of now auth d])
     (auto simp: guarded_passed guarded_refused transact_def split: sum.splits)

section \<open>The abstract window table\<close>

text \<open>
  What the table may do in one step: open a window nobody has, supersede one (new secret, next
  epoch), or touch columns that are not its identity. Every operation refines this relation, so its
  invariants are proved once.
\<close>

inductive window_step :: "session_row list \<Rightarrow> session_row list \<Rightarrow> bool" where
  unchanged: "window_step ss ss"
| opened: "\<forall>s \<in> set ss. se_id s \<noteq> se_id r \<and> se_token_hash s \<noteq> se_token_hash r \<and>
      (se_agent_id s, se_label s) \<noteq> (se_agent_id r, se_label r) \<Longrightarrow>
    se_epoch r = 1 \<Longrightarrow> valid_label (se_label r) \<Longrightarrow> se_label r \<noteq> [] \<Longrightarrow>
    window_step ss (ss @ [r])"
| superseded: "\<forall>r. se_id (f r) = se_id r \<and> se_agent_id (f r) = se_agent_id r \<and>
      se_label (f r) = se_label r \<and> se_epoch (f r) = se_epoch r + 1 \<and> se_token_hash (f r) = h \<Longrightarrow>
    \<forall>r \<in> set ss. \<not> P r \<longrightarrow> se_token_hash r \<noteq> h \<Longrightarrow>
    (\<exists>i. \<forall>r. P r \<longrightarrow> se_id r = i) \<or> (\<exists>a l. \<forall>r. P r \<longrightarrow> se_agent_id r = a \<and> se_label r = l) \<Longrightarrow>
    window_step ss (upd_where P f ss)"
| touched: "\<forall>r. se_id (f r) = se_id r \<and> se_agent_id (f r) = se_agent_id r \<and>
      se_label (f r) = se_label r \<and> se_epoch (f r) = se_epoch r \<and>
      se_token_hash (f r) = se_token_hash r \<Longrightarrow>
    window_step ss (upd_where P f ss)"

definition table_wf :: "session_row list \<Rightarrow> bool" where
  "table_wf ss \<longleftrightarrow> distinct (map se_id ss) \<and> distinct (map (\<lambda>s. (se_agent_id s, se_label s)) ss) \<and>
     distinct (map se_token_hash ss) \<and>
     (\<forall>s \<in> set ss. 0 < se_epoch s \<and> valid_label (se_label s) \<and> se_label s \<noteq> [])"

lemma sessions_wf_table: "sessions_wf d \<longleftrightarrow> table_wf (d_sessions d)"
  by (simp add: sessions_wf_def table_wf_def)

lemma distinct_upd_where_fresh:
  assumes "distinct (map k rows)" and "\<forall>r \<in> set rows. \<not> P r \<longrightarrow> k r \<noteq> h"
    and "\<forall>r. k (f r) = h" and "\<forall>a \<in> set rows. \<forall>b \<in> set rows. P a \<longrightarrow> P b \<longrightarrow> a = b"
  shows "distinct (map k (upd_where P f rows))"
  using assms
proof (induction rows)
  case Nil
  then show ?case by simp
next
  case (Cons x xs)
  have dk: "distinct (map k xs)" "k x \<notin> k ` set xs" using Cons.prems(1) by auto
  show ?case
  proof (cases "P x")
    case True
    have "\<forall>r \<in> set xs. \<not> P r"
      using Cons.prems(4) True dk(2) by (metis image_eqI list.set_intros)
    with True Cons.prems(2,3) dk show ?thesis by (force simp: upd_where_none)
  next
    case False
    with Cons dk show ?thesis by (force simp: tbl)
  qed
qed

lemma superseded_one_row:
  assumes "table_wf ss"
    and "(\<exists>i. \<forall>r. P r \<longrightarrow> se_id r = i) \<or> (\<exists>a l. \<forall>r. P r \<longrightarrow> se_agent_id r = a \<and> se_label r = l)"
  shows "\<forall>a \<in> set ss. \<forall>b \<in> set ss. P a \<longrightarrow> P b \<longrightarrow> a = b"
  using assms(2)
proof
  assume "\<exists>i. \<forall>r. P r \<longrightarrow> se_id r = i"
  with assms(1) show ?thesis by (metis distinct_map_inj table_wf_def)
next
  assume "\<exists>a l. \<forall>r. P r \<longrightarrow> se_agent_id r = a \<and> se_label r = l"
  with assms(1) show ?thesis
    using distinct_map_inj [of "\<lambda>s. (se_agent_id s, se_label s)" ss] by (auto simp: table_wf_def)
qed

lemma window_step_wf: "window_step ss ss' \<Longrightarrow> table_wf ss \<Longrightarrow> table_wf ss'"
proof (induction rule: window_step.induct)
  case (superseded f h ss P)
  have "distinct (map se_token_hash (upd_where P f ss))"
    using superseded superseded_one_row [of ss P]
    by (intro distinct_upd_where_fresh [where h = h]) (auto simp: table_wf_def)
  with superseded show ?case
    by (auto simp: table_wf_def tbl map_upd_where_same)
qed (auto simp: table_wf_def tbl map_upd_where_same)

text \<open>Epochs only grow, and a window once registered is never forgotten.\<close>

definition epoch_in :: "session_row list \<Rightarrow> uuid \<Rightarrow> int option" where
  "epoch_in ss i = map_option se_epoch (find (\<lambda>s. se_id s = i) ss)"

lemma epoch_in_upd_where:
  assumes "\<And>r. se_id (f r) = se_id r" and "\<And>r. se_epoch r \<le> se_epoch (f r)"
    and "epoch_in ss i = Some e"
  shows "\<exists>e'. epoch_in (upd_where P f ss) i = Some e' \<and> e \<le> e'"
proof -
  obtain z where "find (\<lambda>s. se_id s = i) ss = Some z" "e = se_epoch z"
    using assms(3) by (auto simp: epoch_in_def)
  with assms(1,2) show ?thesis
    using find_upd_where_Some [of "\<lambda>s. se_id s = i" ss z P f] by (auto simp: epoch_in_def)
qed

lemma window_step_epoch:
  "window_step ss ss' \<Longrightarrow> epoch_in ss i = Some e \<Longrightarrow> \<exists>e'. epoch_in ss' i = Some e' \<and> e \<le> e'"
proof (induction rule: window_step.induct)
  case (opened ss r)
  then show ?case by (auto simp: epoch_in_def find_append)
qed (auto intro: epoch_in_upd_where)

definition labels_in :: "session_row list \<Rightarrow> (uuid \<times> string) set" where
  "labels_in ss = (\<lambda>s. (se_agent_id s, se_label s)) ` set ss"

lemma window_step_labels: "window_step ss ss' \<Longrightarrow> labels_in ss \<subseteq> labels_in ss'"
proof (induction rule: window_step.induct)
  case (superseded f h ss P)
  then show ?case by (simp add: labels_in_def image_upd_where_same)
next
  case (touched f ss P)
  then show ?case by (simp add: labels_in_def image_upd_where_same)
qed (auto simp: labels_in_def)


section \<open>The operations refine the window table\<close>

text \<open>\<open>only_sessions d d'\<close>: the two databases differ in the session table at most.\<close>

definition only_sessions :: "db \<Rightarrow> db \<Rightarrow> bool" where
  "only_sessions d d' \<longleftrightarrow> d' = d\<lparr>d_sessions := d_sessions d'\<rparr>"

definition session_refines :: "db \<Rightarrow> db \<Rightarrow> bool" where
  "session_refines d d' \<longleftrightarrow> only_sessions d d' \<and> window_step (d_sessions d) (d_sessions d')"

lemma session_refines_refl [simp]: "session_refines d d"
  by (simp add: session_refines_def only_sessions_def window_step.unchanged)

lemma session_refines_update:
  "window_step (d_sessions d) ss \<Longrightarrow> session_refines d (d\<lparr>d_sessions := ss\<rparr>)"
  by (simp add: session_refines_def only_sessions_def)

lemma transact_refines:
  "(\<And>x d'. body d = Inr (x, d') \<Longrightarrow> session_refines d d') \<Longrightarrow> session_refines d (snd (transact body d))"
  by (cases rule: transact_cases [of body d]) auto

lemma upsert_session_refines:
  assumes "upsert_session now i h p a par l expires d = Inr (x, d')"
    and "valid_label l" and "l \<noteq> []"
  shows "session_refines d d'"
proof (cases "find (\<lambda>s. se_agent_id s = a \<and> se_label s = l) (d_sessions d)")
  case None
  with assms show ?thesis
    by (auto simp: upsert_session_def exists_row_def find_None_set split: if_splits
        intro!: session_refines_update window_step.opened)
next
  case (Some s)
  with assms(1) show ?thesis
    by (auto simp: upsert_session_def exists_row_def split: if_splits
        intro!: session_refines_update window_step.superseded [where h = h])
qed

lemma rotate_session_refines:
  assumes "rotate_session now i e h p expires d = Inr (x, d')"
  shows "session_refines d d'"
proof -
  have "window_step (d_sessions d) (d_sessions d') \<and> only_sessions d d'"
    using assms
    by (auto simp: rotate_session_def Let_def exists_row_def only_sessions_def split: option.splits if_splits
        intro!: window_step.superseded [where h = h])
  then show ?thesis by (simp add: session_refines_def)
qed

lemma register_refines: "session_refines d (snd (register X now i r auth par l ttl d))"
proof (cases "normalize_session l")
  case (Inl w)
  then show ?thesis by (simp add: register_def)
next
  case (Inr l')
  note v = normalize_session_valid [OF Inr]
  show ?thesis
  proof (cases "l' = []")
    case True
    with Inr show ?thesis by (simp add: register_def)
  next
    case False
    with Inr v show ?thesis
      by (auto simp: register_def Let_def split_beta bindE_eq_Inr split: if_splits
          intro!: transact_refines upsert_session_refines)
  qed
qed

lemma resume_refines: "session_refines d (snd (resume X now r auth ttl d))"
  by (auto simp: resume_def Let_def split_beta bindE_eq_Inr split: option.split
      intro!: transact_refines dest: rotate_session_refines)

lemma renew_refines: "session_refines d (snd (renew now auth ttl d))"
  by (auto simp: renew_def Let_def split: option.split
      intro!: session_refines_update window_step.touched)

lemma revoke_refines: "session_refines d (snd (revoke now auth l d))"
  by (auto simp: revoke_def Let_def bindE_eq_Inr split: sum.split if_splits
      intro!: transact_refines session_refines_update window_step.touched)

lemma resolve_session_token_refines: "session_refines d (snd (resolve_session_token X now raw d))"
  by (auto simp: resolve_session_token_def split: option.split
      intro!: session_refines_update window_step.touched)

section \<open>Runs of session operations\<close>

datatype session_req =
    RegisterReq ext time uuid string auth_ctx uuid string "int option"
  | ResumeReq ext time string auth_ctx "int option"
  | RenewReq time auth_ctx "int option"
  | RevokeReq time auth_ctx "string option"

fun session_exec :: "session_req \<Rightarrow> db \<Rightarrow> db" where
  "session_exec (RegisterReq X now i r auth par l ttl) d = snd (register X now i r auth par l ttl d)"
| "session_exec (ResumeReq X now r auth ttl) d = snd (resume X now r auth ttl d)"
| "session_exec (RenewReq now auth ttl) d = snd (renew now auth ttl d)"
| "session_exec (RevokeReq now auth l) d = snd (revoke now auth l d)"

lemmas session_op_refines = register_refines resume_refines renew_refines revoke_refines

lemma session_exec_refines: "session_refines d (session_exec q d)"
  by (cases q) (simp_all add: session_op_refines)

interpretation windows: kept_invariant session_exec sessions_wf
proof
  fix d :: db and q :: session_req
  assume "sessions_wf d"
  with session_exec_refines [of d q] show "sessions_wf (session_exec q d)"
    by (auto simp: session_refines_def sessions_wf_table intro: window_step_wf)
qed

text \<open>A connection is superseded when its window has moved past the epoch it carries.\<close>

definition superseded_ctx :: "db \<Rightarrow> auth_ctx \<Rightarrow> bool" where
  "superseded_ctx d auth = (case (au_session_id auth, au_session_epoch auth) of
      (Some i, Some e) \<Rightarrow> (case epoch_in (d_sessions d) i of None \<Rightarrow> False | Some c \<Rightarrow> e < c)
    | _ \<Rightarrow> False)"

lemma superseded_ctx_refines:
  assumes "session_refines d d'" and "superseded_ctx d auth"
  shows "superseded_ctx d' auth"
proof -
  obtain i e c where k: "au_session_id auth = Some i" "au_session_epoch auth = Some e"
    "epoch_in (d_sessions d) i = Some c" "e < c"
    using assms(2) by (auto simp: superseded_ctx_def split: option.splits)
  then obtain c' where "epoch_in (d_sessions d') i = Some c'" "c \<le> c'"
    using assms(1) window_step_epoch by (metis session_refines_def)
  with k show ?thesis by (simp add: superseded_ctx_def)
qed

lemma superseded_ctx_refused: "superseded_ctx d auth \<Longrightarrow> guard now auth d \<noteq> Inr ()"
  by (auto simp: superseded_ctx_def guard_def epoch_in_def session_by_id_def split: option.splits)

interpretation outdated: kept_invariant session_exec "\<lambda>d. superseded_ctx d auth"
  by unfold_locales (rule superseded_ctx_refines [OF session_exec_refines])

interpretation labels: kept_invariant session_exec "\<lambda>d. (a, l) \<in> labels_in (d_sessions d)"
proof
  fix d :: db and q :: session_req
  assume "(a, l) \<in> labels_in (d_sessions d)"
  with session_exec_refines [of d q] window_step_labels
  show "(a, l) \<in> labels_in (d_sessions (session_exec q d))"
    by (auto simp: session_refines_def)
qed


section \<open>What an issued credential is worth\<close>

definition issued_now :: "time \<Rightarrow> issued \<Rightarrow> db \<Rightarrow> db \<Rightarrow> bool" where
  "issued_now now iss d d' \<longleftrightarrow>
     (\<exists>s. session_by_id d' (is_id iss) = Some s \<and> se_epoch s = is_epoch iss \<and> se_label s = is_label iss \<and>
        se_revoked_at s = None \<and> se_expires_at s = is_expires_at iss) \<and>
     (\<forall>e. epoch_in (d_sessions d) (is_id iss) = Some e \<longrightarrow> e < is_epoch iss) \<and>
     now + secs 60 \<le> is_expires_at iss \<and> is_expires_at iss \<le> now + secs MAX_SESSION_TTL_SECS"

lemma ttl_of_bounds: "60 \<le> ttl_of t \<and> ttl_of t \<le> MAX_SESSION_TTL_SECS"
  using clamp_bounds [of 60 MAX_SESSION_TTL_SECS] by (simp add: ttl_of_def MAX_SESSION_TTL_SECS_def)

lemma ttl_expiry_bounds: "now + secs 60 \<le> now + secs (ttl_of t) \<and> now + secs (ttl_of t) \<le> now + secs MAX_SESSION_TTL_SECS"
  using ttl_of_bounds [of t] by (simp add: secs_mono)

lemma find_by_id: "sessions_wf d \<Longrightarrow> s \<in> set (d_sessions d) \<Longrightarrow> find (\<lambda>r. se_id r = se_id s) (d_sessions d) = Some s"
  by (intro find_unique) (simp_all add: sessions_wf_def)

lemma bump_by_id:
  assumes "sessions_wf d" and "s \<in> set (d_sessions d)" and "P s" and "\<And>r. se_id (f r) = se_id r"
  shows "find (\<lambda>r. se_id r = se_id s) (upd_where P f (d_sessions d)) = Some (f s)"
  using find_upd_where_Some [OF find_by_id [OF assms(1,2)], of P f] assms(3,4) by simp

lemma upsert_session_issues:
  assumes wf: "sessions_wf d"
    and r: "upsert_session now i h p a par l expires d = Inr (Some (j, e, x), d')"
  shows "x = expires \<and> (\<exists>s. session_by_id d' j = Some s \<and> se_epoch s = e \<and> se_label s = l \<and>
      se_revoked_at s = None \<and> se_expires_at s = expires) \<and>
    (\<forall>e'. epoch_in (d_sessions d) j = Some e' \<longrightarrow> e' < e)"
proof (cases "find (\<lambda>s. se_agent_id s = a \<and> se_label s = l) (d_sessions d)")
  case None
  with r have "find (\<lambda>s. se_id s = i) (d_sessions d) = None" "j = i" "e = 1" "x = expires"
    by (auto simp: upsert_session_def exists_row_def find_None_set split: if_splits)
  with None r show ?thesis
    by (auto simp: upsert_session_def session_by_id_def find_append epoch_in_def split: if_splits)
next
  case (Some s)
  let ?P = "\<lambda>r. se_agent_id r = a \<and> se_label r = l"
  note sin = find_SomeD [OF Some]
  from Some r have j: "j = se_id s" "e = se_epoch s + 1" "x = expires"
    by (auto simp: upsert_session_def split: if_splits)
  from sin j have "epoch_in (d_sessions d) j = Some (se_epoch s)"
    by (simp add: epoch_in_def find_by_id [OF wf])
  with Some r j sin show ?thesis
    using bump_by_id [OF wf, of s ?P]
    by (auto simp: upsert_session_def session_by_id_def split: if_splits)
qed

lemma rotate_session_issues:
  assumes wf: "sessions_wf d" and r: "rotate_session now j e h p expires d = Inr ((e', x, l), d')"
  shows "x = expires \<and> (\<exists>s. session_by_id d' j = Some s \<and> se_epoch s = e' \<and> se_label s = l \<and>
      se_revoked_at s = None \<and> se_expires_at s = expires) \<and>
    (\<forall>c. epoch_in (d_sessions d) j = Some c \<longrightarrow> c < e')"
proof -
  let ?P = "\<lambda>s. se_id s = j \<and> se_revoked_at s = None \<and> se_epoch s = e \<and> \<not> parent_revoked d s"
  obtain s where s: "find ?P (d_sessions d) = Some s"
    using r by (auto simp: rotate_session_def Let_def split: option.splits)
  note sin = find_SomeD [OF s]
  from sin have "epoch_in (d_sessions d) j = Some (se_epoch s)"
    using find_by_id [OF wf, of s] by (auto simp: epoch_in_def)
  with s r sin show ?thesis
    using bump_by_id [OF wf, of s ?P]
    by (auto simp: rotate_session_def Let_def session_by_id_def split: if_splits)
qed

lemma transact_bind_Inr:
  assumes "transact body d = (r, d')" and "bindE r f = Inr y"
  shows "\<exists>x. body d = Inr (x, d') \<and> f x = Inr y"
  using assms by (cases rule: transact_cases [of body d]) auto

lemma register_issues:
  assumes "sessions_wf d" and "register X now i r auth par l ttl d = (Inr iss, d')"
  shows "issued_now now iss d d' \<and> is_token iss = generate_session_token r"
proof -
  obtain l' t where n: "normalize_session l = Inr l'"
    and t: "transact (\<lambda>d. bindE (lock_agent d (au_agent_id auth)) (\<lambda>_.
        if \<not> parent_live d par (au_agent_id auth) then Inl (Unauthenticated ''the token was revoked'')
        else upsert_session now i (hash_token X (generate_session_token r))
               (token_prefix (generate_session_token r)) (au_agent_id auth) par l'
               (now + secs (ttl_of ttl)) d)) d = (t, d')"
    and b: "bindE t (\<lambda>r'. case r' of
               None \<Rightarrow> Inl (Conflict ''already registered and still live'')
             | Some (i, epoch, expires) \<Rightarrow>
                 Inr \<lparr>is_id = i, is_token = generate_session_token r, is_label = l', is_epoch = epoch,
                      is_expires_at = expires\<rparr>) = Inr iss"
    using assms(2) by (auto simp: register_def Let_def split: if_splits sum.splits prod.splits)
  from transact_bind_Inr [OF t b] obtain j e x where
    u: "upsert_session now i (hash_token X (generate_session_token r))
          (token_prefix (generate_session_token r)) (au_agent_id auth) par l'
          (now + secs (ttl_of ttl)) d = Inr (Some (j, e, x), d')"
    and iss: "iss = \<lparr>is_id = j, is_token = generate_session_token r, is_label = l', is_epoch = e,
                     is_expires_at = x\<rparr>"
    by (auto simp: bindE_eq_Inr split: if_splits option.splits)
  from upsert_session_issues [OF assms(1) u] ttl_expiry_bounds [of now ttl] show ?thesis
    by (simp add: iss issued_now_def)
qed

lemma resume_issues:
  assumes "sessions_wf d" and "resume X now r auth ttl d = (Inr iss, d')"
  shows "issued_now now iss d d' \<and> is_token iss = generate_session_token r \<and>
    au_session_id auth = Some (is_id iss)"
proof -
  obtain j where j: "au_session_id auth = Some j"
    using assms(2) by (auto simp: resume_def split: option.splits)
  obtain t where
    t: "transact (\<lambda>d. bindE (lock_agent d (au_agent_id auth)) (\<lambda>_.
          rotate_session now j (unwrap_or 0 (au_session_epoch auth))
            (hash_token X (generate_session_token r)) (token_prefix (generate_session_token r))
            (now + secs (ttl_of ttl)) d)) d = (t, d')"
    and b: "bindE t (\<lambda>(epoch, expires, label).
        Inr \<lparr>is_id = j, is_token = generate_session_token r, is_label = label, is_epoch = epoch,
             is_expires_at = expires\<rparr>) = Inr iss"
    using assms(2) j by (auto simp: resume_def Let_def split: prod.splits)
  from transact_bind_Inr [OF t b] obtain e x l where
    u: "rotate_session now j (unwrap_or 0 (au_session_epoch auth))
          (hash_token X (generate_session_token r)) (token_prefix (generate_session_token r))
          (now + secs (ttl_of ttl)) d = Inr ((e, x, l), d')"
    and iss: "iss = \<lparr>is_id = j, is_token = generate_session_token r, is_label = l, is_epoch = e,
                     is_expires_at = x\<rparr>"
    by (auto simp: bindE_eq_Inr)
  from rotate_session_issues [OF assms(1) u] ttl_expiry_bounds [of now ttl] j show ?thesis
    by (simp add: iss issued_now_def)
qed


section \<open>Properties\<close>

lemma issued_supersedes:
  assumes "issued_now now iss d d'" and "au_session_id old = Some (is_id iss)"
    and "au_session_epoch old = Some e" and "e < is_epoch iss"
  shows "superseded_ctx d' old"
  using assms by (auto simp: issued_now_def superseded_ctx_def epoch_in_def session_by_id_def)

lemma issued_passes_guard:
  assumes "issued_now now iss d d'" and "au_session_id ctx = Some (is_id iss)"
    and "au_session_epoch ctx = Some (is_epoch iss)" and "t < is_expires_at iss"
  shows "guard t ctx d' = Inr ()"
  using assms by (auto simp: issued_now_def guard_def)

text \<open>C2: a handover is exact. When a window is registered over a dead one or resumed, the
  connection that holds the new credential passes the guard until it expires, and every connection
  with an older epoch of that window is refused in every later state, whatever sequence of
  registrations, resumes, renewals and revocations follows.\<close>

theorem handover_fences_the_old_connection:
  assumes "sessions_wf d"
    and "register X now i r auth par l ttl d = (Inr iss, d') \<or> resume X now r auth ttl d = (Inr iss, d')"
    and "au_session_id old = Some (is_id iss)" and "au_session_epoch old = Some e"
    and "e < is_epoch iss"
  shows "guard t old (runs session_exec qs d') \<noteq> Inr () \<and>
    (t < is_expires_at iss \<longrightarrow> guard t (old\<lparr>au_session_epoch := Some (is_epoch iss)\<rparr>) d' = Inr ())"
proof -
  have iss: "issued_now now iss d d'"
    using assms(2) register_issues [OF assms(1)] resume_issues [OF assms(1)] by blast
  have "superseded_ctx (runs session_exec qs d') old"
    by (intro outdated.invar_runs issued_supersedes [OF iss assms(3-5)])
  then show ?thesis
    using superseded_ctx_refused issued_passes_guard [OF iss] assms(3) by auto
qed

lemma demo_sessions_wf: "sessions_wf demo_db"
proof -
  have "valid_label ''api''"
    by (rule normalize_session_valid [of "''api''"]) code_simp
  then show ?thesis by (simp add: sessions_wf_def demo_defs)
qed

lemma ana_api_session: "au_session_id ana_api = Some 100 \<and> au_session_epoch ana_api = Some 1"
  by (simp add: ana_api_def)

theorem handover_fences_the_old_connection_witness:
  "fst (resume demo_ext 7 ''2'' ana_api None demo_db) =
     Inr \<lparr>is_id = 100, is_token = ''acss_2'', is_label = ''api'', is_epoch = 2,
          is_expires_at = 86400000007\<rparr> \<and>
   guard 8 ana_api (runs session_exec [RevokeReq 8 bo (Some ''x'')]
     (snd (resume demo_ext 7 ''2'' ana_api None demo_db))) \<noteq> Inr ()"
proof -
  let ?iss = "\<lparr>is_id = 100, is_token = ''acss_2'', is_label = ''api'', is_epoch = 2,
          is_expires_at = 86400000007\<rparr>"
  have r: "fst (resume demo_ext 7 ''2'' ana_api None demo_db) = Inr ?iss"
    by code_simp
  then have "resume demo_ext 7 ''2'' ana_api None demo_db
      = (Inr ?iss, snd (resume demo_ext 7 ''2'' ana_api None demo_db))"
    by (metis prod.collapse)
  from handover_fences_the_old_connection [OF demo_sessions_wf disjI2 [OF this], where old = ana_api
      and e = 1 and t = 8 and qs = "[RevokeReq 8 bo (Some ''x'')]"]
  have "guard 8 ana_api (runs session_exec [RevokeReq 8 bo (Some ''x'')]
     (snd (resume demo_ext 7 ''2'' ana_api None demo_db))) \<noteq> Inr ()"
    by (auto simp: ana_api_session)
  with r show ?thesis by blast
qed

text \<open>C36: every sequence of session operations keeps the table well formed: ids, secrets and the pair
  of agent and label stay unique, epochs stay positive, and every label stays one the validator
  accepts.\<close>

theorem session_table_stays_wf:
  assumes "sessions_wf d"
  shows "sessions_wf (runs session_exec qs d)"
  using assms by (rule windows.invar_runs)

theorem session_table_stays_wf_witness:
  "sessions_wf (runs session_exec [RegisterReq demo_ext 7 101 ''9'' bo 51 '' Web '' None,
     ResumeReq demo_ext 8 ''2'' ana_api None] demo_db)"
  by (rule session_table_stays_wf) (rule demo_sessions_wf)

text \<open>Holding the agent token does not make you a live window. While a window is neither revoked
  nor expired and its parent token stands, registering its label again (in any spelling) is refused
  and nothing is written.\<close>

theorem live_window_cannot_be_registered_over:
  assumes "sessions_wf d" and "s \<in> set (d_sessions d)" and "se_agent_id s = au_agent_id auth"
    and "normalize_session l = Inr (se_label s)"
    and "se_revoked_at s = None" and "now < se_expires_at s" and "\<not> parent_revoked d s"
  shows "\<exists>e. register X now i r auth par l ttl d = (Inl e, d)"
proof -
  have "find (\<lambda>x. (se_agent_id x, se_label x) = (se_agent_id s, se_label s)) (d_sessions d) = Some s"
    using assms(1,2) by (intro find_unique) (auto simp: sessions_wf_def)
  then have f: "find (\<lambda>x. se_agent_id x = au_agent_id auth \<and> se_label x = se_label s) (d_sessions d) = Some s"
    using assms(3) by simp
  have "upsert_session now i h p (au_agent_id auth) par (se_label s) x d = Inr (None, d)" for h p x
    using f assms(5-7) by (simp add: upsert_session_def)
  then show ?thesis
    using assms(4) by (auto simp: register_def transact_def Let_def lock_agent_def)
qed

theorem live_window_cannot_be_registered_over_witness:
  "\<exists>e. register demo_ext 7 101 ''9'' (ana_api\<lparr>au_session_id := None\<rparr>) 50 '' API '' None demo_db = (Inl e, demo_db)"
proof (rule live_window_cannot_be_registered_over [OF demo_sessions_wf, of demo_session])
  show "normalize_session '' API '' = Inr (se_label demo_session)" by code_simp
  show "\<not> parent_revoked demo_db demo_session" by code_simp
qed (simp_all add: demo_defs)

text \<open>C37: a label that ever named a registered window is never again one an agent token can wear,
  after any sequence of revocations and re-registrations and at any time, expired or not.\<close>

theorem registered_label_is_never_handed_back:
  assumes "s \<in> set (d_sessions d)" and "se_agent_id s = au_agent_id auth" and "se_label s = au_session auth"
    and "au_session auth \<noteq> []" and "au_session_id auth = None"
  shows "\<exists>m. require_window auth (runs session_exec qs d) = Inl (Forbidden m)"
proof -
  have "(au_agent_id auth, au_session auth) \<in> labels_in (d_sessions d)"
    using assms(1-3) by (force simp: labels_in_def)
  then have "(au_agent_id auth, au_session auth) \<in> labels_in (d_sessions (runs session_exec qs d))"
    by (rule labels.invar_runs)
  then have "count_rows (\<lambda>s. se_agent_id s = au_agent_id auth \<and> se_label s = au_session auth)
      (d_sessions (runs session_exec qs d)) \<noteq> 0"
    by (force simp: labels_in_def count_rows_def filter_empty_conv)
  then show ?thesis using assms(4,5) by (simp add: require_window_def)
qed

theorem registered_label_is_never_handed_back_witness:
  "\<exists>m. require_window (ana_api\<lparr>au_session_id := None\<rparr>)
     (runs session_exec [RevokeReq 9 ana_api None] demo_db) = Inl (Forbidden m)"
  by (rule registered_label_is_never_handed_back [of demo_session]) (simp_all add: demo_defs)

end
