(* ===== verification/Locks.thy ===== *)
theory Locks
  imports Sessions Contracts
begin

text \<open>
  \<^verbatim>\<open>src/src/store/locks.rs\<close>: advisory locks with a deadline. A lock row is held by a window (agent
  and session label); its holder extends it, anybody takes it over once it has expired, and a
  release by anybody else is refused. The report an operation reads back after its commit is read
  from the state it committed.
\<close>

section \<open>Operations\<close>

definition DEFAULT_LOCK_TTL_SECS :: int where "DEFAULT_LOCK_TTL_SECS = 300"
definition MAX_LOCK_TTL_SECS :: int where "MAX_LOCK_TTL_SECS = 86400"

definition normalize_name :: "string \<Rightarrow> string res" where
  "normalize_name name =
     (let name = to_lowercase (trim name) in
      if name = [] then Inl (Invalid ''lock name cannot be empty'')
      else if length name > 128 then Inl (Invalid ''lock name is limited to 128 characters'')
      else Inr name)"

record lock_info =
  li_name :: string
  li_holder :: string
  li_holder_session :: "string option"
  li_purpose :: "string option"
  li_acquired_at :: time
  li_expires_at :: time

definition lock_info_of :: "lock_row \<Rightarrow> string \<Rightarrow> lock_info" where
  "lock_info_of l holder = \<lparr>li_name = lk_name l, li_holder = holder,
     li_holder_session = opt_filter (\<lambda>s. s \<noteq> []) (lk_holder_session l), li_purpose = lk_purpose l,
     li_acquired_at = lk_acquired_at l, li_expires_at = lk_expires_at l\<rparr>"

text \<open>\<^verbatim>\<open>LOCK_SELECT\<close> joins the holder's name; a row without its agent does not appear.\<close>

definition lock_select :: "db \<Rightarrow> (lock_row \<Rightarrow> bool) \<Rightarrow> lock_info list" where
  "lock_select d P = concat (map (\<lambda>l. case agent_name_of d (lk_holder_agent_id l) of
       None \<Rightarrow> [] | Some n \<Rightarrow> [lock_info_of l n]) (filter P (d_locks d)))"

datatype lock_reason = HeldBy string "string option" "time option"

record lock_result =
  lr_acquired :: bool
  lr_lock :: "lock_info option"
  lr_reason :: "lock_reason option"

definition lock_key :: "uuid \<Rightarrow> string \<Rightarrow> lock_row \<Rightarrow> bool" where
  "lock_key team name l \<longleftrightarrow> lk_team_id l = team \<and> lk_name l = name"

definition lock_mine :: "auth_ctx \<Rightarrow> lock_row \<Rightarrow> bool" where
  "lock_mine auth l \<longleftrightarrow> lk_holder_agent_id l = au_agent_id auth \<and>
     coalesce_str (lk_holder_session l) = au_session auth"

definition lock_upsert :: "time \<Rightarrow> auth_ctx \<Rightarrow> string \<Rightarrow> string option \<Rightarrow> int \<Rightarrow> db \<Rightarrow> uuid option \<times> db" where
  "lock_upsert now auth name purpose ttl d =
     (case find (lock_key (au_team_id auth) name) (d_locks d) of
        None \<Rightarrow> (Some (au_agent_id auth), d\<lparr>d_locks := d_locks d @
          [\<lparr>lk_team_id = au_team_id auth, lk_name = name, lk_holder_agent_id = au_agent_id auth,
            lk_holder_session = Some (au_session auth), lk_purpose = purpose,
            lk_acquired_at = now, lk_expires_at = now + secs ttl\<rparr>]\<rparr>)
      | Some l \<Rightarrow>
          if lk_expires_at l < now \<or> lock_mine auth l
          then (Some (au_agent_id auth), d\<lparr>d_locks := upd_where (lock_key (au_team_id auth) name)
            (\<lambda>l. l\<lparr>lk_holder_agent_id := au_agent_id auth, lk_holder_session := Some (au_session auth),
               lk_purpose := (case purpose of None \<Rightarrow> lk_purpose l | Some p \<Rightarrow> Some p),
               lk_acquired_at := (if lock_mine auth l then lk_acquired_at l else now),
               lk_expires_at := now + secs ttl\<rparr>) (d_locks d)\<rparr>)
          else (None, d))"

definition lock_ttl :: "int option \<Rightarrow> int" where
  "lock_ttl ttl_seconds = clamp 5 MAX_LOCK_TTL_SECS (unwrap_or DEFAULT_LOCK_TTL_SECS ttl_seconds)"

definition acquire_lock ::
    "time \<Rightarrow> auth_ctx \<Rightarrow> string \<Rightarrow> int option \<Rightarrow> string option \<Rightarrow> db \<Rightarrow> lock_result res \<times> db" where
  "acquire_lock now auth name ttl_seconds purpose d = (case normalize_name name of
      Inl e \<Rightarrow> (Inl e, d)
    | Inr name \<Rightarrow>
        let ttl = lock_ttl ttl_seconds;
            (acquired, d') = guarded now auth (\<lambda>d. Inr (lock_upsert now auth name purpose ttl d)) d;
            current = fetch_optional (lock_select d' (lock_key (au_team_id auth) name)) in
        (bindE acquired (\<lambda>a. case a of
            Some _ \<Rightarrow> Inr \<lparr>lr_acquired = True, lr_lock = current, lr_reason = None\<rparr>
          | None \<Rightarrow> Inr \<lparr>lr_acquired = False, lr_lock = current,
              lr_reason = Some (HeldBy (unwrap_or ''?'' (map_option li_holder current))
                (Option.bind current li_holder_session) (map_option li_expires_at current))\<rparr>), d'))"

definition release_lock :: "time \<Rightarrow> auth_ctx \<Rightarrow> string \<Rightarrow> db \<Rightarrow> ack res \<times> db" where
  "release_lock now auth name d = (case normalize_name name of
      Inl e \<Rightarrow> (Inl e, d)
    | Inr name \<Rightarrow>
        let mine = (\<lambda>l. lock_key (au_team_id auth) name l \<and> lock_mine auth l);
            (released, d') = guarded now auth
               (\<lambda>d. Inr (count_rows mine (d_locks d), d\<lparr>d_locks := del_where mine (d_locks d)\<rparr>)) d in
        (bindE released (\<lambda>n.
           if n > 0 then Inr \<lparr>ak_ok = True, ak_detail = ''released lock''\<rparr>
           else case fetch_optional (lock_select d'
                   (\<lambda>l. lock_key (au_team_id auth) name l \<and> now < lk_expires_at l)) of
               Some l \<Rightarrow>
                 if li_holder l = au_agent_name auth
                 then Inl (Conflict ''held by your own other session'')
                 else Inl (Conflict ''held by somebody else'')
             | None \<Rightarrow> Inr \<lparr>ak_ok = False, ak_detail = ''was not held''\<rparr>), d'))"

text \<open>\<^verbatim>\<open>ORDER BY l.name\<close> under the byte-wise collation.\<close>

definition list_locks :: "time \<Rightarrow> auth_ctx \<Rightarrow> db \<Rightarrow> lock_info list" where
  "list_locks now auth d =
     sort_key li_name (lock_select d (\<lambda>l. lk_team_id l = au_team_id auth \<and> now < lk_expires_at l))"

section \<open>The lock table\<close>

definition locks_wf :: "db \<Rightarrow> bool" where
  "locks_wf d \<longleftrightarrow> distinct (map (\<lambda>l. (lk_team_id l, lk_name l)) (d_locks d)) \<and>
     (\<forall>l \<in> set (d_locks d). lk_name l \<noteq> [] \<and> length (lk_name l) \<le> 128 \<and>
        trimmed (lk_name l) \<and> to_lowercase (lk_name l) = lk_name l)"

text \<open>Who holds a lock, and until when.\<close>

definition lock_held :: "db \<Rightarrow> uuid \<times> string \<Rightarrow> ((uuid \<times> string) \<times> time) option" where
  "lock_held d k = map_option
     (\<lambda>l. ((lk_holder_agent_id l, coalesce_str (lk_holder_session l)), lk_expires_at l))
     (find (lock_key (fst k) (snd k)) (d_locks d))"

datatype lock_req =
    AcquireReq time auth_ctx string "int option" "string option"
  | ReleaseReq time auth_ctx string

fun lock_exec :: "lock_req \<Rightarrow> db \<Rightarrow> db" where
  "lock_exec (AcquireReq now auth name ttl purpose) d = snd (acquire_lock now auth name ttl purpose d)"
| "lock_exec (ReleaseReq now auth name) d = snd (release_lock now auth name d)"

fun lock_auth :: "lock_req \<Rightarrow> auth_ctx" where
  "lock_auth (AcquireReq now auth name ttl purpose) = auth"
| "lock_auth (ReleaseReq now auth name) = auth"

fun lock_time :: "lock_req \<Rightarrow> time" where
  "lock_time (AcquireReq now auth name ttl purpose) = now"
| "lock_time (ReleaseReq now auth name) = now"

lemma normalize_name_Inr:
  "normalize_name raw = Inr n \<longleftrightarrow> n = to_lowercase (trim raw) \<and> n \<noteq> [] \<and> length n \<le> 128"
  by (auto simp: normalize_name_def Let_def)

lemma normalize_name_wf:
  "normalize_name raw = Inr n \<Longrightarrow> n \<noteq> [] \<and> length n \<le> 128 \<and> trimmed n \<and> to_lowercase n = n"
  by (auto simp: normalize_name_Inr)

lemma acquire_lock_state:
  "snd (acquire_lock now auth name ttl purpose d) =
     (case normalize_name name of Inl e \<Rightarrow> d
      | Inr n \<Rightarrow> if guard now auth d = Inr () then snd (lock_upsert now auth n purpose (lock_ttl ttl) d) else d)"
  by (auto simp: acquire_lock_def guarded_state transact_def Let_def split_beta split: sum.split)

lemma release_lock_state:
  "snd (release_lock now auth name d) =
     (case normalize_name name of Inl e \<Rightarrow> d
      | Inr n \<Rightarrow> if guard now auth d = Inr ()
          then d\<lparr>d_locks := del_where (\<lambda>l. lock_key (au_team_id auth) n l \<and> lock_mine auth l) (d_locks d)\<rparr>
          else d)"
  by (auto simp: release_lock_def guarded_state transact_def Let_def split_beta split: sum.split)


lemma find_lock_key_other:
  "(t, n) \<noteq> k \<Longrightarrow> lock_key t n l \<Longrightarrow> \<not> lock_key (fst k) (snd k) l"
  by (auto simp: lock_key_def)

text \<open>The effect of an acquisition on who holds what.\<close>

lemma lock_upsert_held:
  "lock_held (snd (lock_upsert now auth n purpose ttl d)) k =
     (if k = (au_team_id auth, n) \<and> fst (lock_upsert now auth n purpose ttl d) \<noteq> None
      then Some (window_of auth, now + secs ttl) else lock_held d k)"
proof (cases "k = (au_team_id auth, n)")
  case True
  show ?thesis
  proof (cases "find (lock_key (au_team_id auth) n) (d_locks d)")
    case None
    with True show ?thesis
      by (simp add: lock_upsert_def lock_held_def find_append lock_key_def window_of_def)
  next
    case (Some l)
    with True show ?thesis
      using find_SomeD [OF Some]
      by (auto simp: lock_upsert_def lock_held_def window_of_def lock_key_def
          find_upd_where_Some [OF Some])
  qed
next
  case False
  then have "find (lock_key (fst k) (snd k)) (upd_where (lock_key (au_team_id auth) n) f (d_locks d))
      = find (lock_key (fst k) (snd k)) (d_locks d)"
    if "\<And>l. lk_team_id (f l) = lk_team_id l \<and> lk_name (f l) = lk_name l" for f
    using that by (intro find_upd_where_other) (auto simp: lock_key_def)
  moreover have "\<not> lock_key (fst k) (snd k) l" if "lk_team_id l = au_team_id auth \<and> lk_name l = n" for l
    using that False by (auto simp: lock_key_def)
  ultimately show ?thesis
    using False by (simp add: lock_upsert_def lock_held_def find_append split: option.split)
qed

lemma lock_upsert_wf:
  assumes "locks_wf d" and "n \<noteq> [] \<and> length n \<le> 128 \<and> trimmed n \<and> to_lowercase n = n"
  shows "locks_wf (snd (lock_upsert now auth n purpose ttl d))"
  using assms
  by (auto simp: lock_upsert_def locks_wf_def tbl lock_key_def find_None_set map_upd_where_same
      split: option.split)

lemma lock_exec_wf: "locks_wf d \<Longrightarrow> locks_wf (lock_exec q d)"
proof (cases q)
  case (AcquireReq now auth name ttl purpose)
  then show "locks_wf d \<Longrightarrow> ?thesis"
    by (auto simp: acquire_lock_state lock_upsert_wf dest: normalize_name_wf split: sum.split)
next
  case (ReleaseReq now auth name)
  then show "locks_wf d \<Longrightarrow> ?thesis"
    by (auto simp: release_lock_state locks_wf_def distinct_map_del_where set_del_where split: sum.split)
qed


definition held_by :: "auth_ctx \<Rightarrow> ((uuid \<times> string) \<times> time) option \<Rightarrow> bool" where
  "held_by auth h \<longleftrightarrow> (case h of None \<Rightarrow> False | Some (w, e) \<Rightarrow> w = window_of auth)"

lemma lock_upsert_acquires:
  "fst (lock_upsert now auth n purpose ttl d) \<noteq> None \<longleftrightarrow>
     (case lock_held d (au_team_id auth, n) of
        None \<Rightarrow> True | Some (w, e) \<Rightarrow> e < now \<or> w = window_of auth)"
  by (auto simp: lock_upsert_def lock_held_def lock_mine_def window_of_def split: option.split)

lemma lock_upsert_refuses:
  "fst (lock_upsert now auth n purpose ttl d) = None \<Longrightarrow> snd (lock_upsert now auth n purpose ttl d) = d"
proof (cases "find (lock_key (au_team_id auth) n) (d_locks d)")
  case None
  then show "fst (lock_upsert now auth n purpose ttl d) = None \<Longrightarrow> ?thesis"
    by (simp add: lock_upsert_def)
next
  case (Some l)
  then show "fst (lock_upsert now auth n purpose ttl d) = None \<Longrightarrow> ?thesis"
    by (cases "lk_expires_at l < now \<or> lock_mine auth l") (simp_all only: lock_upsert_def option.case if_True if_False fst_conv snd_conv option.distinct)
qed

lemma lock_upsert_blocked:
  assumes "lock_held d (au_team_id auth, n) = Some (w, e)" and "now < e" and "window_of auth \<noteq> w"
  shows "fst (lock_upsert now auth n purpose ttl d) = None"
  using assms lock_upsert_acquires [of now auth n purpose ttl d] by auto

lemma find_lock_unique:
  assumes "locks_wf d" and "l \<in> set (d_locks d)" and "lock_key t n l"
  shows "find (lock_key t n) (d_locks d) = Some l"
proof -
  have "find (\<lambda>x. (lk_team_id x, lk_name x) = (lk_team_id l, lk_name l)) (d_locks d) = Some l"
    using assms(1,2) by (intro find_unique) (simp_all add: locks_wf_def)
  moreover have "lock_key t n = (\<lambda>x. (lk_team_id x, lk_name x) = (lk_team_id l, lk_name l))"
    using assms(3) by (auto simp: lock_key_def)
  ultimately show ?thesis by simp
qed

lemma find_del_where_unmatched:
  "(\<And>r. r \<in> set rows \<Longrightarrow> Q r \<Longrightarrow> \<not> P r) \<Longrightarrow> find Q (del_where P rows) = find Q rows"
  by (induction rows) (auto simp: del_where_def)

text \<open>The effect of a release: the lock is gone if the caller held it, and nothing else changes.\<close>

lemma release_held:
  assumes wf: "locks_wf d"
  shows "lock_held (d\<lparr>d_locks := del_where (\<lambda>l. lock_key (au_team_id auth) n l \<and> lock_mine auth l) (d_locks d)\<rparr>) k =
     (if k = (au_team_id auth, n) \<and> held_by auth (lock_held d k) then None else lock_held d k)"
proof (cases "k = (au_team_id auth, n) \<and> held_by auth (lock_held d k)")
  case True
  then obtain l where l: "find (lock_key (au_team_id auth) n) (d_locks d) = Some l" "lock_mine auth l"
    by (auto simp: held_by_def lock_held_def lock_mine_def window_of_def split: option.splits)
  have "x = l" if "x \<in> set (d_locks d)" "lock_key (au_team_id auth) n x" for x
    using find_lock_unique [OF wf that] l(1) by simp
  with l True show ?thesis
    by (auto simp: lock_held_def find_None_set set_del_where)
next
  case False
  have "\<not> (lock_key (au_team_id auth) n l \<and> lock_mine auth l)"
    if "l \<in> set (d_locks d)" "lock_key (fst k) (snd k) l" for l
    using find_lock_unique [OF wf that] False that(2)
    by (cases k) (auto simp: held_by_def lock_held_def lock_mine_def window_of_def lock_key_def)
  then show ?thesis
    using False by (auto simp: lock_held_def find_del_where_unmatched)
qed

interpretation locks: lease lock_exec locks_wf lock_held "\<lambda>q. window_of (lock_auth q)" "\<lambda>q e. lock_time q < e"
proof
  show "locks_wf d \<Longrightarrow> locks_wf (lock_exec q d)" for d q by (rule lock_exec_wf)
next
  fix d :: db and k w e q
  assume wf: "locks_wf d" and h: "lock_held d k = Some (w, e)" and t: "lock_time q < e"
    and a: "window_of (lock_auth q) \<noteq> w"
  show "lock_held (lock_exec q d) k = Some (w, e)"
  proof (cases q)
    case (AcquireReq now auth name ttl purpose)
    with h t a show ?thesis
      by (auto simp: acquire_lock_state lock_upsert_held lock_upsert_blocked split: sum.split)
  next
    case (ReleaseReq now auth name)
    with h a show ?thesis
      by (auto simp: release_lock_state release_held [OF wf] held_by_def split: sum.split)
  qed
qed

section \<open>Properties\<close>

lemma acquire_lock_result:
  assumes "acquire_lock now auth name ttl purpose d = (Inr res, d')"
  shows "\<exists>n. normalize_name name = Inr n \<and> guard now auth d = Inr () \<and>
    lr_acquired res = (fst (lock_upsert now auth n purpose (lock_ttl ttl) d) \<noteq> None) \<and>
    d' = snd (lock_upsert now auth n purpose (lock_ttl ttl) d)"
  using assms
  by (cases rule: guard_cases [of now auth d])
     (auto simp: acquire_lock_def guarded_passed guarded_refused transact_def Let_def split_beta
        split: sum.splits option.splits)

text \<open>C15: mutual exclusion. While a lock is live, no interleaving of requests from other windows
  (other agents, or other windows of the same agent) changes who holds it or until when, and an
  acquisition by any of them is answered with \<^verbatim>\<open>acquired: false\<close>.\<close>

theorem lock_is_exclusive:
  assumes "locks_wf d" and "lock_held d (au_team_id auth, n) = Some (w, e)"
    and "\<forall>q \<in> set qs. lock_time q < e \<and> window_of (lock_auth q) \<noteq> w"
    and "window_of auth \<noteq> w" and "now < e" and "normalize_name name = Inr n"
    and "acquire_lock now auth name ttl purpose (runs lock_exec qs d) = (Inr res, d')"
  shows "\<not> lr_acquired res \<and> d' = runs lock_exec qs d \<and>
    lock_held (runs lock_exec qs d) (au_team_id auth, n) = Some (w, e)"
proof -
  have h: "lock_held (runs lock_exec qs d) (au_team_id auth, n) = Some (w, e)"
    using assms(1-3) by (rule locks.lease_survives)
  then have no: "fst (lock_upsert now auth n purpose (lock_ttl ttl) (runs lock_exec qs d)) = None"
    using assms(4,5) by (intro lock_upsert_blocked)
  with acquire_lock_result [OF assms(7)] assms(6) h show ?thesis
    using lock_upsert_refuses [OF no] by auto
qed

definition demo_lock :: lock_row where
  "demo_lock = \<lparr>lk_team_id = 1, lk_name = ''deploy'', lk_holder_agent_id = 10,
     lk_holder_session = Some ''api'', lk_purpose = None, lk_acquired_at = 0, lk_expires_at = 50\<rparr>"

definition demo_locks :: db where
  "demo_locks = demo_db\<lparr>d_locks := [demo_lock]\<rparr>"

lemma demo_locks_wf: "locks_wf demo_locks"
proof -
  have "normalize_name ''deploy'' = Inr ''deploy''" by code_simp
  from normalize_name_wf [OF this] show ?thesis
    by (simp add: locks_wf_def demo_locks_def demo_lock_def)
qed

theorem lock_is_exclusive_witness:
  "\<not> lr_acquired \<lparr>lr_acquired = False, lr_lock = Some (lock_info_of demo_lock ''ana''),
       lr_reason = Some (HeldBy ''ana'' (Some ''api'') (Some 50))\<rparr> \<and>
   lock_held (runs lock_exec [ReleaseReq 8 bo ''deploy''] demo_locks) (1, ''deploy'') = Some ((10, ''api''), 50)"
proof -
  let ?d = "runs lock_exec [ReleaseReq 8 bo ''deploy''] demo_locks"
  let ?r = "\<lparr>lr_acquired = False, lr_lock = Some (lock_info_of demo_lock ''ana''),
       lr_reason = Some (HeldBy ''ana'' (Some ''api'') (Some 50))\<rparr>"
  have "fst (acquire_lock 9 bo '' Deploy'' None None ?d) = Inr ?r" by code_simp
  then have "acquire_lock 9 bo '' Deploy'' None None ?d
      = (Inr ?r, snd (acquire_lock 9 bo '' Deploy'' None None ?d))"
    by (metis prod.collapse)
  moreover have "normalize_name '' Deploy'' = Inr ''deploy''" by code_simp
  moreover have "lock_held demo_locks (au_team_id bo, ''deploy'') = Some ((10, ''api''), 50)" by code_simp
  ultimately show ?thesis
    using lock_is_exclusive [OF demo_locks_wf, where auth = bo and n = "''deploy''" and w = "(10, ''api'')"
        and e = 50 and qs = "[ReleaseReq 8 bo ''deploy'']" and now = 9 and name = "'' Deploy''"
        and ttl = None and purpose = None and res = ?r]
    by (simp add: window_of_def bo_def)
qed

text \<open>What an acquisition does. It succeeds exactly when the lock is free, expired or already the
  caller's; then the caller's window holds it for between 5 seconds and a day, and no other lock
  changes; otherwise nothing is written.\<close>

theorem acquire_lock_spec:
  assumes "acquire_lock now auth name ttl purpose d = (Inr res, d')" and "normalize_name name = Inr n"
  shows "(lr_acquired res \<longleftrightarrow> (case lock_held d (au_team_id auth, n) of
            None \<Rightarrow> True | Some (w, e) \<Rightarrow> e < now \<or> w = window_of auth)) \<and>
    (lr_acquired res \<longrightarrow> (\<exists>e. now + secs 5 \<le> e \<and> e \<le> now + secs MAX_LOCK_TTL_SECS \<and>
        lock_held d' = (lock_held d)((au_team_id auth, n) \<mapsto> (window_of auth, e)))) \<and>
    (\<not> lr_acquired res \<longrightarrow> d' = d)"
proof -
  have r: "lr_acquired res = (fst (lock_upsert now auth n purpose (lock_ttl ttl) d) \<noteq> None)"
    and d': "d' = snd (lock_upsert now auth n purpose (lock_ttl ttl) d)"
    using acquire_lock_result [OF assms(1)] assms(2) by auto
  have b: "5 \<le> lock_ttl ttl" "lock_ttl ttl \<le> MAX_LOCK_TTL_SECS"
    using clamp_bounds [of 5 MAX_LOCK_TTL_SECS] by (simp_all add: lock_ttl_def MAX_LOCK_TTL_SECS_def)
  have "lr_acquired res \<longrightarrow>
      lock_held d' = (lock_held d)((au_team_id auth, n) \<mapsto> (window_of auth, now + secs (lock_ttl ttl)))"
    using r d' by (auto simp: lock_upsert_held)
  with r d' b lock_upsert_acquires [of now auth n purpose "lock_ttl ttl" d]
    lock_upsert_refuses [of now auth n purpose "lock_ttl ttl" d] show ?thesis
    by (auto intro!: exI [of _ "now + secs (lock_ttl ttl)"] secs_mono simp del: fun_upd_apply)
qed

theorem acquire_lock_spec_witness:
  "fst (acquire_lock 60 bo ''deploy'' (Some 1) None demo_locks) = Inr
     \<lparr>lr_acquired = True, lr_lock = Some (lock_info_of (demo_lock\<lparr>lk_holder_agent_id := 11,
        lk_holder_session := Some [], lk_acquired_at := 60, lk_expires_at := 5000060\<rparr>) ''bo''),
      lr_reason = None\<rparr> \<and>
   (\<exists>e. lock_held (snd (acquire_lock 60 bo ''deploy'' (Some 1) None demo_locks)) =
     (lock_held demo_locks)((1, ''deploy'') \<mapsto> ((11, []), e)))"
proof -
  let ?r = "\<lparr>lr_acquired = True, lr_lock = Some (lock_info_of (demo_lock\<lparr>lk_holder_agent_id := 11,
        lk_holder_session := Some [], lk_acquired_at := 60, lk_expires_at := 5000060\<rparr>) ''bo''),
      lr_reason = None\<rparr>"
  have r: "fst (acquire_lock 60 bo ''deploy'' (Some 1) None demo_locks) = Inr ?r" by code_simp
  then have "acquire_lock 60 bo ''deploy'' (Some 1) None demo_locks
      = (Inr ?r, snd (acquire_lock 60 bo ''deploy'' (Some 1) None demo_locks))"
    by (metis prod.collapse)
  moreover have "normalize_name ''deploy'' = Inr ''deploy''" by code_simp
  moreover have "au_team_id bo = 1" "window_of bo = (11, [])" by (simp_all add: bo_def window_of_def)
  ultimately show ?thesis using acquire_lock_spec r by fastforce
qed


lemma release_lock_result:
  assumes "guard now auth d = Inr ()" and "normalize_name name = Inr n"
  shows "fst (release_lock now auth name d) =
    (if held_by auth (lock_held d (au_team_id auth, n)) \<or> exists_row (\<lambda>l. lock_key (au_team_id auth) n l \<and> lock_mine auth l) (d_locks d)
     then Inr \<lparr>ak_ok = True, ak_detail = ''released lock''\<rparr>
     else case fetch_optional (lock_select d
             (\<lambda>l. lock_key (au_team_id auth) n l \<and> now < lk_expires_at l)) of
         Some l \<Rightarrow> if li_holder l = au_agent_name auth
             then Inl (Conflict ''held by your own other session'')
             else Inl (Conflict ''held by somebody else'')
       | None \<Rightarrow> Inr \<lparr>ak_ok = False, ak_detail = ''was not held''\<rparr>)"
proof -
  let ?m = "\<lambda>l. lock_key (au_team_id auth) n l \<and> lock_mine auth l"
  have h: "held_by auth (lock_held d (au_team_id auth, n)) \<Longrightarrow> exists_row ?m (d_locks d)"
    by (auto simp: held_by_def lock_held_def exists_row_def lock_mine_def window_of_def
        split: option.splits dest!: find_SomeD)
  have c: "0 < count_rows ?m (d_locks d) \<longleftrightarrow> exists_row ?m (d_locks d)"
    by (auto simp: count_rows_def exists_row_def filter_empty_conv)
  have same: "del_where ?m (d_locks d) = d_locks d" if "\<not> exists_row ?m (d_locks d)"
    using that by (auto simp: del_where_def exists_row_def filter_id_conv)
  from assms h c same show ?thesis
    by (auto simp: release_lock_def guarded_passed transact_def Let_def)
qed

text \<open>A release is only ever the holder's. When the caller's window holds the lock it is freed and
  no other lock changes; when it does not, the lock table is untouched, and if somebody else's lock is
  live the call is refused.\<close>

theorem release_lock_spec:
  assumes "locks_wf d" and "guard now auth d = Inr ()" and "normalize_name name = Inr n"
  shows "(held_by auth (lock_held d (au_team_id auth, n)) \<longrightarrow>
      fst (release_lock now auth name d) = Inr \<lparr>ak_ok = True, ak_detail = ''released lock''\<rparr> \<and>
      lock_held (snd (release_lock now auth name d)) = (lock_held d)((au_team_id auth, n) := None)) \<and>
    (\<not> held_by auth (lock_held d (au_team_id auth, n)) \<longrightarrow>
      snd (release_lock now auth name d) = d \<and>
      (\<forall>a. fst (release_lock now auth name d) = Inr a \<longrightarrow> \<not> ak_ok a \<and>
         (\<forall>i \<in> set (list_locks now auth d). li_name i \<noteq> n)))"
proof (intro conjI impI allI)
  assume h: "held_by auth (lock_held d (au_team_id auth, n))"
  then show "fst (release_lock now auth name d) = Inr \<lparr>ak_ok = True, ak_detail = ''released lock''\<rparr>"
    by (simp add: release_lock_result [OF assms(2,3)])
  show "lock_held (snd (release_lock now auth name d)) = (lock_held d)((au_team_id auth, n) := None)"
    using h assms(2,3) by (auto simp: release_lock_state release_held [OF assms(1)])
next
  let ?m = "\<lambda>l. lock_key (au_team_id auth) n l \<and> lock_mine auth l"
  assume h: "\<not> held_by auth (lock_held d (au_team_id auth, n))"
  have none: "\<not> exists_row ?m (d_locks d)"
    using h find_lock_unique [OF assms(1)]
    by (fastforce simp: exists_row_def held_by_def lock_held_def lock_mine_def window_of_def)
  then have "del_where ?m (d_locks d) = d_locks d"
    by (auto simp: del_where_def exists_row_def filter_id_conv)
  then show "snd (release_lock now auth name d) = d"
    using assms(2,3) by (simp add: release_lock_state)
  fix a assume a: "fst (release_lock now auth name d) = Inr a"
  with h none show "\<not> ak_ok a"
    by (auto simp: release_lock_result [OF assms(2,3)] split: option.splits if_splits)
  have "lock_select d (\<lambda>l. lock_key (au_team_id auth) n l \<and> now < lk_expires_at l) = []"
    using a h none by (auto simp: release_lock_result [OF assms(2,3)] fetch_optional_def
        split: option.splits if_splits list.splits)
  then show "\<forall>i \<in> set (list_locks now auth d). li_name i \<noteq> n"
    by (fastforce simp: list_locks_def lock_select_def lock_key_def lock_info_of_def split: option.splits)
qed

theorem release_lock_spec_witness:
  "snd (release_lock 9 bo ''deploy'' demo_locks) = demo_locks \<and>
   lock_held (snd (release_lock 9 ana_api ''deploy'' demo_locks)) (1, ''deploy'') = None"
proof -
  have n: "normalize_name ''deploy'' = Inr ''deploy''" by code_simp
  have g: "guard 9 bo demo_locks = Inr ()" "guard 9 ana_api demo_locks = Inr ()" by code_simp+
  have h: "\<not> held_by bo (lock_held demo_locks (au_team_id bo, ''deploy''))"
    "held_by ana_api (lock_held demo_locks (au_team_id ana_api, ''deploy''))" by code_simp+
  from h release_lock_spec [OF demo_locks_wf g(1) n] release_lock_spec [OF demo_locks_wf g(2) n]
  show ?thesis by (simp add: ana_api_def)
qed

text \<open>The listing is the live locks of the caller's team, each once, by name; a lock is listed
  exactly while its deadline lies ahead.\<close>

theorem list_locks_exact:
  "sorted (map li_name (list_locks now auth d)) \<and>
   set (list_locks now auth d) = {lock_info_of l n | l n. l \<in> set (d_locks d) \<and>
      lk_team_id l = au_team_id auth \<and> now < lk_expires_at l \<and>
      agent_name_of d (lk_holder_agent_id l) = Some n}"
  by (force simp: list_locks_def lock_select_def split: option.splits)

text \<open>At the very instant a lock's deadline is reached it is no longer listed and still cannot be
  acquired by anybody else; one microsecond later it can.\<close>

theorem lock_boundary_instant:
  assumes "lock_held d (au_team_id auth, n) = Some (w, e)" and "window_of auth \<noteq> w"
    and "locks_wf d" and "normalize_name name = Inr n" and "guard e auth d = Inr ()"
    and "guard (e + 1) auth d = Inr ()"
  shows "(\<forall>i \<in> set (list_locks e auth d). li_name i \<noteq> n) \<and>
    (\<exists>res. acquire_lock e auth name ttl purpose d = (Inr res, d) \<and> \<not> lr_acquired res) \<and>
    (\<exists>res d'. acquire_lock (e + 1) auth name ttl purpose d = (Inr res, d') \<and> lr_acquired res)"
proof (intro conjI)
  obtain l where l: "find (lock_key (au_team_id auth) n) (d_locks d) = Some l" "lk_expires_at l = e"
    using assms(1) by (auto simp: lock_held_def)
  have "\<not> (l' \<in> set (d_locks d) \<and> lock_key (au_team_id auth) n l' \<and> e < lk_expires_at l')" for l'
    using find_lock_unique [OF assms(3), of l'] l by auto
  then show "\<forall>i \<in> set (list_locks e auth d). li_name i \<noteq> n"
    by (fastforce simp: list_locks_def lock_select_def lock_key_def lock_info_of_def split: option.splits)
  have no: "fst (lock_upsert e auth n purpose (lock_ttl ttl) d) = None"
    using assms(1,2) lock_upsert_acquires [of e auth n purpose "lock_ttl ttl" d] by auto
  then have up: "lock_upsert e auth n purpose (lock_ttl ttl) d = (None, d)"
    using lock_upsert_refuses [OF no] by (simp add: prod_eq_iff)
  show "\<exists>res. acquire_lock e auth name ttl purpose d = (Inr res, d) \<and> \<not> lr_acquired res"
    using assms(4,5) by (simp add: acquire_lock_def guarded_passed transact_def up Let_def)
  have "fst (lock_upsert (e + 1) auth n purpose (lock_ttl ttl) d) \<noteq> None"
    using assms(1) lock_upsert_acquires [of "e + 1" auth n purpose "lock_ttl ttl" d] by auto
  then show "\<exists>res d'. acquire_lock (e + 1) auth name ttl purpose d = (Inr res, d') \<and> lr_acquired res"
    using assms(4,6) by (auto simp: acquire_lock_def guarded_passed transact_def split_beta Let_def)
qed

theorem lock_boundary_instant_witness:
  "\<exists>res. acquire_lock 50 bo ''deploy'' None None demo_locks = (Inr res, demo_locks) \<and> \<not> lr_acquired res"
proof -
  have "lock_held demo_locks (au_team_id bo, ''deploy'') = Some ((10, ''api''), 50)"
    and "window_of bo \<noteq> (10, ''api'')" and "normalize_name ''deploy'' = Inr ''deploy''"
    and "guard 50 bo demo_locks = Inr ()" and "guard (50 + 1) bo demo_locks = Inr ()"
    by code_simp+
  then show ?thesis using lock_boundary_instant [OF _ _ demo_locks_wf] by blast
qed

end
