(* ===== verification/Tasks.thy ===== *)
theory Tasks
  imports Sessions Contracts
begin

text \<open>
  \<^verbatim>\<open>src/src/store/tasks.rs\<close>: the shared task list. A task is created with dependencies on existing
  tasks, claimed under a lease by a window, renewed, released and completed; readers page through
  the list with a keyset cursor.

  \<open>now\<close> is the request's instant, for the database clock and for the application clock that rounds
  the seconds remaining. An operation that reads the task back after its commit reads the state it
  committed. Rows another transaction has locked (\<^verbatim>\<open>SKIP LOCKED\<close>) are an argument of
  \<open>claim_next_task\<close>. The cursor's JSON and base64 are the record \<open>cursor_codec\<close>.
\<close>

section \<open>Constants and views\<close>

definition DEFAULT_LEASE_SECS :: int where "DEFAULT_LEASE_SECS = 900"
definition MAX_LEASE_SECS :: int where "MAX_LEASE_SECS = 86400"
definition MAX_TASK_LIMIT :: int where "MAX_TASK_LIMIT = 200"
definition MAX_TITLE_BYTES :: int where "MAX_TITLE_BYTES = 512"
definition MAX_DESCRIPTION_BYTES :: int where "MAX_DESCRIPTION_BYTES = 64 * 1024"
definition MAX_RESULT_BYTES :: int where "MAX_RESULT_BYTES = 64 * 1024"
definition MAX_DEPENDENCIES :: nat where "MAX_DEPENDENCIES = 32"

record attachment_info =
  ai_id :: int
  ai_filename :: string
  ai_content_type :: string
  ai_size_bytes :: int

definition attachment_info_of :: "attachment_row \<Rightarrow> attachment_info" where
  "attachment_info_of a = \<lparr>ai_id = at_id a, ai_filename = at_filename a,
     ai_content_type = at_content_type a, ai_size_bytes = at_size_bytes a\<rparr>"

record task_info =
  ti_key :: string
  ti_title :: string
  ti_description :: "string option"
  ti_status :: task_status
  ti_depends_on :: "string list"
  ti_blocked :: bool
  ti_claimed_by :: "string option"
  ti_claimed_session :: "string option"
  ti_claimed_at :: "time option"
  ti_lease_expires_at :: "time option"
  ti_lease_expired :: bool
  ti_lease_seconds_remaining :: "int option"
  ti_lapsed_holder :: "string option"
  ti_result :: "string option"
  ti_metadata :: json
  ti_attachments :: "attachment_info list"
  ti_created_by :: "string option"
  ti_created_at :: time
  ti_updated_at :: time

text \<open>The sub-selects of \<^verbatim>\<open>TASK_SELECT\<close>: dependency keys, whether one is unfinished, whether a claim lapsed.\<close>

definition finished :: "task_status \<Rightarrow> bool" where
  "finished s \<longleftrightarrow> s = Done \<or> s = Cancelled"

definition upstream :: "db \<Rightarrow> uuid \<Rightarrow> task_row list" where
  "upstream d i = filter (\<lambda>t. exists_row (\<lambda>p. p = (i, ta_id t)) (d_deps d)) (d_tasks d)"

definition task_blocked :: "db \<Rightarrow> uuid \<Rightarrow> bool" where
  "task_blocked d i \<longleftrightarrow> exists_row (\<lambda>t. \<not> finished (ta_status t)) (upstream d i)"

definition lease_lapsed :: "time \<Rightarrow> task_row \<Rightarrow> bool" where
  "lease_lapsed now t \<longleftrightarrow> ta_status t = Claimed \<and>
     (case ta_lease_expires_at t of None \<Rightarrow> False | Some e \<Rightarrow> e \<le> now)"

definition effective_status :: "time \<Rightarrow> task_row \<Rightarrow> task_status" where
  "effective_status now t = (if lease_lapsed now t then Open else ta_status t)"

text \<open>\<^verbatim>\<open>TASK_SELECT\<close> of one row, through \<^verbatim>\<open>From<TaskRow> for TaskInfo\<close>.\<close>

definition task_info_of :: "time \<Rightarrow> db \<Rightarrow> task_row \<Rightarrow> task_info" where
  "task_info_of now d t =
     (let claimed_by = Option.bind (ta_claimed_by t) (agent_name_of d);
          base = \<lparr>ti_key = ta_key t, ti_title = ta_title t, ti_description = ta_description t,
            ti_status = ta_status t, ti_depends_on = sort (map ta_key (upstream d (ta_id t))),
            ti_blocked = task_blocked d (ta_id t), ti_claimed_by = claimed_by,
            ti_claimed_session = opt_filter (\<lambda>s. s \<noteq> []) (ta_claimed_session t),
            ti_claimed_at = ta_claimed_at t, ti_lease_expires_at = ta_lease_expires_at t,
            ti_lease_expired = False,
            ti_lease_seconds_remaining = map_option (\<lambda>e. seconds_left e now)
              (opt_filter (\<lambda>_. ta_status t = Claimed) (ta_lease_expires_at t)),
            ti_lapsed_holder = None, ti_result = ta_result t, ti_metadata = ta_metadata t,
            ti_attachments = map attachment_info_of
              (sort_key at_id (filter (\<lambda>a. at_task_id a = Some (ta_id t)) (d_attachments d))),
            ti_created_by = Option.bind (ta_created_by t) (agent_name_of d),
            ti_created_at = ta_created_at t, ti_updated_at = ta_updated_at t\<rparr> in
      if lease_lapsed now t
      then base\<lparr>ti_status := Open, ti_claimed_by := None, ti_claimed_session := None,
             ti_claimed_at := None, ti_lease_expires_at := None, ti_lease_expired := True,
             ti_lease_seconds_remaining := None, ti_lapsed_holder := claimed_by\<rparr>
      else base)"

definition log_event :: "time \<Rightarrow> uuid \<Rightarrow> uuid \<Rightarrow> string \<Rightarrow> string option \<Rightarrow> db \<Rightarrow> db" where
  "log_event now task_id agent_id event detail d =
     d\<lparr>d_event_seq := d_event_seq d + 1, d_events := d_events d @
        [\<lparr>te_id = d_event_seq d + 1, te_task_id = task_id, te_agent_id = Some agent_id,
          te_event = event, te_detail = detail, te_created_at = now\<rparr>]\<rparr>"

definition normalize_key :: "string \<Rightarrow> string res" where
  "normalize_key key =
     (let key = trim key in
      if key = [] then Inl (Invalid ''task key cannot be empty'')
      else if length key > 128 then Inl (Invalid ''task key is limited to 128 characters'')
      else Inr key)"

definition task_key_is :: "uuid \<Rightarrow> string \<Rightarrow> task_row \<Rightarrow> bool" where
  "task_key_is team key t \<longleftrightarrow> ta_team_id t = team \<and> ta_key t = key"

definition fetch_task :: "time \<Rightarrow> auth_ctx \<Rightarrow> string \<Rightarrow> db \<Rightarrow> task_info res" where
  "fetch_task now auth key d =
     ok_or (map_option (task_info_of now d) (find (task_key_is (au_team_id auth) key) (d_tasks d)))
       (NotFound ''no such task'')"

section \<open>Creating and reading\<close>

record create_input =
  ci_key :: string
  ci_title :: string
  ci_description :: "string option"
  ci_metadata :: "json option"
  ci_depends_on :: "string list"

definition insert_task ::
    "time \<Rightarrow> uuid \<Rightarrow> auth_ctx \<Rightarrow> string \<Rightarrow> string \<Rightarrow> string option \<Rightarrow> json \<Rightarrow> uuid tx" where
  "insert_task now new_id auth key title description metadata d =
     (if exists_row (task_key_is (au_team_id auth) key) (d_tasks d)
      then Inl (Conflict ''task already exists'')
      else if exists_row (\<lambda>t. ta_id t = new_id) (d_tasks d) then Inl (Db ''duplicate key'')
      else Inr (new_id, d\<lparr>d_tasks := d_tasks d @
        [\<lparr>ta_id = new_id, ta_team_id = au_team_id auth, ta_key = key, ta_title = title,
          ta_description = description, ta_status = Open, ta_claimed_by = None,
          ta_claimed_session = None, ta_claimed_at = None, ta_lease_expires_at = None,
          ta_result = None, ta_metadata = metadata, ta_created_by = Some (au_agent_id auth),
          ta_created_at = now, ta_updated_at = now\<rparr>]\<rparr>))"

definition resolve_dep :: "auth_ctx \<Rightarrow> db \<Rightarrow> string \<Rightarrow> uuid res" where
  "resolve_dep auth d key =
     ok_or (map_option ta_id (find (task_key_is (au_team_id auth) key) (d_tasks d)))
       (NotFound ''dependency does not exist; create it first'')"

definition check_dep :: "string \<Rightarrow> string \<Rightarrow> string res" where
  "check_dep key dep_key = bindE (normalize_key dep_key) (\<lambda>dep_key.
     if dep_key = key then Inl (Invalid ''a task cannot depend on itself'') else Inr dep_key)"

definition create_task_tx ::
    "time \<Rightarrow> uuid \<Rightarrow> auth_ctx \<Rightarrow> string \<Rightarrow> string \<Rightarrow> string option \<Rightarrow> json \<Rightarrow> string list \<Rightarrow> unit tx" where
  "create_task_tx now new_id auth key title description metadata dep_keys d =
     bindE (insert_task now new_id auth key title description metadata d) (\<lambda>(i, d).
     bindE (traverse (resolve_dep auth d) dep_keys) (\<lambda>ids.
       let dep_ids = remdups (sort ids);
           d = d\<lparr>d_deps := d_deps d @ map (\<lambda>b. (i, b)) dep_ids\<rparr> in
       Inr ((), log_event now i (au_agent_id auth) ''created'' (Some title) d)))"

definition create_task ::
    "ext \<Rightarrow> time \<Rightarrow> uuid \<Rightarrow> auth_ctx \<Rightarrow> create_input \<Rightarrow> db \<Rightarrow> task_info res \<times> db" where
  "create_task X now new_id auth input d =
     (let checked =
        bindE (normalize_key (ci_key input)) (\<lambda>key.
        bindE (check_text (ci_title input) MAX_TITLE_BYTES) (\<lambda>title.
        if title = [] then Inl (Invalid ''task title cannot be empty'') else
        bindE (traverse_opt (\<lambda>t. check_text t MAX_DESCRIPTION_BYTES) (ci_description input)) (\<lambda>description.
        let metadata_in = normalize_metadata X (ci_metadata input) in
        bindE (check_metadata X metadata_in) (\<lambda>_.
        if length (ci_depends_on input) > MAX_DEPENDENCIES then Inl (Invalid ''too many dependencies'') else
        bindE (traverse (check_dep key) (ci_depends_on input)) (\<lambda>dep_keys.
        Inr (key, title, description, unwrap_or (JObj []) metadata_in, dep_keys))))))
      in case checked of
        Inl e \<Rightarrow> (Inl e, d)
      | Inr (key, title, description, metadata, dep_keys) \<Rightarrow>
          (case transact (create_task_tx now new_id auth key title description metadata dep_keys) d of
             (Inl e, d') \<Rightarrow> (Inl e, d')
           | (Inr _, d') \<Rightarrow> (fetch_task now auth key d', d')))"

record task_event_info =
  tv_event :: string
  tv_agent :: "string option"
  tv_detail :: "string option"
  tv_created_at :: time

definition get_task :: "time \<Rightarrow> auth_ctx \<Rightarrow> string \<Rightarrow> db \<Rightarrow> (task_info \<times> task_event_info list) res" where
  "get_task now auth key d = bindE (fetch_task now auth key d) (\<lambda>task.
     let ids = map ta_id (filter (task_key_is (au_team_id auth) (trim key)) (d_tasks d));
         rows = sort_key te_id (filter (\<lambda>e. te_task_id e \<in> set ids) (d_events d)) in
     Inr (task, map (\<lambda>e. \<lparr>tv_event = te_event e, tv_agent = Option.bind (te_agent_id e) (agent_name_of d),
                 tv_detail = te_detail e, tv_created_at = te_created_at e\<rparr>) rows))"

section \<open>Claims\<close>

datatype refusal =
    BlockedBy "string list"
  | OwnSession "string option" "int option"
  | HeldByOther string "string option" "int option"
  | TaskIs task_status
  | NothingToClaim

record claim_result =
  cr_claimed :: bool
  cr_task :: "task_info option"
  cr_reason :: "refusal option"

definition task_lease :: "int option \<Rightarrow> int" where
  "task_lease lease_seconds = clamp 30 MAX_LEASE_SECS (unwrap_or DEFAULT_LEASE_SECS lease_seconds)"

definition task_mine :: "auth_ctx \<Rightarrow> task_row \<Rightarrow> bool" where
  "task_mine auth t \<longleftrightarrow> ta_claimed_by t = Some (au_agent_id auth) \<and>
     coalesce_str (ta_claimed_session t) = au_session auth"

text \<open>A comparison with a NULL column is not true.\<close>

definition lease_before :: "task_row \<Rightarrow> time \<Rightarrow> bool" where
  "lease_before t now = (case ta_lease_expires_at t of None \<Rightarrow> False | Some e \<Rightarrow> e < now)"

definition claim_row :: "time \<Rightarrow> auth_ctx \<Rightarrow> int \<Rightarrow> task_row \<Rightarrow> task_row" where
  "claim_row now auth lease_s t = t\<lparr>ta_status := Claimed, ta_claimed_by := Some (au_agent_id auth),
     ta_claimed_session := Some (au_session auth), ta_claimed_at := Some now,
     ta_lease_expires_at := Some (now + secs lease_s), ta_updated_at := now\<rparr>"

definition claimable :: "time \<Rightarrow> auth_ctx \<Rightarrow> db \<Rightarrow> task_row \<Rightarrow> bool" where
  "claimable now auth d t \<longleftrightarrow> (ta_status t = Open \<or> ta_status t = Claimed) \<and>
     (ta_status t = Open \<or> task_mine auth t \<or> ta_lease_expires_at t = None \<or> lease_before t now) \<and>
     \<not> task_blocked d (ta_id t)"

definition holder_reason :: "auth_ctx \<Rightarrow> task_info \<Rightarrow> refusal" where
  "holder_reason auth current =
     (let mine = (ti_claimed_by current = Some (au_agent_name auth));
          same_session = (coalesce_str (ti_claimed_session current) = au_session auth) in
      if mine \<and> \<not> same_session
      then OwnSession (ti_claimed_session current) (ti_lease_seconds_remaining current)
      else HeldByOther (unwrap_or ''?'' (ti_claimed_by current)) (ti_claimed_session current)
             (ti_lease_seconds_remaining current))"

definition refusal_of :: "auth_ctx \<Rightarrow> task_info \<Rightarrow> refusal" where
  "refusal_of auth current =
     (if ti_blocked current then BlockedBy (ti_depends_on current)
      else if ti_status current = Claimed then holder_reason auth current
      else TaskIs (ti_status current))"

definition claim_task :: "time \<Rightarrow> auth_ctx \<Rightarrow> string \<Rightarrow> int option \<Rightarrow> db \<Rightarrow> claim_result res \<times> db" where
  "claim_task now auth key lease_seconds d = (case normalize_key key of
      Inl e \<Rightarrow> (Inl e, d)
    | Inr key \<Rightarrow>
        let lease_s = task_lease lease_seconds;
            (updated, d') = guarded now auth (\<lambda>d.
              let P = (\<lambda>t. task_key_is (au_team_id auth) key t \<and> claimable now auth d t) in
              case find P (d_tasks d) of
                None \<Rightarrow> Inr (None, d)
              | Some t \<Rightarrow> Inr (Some (ta_id t),
                  log_event now (ta_id t) (au_agent_id auth) ''claimed'' None
                    (d\<lparr>d_tasks := upd_where P (claim_row now auth lease_s) (d_tasks d)\<rparr>))) d in
        (bindE updated (\<lambda>u. case u of
            Some _ \<Rightarrow> bindE (fetch_task now auth key d')
              (\<lambda>task. Inr \<lparr>cr_claimed = True, cr_task = Some task, cr_reason = None\<rparr>)
          | None \<Rightarrow> bindE (fetch_task now auth key d')
              (\<lambda>current. Inr \<lparr>cr_claimed = False, cr_task = Some current,
                 cr_reason = Some (refusal_of auth current)\<rparr>)), d'))"

definition no_claim_here :: "time \<Rightarrow> auth_ctx \<Rightarrow> string \<Rightarrow> db \<Rightarrow> bus_error" where
  "no_claim_here now auth key d = (case fetch_task now auth key d of
      Inr current \<Rightarrow>
        if ti_status current = Claimed then Conflict ''you do not hold the claim: it is held''
        else if ti_lease_expired current \<and> ti_lapsed_holder current = Some (au_agent_name auth)
        then Conflict ''your lease lapsed''
        else Conflict ''you do not hold an active claim (it is in another state)''
    | Inl _ \<Rightarrow> Conflict ''you do not hold an active claim'')"

definition free_to_pick :: "time \<Rightarrow> auth_ctx \<Rightarrow> db \<Rightarrow> task_row \<Rightarrow> bool" where
  "free_to_pick now auth d t \<longleftrightarrow> ta_team_id t = au_team_id auth \<and>
     (ta_status t = Open \<or> (ta_status t = Claimed \<and> lease_before t now)) \<and>
     \<not> task_blocked d (ta_id t)"

definition candidate :: "time \<Rightarrow> auth_ctx \<Rightarrow> uuid list \<Rightarrow> db \<Rightarrow> task_row option" where
  "candidate now auth locked d = fetch_optional (sort_key ta_created_at
     (filter (\<lambda>t. free_to_pick now auth d t \<and> ta_id t \<notin> set locked) (d_tasks d)))"

definition claim_next_task ::
    "time \<Rightarrow> uuid list \<Rightarrow> auth_ctx \<Rightarrow> int option \<Rightarrow> db \<Rightarrow> claim_result res \<times> db" where
  "claim_next_task now locked auth lease_seconds d =
     (let lease_s = task_lease lease_seconds;
          (picked, d') = guarded now auth (\<lambda>d. case candidate now auth locked d of
              None \<Rightarrow> Inr (None, d)
            | Some c \<Rightarrow> Inr (Some (ta_key c),
                log_event now (ta_id c) (au_agent_id auth) ''claimed'' (Some ''via claim_next_task'')
                  (d\<lparr>d_tasks := upd_where (\<lambda>t. ta_id t = ta_id c) (claim_row now auth lease_s) (d_tasks d)\<rparr>))) d in
      (bindE picked (\<lambda>p. case p of
          Some key \<Rightarrow> bindE (fetch_task now auth key d')
            (\<lambda>task. Inr \<lparr>cr_claimed = True, cr_task = Some task, cr_reason = None\<rparr>)
        | None \<Rightarrow> Inr \<lparr>cr_claimed = False, cr_task = None, cr_reason = Some NothingToClaim\<rparr>), d'))"

text \<open>
  The shape renewing, releasing and completing share: a guarded update of the rows \<open>P\<close>, rolled back
  when it matches none, with an optional history entry; \<open>miss\<close> is the error then.
\<close>

definition update_task ::
    "time \<Rightarrow> auth_ctx \<Rightarrow> string \<Rightarrow> (task_row \<Rightarrow> bool) \<Rightarrow> (task_row \<Rightarrow> task_row)
     \<Rightarrow> (string \<times> string option) option \<Rightarrow> (db \<Rightarrow> bus_error) \<Rightarrow> db \<Rightarrow> task_info res \<times> db" where
  "update_task now auth key P f event miss d =
     (let (updated, d') = guarded now auth (\<lambda>d.
        case find (\<lambda>t. task_key_is (au_team_id auth) key t \<and> P t) (d_tasks d) of
          None \<Rightarrow> Inr (False, d)
        | Some t \<Rightarrow>
            let d = d\<lparr>d_tasks := upd_where (\<lambda>t. task_key_is (au_team_id auth) key t \<and> P t) f (d_tasks d)\<rparr> in
            Inr (True, case event of None \<Rightarrow> d
              | Some (name, detail) \<Rightarrow> log_event now (ta_id t) (au_agent_id auth) name detail d)) d in
      (bindE updated (\<lambda>u. if u then fetch_task now auth key d' else Inl (miss d')), d'))"

definition renew_lease :: "time \<Rightarrow> auth_ctx \<Rightarrow> string \<Rightarrow> int option \<Rightarrow> db \<Rightarrow> task_info res \<times> db" where
  "renew_lease now auth key lease_seconds d = (case normalize_key key of
      Inl e \<Rightarrow> (Inl e, d)
    | Inr key \<Rightarrow>
        update_task now auth key
          (\<lambda>t. task_mine auth t \<and> ta_status t = Claimed \<and>
               (case ta_lease_expires_at t of None \<Rightarrow> False | Some e \<Rightarrow> now < e))
          (\<lambda>t. t\<lparr>ta_lease_expires_at := Some (now + secs (task_lease lease_seconds)), ta_updated_at := now\<rparr>)
          None (no_claim_here now auth key) d)"

definition release_task :: "time \<Rightarrow> auth_ctx \<Rightarrow> string \<Rightarrow> db \<Rightarrow> task_info res \<times> db" where
  "release_task now auth key d = (case normalize_key key of
      Inl e \<Rightarrow> (Inl e, d)
    | Inr key \<Rightarrow>
        update_task now auth key (\<lambda>t. task_mine auth t \<and> ta_status t = Claimed)
          (\<lambda>t. t\<lparr>ta_status := Open, ta_claimed_by := None, ta_claimed_session := None,
             ta_claimed_at := None, ta_lease_expires_at := None, ta_updated_at := now\<rparr>)
          (Some (''released'', None)) (no_claim_here now auth key) d)"

definition completable :: "time \<Rightarrow> auth_ctx \<Rightarrow> task_row \<Rightarrow> bool" where
  "completable now auth t \<longleftrightarrow> (ta_status t = Open \<or> ta_status t = Claimed) \<and>
     (ta_claimed_by t = None \<or>
      (case ta_lease_expires_at t of None \<Rightarrow> True | Some e \<Rightarrow> e \<le> now) \<or> task_mine auth t)"

definition not_completed :: "time \<Rightarrow> auth_ctx \<Rightarrow> string \<Rightarrow> db \<Rightarrow> bus_error" where
  "not_completed now auth key d = (case fetch_task now auth key d of
      Inl e \<Rightarrow> e
    | Inr current \<Rightarrow>
        if ti_status current = Claimed then Conflict ''completing it would end work somebody else is doing''
        else Conflict ''the task is already over'')"

definition complete_task :: "time \<Rightarrow> auth_ctx \<Rightarrow> string \<Rightarrow> string option \<Rightarrow> db \<Rightarrow> task_info res \<times> db" where
  "complete_task now auth key result d =
     (case bindE (normalize_key key) (\<lambda>key.
             bindE (traverse_opt (\<lambda>r. check_text r MAX_RESULT_BYTES) result) (\<lambda>result. Inr (key, result))) of
        Inl e \<Rightarrow> (Inl e, d)
      | Inr (key, result) \<Rightarrow>
          update_task now auth key (completable now auth)
            (\<lambda>t. t\<lparr>ta_status := Done, ta_result := result, ta_lease_expires_at := None, ta_updated_at := now\<rparr>)
            (Some (''completed'', result)) (not_completed now auth key) d)"


section \<open>The life of a task\<close>

text \<open>
  The state machine of one row: what the request of window \<open>w\<close> at \<open>now\<close> may do to it; \<open>b\<close> says
  whether a dependency is unfinished. Nothing leaves \<open>Done\<close> or \<open>Cancelled\<close>.
\<close>

type_synonym window = "uuid \<times> string"

definition held_by_window :: "window \<Rightarrow> task_row \<Rightarrow> bool" where
  "held_by_window w t \<longleftrightarrow> ta_claimed_by t = Some (fst w) \<and> coalesce_str (ta_claimed_session t) = snd w"

inductive row_step :: "time \<Rightarrow> window \<Rightarrow> bool \<Rightarrow> task_row \<Rightarrow> task_row \<Rightarrow> bool" where
  claim: "\<not> b \<Longrightarrow> ta_status t = Open \<or> ta_status t = Claimed \<and>
      (held_by_window w t \<or> ta_lease_expires_at t = None \<or> lease_before t now) \<Longrightarrow> now \<le> e \<Longrightarrow>
    row_step now w b t (t\<lparr>ta_status := Claimed, ta_claimed_by := Some (fst w),
      ta_claimed_session := Some (snd w), ta_claimed_at := Some now, ta_lease_expires_at := Some e,
      ta_updated_at := now\<rparr>)"
| renew: "ta_status t = Claimed \<Longrightarrow> held_by_window w t \<Longrightarrow> ta_lease_expires_at t = Some e' \<Longrightarrow> now < e' \<Longrightarrow>
    now \<le> e \<Longrightarrow> row_step now w b t (t\<lparr>ta_lease_expires_at := Some e, ta_updated_at := now\<rparr>)"
| release: "ta_status t = Claimed \<Longrightarrow> held_by_window w t \<Longrightarrow>
    row_step now w b t (t\<lparr>ta_status := Open, ta_claimed_by := None, ta_claimed_session := None,
      ta_claimed_at := None, ta_lease_expires_at := None, ta_updated_at := now\<rparr>)"
| complete: "ta_status t = Open \<or> ta_status t = Claimed \<and>
      (held_by_window w t \<or> ta_claimed_by t = None \<or>
       (case ta_lease_expires_at t of None \<Rightarrow> True | Some e \<Rightarrow> e \<le> now)) \<Longrightarrow>
    row_step now w b t (t\<lparr>ta_status := Done, ta_result := r, ta_lease_expires_at := None,
      ta_updated_at := now\<rparr>)"

inductive_cases row_stepE: "row_step now w b t t'"

definition row_key :: "task_row \<Rightarrow> uuid \<times> uuid \<times> string" where
  "row_key t = (ta_id t, ta_team_id t, ta_key t)"

definition row_wf :: "task_row \<Rightarrow> bool" where
  "row_wf t \<longleftrightarrow> ta_key t \<noteq> [] \<and> length (ta_key t) \<le> 128 \<and> trimmed (ta_key t) \<and>
     (ta_status t = Open \<longrightarrow> ta_claimed_by t = None \<and> ta_lease_expires_at t = None) \<and>
     (ta_status t = Claimed \<longrightarrow> ta_claimed_by t \<noteq> None \<and> ta_lease_expires_at t \<noteq> None) \<and>
     (finished (ta_status t) \<longrightarrow> ta_lease_expires_at t = None)"

definition row_held :: "task_row \<Rightarrow> (window \<times> time) option" where
  "row_held t = (case (ta_status t, ta_claimed_by t, ta_lease_expires_at t) of
      (Claimed, Some a, Some e) \<Rightarrow> Some ((a, coalesce_str (ta_claimed_session t)), e)
    | _ \<Rightarrow> None)"

lemma row_step_key: "row_step now w b t t' \<Longrightarrow> row_key t' = row_key t"
  by (erule row_stepE) (simp_all add: row_key_def)

lemma row_step_wf: "row_step now w b t t' \<Longrightarrow> row_wf t \<Longrightarrow> row_wf t'"
  by (erule row_stepE) (auto simp: row_wf_def finished_def)

lemma row_step_final: "finished (ta_status t) \<Longrightarrow> \<not> row_step now w b t t'"
  by (auto simp: finished_def elim!: row_stepE)

lemma row_step_lease: "row_held t = Some (w', e) \<Longrightarrow> now < e \<Longrightarrow> w \<noteq> w' \<Longrightarrow> \<not> row_step now w b t t'"
  by (auto simp: row_held_def held_by_window_def lease_before_def elim!: row_stepE
      split: task_status.splits option.splits)

text \<open>A step of the whole list: a new task whose dependencies exist already, or a step of some rows.\<close>

definition blocked_in :: "task_row list \<Rightarrow> (uuid \<times> uuid) list \<Rightarrow> uuid \<Rightarrow> bool" where
  "blocked_in ts ds i \<longleftrightarrow> (\<exists>t \<in> set ts. (i, ta_id t) \<in> set ds \<and> \<not> finished (ta_status t))"

inductive task_step ::
    "time \<Rightarrow> window \<Rightarrow> task_row list \<times> (uuid \<times> uuid) list \<Rightarrow> task_row list \<times> (uuid \<times> uuid) list \<Rightarrow> bool" where
  task_unchanged: "task_step now w s s"
| task_created: "\<forall>t \<in> set ts. ta_id t \<noteq> ta_id r \<and> (ta_team_id t, ta_key t) \<noteq> (ta_team_id r, ta_key r) \<Longrightarrow>
    row_wf r \<Longrightarrow> ta_status r = Open \<Longrightarrow>
    \<forall>b \<in> set bs. \<exists>t \<in> set ts. ta_id t = b \<and> ta_team_id t = ta_team_id r \<Longrightarrow>
    task_step now w (ts, ds) (ts @ [r], ds @ map (\<lambda>b. (ta_id r, b)) bs)"
| task_changed: "\<forall>t \<in> set ts. P t \<longrightarrow> row_step now w (blocked_in ts ds (ta_id t)) t (f t) \<Longrightarrow>
    task_step now w (ts, ds) (upd_where P f ts, ds)"

definition deps_ok :: "(uuid \<times> uuid) list \<Rightarrow> (uuid \<times> uuid) list \<Rightarrow> bool" where
  "deps_ok ids ds \<longleftrightarrow> (\<forall>(a, b) \<in> set ds. \<exists>xs ys team. ids = xs @ (a, team) # ys \<and> (b, team) \<in> set xs)"

definition list_wf :: "task_row list \<times> (uuid \<times> uuid) list \<Rightarrow> bool" where
  "list_wf s \<longleftrightarrow> (case s of (ts, ds) \<Rightarrow>
     distinct (map ta_id ts) \<and> distinct (map (\<lambda>t. (ta_team_id t, ta_key t)) ts) \<and>
     (\<forall>t \<in> set ts. row_wf t) \<and> deps_ok (map (\<lambda>t. (ta_id t, ta_team_id t)) ts) ds)"

definition tasks_wf :: "db \<Rightarrow> bool" where
  "tasks_wf d \<longleftrightarrow> list_wf (d_tasks d, d_deps d)"

lemma task_changed_keys:
  assumes "\<forall>t \<in> set ts. P t \<longrightarrow> row_step now w (B t) t (f t)"
  shows "map row_key (upd_where P f ts) = map row_key ts"
  using assms by (intro map_upd_where_set) (blast intro: row_step_key)

lemma map_of_row_key:
  "map row_key ts = map row_key ts' \<Longrightarrow> map ta_id ts = map ta_id ts'"
  "map row_key ts = map row_key ts' \<Longrightarrow> map (\<lambda>t. (ta_team_id t, ta_key t)) ts = map (\<lambda>t. (ta_team_id t, ta_key t)) ts'"
  "map row_key ts = map row_key ts' \<Longrightarrow> map (\<lambda>t. (ta_id t, ta_team_id t)) ts = map (\<lambda>t. (ta_id t, ta_team_id t)) ts'"
  by (auto simp: row_key_def list_eq_iff_nth_eq)

lemma deps_ok_append: "deps_ok ids ds \<Longrightarrow> deps_ok (ids @ [x]) ds"
  by (fastforce simp: deps_ok_def)

lemma deps_ok_new:
  "deps_ok ids ds \<Longrightarrow> \<forall>b \<in> set bs. (b, team) \<in> set ids \<Longrightarrow>
   deps_ok (ids @ [(a, team)]) (ds @ map (\<lambda>b. (a, b)) bs)"
  using deps_ok_append [of ids ds "(a, team)"] by (fastforce simp: deps_ok_def)

lemma task_step_wf: "task_step now w s s' \<Longrightarrow> list_wf s \<Longrightarrow> list_wf s'"
proof (induction rule: task_step.induct)
  case (task_created ts r bs now w ds)
  have "deps_ok (map (\<lambda>t. (ta_id t, ta_team_id t)) ts @ [(ta_id r, ta_team_id r)])
      (ds @ map (\<lambda>b. (ta_id r, b)) bs)"
    using task_created by (intro deps_ok_new) (force simp: list_wf_def)+
  with task_created show ?case by (auto simp: list_wf_def)
next
  case (task_changed ts P now w ds f)
  note keys = map_of_row_key [OF task_changed_keys [OF task_changed(1)]]
  have "\<forall>t \<in> set (upd_where P f ts). row_wf t"
    using task_changed by (auto simp: list_wf_def tbl intro: row_step_wf)
  with task_changed(2) keys show ?case by (simp add: list_wf_def)
qed


section \<open>The operations refine the life of a task\<close>

definition task_state :: "db \<Rightarrow> task_row list \<times> (uuid \<times> uuid) list" where
  "task_state d = (d_tasks d, d_deps d)"

lemma task_blocked_in: "task_blocked d i = blocked_in (d_tasks d) (d_deps d) i"
  by (auto simp: task_blocked_def blocked_in_def upstream_def exists_row_def)

lemma task_mine_window: "task_mine auth t = held_by_window (window_of auth) t"
  by (simp add: task_mine_def held_by_window_def window_of_def)

lemma log_event_state [simp]: "task_state (log_event now i a ev det d) = task_state d"
  by (simp add: log_event_def task_state_def)

lemma log_event_other [simp]:
  "d_tasks (log_event now i a ev det d) = d_tasks d" "d_sessions (log_event now i a ev det d) = d_sessions d"
  by (simp_all add: log_event_def)

lemma task_lease_bounds: "30 \<le> task_lease s \<and> task_lease s \<le> MAX_LEASE_SECS"
  using clamp_bounds [of 30 MAX_LEASE_SECS] by (simp add: task_lease_def MAX_LEASE_SECS_def)

lemma task_lease_ahead [simp]: "0 \<le> secs (task_lease s)"
  using task_lease_bounds [of s] by (simp add: secs_def)

lemma row_step_claim_row:
  assumes "\<not> b" and "ta_status t = Open \<or> ta_status t = Claimed \<and>
      (task_mine auth t \<or> ta_lease_expires_at t = None \<or> lease_before t now)"
  shows "row_step now (window_of auth) b t (claim_row now auth (task_lease s) t)"
  using row_step.claim [of b t "window_of auth" now "now + secs (task_lease s)"] assms task_lease_ahead
  by (simp add: claim_row_def window_of_def task_mine_window)

lemma guarded_task_step:
  assumes "\<And>x d'. body d = Inr (x, d') \<Longrightarrow> task_step now w (task_state d) (task_state d')"
  shows "task_step now w (task_state d) (task_state (snd (guarded now auth body d)))"
  using assms
  by (cases rule: transact_cases [of body d]) (auto simp: guarded_state task_unchanged)

lemma claim_task_refines:
  "task_step now (window_of auth) (task_state d) (task_state (snd (claim_task now auth key s d)))"
proof (cases "normalize_key key")
  case (Inl e)
  then show ?thesis by (simp add: claim_task_def task_unchanged)
next
  case (Inr k)
  have step: "task_step now (window_of auth) (task_state d)
      (upd_where (\<lambda>t. task_key_is (au_team_id auth) k t \<and> claimable now auth d t)
        (claim_row now auth (task_lease s)) (d_tasks d), d_deps d)"
    unfolding task_state_def
    by (rule task_changed) (auto simp: claimable_def task_blocked_in intro!: row_step_claim_row)
  with Inr show ?thesis
    by (auto simp: claim_task_def Let_def split_beta task_unchanged intro!: guarded_task_step
        split: option.splits) (simp_all add: task_state_def task_unchanged)
qed

lemma claim_next_task_refines:
  assumes "distinct (map ta_id (d_tasks d))"
  shows "task_step now (window_of auth) (task_state d)
    (task_state (snd (claim_next_task now locked auth s d)))"
proof -
  have step: "task_step now (window_of auth) (task_state d)
      (upd_where (\<lambda>t. ta_id t = ta_id c) (claim_row now auth (task_lease s)) (d_tasks d), d_deps d)"
    if "candidate now auth locked d = Some c" for c
  proof -
    have c: "c \<in> set (d_tasks d)" "free_to_pick now auth d c"
      using fetch_optional_sort [OF that [unfolded candidate_def]] by auto
    have "t = c" if "t \<in> set (d_tasks d)" "ta_id t = ta_id c" for t
      using assms that c(1) by (metis distinct_map_inj)
    with c(2) show ?thesis
      unfolding task_state_def
      by (intro task_changed) (auto simp: free_to_pick_def task_blocked_in intro!: row_step_claim_row)
  qed
  then show ?thesis
    by (auto simp: claim_next_task_def Let_def split_beta task_unchanged intro!: guarded_task_step
        split: option.splits) (simp_all add: task_state_def task_unchanged)
qed

lemma update_task_refines:
  assumes "\<And>b t. P t \<Longrightarrow> row_step now (window_of auth) b t (f t)"
  shows "task_step now (window_of auth) (task_state d)
    (task_state (snd (update_task now auth key P f event miss d)))"
proof -
  have "task_step now (window_of auth) (task_state d)
      (upd_where (\<lambda>t. task_key_is (au_team_id auth) key t \<and> P t) f (d_tasks d), d_deps d)"
    unfolding task_state_def by (rule task_changed) (simp add: assms)
  then show ?thesis
    by (auto simp: update_task_def Let_def split_beta task_unchanged intro!: guarded_task_step
        split: option.splits) (simp_all add: task_state_def task_unchanged)
qed

lemma renew_lease_refines:
  "task_step now (window_of auth) (task_state d) (task_state (snd (renew_lease now auth key s d)))"
  by (auto simp: renew_lease_def task_unchanged task_mine_window task_lease_ahead
      intro!: update_task_refines row_step.renew split: sum.split option.splits)

lemma release_task_refines:
  "task_step now (window_of auth) (task_state d) (task_state (snd (release_task now auth key d)))"
  by (auto simp: release_task_def task_unchanged task_mine_window
      intro!: update_task_refines row_step.release split: sum.split)

lemma complete_task_refines:
  "task_step now (window_of auth) (task_state d) (task_state (snd (complete_task now auth key r d)))"
  by (auto simp: complete_task_def task_unchanged completable_def task_mine_window
      intro!: update_task_refines row_step.complete split: sum.split)


lemma normalize_key_Inr: "normalize_key raw = Inr k \<longleftrightarrow> k = trim raw \<and> k \<noteq> [] \<and> length k \<le> 128"
  by (auto simp: normalize_key_def Let_def)

lemma resolve_dep_sound: "resolve_dep auth d k = Inr i \<Longrightarrow> \<exists>t \<in> set (d_tasks d). ta_id t = i \<and> task_key_is (au_team_id auth) k t"
  by (auto simp: resolve_dep_def ok_or_eq_Inr dest!: find_SomeD)

lemma traverse_set: "traverse f xs = Inr ys \<Longrightarrow> y \<in> set ys \<Longrightarrow> \<exists>x \<in> set xs. f x = Inr y"
  by (force simp: traverse_eq_Inr in_set_conv_nth)

lemma create_task_tx_step:
  assumes r: "create_task_tx now i auth key title desc md deps d = Inr (x, d')"
    and k: "key \<noteq> []" "length key \<le> 128" "trimmed key" and self: "key \<notin> set deps"
  shows "task_step now w (task_state d) (task_state d')"
proof -
  let ?r = "\<lparr>ta_id = i, ta_team_id = au_team_id auth, ta_key = key, ta_title = title,
          ta_description = desc, ta_status = Open, ta_claimed_by = None,
          ta_claimed_session = None, ta_claimed_at = None, ta_lease_expires_at = None,
          ta_result = None, ta_metadata = md, ta_created_by = Some (au_agent_id auth),
          ta_created_at = now, ta_updated_at = now\<rparr>"
  let ?d = "d\<lparr>d_tasks := d_tasks d @ [?r]\<rparr>"
  obtain ids where fresh: "\<not> exists_row (task_key_is (au_team_id auth) key) (d_tasks d)"
      "\<not> exists_row (\<lambda>t. ta_id t = i) (d_tasks d)"
    and ids: "traverse (resolve_dep auth ?d) deps = Inr ids"
    and d': "task_state d' = (d_tasks d @ [?r], d_deps d @ map (\<lambda>b. (i, b)) (remdups (sort ids)))"
    using r by (auto simp: create_task_tx_def insert_task_def bindE_eq_Inr Let_def task_state_def log_event_def
        split: if_splits)
  have "\<exists>t \<in> set (d_tasks d). ta_id t = b \<and> ta_team_id t = au_team_id auth" if b: "b \<in> set ids" for b
  proof -
    obtain dk where dk: "dk \<in> set deps" "resolve_dep auth ?d dk = Inr b"
      using traverse_set [OF ids b] by auto
    then show ?thesis using resolve_dep_sound [OF dk(2)] self by (auto simp: task_key_is_def)
  qed
  then have "task_step now w (d_tasks d, d_deps d)
      (d_tasks d @ [?r], d_deps d @ map (\<lambda>b. (i, b)) (remdups (sort ids)))"
    using task_created [of "d_tasks d" ?r "remdups (sort ids)" now w "d_deps d"] fresh k
    by (auto simp: exists_row_def task_key_is_def row_wf_def finished_def)
  then show ?thesis unfolding d' by (simp add: task_state_def)
qed

lemma check_dep_not_self: "check_dep key dk = Inr y \<Longrightarrow> y \<noteq> key"
  by (auto simp: check_dep_def bindE_eq_Inr split: if_splits)

lemma create_task_refines: "task_step now w (task_state d) (task_state (snd (create_task X now i auth input d)))"
proof (cases "snd (create_task X now i auth input d) = d")
  case True
  then show ?thesis by (simp add: task_unchanged)
next
  case False
  then obtain key title desc md deps x where k: "normalize_key (ci_key input) = Inr key"
    and deps: "traverse (check_dep key) (ci_depends_on input) = Inr deps"
    and tx: "create_task_tx now i auth key title desc md deps d = Inr (x, snd (create_task X now i auth input d))"
    by (auto simp: create_task_def Let_def transact_def bindE_eq_Inr split: sum.splits if_splits)
  have "key \<notin> set deps" using traverse_set [OF deps] check_dep_not_self by blast
  then show ?thesis
    using create_task_tx_step [OF tx, where w = w] k by (auto simp: normalize_key_Inr)
qed

section \<open>Runs of task operations\<close>

datatype task_req =
    CreateTaskReq ext time uuid auth_ctx create_input
  | ClaimReq time auth_ctx string "int option"
  | ClaimNextReq time "uuid list" auth_ctx "int option"
  | RenewLeaseReq time auth_ctx string "int option"
  | ReleaseTaskReq time auth_ctx string
  | CompleteReq time auth_ctx string "string option"

fun task_exec :: "task_req \<Rightarrow> db \<Rightarrow> db" where
  "task_exec (CreateTaskReq X now i auth input) d = snd (create_task X now i auth input d)"
| "task_exec (ClaimReq now auth key s) d = snd (claim_task now auth key s d)"
| "task_exec (ClaimNextReq now locked auth s) d = snd (claim_next_task now locked auth s d)"
| "task_exec (RenewLeaseReq now auth key s) d = snd (renew_lease now auth key s d)"
| "task_exec (ReleaseTaskReq now auth key) d = snd (release_task now auth key d)"
| "task_exec (CompleteReq now auth key r) d = snd (complete_task now auth key r d)"

fun task_auth :: "task_req \<Rightarrow> auth_ctx" where
  "task_auth (CreateTaskReq X now i auth input) = auth"
| "task_auth (ClaimReq now auth key s) = auth"
| "task_auth (ClaimNextReq now locked auth s) = auth"
| "task_auth (RenewLeaseReq now auth key s) = auth"
| "task_auth (ReleaseTaskReq now auth key) = auth"
| "task_auth (CompleteReq now auth key r) = auth"

fun task_time :: "task_req \<Rightarrow> time" where
  "task_time (CreateTaskReq X now i auth input) = now"
| "task_time (ClaimReq now auth key s) = now"
| "task_time (ClaimNextReq now locked auth s) = now"
| "task_time (RenewLeaseReq now auth key s) = now"
| "task_time (ReleaseTaskReq now auth key) = now"
| "task_time (CompleteReq now auth key r) = now"

lemmas task_op_refines = create_task_refines claim_task_refines renew_lease_refines
  release_task_refines complete_task_refines

lemma tasks_wf_ids: "tasks_wf d \<Longrightarrow> distinct (map ta_id (d_tasks d))"
  by (simp add: tasks_wf_def list_wf_def)

lemma task_exec_refines:
  "tasks_wf d \<Longrightarrow> task_step (task_time q) (window_of (task_auth q)) (task_state d) (task_state (task_exec q d))"
  by (cases q) (simp_all add: task_op_refines claim_next_task_refines tasks_wf_ids)

definition task_held :: "db \<Rightarrow> uuid \<times> string \<Rightarrow> (window \<times> time) option" where
  "task_held d k = Option.bind (find (task_key_is (fst k) (snd k)) (d_tasks d)) row_held"

lemma find_upd_where_set:
  "find Q rows = Some z \<Longrightarrow> (\<And>r. r \<in> set rows \<Longrightarrow> P r \<Longrightarrow> Q (f r) = Q r) \<Longrightarrow>
   find Q (upd_where P f rows) = Some (if P z then f z else z)"
  by (induction rows) (auto split: if_splits)

lemma task_step_find:
  assumes "task_step now w (task_state d) (task_state d')"
    and "find (task_key_is team key) (d_tasks d) = Some t"
  shows "\<exists>t' b. find (task_key_is team key) (d_tasks d') = Some t' \<and> (t' = t \<or> row_step now w b t t')"
  using assms(1)
proof (cases rule: task_step.cases)
  case (task_created ts r bs ds)
  with assms(2) show ?thesis by (simp add: task_state_def find_append)
next
  case (task_changed ts P ds f)
  then have "find (task_key_is team key) (d_tasks d') = Some (if P t then f t else t)"
    using find_upd_where_set [OF assms(2), of P f] row_step_key
    by (fastforce simp: task_state_def task_key_is_def row_key_def)
  with task_changed assms(2) show ?thesis
    using find_SomeD [OF assms(2)] by (auto simp: task_state_def)
qed (use assms(2) in \<open>auto simp: task_state_def\<close>)

interpretation tasks: lease task_exec tasks_wf task_held "\<lambda>q. window_of (task_auth q)" "\<lambda>q e. task_time q < e"
proof
  fix d :: db and q
  assume "tasks_wf d"
  with task_step_wf [OF task_exec_refines] show "tasks_wf (task_exec q d)"
    by (simp add: tasks_wf_def task_state_def)
next
  fix d :: db and k w e q
  assume wf: "tasks_wf d" and h: "task_held d k = Some (w, e)" and t: "task_time q < e"
    and a: "window_of (task_auth q) \<noteq> w"
  obtain t where f: "find (task_key_is (fst k) (snd k)) (d_tasks d) = Some t" and r: "row_held t = Some (w, e)"
    using h by (auto simp: task_held_def bind_eq_Some_conv)
  from task_step_find [OF task_exec_refines [OF wf] f] row_step_lease [OF r] t a
  have "find (task_key_is (fst k) (snd k)) (d_tasks (task_exec q d)) = Some t" by blast
  with r show "task_held (task_exec q d) k = Some (w, e)" by (simp add: task_held_def)
qed


section \<open>What a claim that succeeded shows\<close>

lemma claim_task_result:
  assumes "claim_task now auth key s d = (Inr res, d')"
  shows "\<exists>k. normalize_key key = Inr k \<and> guard now auth d = Inr () \<and>
    (cr_claimed res \<longrightarrow> (\<exists>t. t \<in> set (d_tasks d) \<and> task_key_is (au_team_id auth) k t \<and> claimable now auth d t)) \<and>
    (\<not> cr_claimed res \<longrightarrow> d' = d \<and> (\<forall>t \<in> set (d_tasks d). task_key_is (au_team_id auth) k t \<longrightarrow> \<not> claimable now auth d t))"
  using assms
  by (cases rule: guard_cases [of now auth d])
     (auto simp: claim_task_def guarded_passed guarded_refused transact_def Let_def bindE_eq_Inr find_None_set
       split: sum.splits option.splits dest: find_SomeD)

lemma claimed_row:
  assumes "tasks_wf d" and "t \<in> set (d_tasks d)" and "task_key_is team key t"
  shows "find (task_key_is team key) (d_tasks d) = Some t"
proof -
  have "find (\<lambda>x. (ta_team_id x, ta_key x) = (ta_team_id t, ta_key t)) (d_tasks d) = Some t"
    using assms(1,2) by (intro find_unique) (simp_all add: tasks_wf_def list_wf_def)
  moreover have "task_key_is team key = (\<lambda>x. (ta_team_id x, ta_key x) = (ta_team_id t, ta_key t))"
    using assms(3) by (auto simp: task_key_is_def)
  ultimately show ?thesis by simp
qed

text \<open>While somebody else's lease is live, neither a claim nor a completion finds a row to change.\<close>

lemma held_not_claimable:
  assumes "tasks_wf d" and "task_held d (au_team_id auth, k) = Some (w, e)" and "now < e"
    and "window_of auth \<noteq> w" and "t \<in> set (d_tasks d)" and "task_key_is (au_team_id auth) k t"
  shows "\<not> claimable now auth d t \<and> \<not> completable now auth t \<and> \<not> task_mine auth t"
proof -
  have "row_held t = Some (w, e)"
    using assms(2) claimed_row [OF assms(1,5,6)] by (simp add: task_held_def)
  with assms(3,4) show ?thesis
    by (auto simp: claimable_def completable_def row_held_def lease_before_def task_mine_def window_of_def
        split: task_status.splits option.splits)
qed

lemma update_task_miss:
  assumes "\<forall>t \<in> set (d_tasks d). task_key_is (au_team_id auth) k t \<longrightarrow> \<not> P t"
  shows "\<exists>e. update_task now auth k P f ev miss d = (Inl e, d)"
proof -
  have "find (\<lambda>t. task_key_is (au_team_id auth) k t \<and> P t) (d_tasks d) = None"
    using assms by (auto simp: find_None_set)
  then show ?thesis
    by (cases rule: guard_cases [of now auth d])
       (auto simp: update_task_def guarded_passed guarded_refused transact_def)
qed

section \<open>Properties\<close>



text \<open>The demo list: task \<open>a\<close> is claimed by \<open>ana/api\<close> until 50, task \<open>b\<close> depends on it.\<close>

definition demo_claimed :: db where
  "demo_claimed = demo_db\<lparr>d_tasks := [(demo_task 1 ''a'')\<lparr>ta_status := Claimed, ta_claimed_by := Some 10,
     ta_claimed_session := Some ''api'', ta_lease_expires_at := Some 50\<rparr>, demo_task 2 ''b'']\<rparr>"

lemma trimmed_letters: "trimmed ''a''" "trimmed ''b''"
  by code_simp+

lemma demo_tasks_wf: "tasks_wf demo_db" "tasks_wf demo_claimed"
proof -
  have "deps_ok [(1, 1)] []" by (simp add: deps_ok_def)
  from deps_ok_new [OF this, of "[1]" 1 2] have "deps_ok [(1, 1), (2, 1)] [(2, 1)]" by simp
  then show "tasks_wf demo_db" "tasks_wf demo_claimed"
    using trimmed_letters
    by (simp_all add: tasks_wf_def list_wf_def row_wf_def finished_def demo_claimed_def demo_defs)
qed


lemma deps_ok_earlier:
  assumes "deps_ok ids ds" and "distinct (map fst ids)" and "(a, b) \<in> set ds"
  shows "length (takeWhile (\<lambda>p. fst p \<noteq> b) ids) < length (takeWhile (\<lambda>p. fst p \<noteq> a) ids)"
proof -
  obtain xs ys team where ids: "ids = xs @ (a, team) # ys" and b: "(b, team) \<in> set xs"
    using assms(1,3) by (auto simp: deps_ok_def)
  have a: "takeWhile (\<lambda>p. fst p \<noteq> a) ids = xs"
    using assms(2) unfolding ids by (subst takeWhile_append2) (auto simp: rev_image_eqI)
  have "length (takeWhile (\<lambda>p. fst p \<noteq> b) xs) < length xs"
    using b by (metis (mono_tags, lifting) fst_conv le_neq_implies_less length_takeWhile_le
        takeWhile_eq_take set_takeWhileD take_all_iff le_refl)
  moreover have "takeWhile (\<lambda>p. fst p \<noteq> b) ids = takeWhile (\<lambda>p. fst p \<noteq> b) xs"
    using b unfolding ids by (intro takeWhile_append1 [of "(b, team)"]) auto
  ultimately show ?thesis using a by simp
qed

definition task_position :: "db \<Rightarrow> uuid \<Rightarrow> nat" where
  "task_position d i = length (takeWhile (\<lambda>p. fst p \<noteq> i) (map (\<lambda>t. (ta_id t, ta_team_id t)) (d_tasks d)))"

lemma deps_go_back: "tasks_wf d \<Longrightarrow> (a, b) \<in> set (d_deps d) \<Longrightarrow> task_position d b < task_position d a"
  unfolding task_position_def
  by (rule deps_ok_earlier) (auto simp: tasks_wf_def list_wf_def comp_def)

lemma deps_acyclic: "tasks_wf d \<Longrightarrow> acyclic (set (d_deps d))"
proof -
  assume "tasks_wf d"
  then have "(set (d_deps d))\<inverse> \<subseteq> measure (task_position d)"
    by (auto dest: deps_go_back)
  then have "wf ((set (d_deps d))\<inverse>)" by (rule wf_subset [OF wf_measure])
  then show ?thesis by (metis acyclic_converse wf_acyclic)
qed

text \<open>C33: every sequence of task operations keeps the list well formed: keys and ids unique, a claim
  always with a holder and a deadline, an open task with neither, and every dependency pointing at an
  earlier task of the same team; so the dependency graph is acyclic in every reachable state.\<close>

theorem task_list_stays_wf:
  assumes "tasks_wf d"
  shows "tasks_wf (runs task_exec qs d) \<and> acyclic (set (d_deps (runs task_exec qs d)))"
  using assms tasks.invar_runs deps_acyclic by blast

theorem task_list_stays_wf_witness:
  "acyclic (set (d_deps (runs task_exec [CreateTaskReq demo_ext 5 3 bo \<lparr>ci_key = ''c'', ci_title = ''t'',
      ci_description = None, ci_metadata = None, ci_depends_on = [''b'']\<rparr>] demo_db)))"
  using task_list_stays_wf [OF demo_tasks_wf(1)] by blast

lemma claimable_unblocked:
  "\<not> task_blocked d i \<longleftrightarrow> (\<forall>u \<in> set (d_tasks d). (i, ta_id u) \<in> set (d_deps d) \<longrightarrow> finished (ta_status u))"
  by (auto simp: task_blocked_in blocked_in_def)

lemma claim_next_task_result:
  assumes "claim_next_task now locked auth s d = (Inr res, d')"
  shows "guard now auth d = Inr () \<and>
    (case candidate now auth locked d of
       None \<Rightarrow> \<not> cr_claimed res \<and> d' = d
     | Some c \<Rightarrow> cr_claimed res \<and>
         d_tasks d' = upd_where (\<lambda>t. ta_id t = ta_id c) (claim_row now auth (task_lease s)) (d_tasks d))"
  using assms
  by (cases rule: guard_cases [of now auth d])
     (auto simp: claim_next_task_def guarded_passed guarded_refused transact_def Let_def bindE_eq_Inr
       split: option.splits)

text \<open>The dependency gate. Whatever claims a task, by name or by picking the next, every task it
  depends on was done or cancelled at that moment.\<close>

theorem claims_respect_dependencies:
  assumes "claim_task now auth key s d = (Inr res, d') \<or> claim_next_task now locked auth s d = (Inr res, d')"
    and "cr_claimed res"
  shows "\<exists>t \<in> set (d_tasks d). ta_team_id t = au_team_id auth \<and> \<not> finished (ta_status t) \<and>
    (\<forall>u \<in> set (d_tasks d). (ta_id t, ta_id u) \<in> set (d_deps d) \<longrightarrow> finished (ta_status u))"
  using assms(1)
proof
  assume "claim_task now auth key s d = (Inr res, d')"
  from claim_task_result [OF this] assms(2) show ?thesis
    by (auto simp: claimable_def task_key_is_def claimable_unblocked finished_def)
next
  assume r: "claim_next_task now locked auth s d = (Inr res, d')"
  then obtain c where "candidate now auth locked d = Some c"
    using claim_next_task_result [OF r] assms(2) by (auto split: option.splits)
  from fetch_optional_sort [OF this [unfolded candidate_def]] show ?thesis
    by (auto simp: free_to_pick_def claimable_unblocked finished_def)
qed

theorem claims_respect_dependencies_witness:
  "\<exists>t \<in> set (d_tasks demo_db). ta_team_id t = 1 \<and> \<not> finished (ta_status t) \<and>
    (\<forall>u \<in> set (d_tasks demo_db). (ta_id t, ta_id u) \<in> set (d_deps demo_db) \<longrightarrow> finished (ta_status u))"
proof -
  have "map_sum id cr_claimed (fst (claim_next_task 7 [] bo None demo_db)) = Inr True" by code_simp
  then obtain res where "fst (claim_next_task 7 [] bo None demo_db) = Inr res" "cr_claimed res"
    by (cases "fst (claim_next_task 7 [] bo None demo_db)") auto
  then show ?thesis
    using claims_respect_dependencies [of 7 bo _ None demo_db res "snd (claim_next_task 7 [] bo None demo_db)" "[]"]
    by (force simp: prod_eq_iff bo_def)
qed

lemma team_of_id:
  assumes "tasks_wf d" and "t \<in> set (d_tasks d)" and "(ta_id t, team) \<in> set (map (\<lambda>t. (ta_id t, ta_team_id t)) (d_tasks d))"
  shows "ta_team_id t = team"
proof -
  obtain x where "x \<in> set (d_tasks d)" "ta_id x = ta_id t" "ta_team_id x = team"
    using assms(3) by auto
  with distinct_map_inj [OF tasks_wf_ids [OF assms(1)] _ assms(2)] show ?thesis by blast
qed

lemma unblocked_exists:
  assumes wf: "tasks_wf d" and t: "t \<in> set (d_tasks d)" and u: "\<not> finished (ta_status t)"
  shows "\<exists>t' \<in> set (d_tasks d). ta_team_id t' = ta_team_id t \<and> \<not> finished (ta_status t') \<and> \<not> task_blocked d (ta_id t')"
  using t u
proof (induction "task_position d (ta_id t)" arbitrary: t rule: less_induct)
  case less
  show ?case
  proof (cases "task_blocked d (ta_id t)")
    case True
    then obtain v where v: "v \<in> set (d_tasks d)" "(ta_id t, ta_id v) \<in> set (d_deps d)" "\<not> finished (ta_status v)"
      by (auto simp: task_blocked_in blocked_in_def)
    obtain xs ys team where ids: "map (\<lambda>t. (ta_id t, ta_team_id t)) (d_tasks d) = xs @ (ta_id t, team) # ys"
      "(ta_id v, team) \<in> set xs"
      using wf v(2) by (fastforce simp: tasks_wf_def list_wf_def deps_ok_def)
    have "(ta_id t, team) \<in> set (map (\<lambda>t. (ta_id t, ta_team_id t)) (d_tasks d))"
      "(ta_id v, team) \<in> set (map (\<lambda>t. (ta_id t, ta_team_id t)) (d_tasks d))"
      using ids(2) unfolding ids(1) by simp_all
    then have "ta_team_id t = team" "ta_team_id v = team"
      using team_of_id [OF wf] less.prems(1) v(1) by blast+
    then show ?thesis
      using less.hyps [OF deps_go_back [OF wf v(2)] v(1,3)] by simp
  next
    case False
    with less.prems show ?thesis by blast
  qed
qed

text \<open>C23: no deadlock. As long as the team has an unfinished task, no live lease and no row locked by
  another transaction, \<^verbatim>\<open>claim_next_task\<close> by a connection that passes the guard gets one, and it is
  an oldest of those that are free and unblocked.\<close>

theorem claim_next_never_deadlocks:
  assumes "tasks_wf d" and "t \<in> set (d_tasks d)" and "ta_team_id t = au_team_id auth"
    and "\<not> finished (ta_status t)"
    and "\<forall>u \<in> set (d_tasks d). ta_team_id u = au_team_id auth \<longrightarrow> ta_status u = Claimed \<longrightarrow> lease_before u now"
    and "guard now auth d = Inr ()"
  shows "\<exists>c. candidate now auth [] d = Some c \<and> c \<in> set (d_tasks d) \<and> free_to_pick now auth d c \<and>
    (\<forall>u \<in> set (d_tasks d). free_to_pick now auth d u \<longrightarrow> ta_created_at c \<le> ta_created_at u) \<and>
    (\<exists>res d'. claim_next_task now [] auth s d = (Inr res, d') \<and> cr_claimed res \<and>
       task_held d' (au_team_id auth, ta_key c) = Some (window_of auth, now + secs (task_lease s)))"
proof -
  obtain u where u: "u \<in> set (d_tasks d)" "ta_team_id u = au_team_id auth" "\<not> finished (ta_status u)"
    "\<not> task_blocked d (ta_id u)"
    using unblocked_exists [OF assms(1,2,4)] assms(3) by auto
  then have "free_to_pick now auth d u"
    using assms(5) by (cases "ta_status u") (auto simp: free_to_pick_def finished_def)
  with u(1) obtain c where c: "candidate now auth [] d = Some c"
    by (cases "candidate now auth [] d") (auto simp: candidate_def fetch_optional_None filter_empty_conv)
  note cs = fetch_optional_sort [OF c [unfolded candidate_def]]
  let ?f = "claim_row now auth (task_lease s)"
  let ?d = "log_event now (ta_id c) (au_agent_id auth) ''claimed'' (Some ''via claim_next_task'')
      (d\<lparr>d_tasks := upd_where (\<lambda>t. ta_id t = ta_id c) ?f (d_tasks d)\<rparr>)"
  have "find (task_key_is (au_team_id auth) (ta_key c)) (d_tasks d) = Some c"
    using cs by (intro claimed_row [OF assms(1)]) (auto simp: task_key_is_def free_to_pick_def)
  from find_upd_where_Some [OF this, of "\<lambda>t. ta_id t = ta_id c" ?f]
  have f: "find (task_key_is (au_team_id auth) (ta_key c)) (d_tasks ?d) = Some (?f c)"
    by (simp add: task_key_is_def claim_row_def)
  then have "task_held ?d (au_team_id auth, ta_key c) = Some (window_of auth, now + secs (task_lease s))"
    by (simp add: task_held_def row_held_def claim_row_def window_of_def)
  moreover have "\<exists>res. claim_next_task now [] auth s d = (Inr res, ?d) \<and> cr_claimed res"
    using c f assms(6) by (simp add: claim_next_task_def guarded_passed transact_def fetch_task_def Let_def)
  ultimately show ?thesis using c cs by auto
qed

theorem claim_next_never_deadlocks_witness:
  "\<exists>c. candidate 7 bo [] demo_db = Some c \<and> free_to_pick 7 bo demo_db c"
proof -
  have "guard 7 bo demo_db = Inr ()" by code_simp
  then show ?thesis
    using claim_next_never_deadlocks [OF demo_tasks_wf(1), of "demo_task 2 ''b''" bo 7 None]
    by (auto simp: demo_defs finished_def)
qed


lemma finished_row_kept:
  assumes "tasks_wf d" and "find (task_key_is team k) (d_tasks d) = Some t" and "finished (ta_status t)"
  shows "find (task_key_is team k) (d_tasks (task_exec q d)) = Some t"
  using task_step_find [OF task_exec_refines [OF assms(1)] assms(2)] row_step_final [OF assms(3)] by blast

interpretation over: kept_invariant task_exec
    "\<lambda>d. tasks_wf d \<and> find (task_key_is team k) (d_tasks d) = Some t \<and> finished (ta_status t)"
  by unfold_locales (auto intro: tasks.invar_step finished_row_kept)

text \<open>Finished work stays finished. A task that is done or cancelled keeps its row, result and
  completion included, through every later sequence of task operations.\<close>

theorem finished_is_final:
  assumes "tasks_wf d" and "t \<in> set (d_tasks d)" and "finished (ta_status t)"
  shows "t \<in> set (d_tasks (runs task_exec qs d))"
proof -
  have "find (task_key_is (ta_team_id t) (ta_key t)) (d_tasks d) = Some t"
    using assms(1,2) by (intro claimed_row) (simp_all add: task_key_is_def)
  then have "find (task_key_is (ta_team_id t) (ta_key t)) (d_tasks (runs task_exec qs d)) = Some t"
    using assms(1,3) over.invar_runs by blast
  then show ?thesis by (auto dest: find_SomeD)
qed

theorem finished_is_final_witness:
  "(demo_task 1 ''a'')\<lparr>ta_status := Done\<rparr> \<in> set (d_tasks (runs task_exec [CompleteReq 9 bo ''a'' None, ClaimReq 9 bo ''a'' None]
     (demo_db\<lparr>d_tasks := [(demo_task 1 ''a'')\<lparr>ta_status := Done\<rparr>], d_deps := []\<rparr>)))"
  by (rule finished_is_final)
     (simp_all add: tasks_wf_def list_wf_def row_wf_def finished_def deps_ok_def demo_task_def trimmed_letters)

text \<open>What a reader is told against what a writer accepts. For a row with a lease, another window's
  claim of a task that is shown open and unblocked succeeds except at the very instant the lease runs
  out, when the listing already says open and the claim is still refused.\<close>

theorem shown_open_is_claimable:
  assumes "row_wf t" and "\<not> task_blocked d (ta_id t)"
  shows "ti_status (task_info_of now d t) = Open \<longrightarrow>
    (claimable now auth d t \<longleftrightarrow>
      ta_status t = Open \<or> task_mine auth t \<or> ta_lease_expires_at t \<noteq> Some now)"
  using assms
  by (auto simp: task_info_of_def Let_def lease_lapsed_def claimable_def row_wf_def lease_before_def
      split: option.splits)

theorem shown_open_is_claimable_witness:
  "ti_status (task_info_of 50 demo_claimed (hd (d_tasks demo_claimed))) = Open \<and>
   \<not> claimable 50 bo demo_claimed (hd (d_tasks demo_claimed)) \<and>
   claimable 51 bo demo_claimed (hd (d_tasks demo_claimed))"
proof -
  let ?t = "hd (d_tasks demo_claimed)"
  have wf: "row_wf ?t"
    using demo_tasks_wf(2) by (simp add: tasks_wf_def list_wf_def demo_claimed_def)
  have b: "\<not> task_blocked demo_claimed (ta_id ?t)" by code_simp
  have o: "ti_status (task_info_of 50 demo_claimed ?t) = Open"
    "ti_status (task_info_of 51 demo_claimed ?t) = Open" by code_simp+
  have r: "ta_status ?t \<noteq> Open" "\<not> task_mine bo ?t" "ta_lease_expires_at ?t = Some 50" by code_simp+
  from shown_open_is_claimable [OF wf b, of 50 bo] shown_open_is_claimable [OF wf b, of 51 bo] o r
  show ?thesis by simp
qed

text \<open>A claim row without a deadline, as rows from before leases had one. The reader is told it is a
  live claim; yet any other window's named claim and completion both go through.\<close>

theorem claim_without_deadline_is_not_protected:
  assumes "ta_status t = Claimed" and "ta_lease_expires_at t = None" and "\<not> task_blocked d (ta_id t)"
  shows "ti_status (task_info_of now d t) = Claimed \<and> claimable now auth d t \<and> completable now auth t \<and>
    \<not> free_to_pick now auth d t"
  using assms
  by (simp add: task_info_of_def Let_def lease_lapsed_def claimable_def completable_def free_to_pick_def lease_before_def)

theorem claim_without_deadline_is_not_protected_witness:
  "completable 9 bo ((demo_task 1 ''a'')\<lparr>ta_status := Claimed, ta_claimed_by := Some 10\<rparr>) \<and>
   \<not> task_mine bo ((demo_task 1 ''a'')\<lparr>ta_status := Claimed, ta_claimed_by := Some 10\<rparr>)"
proof -
  let ?t = "(demo_task 1 ''a'')\<lparr>ta_status := Claimed, ta_claimed_by := Some 10\<rparr>"
  have "\<not> task_blocked demo_db (ta_id ?t)" by code_simp
  moreover have "\<not> task_mine bo ?t" by code_simp
  ultimately show ?thesis
    using claim_without_deadline_is_not_protected [of ?t demo_db 9 bo] by (simp add: demo_task_def)
qed

section \<open>History\<close>

definition one_event :: "db \<Rightarrow> db \<Rightarrow> bool" where
  "one_event d d' \<longleftrightarrow> (\<exists>e. d_events d' = d_events d @ [e] \<and> te_id e = d_event_seq d + 1 \<and>
     d_event_seq d' = d_event_seq d + 1)"

definition is_renewal :: "task_req \<Rightarrow> bool" where
  "is_renewal q = (case q of RenewLeaseReq now auth key s \<Rightarrow> True | _ \<Rightarrow> False)"

lemma log_event_one [simp]: "d_events d = d_events d0 \<Longrightarrow> d_event_seq d = d_event_seq d0 \<Longrightarrow> one_event d0 (log_event now i a ev det d)"
  by (simp add: one_event_def log_event_def)

lemma guarded_or:
  assumes "\<And>x d'. body d = Inr (x, d') \<Longrightarrow> d' = d \<or> Q d d'"
  shows "snd (guarded now auth body d) = d \<or> Q d (snd (guarded now auth body d))"
  using assms by (cases rule: transact_cases [of body d]) (auto simp: guarded_state)

lemma update_task_events:
  "snd (update_task now auth key P f (Some ev) miss d) = d \<or>
   one_event d (snd (update_task now auth key P f (Some ev) miss d))"
  by (cases ev)
     (auto simp: update_task_def Let_def split_beta intro!: guarded_or [where Q = one_event] split: option.splits)

lemma create_task_events:
  "snd (create_task X now i auth input d) = d \<or> one_event d (snd (create_task X now i auth input d))"
  by (auto simp: create_task_def Let_def transact_def create_task_tx_def insert_task_def bindE_eq_Inr
      split: sum.splits if_splits)

text \<open>The history keeps up. Each operation either leaves the task list and the history as they
  were, or commits its change together with exactly one new entry, numbered after all the others
  (renewing a lease is the one change that leaves no entry).\<close>

theorem history_keeps_up:
  "is_renewal q \<or> task_exec q d = d \<or> one_event d (task_exec q d)"
proof (cases q)
  case (CreateTaskReq X now i auth input)
  then show ?thesis using create_task_events by auto
next
  case (ClaimReq now auth key s)
  then show ?thesis
    by (auto simp: claim_task_def Let_def split_beta intro!: guarded_or [where Q = one_event]
        split: sum.split option.splits)
next
  case (ClaimNextReq now locked auth s)
  then show ?thesis
    by (auto simp: claim_next_task_def Let_def split_beta intro!: guarded_or [where Q = one_event]
        split: option.splits)
next
  case (CompleteReq now auth key r)
  then show ?thesis using update_task_events by (auto simp: complete_task_def split: sum.split)
qed (use update_task_events in \<open>auto simp: release_task_def is_renewal_def split: sum.split\<close>)

end
