(* ===== verification/TaskPages.thy ===== *)
theory TaskPages
  imports Tasks
begin

text \<open>
  The paged listing of \<^verbatim>\<open>src/src/store/tasks.rs\<close>: the filters, the keyset cursor and its
  fingerprint, one page, and the proof that following the cursor visits every task once. The
  cursor's JSON and base64 encoding is the record \<open>cursor_codec\<close>, with the hypothesis that decoding
  gives back what was encoded.
\<close>

record page_query =
  pq_status :: "string option"
  pq_mine_only :: bool
  pq_limit :: int
  pq_project_prefix :: "string option"
  pq_cursor :: "string option"

record page_cursor =
  pc_v :: nat
  pc_r :: int
  pc_u :: int
  pc_k :: string
  pc_f :: string

record cursor_codec =
  cc_encode :: "page_cursor \<Rightarrow> string option"
  cc_decode :: "string \<Rightarrow> page_cursor option"

definition status_rank :: "task_status \<Rightarrow> int" where
  "status_rank s = (case s of Claimed \<Rightarrow> 0 | Open \<Rightarrow> 1 | _ \<Rightarrow> 2)"

definition status_text :: "task_status \<Rightarrow> string" where
  "status_text s = (case s of Open \<Rightarrow> ''open'' | Claimed \<Rightarrow> ''claimed'' | Done \<Rightarrow> ''done'' | Cancelled \<Rightarrow> ''cancelled'')"

definition unit_separator :: string where
  "unit_separator = [char_of (31 :: nat)]"

definition page_fingerprint :: "ext \<Rightarrow> auth_ctx \<Rightarrow> string option \<Rightarrow> bool \<Rightarrow> string option \<Rightarrow> string" where
  "page_fingerprint X auth status mine_only prefix =
     (let window = (if mine_only then x_uuid_str X (au_agent_id auth) @ ''/'' @ au_session auth else []) in
      hex_of (take 8 (x_sha256 X (x_uuid_str X (au_team_id auth) @ unit_separator @ unwrap_or [] status @
        unit_separator @ (if mine_only then ''true'' else ''false'') @ unit_separator @
        unwrap_or [] prefix @ unit_separator @ window))))"

definition encode_cursor :: "cursor_codec \<Rightarrow> page_cursor \<Rightarrow> string res" where
  "encode_cursor C c = ok_or (cc_encode C c) (Invalid ''could not encode the page cursor'')"

definition decode_cursor :: "cursor_codec \<Rightarrow> string \<Rightarrow> string \<Rightarrow> page_cursor res" where
  "decode_cursor C raw fingerprint =
     bindE (ok_or (cc_decode C (trim raw)) (Invalid ''cursor is not one list_tasks issued'')) (\<lambda>cursor.
       if pc_v cursor \<noteq> 1 then Inl (Invalid ''cursor is not one list_tasks issued'')
       else if pc_f cursor \<noteq> fingerprint then Inl (Invalid ''cursor issued for different filters'')
       else Inr cursor)"

definition parse_status :: "string option \<Rightarrow> string option res" where
  "parse_status status =
     (let status = opt_filter (\<lambda>s. s \<noteq> ''any'') (map_option (\<lambda>s. to_lowercase (trim s)) status) in
      case status of
        None \<Rightarrow> Inr None
      | Some s \<Rightarrow> if s \<in> set [''open'', ''claimed'', ''done'', ''cancelled''] then Inr (Some s)
                  else Inl (Invalid ''status must be one of: open, claimed, done, cancelled, any''))"

definition parse_prefix :: "string option \<Rightarrow> string option res" where
  "parse_prefix p =
     (let prefix = opt_filter (\<lambda>p. p \<noteq> []) (map_option trim p) in
      case prefix of
        Some p \<Rightarrow> if length p > 200 then Inl (Invalid ''project_prefix is longer than a task key can be'')
                  else Inr prefix
      | None \<Rightarrow> Inr prefix)"

definition cursor_position ::
    "ext \<Rightarrow> cursor_codec \<Rightarrow> string \<Rightarrow> string option \<Rightarrow> (int \<times> int \<times> string) option res" where
  "cursor_position X C fingerprint cursor = (case opt_filter (\<lambda>c. trim c \<noteq> []) cursor of
      None \<Rightarrow> Inr None
    | Some raw \<Rightarrow> bindE (decode_cursor C raw fingerprint) (\<lambda>c.
        if x_micros_ok X (pc_u c) then Inr (Some (pc_r c, pc_u c, pc_k c))
        else Inl (Invalid ''cursor is not one list_tasks issued'')))"

definition page_filter ::
    "time \<Rightarrow> auth_ctx \<Rightarrow> string option \<Rightarrow> bool \<Rightarrow> string option \<Rightarrow> task_row \<Rightarrow> bool" where
  "page_filter now auth status mine_only prefix t \<longleftrightarrow>
     ta_team_id t = au_team_id auth \<and>
     (case status of None \<Rightarrow> True | Some s \<Rightarrow> status_text (effective_status now t) = s) \<and>
     (\<not> mine_only \<or> (task_mine auth t \<and>
        (case ta_lease_expires_at t of None \<Rightarrow> True | Some e \<Rightarrow> now < e))) \<and>
     (case prefix of None \<Rightarrow> True | Some p \<Rightarrow> starts_with p (ta_key t))"

definition page_after :: "time \<Rightarrow> (int \<times> int \<times> string) option \<Rightarrow> task_row \<Rightarrow> bool" where
  "page_after now after t = (case after of
      None \<Rightarrow> True
    | Some (r, u, k) \<Rightarrow>
        let rank = status_rank (effective_status now t) in
        rank > r \<or> (rank = r \<and> (ta_updated_at t < u \<or> (ta_updated_at t = u \<and> ta_key t > k))))"

text \<open>\<^verbatim>\<open>ORDER BY rank, updated_at DESC, key ASC\<close>, keys compared byte-wise.\<close>

definition page_key :: "time \<Rightarrow> task_row \<Rightarrow> int \<times> int \<times> string" where
  "page_key now t = (status_rank (effective_status now t), - ta_updated_at t, ta_key t)"

record task_list =
  tl_tasks :: "task_info list"
  tl_open :: nat
  tl_claimed :: nat
  tl_next_cursor :: "string option"
  tl_has_more :: bool

definition list_tasks :: "ext \<Rightarrow> cursor_codec \<Rightarrow> time \<Rightarrow> auth_ctx \<Rightarrow> page_query \<Rightarrow> db \<Rightarrow> task_list res" where
  "list_tasks X C now auth query d =
     (let lm = clamp 1 MAX_TASK_LIMIT (pq_limit query) in
      bindE (parse_status (pq_status query)) (\<lambda>status.
      bindE (parse_prefix (pq_project_prefix query)) (\<lambda>prefix.
      let fingerprint = page_fingerprint X auth status (pq_mine_only query) prefix in
      bindE (cursor_position X C fingerprint (pq_cursor query)) (\<lambda>after.
      let matching = filter (\<lambda>t. page_filter now auth status (pq_mine_only query) prefix t \<and> page_after now after t)
            (d_tasks d);
          fetched = take (nat (lm + 1)) (sort_key (page_key now) matching);
          has_more = (int (length fetched) > lm);
          rows = take (nat lm) fetched;
          tasks = map (task_info_of now d) rows;
          team = filter (\<lambda>t. ta_team_id t = au_team_id auth) (d_tasks d) in
      bindE (if has_more \<and> rows \<noteq> []
             then bindE (encode_cursor C \<lparr>pc_v = 1, pc_r = status_rank (ti_status (last tasks)),
                    pc_u = ta_updated_at (last rows), pc_k = ta_key (last rows), pc_f = fingerprint\<rparr>)
                    (\<lambda>s. Inr (Some s))
             else Inr None) (\<lambda>next_cursor.
      Inr \<lparr>tl_tasks = tasks, tl_open = count_rows (\<lambda>t. effective_status now t = Open) team,
           tl_claimed = count_rows (\<lambda>t. effective_status now t = Claimed) team,
           tl_next_cursor = next_cursor, tl_has_more = has_more\<rparr>)))))"

text \<open>
  A caller that follows \<^verbatim>\<open>next_cursor\<close>: the tasks of every page from \<open>cursor\<close> on, at most \<open>fuel\<close>
  pages; \<open>None\<close> when the fuel runs out, the error of the first page that fails otherwise.
\<close>

fun all_pages ::
    "nat \<Rightarrow> ext \<Rightarrow> cursor_codec \<Rightarrow> time \<Rightarrow> auth_ctx \<Rightarrow> page_query \<Rightarrow> db \<Rightarrow> task_info list res option" where
  "all_pages 0 X C now auth query d = None"
| "all_pages (Suc fuel) X C now auth query d = (case list_tasks X C now auth query d of
      Inl e \<Rightarrow> Some (Inl e)
    | Inr page \<Rightarrow>
        (case tl_next_cursor page of
           None \<Rightarrow> Some (Inr (tl_tasks page))
         | Some c \<Rightarrow>
             map_option (map_sum id (\<lambda>rest. tl_tasks page @ rest))
               (all_pages fuel X C now auth (query\<lparr>pq_cursor := Some c\<rparr>) d)))"

section \<open>Lemmas\<close>

lemma effective_status_shown: "ti_status (task_info_of now d t) = effective_status now t"
  by (simp add: task_info_of_def effective_status_def Let_def)

lemma page_after_key:
  "page_after now (Some (r, u, k)) t \<longleftrightarrow> page_key now t > (r, - u, k)"
  by (auto simp: page_after_def page_key_def Let_def less_prod_def less_eq_prod_def)

text \<open>In a strictly sorted list, the elements beyond a given one are the tail after it.\<close>

lemma filter_after_nth:
  fixes k :: "'a \<Rightarrow> 'b :: order"
  assumes "sorted_wrt (\<lambda>a b. k a < k b) xs" and "n < length xs"
  shows "filter (\<lambda>x. k (xs ! n) < k x) xs = drop (Suc n) xs"
  using assms
proof (induction xs arbitrary: n)
  case Nil
  then show ?case by simp
next
  case (Cons x xs)
  show ?case
  proof (cases n)
    case 0
    have "filter (\<lambda>y. k x < k y) xs = xs"
      using Cons.prems(1) by (auto simp: filter_id_conv)
    with 0 show ?thesis by simp
  next
    case (Suc m)
    then have "k x < k (xs ! m)" using Cons.prems by simp
    then have "\<not> k (xs ! m) < k x" by (simp add: order.asym)
    then show ?thesis using Suc Cons by simp
  qed
qed

lemma sort_key_filter_commute: "sort_key k (filter P xs) = filter P (sort_key k xs)"
  by (metis filter_sort)

lemma strictly_sorted:
  assumes "distinct (map k xs)"
  shows "sorted_wrt (\<lambda>a b. k a < k b) (sort_key k xs)"
proof -
  have "distinct (map k (sort_key k xs))"
    using assms by (metis distinct_map distinct_sort set_sort)
  then have "sorted_wrt (<) (map k (sort_key k xs))"
    by (simp add: strict_sorted_iff)
  then show ?thesis by (simp add: sorted_wrt_map)
qed


definition codec_ok :: "cursor_codec \<Rightarrow> bool" where
  "codec_ok C \<longleftrightarrow> (\<forall>c. \<exists>s. cc_encode C c = Some s \<and> trim s \<noteq> [] \<and> cc_decode C (trim s) = Some c)"

definition cursor_at :: "time \<Rightarrow> string \<Rightarrow> task_row \<Rightarrow> page_cursor" where
  "cursor_at now fingerprint t = \<lparr>pc_v = 1, pc_r = status_rank (effective_status now t),
     pc_u = ta_updated_at t, pc_k = ta_key t, pc_f = fingerprint\<rparr>"

lemma cursor_position_at:
  assumes "cc_encode C (cursor_at now fp t) = Some s" and "codec_ok C" and "x_micros_ok X (ta_updated_at t)"
  shows "cursor_position X C fp (Some s) = Inr (Some (status_rank (effective_status now t), ta_updated_at t, ta_key t))"
proof -
  have "trim s \<noteq> []" "cc_decode C (trim s) = Some (cursor_at now fp t)"
    using assms(1,2) by (auto simp: codec_ok_def) (metis option.inject)+
  then show ?thesis
    using assms(3) by (simp add: cursor_position_def decode_cursor_def cursor_at_def)
qed

lemma page_after_at:
  "page_after now (Some (status_rank (effective_status now t), ta_updated_at t, ta_key t)) u \<longleftrightarrow> page_key now t < page_key now u"
  unfolding page_after_key by (simp add: page_key_def)

text \<open>One page of the sorted rows \<open>R\<close> that lie beyond the cursor.\<close>

definition page_size :: "page_query \<Rightarrow> nat" where
  "page_size query = nat (clamp 1 MAX_TASK_LIMIT (pq_limit query))"

lemma page_size_pos: "0 < page_size query" and page_size_int: "int (page_size query) = clamp 1 MAX_TASK_LIMIT (pq_limit query)"
  using clamp_bounds [of 1 MAX_TASK_LIMIT "pq_limit query"]
  by (simp_all add: page_size_def MAX_TASK_LIMIT_def)

lemma nat_page_size: "nat (int (page_size query) + 1) = Suc (page_size query)"
  by simp

lemma list_tasks_page:
  assumes "parse_status (pq_status query) = Inr status" and "parse_prefix (pq_project_prefix query) = Inr prefix"
    and fp: "fp = page_fingerprint X auth status (pq_mine_only query) prefix"
    and "cursor_position X C fp (pq_cursor query) = Inr after"
    and R: "R = sort_key (page_key now)
      (filter (\<lambda>t. page_filter now auth status (pq_mine_only query) prefix t \<and> page_after now after t) (d_tasks d))"
    and "codec_ok C"
  shows "\<exists>page. list_tasks X C now auth query d = Inr page \<and>
    tl_tasks page = map (task_info_of now d) (take (page_size query) R) \<and>
    tl_next_cursor page = (if length R \<le> page_size query then None
       else cc_encode C (cursor_at now fp (R ! (page_size query - 1))))"
proof -
  let ?n = "page_size query"
  have rows: "take ?n (take (Suc ?n) R) = take ?n R" by (simp add: min_def)
  have more: "?n < length (take (Suc ?n) R) \<longleftrightarrow> \<not> length R \<le> ?n" by auto
  have l: "last (take ?n R) = R ! (?n - 1)" if "\<not> length R \<le> ?n"
    using that page_size_pos [of query] by (subst last_conv_nth) (auto simp: min_def)
  have lt: "last (map (task_info_of now d) (take ?n R)) = task_info_of now d (R ! (?n - 1))"
    if "\<not> length R \<le> ?n"
    using that page_size_pos [of query] by (subst last_map) (auto simp: l)
  obtain s where s: "cc_encode C (cursor_at now fp (R ! (?n - 1))) = Some s"
    using assms(6) by (metis codec_ok_def)
  show ?thesis
  proof (cases "length R \<le> ?n")
    case True
    then show ?thesis
      using assms(1,2,4)
      by (simp add: list_tasks_def Let_def fp [symmetric] R [symmetric] nat_page_size
          page_size_int [symmetric] rows more del: length_take)
  next
    case False
    moreover have "filter (\<lambda>t. page_filter now auth status (pq_mine_only query) prefix t \<and> page_after now after t)
        (d_tasks d) \<noteq> []"
      using False R by (metis length_sort list.size(3) zero_le)
    ultimately show ?thesis
      using assms(1,2,4) s l [OF False] lt [OF False] page_size_pos [of query]
      by (auto simp: list_tasks_def Let_def fp [symmetric] R [symmetric] nat_page_size
          page_size_int [symmetric] rows more encode_cursor_def cursor_at_def effective_status_shown
          simp del: length_take)
  qed
qed

lemma all_pages_from:
  assumes st: "parse_status (pq_status query) = Inr status" and pre: "parse_prefix (pq_project_prefix query) = Inr prefix"
    and fp: "fp = page_fingerprint X auth status (pq_mine_only query) prefix"
    and S: "S = sort_key (page_key now) (filter (page_filter now auth status (pq_mine_only query) prefix) (d_tasks d))"
    and strict: "sorted_wrt (\<lambda>a b. page_key now a < page_key now b) S"
    and C: "codec_ok C" and micros: "\<forall>t \<in> set S. x_micros_ok X (ta_updated_at t)"
    and pos: "cursor_position X C fp (pq_cursor query) = Inr after"
    and R: "filter (page_after now after) S = drop n S" and fuel: "length S - n < fuel"
  shows "all_pages fuel X C now auth query d = Some (Inr (map (task_info_of now d) (drop n S)))"
  using st pre fp S pos R fuel
proof (induction fuel arbitrary: query n after)
  case 0
  then show ?case by simp
next
  case (Suc fuel)
  let ?z = "page_size query"
  have "drop n S = filter (page_after now after) S"
    using Suc.prems(6) by simp
  also have "\<dots> = filter (page_after now after) (sort_key (page_key now)
      (filter (page_filter now auth status (pq_mine_only query) prefix) (d_tasks d)))"
    by (simp only: Suc.prems(4))
  also have "\<dots> = sort_key (page_key now)
      (filter (\<lambda>t. page_filter now auth status (pq_mine_only query) prefix t \<and> page_after now after t) (d_tasks d))"
    by (simp add: sort_key_filter_commute)
  finally have R': "drop n S = sort_key (page_key now)
      (filter (\<lambda>t. page_filter now auth status (pq_mine_only query) prefix t \<and> page_after now after t) (d_tasks d))" .
  obtain page where page: "list_tasks X C now auth query d = Inr page"
      "tl_tasks page = map (task_info_of now d) (take ?z (drop n S))"
      "tl_next_cursor page = (if length (drop n S) \<le> ?z then None
         else cc_encode C (cursor_at now fp (drop n S ! (?z - 1))))"
    using list_tasks_page [OF Suc.prems(1,2,3,5) R' C] by blast
  show ?case
  proof (cases "length (drop n S) \<le> ?z")
    case True
    with page show ?thesis by simp
  next
    case False
    let ?m = "n + ?z" and ?t = "S ! (n + ?z - 1)"
    have z: "0 < ?z" by (rule page_size_pos)
    have len: "n + ?z < length S" using False unfolding length_drop by linarith
    have m: "?m - 1 < length S" "Suc (?m - 1) = ?m" using len z by linarith+
    have idx: "n + (?z - 1) = ?m - 1" using z by linarith
    have at: "drop n S ! (?z - 1) = ?t"
      using len idx by (simp only: nth_drop [of n S] less_imp_le add_leD1)
    obtain s where s: "cc_encode C (cursor_at now fp ?t) = Some s"
      using C by (metis codec_ok_def)
    let ?q = "query\<lparr>pq_cursor := Some s\<rparr>"
    have q: "pq_status ?q = pq_status query" "pq_project_prefix ?q = pq_project_prefix query"
      "pq_mine_only ?q = pq_mine_only query" "pq_cursor ?q = Some s" by simp_all
    have pos': "cursor_position X C fp (Some s) =
        Inr (Some (status_rank (effective_status now ?t), ta_updated_at ?t, ta_key ?t))"
      using s C micros m(1) by (intro cursor_position_at) auto
    have after': "filter (page_after now (Some (status_rank (effective_status now ?t), ta_updated_at ?t, ta_key ?t))) S
        = drop ?m S"
      unfolding page_after_at using filter_after_nth [OF strict m(1)] m(2) by simp
    have "length S - ?m < fuel"
      using Suc.prems(7) len z by linarith
    from Suc.IH [of ?q, unfolded q, OF Suc.prems(1-4) pos' after' this]
    have "all_pages fuel X C now auth ?q d = Some (Inr (map (task_info_of now d) (drop ?m S)))" .
    moreover have "take ?z (drop n S) @ drop ?m S = drop n S"
      by (metis add.commute append_take_drop_id drop_drop)
    ultimately show ?thesis
      using page s at False by (simp flip: map_append)
  qed
qed

lemma page_keys_distinct:
  assumes "tasks_wf d"
  shows "distinct (map (page_key now) (filter (page_filter now auth status mine prefix) (d_tasks d)))"
proof -
  have "inj_on (page_key now) (set (filter (page_filter now auth status mine prefix) (d_tasks d)))"
    using assms distinct_map_inj [of "\<lambda>t. (ta_team_id t, ta_key t)" "d_tasks d"]
    by (auto simp: inj_on_def page_key_def page_filter_def tasks_wf_def list_wf_def)
  moreover have "distinct (d_tasks d)"
    using tasks_wf_ids [OF assms] by (simp add: distinct_map)
  ultimately show ?thesis by (simp add: distinct_map)
qed


section \<open>Properties\<close>

text \<open>C31: paging loses and repeats nothing. Over an unchanging list, following \<^verbatim>\<open>next_cursor\<close> from the
  first page ends after at most as many pages as there are tasks plus one, and the pages together are
  exactly the tasks that pass the filters, each once, claimed before open before the rest, most
  recently updated first, then by key.\<close>

theorem paging_is_complete:
  assumes "tasks_wf d" and "parse_status (pq_status query) = Inr status"
    and "parse_prefix (pq_project_prefix query) = Inr prefix" and "pq_cursor query = None"
    and "codec_ok C" and "\<forall>t \<in> set (d_tasks d). x_micros_ok X (ta_updated_at t)"
    and "length (d_tasks d) < fuel"
  shows "all_pages fuel X C now auth query d = Some (Inr (map (task_info_of now d)
    (sort_key (page_key now) (filter (page_filter now auth status (pq_mine_only query) prefix) (d_tasks d)))))"
proof -
  let ?S = "sort_key (page_key now) (filter (page_filter now auth status (pq_mine_only query) prefix) (d_tasks d))"
  have fuel: "length ?S - 0 < fuel"
    using assms(7) by (simp add: le_less_trans [OF length_filter_le])
  have after: "filter (page_after now None) ?S = drop 0 ?S" by (simp add: page_after_def)
  have pos: "cursor_position X C (page_fingerprint X auth status (pq_mine_only query) prefix) (pq_cursor query) = Inr None"
    using assms(4) by (simp add: cursor_position_def)
  have micros: "\<forall>t \<in> set ?S. x_micros_ok X (ta_updated_at t)" using assms(6) by simp
  have strict: "sorted_wrt (\<lambda>a b. page_key now a < page_key now b) ?S"
    by (rule strictly_sorted [OF page_keys_distinct [OF assms(1)]])
  show ?thesis
    using all_pages_from [OF assms(2,3) refl refl strict assms(5) micros pos after fuel]
    by (simp only: drop_0)
qed

text \<open>
  A concrete codec: numbers in unary, every character of a text behind a marker, with a letter at
  each end so that trimming leaves it alone.
\<close>

definition enc_nat :: "nat \<Rightarrow> string" where
  "enc_nat n = replicate n (CHR ''1'') @ ''0''"

fun dec_nat :: "string \<Rightarrow> (nat \<times> string) option" where
  "dec_nat [] = None"
| "dec_nat (c # r) = (if c = CHR ''1'' then map_option (\<lambda>(n, r). (Suc n, r)) (dec_nat r) else Some (0, r))"

definition enc_int :: "int \<Rightarrow> string" where
  "enc_int i = (if i < 0 then CHR ''-'' else CHR ''+'') # enc_nat (nat \<bar>i\<bar>)"

definition dec_int :: "string \<Rightarrow> (int \<times> string) option" where
  "dec_int s = (case s of [] \<Rightarrow> None
     | c # r \<Rightarrow> map_option (\<lambda>(n, r). (if c = CHR ''-'' then - int n else int n, r)) (dec_nat r))"

definition enc_str :: "string \<Rightarrow> string" where
  "enc_str s = concat (map (\<lambda>c. [CHR ''1'', c]) s) @ ''0''"

fun dec_str :: "string \<Rightarrow> (string \<times> string) option" where
  "dec_str [] = None"
| "dec_str [c] = (if c = CHR ''1'' then None else Some ([], []))"
| "dec_str (c # x # r) = (if c = CHR ''1'' then map_option (\<lambda>(s, r). (x # s, r)) (dec_str r) else Some ([], x # r))"

definition demo_codec :: cursor_codec where
  "demo_codec = \<lparr>
     cc_encode = (\<lambda>c. Some (''c'' @ enc_nat (pc_v c) @ enc_int (pc_r c) @ enc_int (pc_u c) @
       enc_str (pc_k c) @ enc_str (pc_f c) @ ''e'')),
     cc_decode = (\<lambda>s. Option.bind (dec_nat (tl s)) (\<lambda>(v, s). Option.bind (dec_int s) (\<lambda>(r, s).
       Option.bind (dec_int s) (\<lambda>(u, s). Option.bind (dec_str s) (\<lambda>(k, s). Option.bind (dec_str s) (\<lambda>(f, s).
         Some \<lparr>pc_v = v, pc_r = r, pc_u = u, pc_k = k, pc_f = f\<rparr>))))))\<rparr>"

lemma dec_enc_nat: "dec_nat (enc_nat n @ r) = Some (n, r)"
  by (induction n) (simp_all add: enc_nat_def)

lemma dec_enc_int: "dec_int (enc_int i @ r) = Some (i, r)"
  by (simp add: dec_int_def enc_int_def dec_enc_nat)

lemma dec_enc_str: "dec_str (enc_str s @ r) = Some (s, r)"
proof (induction s)
  case Nil
  then show ?case by (cases r) (simp_all add: enc_str_def)
next
  case (Cons c s)
  then show ?case by (simp add: enc_str_def)
qed

lemma demo_codec_ok: "codec_ok demo_codec"
proof -
  have "\<exists>s. cc_encode demo_codec c = Some s \<and> trim s \<noteq> [] \<and> cc_decode demo_codec (trim s) = Some c" for c
  proof -
    let ?s = "''c'' @ enc_nat (pc_v c) @ enc_int (pc_r c) @ enc_int (pc_u c) @
       enc_str (pc_k c) @ enc_str (pc_f c) @ ''e''"
    have "trimmed ?s" by (simp add: trimmed_def is_whitespace_def)
    then have "trim ?s = ?s" by (rule trim_trimmed)
    moreover have "cc_decode demo_codec ?s = Some c"
      by (simp add: demo_codec_def dec_enc_nat dec_enc_int dec_enc_str)
    moreover have "cc_encode demo_codec c = Some ?s" by (simp add: demo_codec_def)
    ultimately show ?thesis by auto
  qed
  then show ?thesis by (simp add: codec_ok_def)
qed

theorem paging_is_complete_witness:
  "all_pages 3 demo_ext demo_codec 7 bo \<lparr>pq_status = Some ''Open'', pq_mine_only = False, pq_limit = 1,
      pq_project_prefix = None, pq_cursor = None\<rparr> demo_db
   = Some (Inr [task_info_of 7 demo_db (demo_task 1 ''a''), task_info_of 7 demo_db (demo_task 2 ''b'')])"
proof -
  let ?q = "\<lparr>pq_status = Some ''Open'', pq_mine_only = False, pq_limit = 1,
      pq_project_prefix = None, pq_cursor = None\<rparr>"
  have st: "parse_status (pq_status ?q) = Inr (Some ''open'')" by code_simp
  have pre: "parse_prefix (pq_project_prefix ?q) = Inr None" by code_simp
  have rows: "sort_key (page_key 7) (filter (page_filter 7 bo (Some ''open'') (pq_mine_only ?q) None) (d_tasks demo_db))
      = [demo_task 1 ''a'', demo_task 2 ''b'']" by code_simp
  have micros: "\<forall>t \<in> set (d_tasks demo_db). x_micros_ok demo_ext (ta_updated_at t)" by (simp add: demo_ext_def)
  have "length (d_tasks demo_db) < 3" by (simp add: demo_db_def)
  from paging_is_complete [OF demo_tasks_wf(1) st pre _ demo_codec_ok micros this, of 7 bo] rows
  show ?thesis by simp
qed

text \<open>A cursor only works where it was issued. A page asked for with a cursor that carries another
  fingerprint, that is other filters, another team or (with \<^verbatim>\<open>mine_only\<close>) another window, is refused.\<close>

theorem foreign_cursor_is_refused:
  assumes "pq_cursor query = Some raw" and "trim raw \<noteq> []" and "cc_decode C (trim raw) = Some c"
    and "parse_status (pq_status query) = Inr status" and "parse_prefix (pq_project_prefix query) = Inr prefix"
    and "pc_f c \<noteq> page_fingerprint X auth status (pq_mine_only query) prefix"
  shows "\<exists>m. list_tasks X C now auth query d = Inl (Invalid m)"
  using assms by (simp add: list_tasks_def cursor_position_def decode_cursor_def Let_def)

theorem foreign_cursor_is_refused_witness:
  "\<exists>m. list_tasks demo_ext (demo_codec\<lparr>cc_decode := \<lambda>s. Some \<lparr>pc_v = 1, pc_r = 0, pc_u = 0, pc_k = [], pc_f = ''f''\<rparr>\<rparr>) 7 bo
     \<lparr>pq_status = None, pq_mine_only = False, pq_limit = 1, pq_project_prefix = None, pq_cursor = Some ''x''\<rparr> demo_db
   = Inl (Invalid m)"
proof (rule foreign_cursor_is_refused)
  show "parse_status (pq_status \<lparr>pq_status = None, pq_mine_only = False, pq_limit = 1, pq_project_prefix = None,
     pq_cursor = Some ''x''\<rparr>) = Inr None" by code_simp
  show "parse_prefix (pq_project_prefix \<lparr>pq_status = None, pq_mine_only = False, pq_limit = 1, pq_project_prefix = None,
     pq_cursor = Some ''x''\<rparr>) = Inr None" by code_simp
  show "trim ''x'' \<noteq> []" by code_simp
  show "pc_f \<lparr>pc_v = 1, pc_r = 0, pc_u = 0, pc_k = [], pc_f = ''f''\<rparr> \<noteq> page_fingerprint demo_ext bo None
     (pq_mine_only \<lparr>pq_status = None, pq_mine_only = False, pq_limit = 1, pq_project_prefix = None,
     pq_cursor = Some ''x''\<rparr>) None" by code_simp
qed simp_all

end
