(* ===== verification/Notes.thy ===== *)
theory Notes
  imports Contracts Demo
begin

text \<open>
  \<^verbatim>\<open>src/src/store/notes.rs\<close>: the team's durable notes, keyed by scope and key, with an append-only
  trail of revisions. Deleting a note deletes its revisions with it (\<^verbatim>\<open>ON DELETE CASCADE\<close>).
\<close>

section \<open>Operations\<close>

definition MAX_VALUE_BYTES :: int where "MAX_VALUE_BYTES = 1024 * 1024"
definition MAX_TAGS :: nat where "MAX_TAGS = 16"
definition MAX_TAG_BYTES :: int where "MAX_TAG_BYTES = 64"
definition MAX_SCOPE_BYTES :: nat where "MAX_SCOPE_BYTES = 64"
definition MAX_KEY_BYTES :: nat where "MAX_KEY_BYTES = 256"
definition MAX_NOTE_LIMIT :: int where "MAX_NOTE_LIMIT = 200"

record note_info =
  ni_scope :: string
  ni_key :: string
  ni_value :: string
  ni_tags :: "string list"
  ni_updated_by :: "string option"
  ni_updated_at :: time

definition note_info_of :: "db \<Rightarrow> note_row \<Rightarrow> note_info" where
  "note_info_of d n = \<lparr>ni_scope = no_scope n, ni_key = no_key n, ni_value = no_value n, ni_tags = no_tags n,
     ni_updated_by = Option.bind (no_updated_by n) (agent_name_of d), ni_updated_at = no_updated_at n\<rparr>"

definition normalize_scope :: "string option \<Rightarrow> string" where
  "normalize_scope scope =
     unwrap_or ''global'' (opt_filter (\<lambda>s. s \<noteq> []) (map_option (\<lambda>s. to_lowercase (trim s)) scope))"

record set_input =
  ns_scope :: "string option"
  ns_key :: string
  ns_value :: string
  ns_tags :: "string list option"

definition note_key_is :: "uuid \<Rightarrow> string \<Rightarrow> string \<Rightarrow> note_row \<Rightarrow> bool" where
  "note_key_is team scope key n \<longleftrightarrow> no_team_id n = team \<and> no_scope n = scope \<and> no_key n = key"

definition normalize_tags :: "string list option \<Rightarrow> string list" where
  "normalize_tags tags = filter (\<lambda>t. t \<noteq> []) (map (\<lambda>t. to_lowercase (trim t)) (unwrap_or [] tags))"

record note_ref =
  nf_scope :: string
  nf_key :: string
  nf_found :: bool
  nf_note :: "note_info option"

definition get_note :: "auth_ctx \<Rightarrow> string option \<Rightarrow> string \<Rightarrow> db \<Rightarrow> note_ref" where
  "get_note auth scope key d =
     (let scope = normalize_scope scope; key = trim key;
          row = find (note_key_is (au_team_id auth) scope key) (d_notes d) in
      \<lparr>nf_scope = scope, nf_key = key, nf_found = (row \<noteq> None), nf_note = map_option (note_info_of d) row\<rparr>)"

definition check_note :: "set_input \<Rightarrow> (string \<times> string \<times> string list) res" where
  "check_note input =
     (let scope = normalize_scope (ns_scope input); key = trim (ns_key input);
          tags = normalize_tags (ns_tags input) in
      if length scope > MAX_SCOPE_BYTES then Inl (Invalid ''note scope over the limit'')
      else if key = [] then Inl (Invalid ''note key cannot be empty'')
      else if length key > MAX_KEY_BYTES then Inl (Invalid ''note key over the limit'')
      else if int (length (ns_value input)) > MAX_VALUE_BYTES then Inl (Invalid ''note value over the limit'')
      else if length tags > MAX_TAGS then Inl (Invalid ''too many tags'')
      else bindE (traverse (\<lambda>t. check_text t MAX_TAG_BYTES) tags) (\<lambda>_. Inr (scope, key, tags)))"

definition upsert_note ::
    "time \<Rightarrow> uuid \<Rightarrow> auth_ctx \<Rightarrow> string \<Rightarrow> string \<Rightarrow> string \<Rightarrow> string list \<Rightarrow> uuid tx" where
  "upsert_note now new_id auth scope key value tags d =
     (case find (note_key_is (au_team_id auth) scope key) (d_notes d) of
        Some n \<Rightarrow> Inr (no_id n, d\<lparr>d_notes := upd_where (note_key_is (au_team_id auth) scope key)
          (\<lambda>n. n\<lparr>no_value := value, no_tags := tags, no_updated_by := Some (au_agent_id auth),
                 no_updated_at := now\<rparr>) (d_notes d)\<rparr>)
      | None \<Rightarrow>
          if exists_row (\<lambda>n. no_id n = new_id) (d_notes d) then Inl (Db ''duplicate key'')
          else Inr (new_id, d\<lparr>d_notes := d_notes d @
            [\<lparr>no_id = new_id, no_team_id = au_team_id auth, no_scope = scope, no_key = key,
              no_value = value, no_tags = tags, no_updated_by = Some (au_agent_id auth),
              no_updated_at = now\<rparr>]\<rparr>))"

definition append_revision :: "time \<Rightarrow> auth_ctx \<Rightarrow> uuid \<Rightarrow> string \<Rightarrow> db \<Rightarrow> db" where
  "append_revision now auth i value d =
     d\<lparr>d_revision_seq := d_revision_seq d + 1, d_revisions := d_revisions d @
        [\<lparr>nr_id = d_revision_seq d + 1, nr_note_id = i, nr_value = value,
          nr_updated_by = Some (au_agent_id auth), nr_created_at = now\<rparr>]\<rparr>"

definition set_note :: "time \<Rightarrow> uuid \<Rightarrow> auth_ctx \<Rightarrow> set_input \<Rightarrow> db \<Rightarrow> note_info res \<times> db" where
  "set_note now new_id auth input d = (case check_note input of
      Inl e \<Rightarrow> (Inl e, d)
    | Inr (scope, key, tags) \<Rightarrow>
        (case transact (\<lambda>d. bindE (upsert_note now new_id auth scope key (ns_value input) tags d)
                 (\<lambda>(i, d). Inr ((), append_revision now auth i (ns_value input) d))) d of
           (Inl e, d') \<Rightarrow> (Inl e, d')
         | (Inr _, d') \<Rightarrow>
             (ok_or (nf_note (get_note auth (Some scope) key d')) (NotFound ''note just written''), d')))"

definition opt_lower :: "string option \<Rightarrow> string option" where
  "opt_lower s = opt_filter (\<lambda>s. s \<noteq> []) (map_option (\<lambda>s. to_lowercase (trim s)) s)"

definition list_notes :: "auth_ctx \<Rightarrow> string option \<Rightarrow> string option \<Rightarrow> int \<Rightarrow> db \<Rightarrow> note_info list" where
  "list_notes auth scope tag limit d =
     (let limit = clamp 1 MAX_NOTE_LIMIT limit; scope = opt_lower scope; tag = opt_lower tag in
      map (note_info_of d) (take (nat limit) (sort_key (\<lambda>n. (no_scope n, no_key n)) (filter (\<lambda>n.
        no_team_id n = au_team_id auth \<and>
        (case scope of None \<Rightarrow> True | Some s \<Rightarrow> no_scope n = s) \<and>
        (case tag of None \<Rightarrow> True | Some t \<Rightarrow> t \<in> set (no_tags n))) (d_notes d)))))"

definition search_notes :: "ext \<Rightarrow> auth_ctx \<Rightarrow> string \<Rightarrow> string option \<Rightarrow> int \<Rightarrow> db \<Rightarrow> note_info list res" where
  "search_notes X auth query scope limit d =
     (let query = trim query in
      if query = [] then Inl (Invalid ''search query cannot be empty'')
      else
        let limit = clamp 1 MAX_NOTE_LIMIT limit; scope = opt_lower scope in
        Inr (map (note_info_of d) (take (nat limit) (sort_key (\<lambda>n. - no_updated_at n) (filter (\<lambda>n.
          no_team_id n = au_team_id auth \<and>
          (case scope of None \<Rightarrow> True | Some s \<Rightarrow> no_scope n = s) \<and>
          x_fts X (no_key n @ '' '' @ no_value n) query) (d_notes d))))))"

definition delete_note :: "auth_ctx \<Rightarrow> string option \<Rightarrow> string \<Rightarrow> db \<Rightarrow> ack \<times> db" where
  "delete_note auth scope key d =
     (let scope = normalize_scope scope; key = trim key; P = note_key_is (au_team_id auth) scope key;
          gone = map no_id (filter P (d_notes d)) in
      (\<lparr>ak_ok = (gone \<noteq> []), ak_detail = (if gone \<noteq> [] then ''deleted note'' else ''no note'')\<rparr>,
       d\<lparr>d_notes := del_where P (d_notes d),
         d_revisions := del_where (\<lambda>r. nr_note_id r \<in> set gone) (d_revisions d)\<rparr>))"

section \<open>Invariant\<close>

text \<open>
  Keys are unique, the trail's notes exist and its numbers grow; the current value of a note is the
  last of its trail.
\<close>

definition trail :: "db \<Rightarrow> uuid \<Rightarrow> string list" where
  "trail d i = map nr_value (filter (\<lambda>r. nr_note_id r = i) (d_revisions d))"

definition notes_wf :: "db \<Rightarrow> bool" where
  "notes_wf d \<longleftrightarrow> distinct (map no_id (d_notes d)) \<and>
     distinct (map (\<lambda>n. (no_team_id n, no_scope n, no_key n)) (d_notes d)) \<and>
     (\<forall>r \<in> set (d_revisions d). nr_id r \<le> d_revision_seq d \<and> nr_note_id r \<in> no_id ` set (d_notes d)) \<and>
     sorted_wrt (<) (map nr_id (d_revisions d)) \<and>
     (\<forall>n \<in> set (d_notes d). trail d (no_id n) \<noteq> [] \<and> last (trail d (no_id n)) = no_value n)"

definition note_lookup :: "db \<Rightarrow> uuid \<times> string \<times> string \<Rightarrow> (string \<times> string list) option" where
  "note_lookup d k = (case k of (team, scope, key) \<Rightarrow>
     map_option (\<lambda>n. (no_value n, no_tags n)) (find (note_key_is team scope key) (d_notes d)))"

lemma find_note_unique:
  assumes "notes_wf d" and "n \<in> set (d_notes d)" and "note_key_is team scope key n"
  shows "find (note_key_is team scope key) (d_notes d) = Some n"
proof -
  have "find (\<lambda>x. (no_team_id x, no_scope x, no_key x) = (no_team_id n, no_scope n, no_key n)) (d_notes d) = Some n"
    using assms(1,2) by (intro find_unique) (simp_all add: notes_wf_def)
  moreover have "note_key_is team scope key
      = (\<lambda>x. (no_team_id x, no_scope x, no_key x) = (no_team_id n, no_scope n, no_key n))"
    using assms(3) by (auto simp: note_key_is_def)
  ultimately show ?thesis by simp
qed

lemma upsert_note_lookup:
  assumes "upsert_note now i auth scope key value tags d = Inr (j, d')"
  shows "note_lookup d' = (note_lookup d)((au_team_id auth, scope, key) \<mapsto> (value, tags))"
proof
  fix k :: "uuid \<times> string \<times> string"
  obtain t s q where k: "k = (t, s, q)" by (cases k)
  show "note_lookup d' k = ((note_lookup d)((au_team_id auth, scope, key) \<mapsto> (value, tags))) k"
  proof (cases "find (note_key_is (au_team_id auth) scope key) (d_notes d)")
    case None
    with assms k show ?thesis
      by (auto simp: upsert_note_def note_lookup_def find_append note_key_is_def split: if_splits option.splits)
  next
    case (Some n)
    let ?f = "\<lambda>n. n\<lparr>no_value := value, no_tags := tags, no_updated_by := Some (au_agent_id auth), no_updated_at := now\<rparr>"
    have d': "d_notes d' = upd_where (note_key_is (au_team_id auth) scope key) ?f (d_notes d)"
      using assms Some by (auto simp: upsert_note_def)
    show ?thesis
    proof (cases "(t, s, q) = (au_team_id auth, scope, key)")
      case True
      with Some k show ?thesis
        using find_upd_where_Some [OF Some, of "note_key_is (au_team_id auth) scope key" ?f] find_SomeD [OF Some]
        by (simp add: note_lookup_def d' note_key_is_def)
    next
      case False
      then have "find (note_key_is t s q) (d_notes d') = find (note_key_is t s q) (d_notes d)"
        unfolding d' by (intro find_upd_where_other) (auto simp: note_key_is_def)
      with False k show ?thesis by (auto simp: note_lookup_def)
    qed
  qed
qed


lemma upsert_note_row:
  assumes wf: "notes_wf d" and r: "upsert_note now i auth scope key value tags d = Inr (j, d')"
  shows "d_revisions d' = d_revisions d \<and> d_revision_seq d' = d_revision_seq d \<and>
    distinct (map no_id (d_notes d')) \<and>
    distinct (map (\<lambda>n. (no_team_id n, no_scope n, no_key n)) (d_notes d')) \<and>
    no_id ` set (d_notes d') = insert j (no_id ` set (d_notes d)) \<and>
    (\<forall>n \<in> set (d_notes d'). no_id n = j \<longrightarrow> no_value n = value) \<and>
    (\<forall>n \<in> set (d_notes d'). no_id n \<noteq> j \<longrightarrow> n \<in> set (d_notes d))"
proof (cases "find (note_key_is (au_team_id auth) scope key) (d_notes d)")
  case None
  let ?r = "\<lparr>no_id = i, no_team_id = au_team_id auth, no_scope = scope, no_key = key, no_value = value,
      no_tags = tags, no_updated_by = Some (au_agent_id auth), no_updated_at = now\<rparr>"
  have d': "d' = d\<lparr>d_notes := d_notes d @ [?r]\<rparr>" "j = i" and fresh: "\<forall>n \<in> set (d_notes d). no_id n \<noteq> i"
    using r None by (auto simp: upsert_note_def exists_row_def split: if_splits)
  with wf None show ?thesis
    by (auto simp: notes_wf_def find_None_set note_key_is_def)
next
  case (Some m)
  note m = find_SomeD [OF Some]
  let ?f = "\<lambda>n. n\<lparr>no_value := value, no_tags := tags, no_updated_by := Some (au_agent_id auth), no_updated_at := now\<rparr>"
  have d': "d' = d\<lparr>d_notes := upd_where (note_key_is (au_team_id auth) scope key) ?f (d_notes d)\<rparr>" and j: "j = no_id m"
    using r Some by (auto simp: upsert_note_def)
  have only: "n = m" if "n \<in> set (d_notes d)" "note_key_is (au_team_id auth) scope key n" for n
    using find_note_unique [OF wf that] Some by simp
  have byid: "n = m" if "n \<in> set (d_notes d)" "no_id n = j" for n
    using that m j wf distinct_map_inj [of no_id "d_notes d"] by (auto simp: notes_wf_def)
  have "\<forall>n \<in> set (d_notes d'). no_id n = j \<longrightarrow> no_value n = value"
    using byid m by (auto simp: d' set_upd_where)
  moreover have "\<forall>n \<in> set (d_notes d'). no_id n \<noteq> j \<longrightarrow> n \<in> set (d_notes d)"
    using only j by (auto simp: d' set_upd_where)
  moreover have "no_id ` set (d_notes d') = insert j (no_id ` set (d_notes d))"
    using m j by (auto simp: d' image_upd_where_same)
  ultimately show ?thesis
    using wf by (simp add: d' notes_wf_def map_upd_where_same)
qed

lemma d_notes_append [simp]: "d_notes (append_revision now auth j v d) = d_notes d"
  by (simp add: append_revision_def)

lemma trail_append: "trail (append_revision now auth j v d) i = trail d i @ (if i = j then [v] else [])"
  by (simp add: trail_def append_revision_def)

lemma set_note_tx_wf:
  assumes wf: "notes_wf d" and r: "upsert_note now i auth scope key value tags d = Inr (j, d')"
  shows "notes_wf (append_revision now auth j value d')"
proof -
  note row = upsert_note_row [OF wf r]
  have tr: "trail d' x = trail d x" for x using row by (simp add: trail_def)
  have "\<forall>n \<in> set (d_notes d'). trail (append_revision now auth j value d') (no_id n) \<noteq> [] \<and>
      last (trail (append_revision now auth j value d') (no_id n)) = no_value n"
    using wf row by (auto simp: trail_append tr notes_wf_def)
  moreover have "\<forall>r \<in> set (d_revisions (append_revision now auth j value d')).
      nr_id r \<le> d_revision_seq (append_revision now auth j value d') \<and> nr_note_id r \<in> no_id ` set (d_notes d')"
    using wf row by (force simp: append_revision_def notes_wf_def)
  moreover have "sorted_wrt (<) (map nr_id (d_revisions (append_revision now auth j value d')))"
    using wf row by (fastforce simp: append_revision_def notes_wf_def sorted_wrt_append)
  ultimately show ?thesis using row by (simp add: notes_wf_def append_revision_def)
qed

lemma note_lookup_append [simp]: "note_lookup (append_revision now auth j v d) = note_lookup d"
  by (simp add: note_lookup_def append_revision_def fun_eq_iff split: prod.split)

lemma delete_note_wf:
  assumes wf: "notes_wf d"
  shows "notes_wf (snd (delete_note auth scope key d))"
proof -
  let ?P = "note_key_is (au_team_id auth) (normalize_scope scope) (trim key)"
  let ?g = "set (map no_id (filter ?P (d_notes d)))"
  let ?d = "d\<lparr>d_notes := del_where ?P (d_notes d), d_revisions := del_where (\<lambda>r. nr_note_id r \<in> ?g) (d_revisions d)\<rparr>"
  have other: "no_id n \<notin> ?g" if "n \<in> set (d_notes d)" "\<not> ?P n" for n
    using that wf distinct_map_inj [of no_id "d_notes d"] by (auto simp: notes_wf_def)
  have "trail ?d (no_id n) = trail d (no_id n)" if "n \<in> set (d_notes d)" "\<not> ?P n" for n
    using other [OF that] unfolding trail_def
    by (simp del: set_map set_filter) (subst filter_del_where, auto)
  moreover have "sorted_wrt (<) (map nr_id (del_where (\<lambda>r. nr_note_id r \<in> ?g) (d_revisions d)))"
    using wf by (simp add: notes_wf_def del_where_def sorted_wrt_map sorted_wrt_filter)
  moreover have "nr_note_id r \<in> no_id ` {n \<in> set (d_notes d). \<not> ?P n}"
    if "r \<in> set (d_revisions d)" "nr_note_id r \<notin> ?g" for r
    using that wf by (force simp: notes_wf_def)
  ultimately have "notes_wf ?d"
    using wf by (simp add: notes_wf_def set_del_where distinct_map_del_where)
  then show ?thesis by (simp add: delete_note_def Let_def)
qed

lemma delete_note_lookup:
  "note_lookup (snd (delete_note auth scope key d)) =
     (note_lookup d)((au_team_id auth, normalize_scope scope, trim key) := None)"
proof
  fix k :: "uuid \<times> string \<times> string"
  obtain t s q where k: "k = (t, s, q)" by (cases k)
  let ?P = "note_key_is (au_team_id auth) (normalize_scope scope) (trim key)"
  show "note_lookup (snd (delete_note auth scope key d)) k =
      ((note_lookup d)((au_team_id auth, normalize_scope scope, trim key) := None)) k"
  proof (cases "k = (au_team_id auth, normalize_scope scope, trim key)")
    case True
    then show ?thesis
      by (simp add: note_lookup_def delete_note_def Let_def find_filter_None)
  next
    case False
    then have "find (note_key_is t s q) (del_where ?P (d_notes d)) = find (note_key_is t s q) (d_notes d)"
      unfolding k by (intro find_del_where) (auto simp: note_key_is_def)
    with False k show ?thesis by (auto simp: note_lookup_def delete_note_def Let_def)
  qed
qed

section \<open>Notes as a keyed store\<close>

datatype note_req = SetReq time uuid auth_ctx set_input | DeleteReq auth_ctx "string option" string

fun note_exec :: "note_req \<Rightarrow> db \<Rightarrow> db" where
  "note_exec (SetReq now i auth input) d = snd (set_note now i auth input d)"
| "note_exec (DeleteReq auth scope key) d = snd (delete_note auth scope key d)"

fun note_effect :: "db \<Rightarrow> note_req \<Rightarrow> (uuid \<times> string \<times> string, string \<times> string list) kv_op option" where
  "note_effect d (SetReq now i auth input) = (case fst (set_note now i auth input d) of
      Inl _ \<Rightarrow> None
    | Inr n \<Rightarrow> Some (Put (au_team_id auth, normalize_scope (ns_scope input), trim (ns_key input))
                  (ns_value input, normalize_tags (ns_tags input))))"
| "note_effect d (DeleteReq auth scope key) = Some (Del (au_team_id auth, normalize_scope scope, trim key))"

lemma normalize_scope_idem [simp]: "normalize_scope (Some (normalize_scope s)) = normalize_scope s"
proof -
  have "to_lowercase (trim ''global'') = ''global''" by code_simp
  then show ?thesis by (cases s) (auto simp: normalize_scope_def)
qed

lemma check_note_Inr:
  "check_note input = Inr (scope, key, tags) \<Longrightarrow> scope = normalize_scope (ns_scope input) \<and>
     key = trim (ns_key input) \<and> tags = normalize_tags (ns_tags input) \<and> key \<noteq> []"
  by (auto simp: check_note_def Let_def bindE_eq_Inr split: if_splits)

text \<open>The read-back of a write always finds the note, so the write is answered with it.\<close>

lemma set_note_cases:
  assumes "notes_wf d"
  shows "(\<exists>e. set_note now i auth input d = (Inl e, d)) \<or>
    (\<exists>j d1 n d'. set_note now i auth input d = (Inr n, d') \<and>
      upsert_note now i auth (normalize_scope (ns_scope input)) (trim (ns_key input)) (ns_value input)
        (normalize_tags (ns_tags input)) d = Inr (j, d1) \<and>
      d' = append_revision now auth j (ns_value input) d1 \<and>
      ni_value n = ns_value input \<and> ni_tags n = normalize_tags (ns_tags input))"
proof (cases "check_note input")
  case (Inl e)
  then show ?thesis by (simp add: set_note_def)
next
  case (Inr c)
  obtain scope key tags where c: "c = (scope, key, tags)" by (cases c)
  note cs = check_note_Inr [OF Inr [unfolded c]]
  show ?thesis
  proof (cases "upsert_note now i auth scope key (ns_value input) tags d")
    case (Inl e)
    then show ?thesis using Inr c by (simp add: set_note_def transact_def)
  next
    case (Inr u)
    obtain j d1 where u: "u = (j, d1)" by (cases u)
    let ?d = "append_revision now auth j (ns_value input) d1"
    have "note_lookup ?d (au_team_id auth, scope, key) = Some (ns_value input, tags)"
      using upsert_note_lookup [OF Inr [unfolded u]] by simp
    then obtain m where m: "find (note_key_is (au_team_id auth) scope key) (d_notes ?d) = Some m"
      "no_value m = ns_value input" "no_tags m = tags"
      by (auto simp: note_lookup_def)
    have "nf_note (get_note auth (Some scope) key ?d) = Some (note_info_of ?d m)"
      using m cs by (simp add: get_note_def Let_def)
    then show ?thesis
      using \<open>check_note input = Inr c\<close> Inr c u cs m
      by (simp add: set_note_def transact_def note_info_of_def)
  qed
qed

interpretation note_map: keyed_store notes_wf note_lookup note_exec note_effect
proof
  fix d :: db and q
  assume wf: "notes_wf d"
  show "notes_wf (note_exec q d)"
  proof (cases q)
    case (SetReq now i auth input)
    then show ?thesis using set_note_cases [OF wf, of now i auth input] wf set_note_tx_wf [OF wf] by auto
  next
    case (DeleteReq auth scope key)
    then show ?thesis using delete_note_wf [OF wf] by simp
  qed
  show "note_lookup (note_exec q d) =
      (case note_effect d q of None \<Rightarrow> note_lookup d | Some e \<Rightarrow> map_op e (note_lookup d))"
  proof (cases q)
    case (SetReq now i auth input)
    then show ?thesis
      using set_note_cases [OF wf, of now i auth input] upsert_note_lookup by auto
  next
    case (DeleteReq auth scope key)
    then show ?thesis by (simp add: delete_note_lookup)
  qed
qed

section \<open>Properties\<close>

text \<open>C38: notes are a map. A run of writes and deletions by any agents leaves exactly the map those that
  succeeded describe, the last write of a key winning and a deletion removing it; no other key, scope
  or team is touched; and the trail invariant holds throughout.\<close>

theorem notes_refine_a_map:
  assumes "notes_wf d"
  shows "note_lookup (runs note_exec qs d) = fold map_op (effects note_exec note_effect qs d) (note_lookup d) \<and>
    notes_wf (runs note_exec qs d)"
  using assms by (simp add: note_map.store_runs note_map.store_runs_invar)

lemma demo_notes_wf: "notes_wf demo_db"
  by (simp add: notes_wf_def demo_defs)

theorem notes_refine_a_map_witness:
  "note_lookup (runs note_exec [SetReq 5 7 bo \<lparr>ns_scope = Some '' API '', ns_key = ''k'', ns_value = ''v'', ns_tags = None\<rparr>] demo_db)
     (1, ''api'', ''k'') = Some (''v'', [])"
proof -
  let ?q = "SetReq 5 7 bo \<lparr>ns_scope = Some '' API '', ns_key = ''k'', ns_value = ''v'', ns_tags = None\<rparr>"
  have "effects note_exec note_effect [?q] demo_db = [Put (1, ''api'', ''k'') (''v'', [])]" by code_simp
  with notes_refine_a_map [OF demo_notes_wf, of "[?q]"] show ?thesis by simp
qed

text \<open>A write can be undone. A write that succeeds is answered with the value and tags it stored,
  reading the note back in any spelling of its scope and key gives them, and the note's trail is the
  trail it had with the new value at the end, so every value it ever held is still there.\<close>

theorem set_note_keeps_the_trail:
  assumes "notes_wf d" and "set_note now i auth input d = (Inr n, d')"
    and "normalize_scope scope = normalize_scope (ns_scope input)" and "trim key = trim (ns_key input)"
  shows "\<exists>row. row \<in> set (d_notes d') \<and> nf_note (get_note auth scope key d') = Some (note_info_of d' row) \<and>
    no_value row = ns_value input \<and> no_tags row = normalize_tags (ns_tags input) \<and>
    trail d' (no_id row) = trail d (no_id row) @ [ns_value input]"
proof -
  obtain j d1 where u: "upsert_note now i auth (normalize_scope (ns_scope input)) (trim (ns_key input))
      (ns_value input) (normalize_tags (ns_tags input)) d = Inr (j, d1)"
    and d': "d' = append_revision now auth j (ns_value input) d1"
    using set_note_cases [OF assms(1), of now i auth input] assms(2) by auto
  note row = upsert_note_row [OF assms(1) u]
  obtain m where m: "find (note_key_is (au_team_id auth) (normalize_scope scope) (trim key)) (d_notes d') = Some m"
    "no_value m = ns_value input" "no_tags m = normalize_tags (ns_tags input)"
    using fun_cong [OF upsert_note_lookup [OF u], of "(au_team_id auth, normalize_scope scope, trim key)"] assms(3,4)
    by (auto simp: note_lookup_def d')
  have "no_id m = j"
    using u m(1) assms(3,4) find_SomeD [OF m(1)] row
    by (auto simp: d' append_revision_def upsert_note_def find_append note_key_is_def find_upd_where
        split: option.splits if_splits)
  then have "trail d' (no_id m) = trail d (no_id m) @ [ns_value input]"
    using row by (simp add: d' trail_append) (simp add: trail_def)
  with m show ?thesis
    using find_SomeD [OF m(1)] by (auto simp: get_note_def Let_def)
qed

theorem set_note_keeps_the_trail_witness:
  "\<exists>row. row \<in> set (d_notes (snd (set_note 5 7 bo \<lparr>ns_scope = None, ns_key = ''k'', ns_value = ''v'', ns_tags = None\<rparr> demo_db))) \<and>
     trail (snd (set_note 5 7 bo \<lparr>ns_scope = None, ns_key = ''k'', ns_value = ''v'', ns_tags = None\<rparr> demo_db)) (no_id row)
       = trail demo_db (no_id row) @ [''v'']"
proof -
  let ?i = "\<lparr>ns_scope = None, ns_key = ''k'', ns_value = ''v'', ns_tags = None\<rparr>"
  have "isl (fst (set_note 5 7 bo ?i demo_db)) = False" by code_simp
  then obtain n where "set_note 5 7 bo ?i demo_db = (Inr n, snd (set_note 5 7 bo ?i demo_db))"
    by (cases "fst (set_note 5 7 bo ?i demo_db)") (auto simp: prod_eq_iff)
  moreover have "normalize_scope (Some ''global'') = normalize_scope (ns_scope ?i)" by code_simp
  ultimately show ?thesis
    using set_note_keeps_the_trail [OF demo_notes_wf, of 5 7 bo ?i n _ "Some ''global''" "''k''"] by fastforce
qed

end
