(* ===== verification/Attachments.thy ===== *)
theory Attachments
  imports RateLimit Tasks
begin

text \<open>
  \<^verbatim>\<open>src/src/store/quota.rs\<close> and \<^verbatim>\<open>src/src/store/attachments.rs\<close>: files on tasks and messages, the
  per-team byte quota checked under the team's row lock in the transaction that inserts, the cap per
  target, who may read a file, and the retention sweep. Sums cast to \<^verbatim>\<open>bigint\<close> fail out of range and
  the quota's addition is \<^verbatim>\<open>i64\<close> arithmetic.
\<close>

section \<open>Quota and retention\<close>

definition stored_bytes :: "db \<Rightarrow> uuid \<Rightarrow> int" where
  "stored_bytes d team = sum_list (map at_size_bytes (filter (\<lambda>a. at_team_id a = team) (d_attachments d)))"

definition as_bigint :: "int \<Rightarrow> int res" where
  "as_bigint n = (if n > i64_max then Inl (Db ''bigint out of range'') else Inr n)"

record usage_info =
  us_attachment_bytes :: int
  us_attachment_count :: nat
  us_attachment_bytes_limit :: "int option"
  us_messages :: nat
  us_note_revisions :: nat
  us_task_events :: nat
  us_oldest_message :: "time option"

definition percent_used :: "rounding \<Rightarrow> usage_info \<Rightarrow> rat option" where
  "percent_used rnd u = map_option
     (\<lambda>limit. rnd (rnd (rnd (of_int (us_attachment_bytes u)) / rnd (of_int limit)) * 100))
     (opt_filter (\<lambda>l. 0 < l) (us_attachment_bytes_limit u))"

definition team_limit :: "db \<Rightarrow> uuid \<Rightarrow> int option option" where
  "team_limit d team = map_option tm_attachment_bytes_limit (find (\<lambda>t. tm_id t = team) (d_teams d))"

definition usage :: "uuid \<Rightarrow> db \<Rightarrow> usage_info res" where
  "usage team d = bindE (as_bigint (stored_bytes d team)) (\<lambda>bytes.
     let notes = map no_id (filter (\<lambda>n. no_team_id n = team) (d_notes d));
         tasks = map ta_id (filter (\<lambda>t. ta_team_id t = team) (d_tasks d));
         msgs = filter (\<lambda>m. ms_team_id m = team) (d_messages d) in
     Inr \<lparr>us_attachment_bytes = bytes,
          us_attachment_count = count_rows (\<lambda>a. at_team_id a = team) (d_attachments d),
          us_attachment_bytes_limit = unwrap_or None (team_limit d team),
          us_messages = length msgs,
          us_note_revisions = count_rows (\<lambda>r. nr_note_id r \<in> set notes) (d_revisions d),
          us_task_events = count_rows (\<lambda>e. te_task_id e \<in> set tasks) (d_events d),
          us_oldest_message = fetch_optional (sort (map ms_created_at msgs))\<rparr>)"

definition check_attachment_quota :: "uuid \<Rightarrow> int \<Rightarrow> db \<Rightarrow> unit res" where
  "check_attachment_quota team incoming_bytes d = (case team_limit d team of
      None \<Rightarrow> Inl (Db ''no rows'')
    | Some None \<Rightarrow> Inr ()
    | Some (Some limit) \<Rightarrow>
        bindE (as_bigint (stored_bytes d team)) (\<lambda>used.
          if i64_add used incoming_bytes > limit then Inl (Invalid ''attachment quota exceeded'') else Inr ()))"

record prune_report =
  pp_messages :: nat
  pp_note_revisions :: nat
  pp_task_events :: nat
  pp_attachments_freed_bytes :: int
  pp_dry_run :: bool

definition i32_max :: int where
  "i32_max = 2147483647"

definition expired_message :: "uuid \<Rightarrow> time \<Rightarrow> message_row \<Rightarrow> bool" where
  "expired_message team cutoff m \<longleftrightarrow> ms_team_id m = team \<and> ms_created_at m < cutoff"

text \<open>
  \<^verbatim>\<open>DELETE FROM messages\<close> with what the schema does: attachments of a deleted message go with it, and
  a reply to one keeps its row without the reference.
\<close>

definition drop_reply :: "int list \<Rightarrow> message_row \<Rightarrow> message_row" where
  "drop_reply gone m = (case ms_reply_to m of
      Some r \<Rightarrow> if r \<in> set gone then m\<lparr>ms_reply_to := None\<rparr> else m
    | None \<Rightarrow> m)"

definition delete_messages :: "(message_row \<Rightarrow> bool) \<Rightarrow> db \<Rightarrow> db" where
  "delete_messages P d =
     (let gone = map ms_id (filter P (d_messages d)) in
      d\<lparr>d_messages := map (drop_reply gone) (del_where P (d_messages d)),
        d_attachments := del_where (\<lambda>a. case at_message_id a of None \<Rightarrow> False | Some m \<Rightarrow> m \<in> set gone)
          (d_attachments d)\<rparr>)"

definition prune_tx :: "ext \<Rightarrow> time \<Rightarrow> uuid \<Rightarrow> int \<Rightarrow> bool \<Rightarrow> prune_report tx" where
  "prune_tx X now team days dry_run d =
     (let cutoff = now - secs (days * 86400);
          noted = map no_id (filter (\<lambda>n. no_team_id n = team) (d_notes d));
          tasked = map ta_id (filter (\<lambda>t. ta_team_id t = team) (d_tasks d));
          old_messages = map ms_id (filter (\<lambda>m. ms_created_at m < cutoff) (d_messages d)) in
      if \<not> x_micros_ok X cutoff then Inl (Db ''timestamp out of range'')
      else
      bindE (as_bigint (sum_list (map at_size_bytes (filter (\<lambda>a. at_team_id a = team \<and>
          (case at_message_id a of None \<Rightarrow> False | Some m \<Rightarrow> m \<in> set old_messages)) (d_attachments d))))) (\<lambda>freed.
      let old_rev = (\<lambda>r. nr_note_id r \<in> set noted \<and> nr_created_at r < cutoff);
          old_event = (\<lambda>e. te_task_id e \<in> set tasked \<and> te_created_at e < cutoff);
          report = \<lparr>pp_messages = count_rows (expired_message team cutoff) (d_messages d),
            pp_note_revisions = count_rows old_rev (d_revisions d),
            pp_task_events = count_rows old_event (d_events d),
            pp_attachments_freed_bytes = freed, pp_dry_run = dry_run\<rparr>;
          d' = delete_messages (expired_message team cutoff)
            (d\<lparr>d_revisions := del_where old_rev (d_revisions d), d_events := del_where old_event (d_events d)\<rparr>) in
      Inr (report, if dry_run then d else d')))"

definition prune :: "ext \<Rightarrow> time \<Rightarrow> uuid \<Rightarrow> int \<Rightarrow> bool \<Rightarrow> db \<Rightarrow> prune_report res \<times> db" where
  "prune X now team older_than_days dry_run d =
     (if older_than_days < 1 then (Inl (Invalid ''older_than_days must be at least 1''), d)
      else if older_than_days > i32_max then (Inl (Invalid ''older_than_days too large''), d)
      else transact (prune_tx X now team older_than_days dry_run) d)"

section \<open>Attachments\<close>

definition MAX_ATTACHMENT_BYTES :: int where "MAX_ATTACHMENT_BYTES = 256 * 1024"
definition MAX_ATTACHMENTS_PER_TARGET :: nat where "MAX_ATTACHMENTS_PER_TARGET = 8"

record new_attachment =
  na_filename :: string
  na_content_type :: string
  na_data :: string

definition decode_input :: "ext \<Rightarrow> string \<Rightarrow> string option \<Rightarrow> string \<Rightarrow> new_attachment res" where
  "decode_input X filename content_type data_base64 =
     (let filename = trim filename in
      if filename = [] then Inl (Invalid ''attachment filename cannot be empty'')
      else if length filename > 255 then Inl (Invalid ''attachment filename is limited to 255 characters'')
      else bindE (ok_or (x_b64_decode X (trim data_base64)) (Invalid ''data_base64 is not valid base64'')) (\<lambda>data.
        if data = [] then Inl (Invalid ''attachment is empty'')
        else if int (length data) > MAX_ATTACHMENT_BYTES then Inl (Invalid ''attachment over the limit'')
        else Inr \<lparr>na_filename = filename,
               na_content_type = unwrap_or ''application/octet-stream''
                 (opt_filter (\<lambda>c. c \<noteq> []) (map_option trim content_type)),
               na_data = data\<rparr>))"

text \<open>The insert; the check constraint wants a positive size.\<close>

definition new_row ::
    "time \<Rightarrow> uuid \<Rightarrow> int option \<Rightarrow> uuid option \<Rightarrow> uuid \<Rightarrow> new_attachment \<Rightarrow> db \<Rightarrow> attachment_row" where
  "new_row now team message task uploader att d =
     \<lparr>at_id = d_attachment_seq d + 1, at_team_id = team, at_message_id = message, at_task_id = task,
      at_uploader_agent_id = uploader, at_filename = na_filename att,
      at_content_type = na_content_type att, at_size_bytes = int (length (na_data att)),
      at_data = na_data att, at_created_at = now\<rparr>"

definition add_row :: "attachment_row \<Rightarrow> db \<Rightarrow> db" where
  "add_row a d = d\<lparr>d_attachment_seq := d_attachment_seq d + 1, d_attachments := d_attachments d @ [a]\<rparr>"

definition insert_attachment ::
    "time \<Rightarrow> uuid \<Rightarrow> int option \<Rightarrow> uuid option \<Rightarrow> uuid \<Rightarrow> new_attachment \<Rightarrow> attachment_info tx" where
  "insert_attachment now team message task uploader att d =
     (if na_data att = [] then Inl (Db ''check constraint'')
      else let a = new_row now team message task uploader att d in Inr (attachment_info_of a, add_row a d))"

definition insert_for_message :: "time \<Rightarrow> uuid \<Rightarrow> int \<Rightarrow> uuid \<Rightarrow> new_attachment \<Rightarrow> attachment_info tx" where
  "insert_for_message now team message_id uploader att d =
     bindE (check_attachment_quota team (int (length (na_data att))) d) (\<lambda>_.
       insert_attachment now team (Some message_id) None uploader att d)"

definition attach_to_task :: "time \<Rightarrow> auth_ctx \<Rightarrow> string \<Rightarrow> new_attachment \<Rightarrow> db \<Rightarrow> attachment_info res \<times> db" where
  "attach_to_task now auth task_key att d =
     (case find (task_key_is (au_team_id auth) (trim task_key)) (d_tasks d) of
        None \<Rightarrow> (Inl (NotFound ''no such task''), d)
      | Some t \<Rightarrow>
          transact (\<lambda>d.
            if count_rows (\<lambda>a. at_task_id a = Some (ta_id t)) (d_attachments d) \<ge> MAX_ATTACHMENTS_PER_TARGET
            then Inl (Invalid ''the task already has its attachments'')
            else bindE (check_attachment_quota (au_team_id auth) (int (length (na_data att))) d) (\<lambda>_.
              insert_attachment now (au_team_id auth) None (Some (ta_id t)) (au_agent_id auth) att d)) d)"

definition attach_to_message :: "time \<Rightarrow> auth_ctx \<Rightarrow> int \<Rightarrow> new_attachment \<Rightarrow> db \<Rightarrow> attachment_info res \<times> db" where
  "attach_to_message now auth message_id att d =
     (case find (\<lambda>m. ms_id m = message_id \<and> ms_team_id m = au_team_id auth) (d_messages d) of
        None \<Rightarrow> (Inl (NotFound ''no such message''), d)
      | Some m \<Rightarrow>
          if ms_sender_agent_id m \<noteq> au_agent_id auth
          then (Inl (Invalid ''you can only attach files to your own messages''), d)
          else transact (\<lambda>d.
            if count_rows (\<lambda>a. at_message_id a = Some message_id) (d_attachments d) \<ge> MAX_ATTACHMENTS_PER_TARGET
            then Inl (Invalid ''the message already has its attachments'')
            else insert_for_message now (au_team_id auth) message_id (au_agent_id auth) att d) d)"

record attachment_content =
  ac_id :: int
  ac_filename :: string
  ac_content_type :: string
  ac_size_bytes :: int
  ac_uploaded_by :: string
  ac_created_at :: time
  ac_data_base64 :: string

definition get_attachment :: "ext \<Rightarrow> auth_ctx \<Rightarrow> int \<Rightarrow> db \<Rightarrow> attachment_content res" where
  "get_attachment X auth i d =
     (case find (\<lambda>a. at_id a = i \<and> at_team_id a = au_team_id auth) (d_attachments d) of
        None \<Rightarrow> Inl (NotFound ''no such attachment'')
      | Some a \<Rightarrow>
     (case agent_name_of d (at_uploader_agent_id a) of
        None \<Rightarrow> Inl (NotFound ''no such attachment'')
      | Some uploaded_by \<Rightarrow>
          let m = Option.bind (at_message_id a) (\<lambda>mi. find (\<lambda>m. ms_id m = mi) (d_messages d));
              dm_recipient = Option.bind m ms_recipient_agent_id;
              sender = map_option ms_sender_agent_id m in
          if (case dm_recipient of None \<Rightarrow> False
              | Some r \<Rightarrow> r \<noteq> au_agent_id auth \<and> sender \<noteq> Some (au_agent_id auth))
          then Inl (NotFound ''no such attachment'')
          else Inr \<lparr>ac_id = i, ac_filename = at_filename a, ac_content_type = at_content_type a,
                 ac_size_bytes = at_size_bytes a, ac_uploaded_by = uploaded_by,
                 ac_created_at = at_created_at a, ac_data_base64 = x_b64_encode X (at_data a)\<rparr>))"

text \<open>The tool handler \<^verbatim>\<open>attach_file\<close>: decode and validate, pick the one target, attach.\<close>

record attach_args =
  aa_task :: "string option"
  aa_message_id :: "int option"
  aa_filename :: string
  aa_content_type :: "string option"
  aa_data_base64 :: string

definition attach_file :: "ext \<Rightarrow> time \<Rightarrow> auth_ctx \<Rightarrow> attach_args \<Rightarrow> db \<Rightarrow> attachment_info res \<times> db" where
  "attach_file X now auth args d =
     (case decode_input X (aa_filename args) (aa_content_type args) (aa_data_base64 args) of
        Inl e \<Rightarrow> (Inl e, d)
      | Inr att \<Rightarrow> (case (aa_task args, aa_message_id args) of
          (Some task, None) \<Rightarrow> attach_to_task now auth task att d
        | (None, Some message_id) \<Rightarrow> attach_to_message now auth message_id att d
        | _ \<Rightarrow> (Inl (Invalid ''set either task or message_id, not both''), d)))"

section \<open>What an upload commits\<close>

definition on_message :: "int \<Rightarrow> attachment_row \<Rightarrow> bool" where
  "on_message m a \<longleftrightarrow> at_message_id a = Some m"

definition on_task :: "uuid \<Rightarrow> attachment_row \<Rightarrow> bool" where
  "on_task t a \<longleftrightarrow> at_task_id a = Some t"

definition upload_ok :: "auth_ctx \<Rightarrow> db \<Rightarrow> attachment_row \<Rightarrow> bool" where
  "upload_ok auth d a \<longleftrightarrow> at_id a = d_attachment_seq d + 1 \<and> at_team_id a = au_team_id auth \<and>
     at_uploader_agent_id a = au_agent_id auth \<and> at_size_bytes a = int (length (at_data a)) \<and>
     0 < at_size_bytes a \<and> at_size_bytes a \<le> MAX_ATTACHMENT_BYTES \<and>
     check_attachment_quota (au_team_id auth) (at_size_bytes a) d = Inr () \<and>
     ((\<exists>m r. at_message_id a = Some m \<and> at_task_id a = None \<and>
         count_rows (on_message m) (d_attachments d) < MAX_ATTACHMENTS_PER_TARGET \<and>
         r \<in> set (d_messages d) \<and> ms_id r = m \<and> ms_team_id r = au_team_id auth \<and>
         ms_sender_agent_id r = au_agent_id auth) \<or>
      (\<exists>t. at_task_id a = Some t \<and> at_message_id a = None \<and>
         count_rows (on_task t) (d_attachments d) < MAX_ATTACHMENTS_PER_TARGET))"

lemma decode_input_Inr:
  "decode_input X f c b = Inr att \<Longrightarrow> x_b64_decode X (trim b) = Some (na_data att) \<and> na_data att \<noteq> [] \<and>
     int (length (na_data att)) \<le> MAX_ATTACHMENT_BYTES"
  by (auto simp: decode_input_def Let_def bindE_eq_Inr ok_or_eq_Inr split: if_splits)

lemma attach_to_task_cases:
  assumes "na_data att \<noteq> []"
  shows "(\<exists>e. attach_to_task now auth key att d = (Inl e, d)) \<or>
    (\<exists>t a. a = new_row now (au_team_id auth) None (Some t) (au_agent_id auth) att d \<and>
      attach_to_task now auth key att d = (Inr (attachment_info_of a), add_row a d) \<and>
      count_rows (on_task t) (d_attachments d) < MAX_ATTACHMENTS_PER_TARGET \<and>
      check_attachment_quota (au_team_id auth) (int (length (na_data att))) d = Inr ())"
proof (cases "find (task_key_is (au_team_id auth) (trim key)) (d_tasks d)")
  case None
  then show ?thesis by (simp add: attach_to_task_def)
next
  case (Some t)
  have o: "(\<lambda>a. at_task_id a = Some (ta_id t)) = on_task (ta_id t)" by (simp add: on_task_def fun_eq_iff)
  show ?thesis
  proof (cases "check_attachment_quota (au_team_id auth) (int (length (na_data att))) d")
    case (Inl e)
    with Some show ?thesis by (simp add: attach_to_task_def transact_def)
  next
    case (Inr u)
    with Some assms o show ?thesis
      by (cases "count_rows (on_task (ta_id t)) (d_attachments d) < MAX_ATTACHMENTS_PER_TARGET")
         (auto simp: attach_to_task_def transact_def insert_attachment_def Let_def)
  qed
qed

lemma attach_to_message_cases:
  assumes "na_data att \<noteq> []"
  shows "(\<exists>e. attach_to_message now auth m att d = (Inl e, d)) \<or>
    (\<exists>r a. a = new_row now (au_team_id auth) (Some m) None (au_agent_id auth) att d \<and>
      attach_to_message now auth m att d = (Inr (attachment_info_of a), add_row a d) \<and>
      count_rows (on_message m) (d_attachments d) < MAX_ATTACHMENTS_PER_TARGET \<and>
      check_attachment_quota (au_team_id auth) (int (length (na_data att))) d = Inr () \<and>
      r \<in> set (d_messages d) \<and> ms_id r = m \<and> ms_team_id r = au_team_id auth \<and> ms_sender_agent_id r = au_agent_id auth)"
proof (cases "find (\<lambda>r. ms_id r = m \<and> ms_team_id r = au_team_id auth) (d_messages d)")
  case None
  then show ?thesis by (simp add: attach_to_message_def)
next
  case (Some r)
  note r = find_SomeD [OF Some]
  have o: "(\<lambda>a. at_message_id a = Some m) = on_message m" by (simp add: on_message_def fun_eq_iff)
  show ?thesis
  proof (cases "check_attachment_quota (au_team_id auth) (int (length (na_data att))) d")
    case (Inl e)
    with Some show ?thesis by (simp add: attach_to_message_def transact_def insert_for_message_def)
  next
    case (Inr u)
    with Some assms o r show ?thesis
      by (cases "count_rows (on_message m) (d_attachments d) < MAX_ATTACHMENTS_PER_TARGET")
         (auto simp: attach_to_message_def transact_def insert_for_message_def insert_attachment_def Let_def)
  qed
qed

lemma attach_file_cases:
  obtains (refused) e where "attach_file X now auth args d = (Inl e, d)"
    | (stored) a where "attach_file X now auth args d = (Inr (attachment_info_of a), add_row a d)"
        "upload_ok auth d a" "x_b64_decode X (trim (aa_data_base64 args)) = Some (at_data a)"
proof (cases "\<exists>e. attach_file X now auth args d = (Inl e, d)")
  case True
  then show ?thesis using refused by blast
next
  case False
  then obtain att where att: "decode_input X (aa_filename args) (aa_content_type args) (aa_data_base64 args) = Inr att"
    by (cases "decode_input X (aa_filename args) (aa_content_type args) (aa_data_base64 args)")
       (auto simp: attach_file_def)
  note dec = decode_input_Inr [OF att]
  have "\<exists>a. attach_file X now auth args d = (Inr (attachment_info_of a), add_row a d) \<and>
      upload_ok auth d a \<and> at_data a = na_data att"
  proof (cases "aa_task args"; cases "aa_message_id args")
    fix k assume k: "aa_task args = Some k" "aa_message_id args = None"
    then show ?thesis
      using False att dec attach_to_task_cases [of att now auth k d]
      by (auto simp: attach_file_def upload_ok_def new_row_def)
  next
    fix m assume m: "aa_task args = None" "aa_message_id args = Some m"
    then have f: "attach_file X now auth args d = attach_to_message now auth m att d"
      using att by (simp add: attach_file_def)
    let ?a = "new_row now (au_team_id auth) (Some m) None (au_agent_id auth) att d"
    have "attach_file X now auth args d = (Inr (attachment_info_of ?a), add_row ?a d) \<and> upload_ok auth d ?a"
      using attach_to_message_cases [of att now auth m d] dec False unfolding f upload_ok_def
      by (auto simp: new_row_def)
    then show ?thesis by (auto simp: new_row_def)
  qed (use False att in \<open>auto simp: attach_file_def\<close>)
  then show ?thesis using stored dec by auto
qed

lemma quota_passed:
  assumes "check_attachment_quota team n d = Inr ()" and "team_limit d team = Some (Some l)"
    and "0 \<le> stored_bytes d team" and "stored_bytes d team \<le> l" and "l + MAX_ATTACHMENT_BYTES \<le> i64_max"
    and "0 \<le> n" and "n \<le> MAX_ATTACHMENT_BYTES"
  shows "stored_bytes d team + n \<le> l"
proof -
  have "i64_add (stored_bytes d team) n = stored_bytes d team + n"
    unfolding i64_add_def using assms by (intro i64_wrap_id) auto
  moreover have "\<not> i64_add (stored_bytes d team) n > l"
    using assms(1,2) by (auto simp: check_attachment_quota_def bindE_eq_Inr as_bigint_def split: if_splits)
  ultimately show ?thesis by simp
qed

section \<open>Runs of uploads\<close>

datatype attach_req = AttachReq ext time auth_ctx attach_args

fun attach_exec :: "attach_req \<Rightarrow> db \<Rightarrow> db" where
  "attach_exec (AttachReq X now auth args) d = snd (attach_file X now auth args d)"

text \<open>Within the quota of a team with a limit, and within the cap of every message and task.\<close>

definition within_quota :: "uuid \<Rightarrow> int \<Rightarrow> db \<Rightarrow> bool" where
  "within_quota team l d \<longleftrightarrow> team_limit d team = Some (Some l) \<and> stored_bytes d team \<le> l \<and>
     (\<forall>a \<in> set (d_attachments d). 0 \<le> at_size_bytes a)"

definition within_caps :: "db \<Rightarrow> bool" where
  "within_caps d \<longleftrightarrow> (\<forall>m. count_rows (on_message m) (d_attachments d) \<le> MAX_ATTACHMENTS_PER_TARGET) \<and>
     (\<forall>t. count_rows (on_task t) (d_attachments d) \<le> MAX_ATTACHMENTS_PER_TARGET)"

lemma stored_bytes_nonneg: "\<forall>a \<in> set (d_attachments d). 0 \<le> at_size_bytes a \<Longrightarrow> 0 \<le> stored_bytes d team"
  unfolding stored_bytes_def by (intro sum_list_nonneg) auto

lemma attach_within_quota:
  assumes "within_quota team l d" and "l + MAX_ATTACHMENT_BYTES \<le> i64_max"
  shows "within_quota team l (snd (attach_file X now auth args d))"
proof (cases rule: attach_file_cases [of X now auth args d])
  case (refused e)
  then show ?thesis using assms by simp
next
  case (stored a)
  have ok: "0 < at_size_bytes a" "at_size_bytes a \<le> MAX_ATTACHMENT_BYTES" "at_team_id a = au_team_id auth"
    "check_attachment_quota (au_team_id auth) (at_size_bytes a) d = Inr ()"
    using stored(2) by (auto simp: upload_ok_def)
  have "stored_bytes d team + at_size_bytes a \<le> l" if "au_team_id auth = team"
    using that assms ok quota_passed [of team "at_size_bytes a" d l] stored_bytes_nonneg [of d team]
    by (auto simp: within_quota_def)
  then show ?thesis
    using assms stored(1) ok by (auto simp: within_quota_def stored_bytes_def team_limit_def add_row_def)
qed

lemma attach_within_caps:
  assumes "within_caps d"
  shows "within_caps (snd (attach_file X now auth args d))"
proof (cases rule: attach_file_cases [of X now auth args d])
  case (refused e)
  then show ?thesis using assms by simp
next
  case (stored a)
  from assms stored(1,2) show ?thesis
    by (auto simp: within_caps_def upload_ok_def count_rows_def on_message_def on_task_def add_row_def)
qed

interpretation quota_kept: kept_invariant attach_exec "\<lambda>d. within_quota team l d \<and> l + MAX_ATTACHMENT_BYTES \<le> i64_max"
proof
  fix d q
  assume "within_quota team l d \<and> l + MAX_ATTACHMENT_BYTES \<le> i64_max"
  then show "within_quota team l (attach_exec q d) \<and> l + MAX_ATTACHMENT_BYTES \<le> i64_max"
    by (cases q) (simp add: attach_within_quota)
qed

interpretation caps_kept: kept_invariant attach_exec within_caps
proof
  fix d q
  assume "within_caps d"
  then show "within_caps (attach_exec q d)"
    by (cases q) (simp add: attach_within_caps)
qed


section \<open>Properties\<close>


definition demo_upload :: attach_args where
  "demo_upload = \<lparr>aa_task = Some ''a'', aa_message_id = None, aa_filename = ''f'', aa_content_type = None,
     aa_data_base64 = ''xyz''\<rparr>"


text \<open>No message and no task ever carries more than eight attachments, over every sequence of uploads.\<close>

theorem caps_are_never_exceeded:
  assumes "within_caps d"
  shows "within_caps (runs attach_exec qs d)"
  using assms by (rule caps_kept.invar_runs)

theorem caps_are_never_exceeded_witness:
  "within_caps (runs attach_exec [AttachReq demo_ext 5 bo demo_upload] demo_db)"
  by (rule caps_are_never_exceeded) (simp add: within_caps_def count_rows_def demo_defs)

text \<open>Files follow their message. Whoever is handed an attachment belongs to its team, and if it
  hangs off a direct message the reader is its sender or its recipient; to everybody else it does not
  exist.\<close>

theorem attachments_of_a_dm_stay_private:
  assumes "get_attachment X auth i d = Inr c" and "a \<in> set (d_attachments d)" and "at_id a = i"
    and "distinct (map at_id (d_attachments d))" and "distinct (map ms_id (d_messages d))"
  shows "at_team_id a = au_team_id auth \<and>
    (\<forall>m \<in> set (d_messages d). at_message_id a = Some (ms_id m) \<longrightarrow> ms_recipient_agent_id m \<noteq> None \<longrightarrow>
       au_agent_id auth = ms_sender_agent_id m \<or> ms_recipient_agent_id m = Some (au_agent_id auth))"
proof -
  obtain b where b: "find (\<lambda>a. at_id a = i \<and> at_team_id a = au_team_id auth) (d_attachments d) = Some b"
    using assms(1) by (auto simp: get_attachment_def split: option.splits)
  then have "b = a"
    using assms(2-4) distinct_map_inj [of at_id "d_attachments d" b a] find_SomeD [OF b] by simp
  with b have team: "at_team_id a = au_team_id auth" by (auto dest: find_SomeD)
  have "au_agent_id auth = ms_sender_agent_id m \<or> ms_recipient_agent_id m = Some (au_agent_id auth)"
    if m: "m \<in> set (d_messages d)" "at_message_id a = Some (ms_id m)" and r: "ms_recipient_agent_id m = Some r" for m r
  proof -
    have "find (\<lambda>x. ms_id x = ms_id m) (d_messages d) = Some m"
      using assms(5) m(1) by (rule find_unique)
    with assms(1) b m(2) r \<open>b = a\<close> show ?thesis
      by (auto simp: get_attachment_def Let_def split: option.splits if_splits)
  qed
  with team show ?thesis by auto
qed

definition demo_dm :: db where
  "demo_dm = demo_db\<lparr>
     d_messages := [\<lparr>ms_id = 1, ms_team_id = 1, ms_channel_id = None, ms_recipient_agent_id = Some 11,
       ms_recipient_session = None, ms_sender_agent_id = 10, ms_sender_session = None, ms_body = ''hi'',
       ms_reply_to = None, ms_metadata = JObj [], ms_announce = False, ms_created_at = 0\<rparr>],
     d_message_seq := 1,
     d_attachments := [\<lparr>at_id = 1, at_team_id = 1, at_message_id = Some 1, at_task_id = None,
       at_uploader_agent_id = 10, at_filename = ''f'', at_content_type = ''t'', at_size_bytes = 3,
       at_data = ''xyz'', at_created_at = 0\<rparr>],
     d_attachment_seq := 1\<rparr>"

theorem attachments_of_a_dm_stay_private_witness:
  "\<not> isl (get_attachment demo_ext bo 1 demo_dm) \<and> isl (get_attachment demo_ext (bo\<lparr>au_agent_id := 12\<rparr>) 1 demo_dm) \<and>
   at_team_id (hd (d_attachments demo_dm)) = au_team_id bo"
proof -
  have "\<not> isl (get_attachment demo_ext bo 1 demo_dm)" by code_simp
  then obtain c where c: "get_attachment demo_ext bo 1 demo_dm = Inr c"
    by (cases "get_attachment demo_ext bo 1 demo_dm") auto
  have "isl (get_attachment demo_ext (bo\<lparr>au_agent_id := 12\<rparr>) 1 demo_dm)" by code_simp
  with attachments_of_a_dm_stay_private [OF c, of "hd (d_attachments demo_dm)"] c show ?thesis
    by (simp add: demo_dm_def)
qed

text \<open>What was uploaded is what is downloaded: after an upload is acknowledged, fetching its id gives
  the name, the size and the base64 of exactly the bytes that were decoded.\<close>

theorem upload_then_download:
  assumes "attach_file X now auth args d = (Inr info, d')"
    and "\<forall>a \<in> set (d_attachments d). at_id a \<le> d_attachment_seq d"
    and "agent_name_of d (au_agent_id auth) = Some n" and "distinct (map ms_id (d_messages d))"
  shows "\<exists>data c. x_b64_decode X (trim (aa_data_base64 args)) = Some data \<and>
    get_attachment X auth (ai_id info) d' = Inr c \<and> ac_data_base64 c = x_b64_encode X data \<and>
    ac_filename c = ai_filename info \<and> ac_size_bytes c = int (length data)"
proof (cases rule: attach_file_cases [of X now auth args d])
  case (refused e)
  with assms(1) show ?thesis by simp
next
  case (stored a)
  have info: "info = attachment_info_of a" and d': "d' = add_row a d" using assms(1) stored(1) by simp_all
  have "find (\<lambda>x. at_id x = at_id a \<and> at_team_id x = au_team_id auth) (d_attachments d) = None"
    using assms(2) stored(2) by (force simp: find_None_set upload_ok_def)
  then have f: "find (\<lambda>x. at_id x = at_id a \<and> at_team_id x = au_team_id auth) (d_attachments d') = Some a"
    using stored(2) by (simp add: d' add_row_def find_append upload_ok_def)
  have nm: "agent_name_of d' (at_uploader_agent_id a) = Some n"
    using assms(3) stored(2) by (simp add: d' add_row_def agent_name_of_def upload_ok_def)
  have "at_message_id a = None \<or>
      (\<exists>m r. at_message_id a = Some m \<and> find (\<lambda>x. ms_id x = m) (d_messages d') = Some r \<and>
        ms_sender_agent_id r = au_agent_id auth)"
    using stored(2) find_unique [OF assms(4)] by (auto simp: upload_ok_def d' add_row_def)
  then show ?thesis
    using f nm stored(2,3)
    by (auto simp: get_attachment_def info attachment_info_of_def upload_ok_def Let_def split: option.split)
qed

theorem upload_then_download_witness:
  "\<exists>c. get_attachment demo_ext bo 1 (snd (attach_file demo_ext 5 bo demo_upload demo_db)) = Inr c \<and>
     ac_data_base64 c = ''xyz''"
proof -
  have "isl (fst (attach_file demo_ext 5 bo demo_upload demo_db)) = False" by code_simp
  then obtain info where r: "attach_file demo_ext 5 bo demo_upload demo_db
      = (Inr info, snd (attach_file demo_ext 5 bo demo_upload demo_db))"
    by (cases "fst (attach_file demo_ext 5 bo demo_upload demo_db)") (auto simp: prod_eq_iff)
  have i: "map_sum id ai_id (fst (attach_file demo_ext 5 bo demo_upload demo_db)) = Inr 1" by code_simp
  have t: "trim ''xyz'' = ''xyz''" by code_simp
  have n: "agent_name_of demo_db (au_agent_id bo) = Some ''bo''" by code_simp
  have "ai_id info = 1" using i r by (metis fst_conv map_sum.simps(2) sum.inject(2))
  with upload_then_download [OF r _ n] t show ?thesis
    by (force simp: demo_defs demo_upload_def)
qed

section \<open>Retention\<close>

lemma ms_id_drop_reply [simp]: "ms_id (drop_reply g m) = ms_id m"
  by (simp add: drop_reply_def split: option.split)

text \<open>Retention is safe. A window that is not between one day and the \<^verbatim>\<open>i32\<close> range is refused; a run
  removes only rows of that team older than the cutoff, which lies in the past; notes, tasks, channels
  and every other table stay; and a dry run reports the very same numbers and writes nothing.\<close>

theorem prune_removes_only_what_expired:
  assumes "prune X now team days False d = (Inr rep, d')"
  shows "1 \<le> days \<and> now - secs (days * 86400) < now \<and>
    prune X now team days True d = (Inr (rep\<lparr>pp_dry_run := True\<rparr>), d) \<and>
    d_notes d' = d_notes d \<and> d_tasks d' = d_tasks d \<and> d_locks d' = d_locks d \<and> d_channels d' = d_channels d \<and>
    d_sessions d' = d_sessions d \<and>
    (\<forall>m \<in> set (d_messages d). ms_team_id m \<noteq> team \<or> now - secs (days * 86400) \<le> ms_created_at m \<longrightarrow>
       ms_id m \<in> ms_id ` set (d_messages d')) \<and>
    (\<forall>r \<in> set (d_revisions d). now - secs (days * 86400) \<le> nr_created_at r \<longrightarrow> r \<in> set (d_revisions d')) \<and>
    (\<forall>e \<in> set (d_events d). now - secs (days * 86400) \<le> te_created_at e \<longrightarrow> e \<in> set (d_events d'))"
proof -
  let ?c = "now - secs (days * 86400)"
  have r: "1 \<le> days" "prune_tx X now team days False d = Inr (rep, d')"
    using assms by (auto simp: prune_def transact_def split: if_splits sum.splits)
  have "prune X now team days True d = (Inr (rep\<lparr>pp_dry_run := True\<rparr>), d)"
    using assms by (auto simp: prune_def transact_def prune_tx_def Let_def bindE_eq_Inr
        split: if_splits sum.splits)
  moreover have "ms_id ` set (d_messages d') = ms_id ` {m \<in> set (d_messages d). \<not> expired_message team ?c m}"
    using r(2) by (auto simp: prune_tx_def Let_def bindE_eq_Inr delete_messages_def set_del_where image_image
        split: if_splits)
  ultimately show ?thesis
    using r by (auto simp: prune_tx_def Let_def bindE_eq_Inr delete_messages_def set_del_where secs_def
        expired_message_def split: if_splits)
qed

theorem prune_removes_only_what_expired_witness:
  "\<exists>rep. prune demo_ext 90000000000 1 1 False demo_dm = (Inr rep, snd (prune demo_ext 90000000000 1 1 False demo_dm)) \<and>
     prune demo_ext 90000000000 1 1 True demo_dm = (Inr (rep\<lparr>pp_dry_run := True\<rparr>), demo_dm) \<and> pp_messages rep = 1"
proof -
  have "map_sum id pp_messages (fst (prune demo_ext 90000000000 1 1 False demo_dm)) = Inr 1" by code_simp
  then obtain rep where "fst (prune demo_ext 90000000000 1 1 False demo_dm) = Inr rep" "pp_messages rep = 1"
    by (cases "fst (prune demo_ext 90000000000 1 1 False demo_dm)") auto
  then have "prune demo_ext 90000000000 1 1 False demo_dm = (Inr rep, snd (prune demo_ext 90000000000 1 1 False demo_dm))"
    by (simp add: prod_eq_iff)
  with prune_removes_only_what_expired [OF this] \<open>pp_messages rep = 1\<close> show ?thesis by blast
qed

end
