(* ===== verification/Messaging.thy ===== *)
theory Messaging
  imports Attachments
begin

text \<open>
  \<^verbatim>\<open>src/src/store/messaging.rs\<close>: channels, addresses, posting, questions and answers, reading with
  per-window cursors, search, and \<^verbatim>\<open>whoami\<close> of \<^verbatim>\<open>store/mod.rs\<close>.

  A post runs as one transaction; a reader's page and the cursor it moves are computed on one state.
  Message ids come from the sequence at the insert. \<^verbatim>\<open>ORDER BY name\<close> is byte-wise.
\<close>

section \<open>Constants and views\<close>

definition MAX_MESSAGE_LIMIT :: int where "MAX_MESSAGE_LIMIT = 200"
definition MAX_BODY_BYTES :: int where "MAX_BODY_BYTES = 1024 * 1024"
definition MAX_TOPIC_BYTES :: int where "MAX_TOPIC_BYTES = 256"
definition PENDING_QUESTION_HOURS :: int where "PENDING_QUESTION_HOURS = 24"

record message_info =
  mi_id :: int
  mi_from :: string
  mi_from_session :: "string option"
  mi_announce :: bool
  mi_channel :: "string option"
  mi_to :: "string option"
  mi_to_session :: "string option"
  mi_body :: string
  mi_reply_to :: "int option"
  mi_metadata :: json
  mi_attachments :: "attachment_info list"
  mi_created_at :: time

definition channel_name_of :: "db \<Rightarrow> uuid \<Rightarrow> string option" where
  "channel_name_of d c = map_option ch_name (find (\<lambda>r. ch_id r = c) (d_channels d))"

text \<open>\<^verbatim>\<open>MESSAGE_SELECT\<close> of one row; \<open>None\<close> when the inner join finds no sender.\<close>

definition message_info_of :: "db \<Rightarrow> message_row \<Rightarrow> message_info option" where
  "message_info_of d m = map_option (\<lambda>sender.
     \<lparr>mi_id = ms_id m, mi_from = sender,
      mi_from_session = opt_filter (\<lambda>s. s \<noteq> []) (ms_sender_session m), mi_announce = ms_announce m,
      mi_channel = Option.bind (ms_channel_id m) (channel_name_of d),
      mi_to = Option.bind (ms_recipient_agent_id m) (agent_name_of d),
      mi_to_session = opt_filter (\<lambda>s. s \<noteq> []) (ms_recipient_session m), mi_body = ms_body m,
      mi_reply_to = ms_reply_to m, mi_metadata = ms_metadata m,
      mi_attachments = map attachment_info_of
        (sort_key at_id (filter (\<lambda>a. at_message_id a = Some (ms_id m)) (d_attachments d))),
      mi_created_at = ms_created_at m\<rparr>) (agent_name_of d (ms_sender_agent_id m))"

definition message_select :: "db \<Rightarrow> (message_row \<Rightarrow> bool) \<Rightarrow> message_row list" where
  "message_select d P = filter (\<lambda>m. P m \<and> agent_name_of d (ms_sender_agent_id m) \<noteq> None) (d_messages d)"

definition message_infos :: "db \<Rightarrow> message_row list \<Rightarrow> message_info list" where
  "message_infos d rows = List.map_filter (message_info_of d) rows"

section \<open>Channels\<close>

record channel_info =
  cn_name :: string
  cn_topic :: "string option"
  cn_message_count :: nat
  cn_created_at :: time

definition channel_named :: "uuid \<Rightarrow> string \<Rightarrow> channel_row \<Rightarrow> bool" where
  "channel_named team name c \<longleftrightarrow> ch_team_id c = team \<and> ch_name c = name"

definition channel_info_of :: "channel_row \<Rightarrow> channel_info" where
  "channel_info_of c = \<lparr>cn_name = ch_name c, cn_topic = ch_topic c, cn_message_count = 0, cn_created_at = ch_created_at c\<rparr>"

definition create_channel ::
    "time \<Rightarrow> uuid \<Rightarrow> auth_ctx \<Rightarrow> string \<Rightarrow> string option \<Rightarrow> db \<Rightarrow> channel_info res \<times> db" where
  "create_channel now new_id auth name topic d =
     (let name = normalize_channel name in
      if name = [] then (Inl (Invalid ''channel name cannot be empty''), d)
      else if length name > 64 then (Inl (Invalid ''channel name is limited to 64 characters''), d)
      else case traverse_opt (\<lambda>t. check_text t MAX_TOPIC_BYTES) topic of
        Inl e \<Rightarrow> (Inl e, d)
      | Inr topic \<Rightarrow>
          (case find (channel_named (au_team_id auth) name) (d_channels d) of
             Some c \<Rightarrow>
               let f = (\<lambda>c. c\<lparr>ch_topic := (case topic of None \<Rightarrow> ch_topic c | Some t \<Rightarrow> Some t)\<rparr>) in
               (Inr (channel_info_of (f c)),
                d\<lparr>d_channels := upd_where (channel_named (au_team_id auth) name) f (d_channels d)\<rparr>)
           | None \<Rightarrow>
               if exists_row (\<lambda>c. ch_id c = new_id) (d_channels d) then (Inl (Db ''duplicate key''), d)
               else let c = \<lparr>ch_id = new_id, ch_team_id = au_team_id auth, ch_name = name, ch_topic = topic,
                     ch_created_by = Some (au_agent_id auth), ch_created_at = now\<rparr> in
                 (Inr (channel_info_of c), d\<lparr>d_channels := d_channels d @ [c]\<rparr>)))"

definition list_channels :: "auth_ctx \<Rightarrow> db \<Rightarrow> channel_info list" where
  "list_channels auth d = map (\<lambda>c. (channel_info_of c)\<lparr>cn_message_count :=
       count_rows (\<lambda>m. ms_channel_id m = Some (ch_id c)) (d_messages d)\<rparr>)
     (sort_key ch_name (filter (\<lambda>c. ch_team_id c = au_team_id auth) (d_channels d)))"

section \<open>Posting\<close>

definition parse_address :: "string \<Rightarrow> (string \<times> string option) res" where
  "parse_address raw =
     (let raw = trim raw in
      case split_once (CHR ''/'') raw of
        None \<Rightarrow> Inr (raw, None)
      | Some (agent, session) \<Rightarrow>
          let agent = trim agent in
          if agent = [] then Inl (Invalid ''the agent part is missing'')
          else case normalize_session session of
            Inl why \<Rightarrow> Inl (Invalid ''the session in the address is not valid'')
          | Inr session \<Rightarrow>
              if session = [] then Inl (Invalid ''the address has an empty session'')
              else Inr (agent, Some session))"

definition labels_of :: "auth_ctx \<Rightarrow> db \<Rightarrow> string option \<times> string option" where
  "labels_of auth d = (case find (\<lambda>p. pr_agent_id p = au_agent_id auth \<and> pr_session p = au_session auth) (d_presence d) of
      None \<Rightarrow> (None, None) | Some p \<Rightarrow> (pr_project p, pr_role p))"

definition channel_candidates :: "auth_ctx \<Rightarrow> db \<Rightarrow> string list" where
  "channel_candidates auth d =
     (let candidates = (case opt_filter (\<lambda>p. p \<noteq> []) (fst (labels_of auth d)) of
          Some p \<Rightarrow> [normalize_channel p] | None \<Rightarrow> []);
          by_session = normalize_channel (au_session auth) in
      if by_session \<in> set candidates then candidates else candidates @ [by_session])"

fun first_channel :: "uuid \<Rightarrow> db \<Rightarrow> string list \<Rightarrow> (uuid \<times> string) option" where
  "first_channel team d [] = None"
| "first_channel team d (name # names) = (case find (channel_named team name) (d_channels d) of
      Some c \<Rightarrow> Some (ch_id c, name)
    | None \<Rightarrow> first_channel team d names)"

definition default_channel :: "auth_ctx \<Rightarrow> db \<Rightarrow> (uuid \<times> string) option" where
  "default_channel auth d =
     (if au_session auth = [] then None
      else first_channel (au_team_id auth) d (channel_candidates auth d))"

definition cursor_scope_for :: "string \<Rightarrow> string \<Rightarrow> bool \<Rightarrow> string" where
  "cursor_scope_for base session all_sessions =
     (if session = [] \<and> \<not> all_sessions then base
      else if \<not> all_sessions then base @ ''/s/'' @ session
      else base @ ''/a/'' @ session)"

definition cursor_scope :: "string \<Rightarrow> string \<Rightarrow> string" where
  "cursor_scope base session = cursor_scope_for base session False"

record post_input =
  po_channel :: "string option"
  po_to :: "string option"
  po_announce :: bool
  po_body :: string
  po_reply_to :: "int option"
  po_metadata :: "json option"
  po_attachments :: "new_attachment list"

definition roster :: "auth_ctx \<Rightarrow> db \<Rightarrow> string list" where
  "roster auth d = sort (map ag_name (filter (\<lambda>a. ag_team_id a = au_team_id auth \<and> ag_disabled_at a = None) (d_agents d)))"

text \<open>The channel or the recipient, the recipient's session, and who is reported as reached.\<close>

definition post_target ::
    "auth_ctx \<Rightarrow> post_input \<Rightarrow> db \<Rightarrow> (uuid option \<times> uuid option \<times> string option \<times> string list) res" where
  "post_target auth input d = (case (po_channel input, po_to input) of
      (Some _, Some _) \<Rightarrow> Inl (Invalid ''set either channel or to, not both'')
    | (None, None) \<Rightarrow>
        (case default_channel auth d of
           Some (i, _) \<Rightarrow> Inr (Some i, None, None, roster auth d)
         | None \<Rightarrow> Inl (Invalid ''set channel to broadcast, or to to send a direct message''))
    | (Some channel, None) \<Rightarrow>
        bindE (channel_id_by_name d (au_team_id auth) channel) (\<lambda>i. Inr (Some i, None, None, roster auth d))
    | (None, Some to) \<Rightarrow>
        bindE (parse_address to) (\<lambda>(agent, session).
        bindE (agent_id_by_name d (au_team_id auth) agent) (\<lambda>i.
          if i = au_agent_id auth \<and> session = Some (au_session auth)
          then Inl (Invalid ''that address is this session'')
          else Inr (None, Some i, session,
            [case session of Some s \<Rightarrow> agent @ ''/'' @ s | None \<Rightarrow> agent]))))"

fun insert_all :: "time \<Rightarrow> auth_ctx \<Rightarrow> int \<Rightarrow> new_attachment list \<Rightarrow> db \<Rightarrow> bus_error + db" where
  "insert_all now auth i [] d = Inr d"
| "insert_all now auth i (att # atts) d =
     bindE (insert_for_message now (au_team_id auth) i (au_agent_id auth) att d) (\<lambda>(_, d). insert_all now auth i atts d)"

definition post_tx ::
    "time \<Rightarrow> auth_ctx \<Rightarrow> post_input \<Rightarrow> string \<Rightarrow> json \<Rightarrow> uuid option \<Rightarrow> uuid option \<Rightarrow> string option \<Rightarrow> message_info tx" where
  "post_tx now auth input body metadata channel recipient recipient_session d =
     (let i = d_message_seq d + 1;
          m = \<lparr>ms_id = i, ms_team_id = au_team_id auth, ms_channel_id = channel,
               ms_recipient_agent_id = recipient, ms_recipient_session = recipient_session,
               ms_sender_agent_id = au_agent_id auth, ms_sender_session = session_label auth,
               ms_body = body, ms_reply_to = po_reply_to input, ms_metadata = metadata,
               ms_announce = po_announce input, ms_created_at = now\<rparr>;
          d = d\<lparr>d_message_seq := i, d_messages := d_messages d @ [m]\<rparr> in
      bindE (insert_all now auth i (po_attachments input) d) (\<lambda>d.
      bindE (ok_or (message_info_of d m) (Db ''no rows'')) (\<lambda>info. Inr (info, d))))"

text \<open>What is refused before the transaction, in the code's order; then what it writes: the body, the
  metadata, and where the message goes.\<close>

definition post_checks :: "ext \<Rightarrow> auth_ctx \<Rightarrow> post_input \<Rightarrow> db \<Rightarrow>
    (string \<times> json \<times> uuid option \<times> uuid option \<times> string option \<times> string list) res" where
  "post_checks X auth input d =
     (let body = trim (po_body input) in
      if body = [] then Inl (Invalid ''message body cannot be empty'')
      else if int (length body) > MAX_BODY_BYTES then Inl (Invalid ''message body over the limit'')
      else if po_announce input \<and> po_to input \<noteq> None \<and> po_channel input = None
      then Inl (Invalid ''announce applies to channel messages'')
      else bindE (post_target auth input d) (\<lambda>(channel, recipient, recipient_session, delivered_to).
        if (case po_reply_to input of None \<Rightarrow> False
            | Some r \<Rightarrow> \<not> exists_row (\<lambda>m. ms_id m = r \<and> ms_team_id m = au_team_id auth) (d_messages d))
        then Inl (NotFound ''no such message'')
        else
          let metadata_in = normalize_metadata X (po_metadata input) in
          bindE (check_metadata X metadata_in) (\<lambda>_.
            Inr (body, unwrap_or (JObj []) metadata_in, channel, recipient, recipient_session, delivered_to))))"

definition post_message ::
    "ext \<Rightarrow> time \<Rightarrow> auth_ctx \<Rightarrow> post_input \<Rightarrow> db \<Rightarrow> (message_info \<times> string list) res \<times> db" where
  "post_message X now auth input d = (case post_checks X auth input d of
      Inl e \<Rightarrow> (Inl e, d)
    | Inr (body, metadata, channel, recipient, recipient_session, delivered_to) \<Rightarrow>
        let (posted, d') = guarded now auth
              (post_tx now auth input body metadata channel recipient recipient_session) d in
        (bindE posted (\<lambda>info. Inr (info, delivered_to)), d'))"

section \<open>Questions\<close>

text \<open>The answers a waiting window accepts, and the one it is handed: an explicit reply first.\<close>

definition answers :: "uuid \<Rightarrow> string \<Rightarrow> uuid \<Rightarrow> string option \<Rightarrow> int \<Rightarrow> message_row \<Rightarrow> bool" where
  "answers asker asker_session target target_session question_id m \<longleftrightarrow>
     ms_sender_agent_id m = target \<and> ms_recipient_agent_id m = Some asker \<and> ms_id m > question_id \<and>
     (ms_recipient_session m = None \<or> ms_recipient_session m = Some asker_session) \<and>
     (case target_session of None \<Rightarrow> True | Some s \<Rightarrow> coalesce_str (ms_sender_session m) = s)"

definition find_answer :: "auth_ctx \<Rightarrow> uuid \<Rightarrow> string option \<Rightarrow> int \<Rightarrow> db \<Rightarrow> message_info option" where
  "find_answer auth target target_session question_id d =
     Option.bind (fetch_optional (sort_key
       (\<lambda>m. (if ms_reply_to m = Some question_id then (0 :: int) else if ms_reply_to m \<noteq> None then 1 else 2, ms_id m))
       (message_select d (answers (au_agent_id auth) (au_session auth) target target_session question_id))))
     (message_info_of d)"

definition verify_question :: "auth_ctx \<Rightarrow> uuid \<Rightarrow> string option \<Rightarrow> int \<Rightarrow> db \<Rightarrow> unit res" where
  "verify_question auth target target_session question_id d =
     (if exists_row (\<lambda>m. ms_id m = question_id \<and> ms_sender_agent_id m = au_agent_id auth \<and>
          ms_recipient_agent_id m = Some target \<and> coalesce_str (ms_sender_session m) = au_session auth \<and>
          ms_recipient_session m = target_session) (d_messages d)
      then Inr () else Inl (Invalid ''not a question this session sent to that exact address''))"

definition is_question :: "message_row \<Rightarrow> bool" where
  "is_question m = (case ms_metadata m of JObj kvs \<Rightarrow> (''question'', JBool True) \<in> set kvs | _ \<Rightarrow> False)"

definition pending_question :: "time \<Rightarrow> auth_ctx \<Rightarrow> db \<Rightarrow> message_row \<Rightarrow> bool" where
  "pending_question now auth d q \<longleftrightarrow>
     ms_recipient_agent_id q = Some (au_agent_id auth) \<and>
     (ms_recipient_session q = None \<or> ms_recipient_session q = Some (au_session auth)) \<and>
     is_question q \<and> ms_created_at q > now - secs (PENDING_QUESTION_HOURS * 3600) \<and>
     \<not> (ms_sender_agent_id q = au_agent_id auth \<and> coalesce_str (ms_sender_session q) = au_session auth) \<and>
     \<not> exists_row (\<lambda>a. ms_sender_agent_id a = au_agent_id auth \<and>
         ms_recipient_agent_id a = Some (ms_sender_agent_id q) \<and> ms_id a > ms_id q \<and>
         (ms_recipient_session a = None \<or> ms_recipient_session a = Some (coalesce_str (ms_sender_session q))) \<and>
         (case ms_recipient_session q of None \<Rightarrow> True | Some s \<Rightarrow> coalesce_str (ms_sender_session a) = s))
       (d_messages d)"

definition pending_questions :: "time \<Rightarrow> auth_ctx \<Rightarrow> db \<Rightarrow> nat" where
  "pending_questions now auth d = count_rows (pending_question now auth d) (d_messages d)"

section \<open>Reading\<close>

datatype scope = All | Inbox | Channel uuid string

definition cursor_key_for :: "ext \<Rightarrow> scope \<Rightarrow> auth_ctx \<Rightarrow> bool \<Rightarrow> string" where
  "cursor_key_for X sc auth all_sessions =
     (let base = (case sc of All \<Rightarrow> ''all'' | Inbox \<Rightarrow> ''inbox'' | Channel i n \<Rightarrow> ''channel:'' @ x_uuid_str X i) in
      cursor_scope_for base (au_session auth) all_sessions)"

definition scope_label :: "scope \<Rightarrow> string" where
  "scope_label sc = (case sc of All \<Rightarrow> ''all'' | Inbox \<Rightarrow> ''inbox'' | Channel i n \<Rightarrow> ''#'' @ n)"

definition resolve_scope :: "auth_ctx \<Rightarrow> string \<Rightarrow> db \<Rightarrow> scope res" where
  "resolve_scope auth raw d =
     (let s = to_lowercase (trim raw) in
      if s \<in> set [[], ''all''] then Inr All
      else if s \<in> set [''inbox'', ''dm'', ''direct''] then Inr Inbox
      else let name = normalize_channel s in
        bindE (channel_id_by_name d (au_team_id auth) name) (\<lambda>i. Inr (Channel i name)))"

definition to_me :: "auth_ctx \<Rightarrow> bool \<Rightarrow> message_row \<Rightarrow> bool" where
  "to_me auth all_sessions m \<longleftrightarrow> ms_recipient_agent_id m = Some (au_agent_id auth) \<and>
     (all_sessions \<or> ms_recipient_session m = None \<or> ms_recipient_session m = Some (au_session auth))"

definition in_scope :: "auth_ctx \<Rightarrow> scope \<Rightarrow> bool \<Rightarrow> message_row \<Rightarrow> bool" where
  "in_scope auth sc all_sessions m = (case sc of
      All \<Rightarrow> ms_team_id m = au_team_id auth \<and>
        (ms_channel_id m \<noteq> None \<or> to_me auth all_sessions m \<or> ms_sender_agent_id m = au_agent_id auth)
    | Inbox \<Rightarrow> to_me auth all_sessions m
    | Channel i n \<Rightarrow> ms_channel_id m = Some i)"

record read_input =
  ri_scope :: string
  ri_only_new :: bool
  ri_limit :: int
  ri_all_sessions :: bool

record message_list =
  ml_messages :: "message_info list"
  ml_scope :: string
  ml_cursor :: int
  ml_truncated :: bool

definition cursor_of :: "db \<Rightarrow> uuid \<Rightarrow> string \<Rightarrow> int" where
  "cursor_of d agent key = unwrap_or 0 (map_option rc_last_message_id
     (find (\<lambda>c. rc_agent_id c = agent \<and> rc_scope c = key) (d_cursors d)))"

definition max_id :: "int \<Rightarrow> message_info list \<Rightarrow> int" where
  "max_id since ms = (case map mi_id ms of [] \<Rightarrow> since | i # is \<Rightarrow> fold max is i)"

definition move_cursor :: "time \<Rightarrow> uuid \<Rightarrow> string \<Rightarrow> int \<Rightarrow> db \<Rightarrow> db" where
  "move_cursor now agent key new_cursor d =
     (if exists_row (\<lambda>c. rc_agent_id c = agent \<and> rc_scope c = key) (d_cursors d)
      then d\<lparr>d_cursors := upd_where (\<lambda>c. rc_agent_id c = agent \<and> rc_scope c = key)
             (\<lambda>c. c\<lparr>rc_last_message_id := max (rc_last_message_id c) new_cursor, rc_updated_at := now\<rparr>) (d_cursors d)\<rparr>
      else d\<lparr>d_cursors := d_cursors d @
             [\<lparr>rc_agent_id = agent, rc_scope = key, rc_last_message_id = new_cursor, rc_updated_at = now\<rparr>]\<rparr>)"

definition stamp_inbox_read :: "time \<Rightarrow> auth_ctx \<Rightarrow> db \<Rightarrow> db" where
  "stamp_inbox_read now auth d = d\<lparr>d_presence := upd_where
     (\<lambda>p. pr_agent_id p = au_agent_id auth \<and> pr_session p = au_session auth)
     (\<lambda>p. p\<lparr>pr_last_inbox_read_at := Some now\<rparr>) (d_presence d)\<rparr>"

definition read_page :: "auth_ctx \<Rightarrow> scope \<Rightarrow> read_input \<Rightarrow> int \<Rightarrow> db \<Rightarrow> message_row list" where
  "read_page auth sc input since d =
     take (nat (clamp 1 MAX_MESSAGE_LIMIT (ri_limit input)))
       (sort_key (\<lambda>m. if ri_only_new input then ms_id m else - ms_id m)
         (message_select d (\<lambda>m. in_scope auth sc (ri_all_sessions input) m \<and> ms_id m > since)))"

definition read_messages :: "ext \<Rightarrow> time \<Rightarrow> auth_ctx \<Rightarrow> read_input \<Rightarrow> db \<Rightarrow> message_list res \<times> db" where
  "read_messages X now auth input d = (case resolve_scope auth (ri_scope input) d of
      Inl e \<Rightarrow> (Inl e, d)
    | Inr sc \<Rightarrow>
        let cursor_key = cursor_key_for X sc auth (ri_all_sessions input);
            since = (if ri_only_new input then cursor_of d (au_agent_id auth) cursor_key else 0);
            rows = read_page auth sc input since d;
            truncated = (int (length rows) = clamp 1 MAX_MESSAGE_LIMIT (ri_limit input));
            infos = message_infos d rows;
            messages = (if ri_only_new input then infos else rev infos);
            new_cursor = max_id since messages;
            (moved, d') = (if ri_only_new input \<and> new_cursor > since
              then guarded now auth (\<lambda>d. Inr ((), move_cursor now (au_agent_id auth) cursor_key new_cursor d)) d
              else (Inr (), d)) in
        (case moved of
           Inl e \<Rightarrow> (Inl e, d')
         | Inr _ \<Rightarrow>
             (Inr \<lparr>ml_messages = messages, ml_scope = scope_label sc, ml_cursor = new_cursor, ml_truncated = truncated\<rparr>,
              if ri_only_new input \<and> (sc = Inbox \<or> sc = All) then stamp_inbox_read now auth d' else d')))"

definition sent_here :: "auth_ctx \<Rightarrow> message_row \<Rightarrow> bool" where
  "sent_here auth m \<longleftrightarrow> ms_sender_agent_id m = au_agent_id auth \<and> coalesce_str (ms_sender_session m) = au_session auth"

definition unread_in_scope :: "ext \<Rightarrow> auth_ctx \<Rightarrow> scope \<Rightarrow> uuid option \<Rightarrow> db \<Rightarrow> nat" where
  "unread_in_scope X auth sc focus d =
     (let since = cursor_of d (au_agent_id auth) (cursor_key_for X sc auth False) in
      count_rows (\<lambda>m. ms_id m > since \<and> \<not> sent_here auth m \<and> (case sc of
          All \<Rightarrow> ms_team_id m = au_team_id auth \<and>
            ((ms_channel_id m \<noteq> None \<and> (focus = None \<or> ms_channel_id m = focus \<or> ms_announce m)) \<or> to_me auth False m)
        | Inbox \<Rightarrow> to_me auth False m
        | Channel i n \<Rightarrow> ms_channel_id m = Some i)) (d_messages d))"

definition search_messages :: "ext \<Rightarrow> auth_ctx \<Rightarrow> string \<Rightarrow> int \<Rightarrow> db \<Rightarrow> message_list res" where
  "search_messages X auth query limit d =
     (let query = trim query in
      if query = [] then Inl (Invalid ''search query cannot be empty'')
      else
        let limit = clamp 1 MAX_MESSAGE_LIMIT limit;
            rows = take (nat limit) (sort_key (\<lambda>m. - ms_id m) (message_select d (\<lambda>m.
              ms_team_id m = au_team_id auth \<and>
              (ms_channel_id m \<noteq> None \<or> ms_recipient_agent_id m = Some (au_agent_id auth) \<or>
               ms_sender_agent_id m = au_agent_id auth) \<and>
              x_fts X (ms_body m) query)));
            messages = message_infos d rows in
        Inr \<lparr>ml_messages = messages, ml_scope = ''search:'' @ query, ml_cursor = max_id 0 messages,
             ml_truncated = (int (length rows) = limit)\<rparr>)"

section \<open>Who am I\<close>

record whoami_info =
  wi_agent :: string
  wi_team :: string
  wi_session :: "string option"
  wi_project :: "string option"
  wi_role :: "string option"
  wi_session_identity :: "session_identity option"
  wi_default_channel :: "string option"
  wi_unread_direct_messages :: nat
  wi_open_claimed_tasks :: nat

definition whoami :: "time \<Rightarrow> auth_ctx \<Rightarrow> db \<Rightarrow> whoami_info" where
  "whoami now auth d =
     (let since = cursor_of d (au_agent_id auth) (cursor_scope ''inbox'' (au_session auth)) in
      \<lparr>wi_agent = au_agent_name auth, wi_team = au_team_slug auth, wi_session = session_label auth,
       wi_project = fst (labels_of auth d), wi_role = snd (labels_of auth d),
       wi_session_identity = identity now auth d,
       wi_default_channel = map_option snd (default_channel auth d),
       wi_unread_direct_messages = count_rows (\<lambda>m. to_me auth False m \<and> ms_id m > since) (d_messages d),
       wi_open_claimed_tasks = count_rows (\<lambda>t. ta_claimed_by t = Some (au_agent_id auth) \<and> ta_status t = Claimed \<and>
          coalesce_str (ta_claimed_session t) = au_session auth) (d_tasks d)\<rparr>)"

section \<open>Requests and the invariant of the message log\<close>

datatype msg_req =
    PostReq ext time auth_ctx post_input
  | ReadReq ext time auth_ctx read_input
  | ChannelReq time uuid auth_ctx string "string option"

fun msg_exec :: "msg_req \<Rightarrow> db \<Rightarrow> db" where
  "msg_exec (PostReq X now auth input) d = snd (post_message X now auth input d)"
| "msg_exec (ReadReq X now auth input) d = snd (read_messages X now auth input d)"
| "msg_exec (ChannelReq now i auth name topic) d = snd (create_channel now i auth name topic d)"

definition channel_team :: "db \<Rightarrow> uuid \<Rightarrow> uuid option" where
  "channel_team d c = map_option ch_team_id (find (\<lambda>r. ch_id r = c) (d_channels d))"

text \<open>What the schema promises of one message: its sender exists, it is broadcast or direct and not
  both, and its channel is of its team.\<close>

definition message_ok :: "db \<Rightarrow> message_row \<Rightarrow> bool" where
  "message_ok d m \<longleftrightarrow> ms_id m \<le> d_message_seq d \<and> agent_name_of d (ms_sender_agent_id m) \<noteq> None \<and>
     (ms_channel_id m = None \<longleftrightarrow> ms_recipient_agent_id m \<noteq> None) \<and>
     (case ms_channel_id m of None \<Rightarrow> True | Some c \<Rightarrow> channel_team d c = Some (ms_team_id m))"

definition messages_wf :: "db \<Rightarrow> bool" where
  "messages_wf d \<longleftrightarrow> 0 \<le> d_message_seq d \<and> sorted_wrt (<) (map ms_id (d_messages d)) \<and>
     (\<forall>m \<in> set (d_messages d). message_ok d m) \<and>
     (\<forall>c \<in> set (d_cursors d). rc_last_message_id c \<le> d_message_seq d) \<and>
     distinct (map ch_id (d_channels d))"

lemma message_select_wf: "messages_wf d \<Longrightarrow> message_select d P = filter P (d_messages d)"
  by (auto simp: message_select_def messages_wf_def message_ok_def intro!: filter_cong)

lemma message_info_of_known: "agent_name_of d (ms_sender_agent_id m) \<noteq> None \<Longrightarrow>
    \<exists>i. message_info_of d m = Some i \<and> mi_id i = ms_id m \<and> mi_body i = ms_body m"
  by (auto simp: message_info_of_def)

lemma message_infos_ids:
  "\<forall>m \<in> set rows. agent_name_of d (ms_sender_agent_id m) \<noteq> None \<Longrightarrow> map mi_id (message_infos d rows) = map ms_id rows"
proof (induction rows)
  case Nil
  then show ?case by (simp add: message_infos_def map_filter_simps)
next
  case (Cons m ms)
  then obtain i where "message_info_of d m = Some i" "mi_id i = ms_id m"
    using message_info_of_known [of d m] by auto
  with Cons show ?case by (simp add: message_infos_def map_filter_simps)
qed

lemma message_infos_from:
  "i \<in> set (message_infos d rows) \<Longrightarrow> \<exists>m \<in> set rows. message_info_of d m = Some i"
  by (auto simp: message_infos_def List.map_filter_def)

subsection \<open>Posting\<close>

lemma insert_all_frame:
  "insert_all now auth i atts d = Inr d' \<Longrightarrow>
   \<exists>rows. d' = d\<lparr>d_attachments := d_attachments d @ rows, d_attachment_seq := d_attachment_seq d + int (length atts)\<rparr> \<and>
     map at_data rows = map na_data atts \<and> (\<forall>a \<in> set rows. at_message_id a = Some i \<and> at_team_id a = au_team_id auth)"
proof (induction atts arbitrary: d)
  case Nil
  then show ?case by simp
next
  case (Cons att atts)
  then obtain info d1 where
    one: "insert_for_message now (au_team_id auth) i (au_agent_id auth) att d = Inr (info, d1)"
    and rest: "insert_all now auth i atts d1 = Inr d'"
    by (auto simp: bindE_def split: sum.splits)
  let ?a = "new_row now (au_team_id auth) (Some i) None (au_agent_id auth) att d"
  have d1: "d1 = add_row ?a d"
    using one by (auto simp: insert_for_message_def insert_attachment_def bindE_def Let_def split: sum.splits if_splits)
  from Cons.IH [OF rest] obtain rows where
    r: "d' = d1\<lparr>d_attachments := d_attachments d1 @ rows, d_attachment_seq := d_attachment_seq d1 + int (length atts)\<rparr>"
    "map at_data rows = map na_data atts" "\<forall>a \<in> set rows. at_message_id a = Some i \<and> at_team_id a = au_team_id auth"
    by auto
  show ?case
    by (rule exI [of _ "?a # rows"]) (use r in \<open>simp add: d1 add_row_def new_row_def\<close>)
qed

definition posted_row ::
    "time \<Rightarrow> auth_ctx \<Rightarrow> post_input \<Rightarrow> string \<Rightarrow> json \<Rightarrow> uuid option \<Rightarrow> uuid option \<Rightarrow> string option \<Rightarrow> int \<Rightarrow> message_row" where
  "posted_row now auth input body metadata channel recipient recipient_session i =
     \<lparr>ms_id = i, ms_team_id = au_team_id auth, ms_channel_id = channel,
      ms_recipient_agent_id = recipient, ms_recipient_session = recipient_session,
      ms_sender_agent_id = au_agent_id auth, ms_sender_session = session_label auth,
      ms_body = body, ms_reply_to = po_reply_to input, ms_metadata = metadata,
      ms_announce = po_announce input, ms_created_at = now\<rparr>"

lemma post_checks_Inr:
  assumes "post_checks X auth input d = Inr (body, md, c, r, s, to)"
  shows "body = trim (po_body input)" "body \<noteq> []" "int (length body) \<le> MAX_BODY_BYTES"
    "post_target auth input d = Inr (c, r, s, to)"
    "md = unwrap_or (JObj []) (normalize_metadata X (po_metadata input))"
  using assms by (auto simp: post_checks_def bindE_def Let_def split: if_splits sum.splits)

lemma post_tx_frame:
  assumes "post_tx now auth input body md c r s d = Inr (info, d')"
  obtains rows where "d' = d\<lparr>d_message_seq := d_message_seq d + 1,
      d_messages := d_messages d @ [posted_row now auth input body md c r s (d_message_seq d + 1)],
      d_attachments := d_attachments d @ rows,
      d_attachment_seq := d_attachment_seq d + int (length (po_attachments input))\<rparr>"
    "message_info_of d' (posted_row now auth input body md c r s (d_message_seq d + 1)) = Some info"
    "map at_data rows = map na_data (po_attachments input)"
    "\<forall>a \<in> set rows. at_message_id a = Some (d_message_seq d + 1) \<and> at_team_id a = au_team_id auth"
proof -
  let ?m = "posted_row now auth input body md c r s (d_message_seq d + 1)"
  let ?d1 = "d\<lparr>d_message_seq := d_message_seq d + 1, d_messages := d_messages d @ [?m]\<rparr>"
  have ins: "insert_all now auth (d_message_seq d + 1) (po_attachments input) ?d1 = Inr d'"
    and inf: "message_info_of d' ?m = Some info"
    using assms by (auto simp: post_tx_def posted_row_def bindE_def ok_or_def Let_def split: sum.splits option.splits)
  from insert_all_frame [OF ins] obtain rows where rows:
    "d' = ?d1\<lparr>d_attachments := d_attachments ?d1 @ rows,
       d_attachment_seq := d_attachment_seq ?d1 + int (length (po_attachments input))\<rparr>"
    "map at_data rows = map na_data (po_attachments input)"
    "\<forall>a \<in> set rows. at_message_id a = Some (d_message_seq d + 1) \<and> at_team_id a = au_team_id auth"
    by auto
  show thesis by (rule that [of rows]) (use rows inf in simp_all)
qed

text \<open>A post is refused with nothing written, or everything it writes is committed at once.\<close>

lemma post_message_cases:
  obtains (refused) e where "post_message X now auth input d = (Inl e, d)"
  | (posted) body md c r s to info d' where
      "post_checks X auth input d = Inr (body, md, c, r, s, to)" "guard now auth d = Inr ()"
      "post_tx now auth input body md c r s d = Inr (info, d')"
      "post_message X now auth input d = (Inr (info, to), d')"
proof (cases "post_checks X auth input d")
  case (Inl e)
  then show ?thesis by (intro refused [of e]) (simp add: post_message_def)
next
  case (Inr v)
  obtain body md c r s to where v: "v = (body, md, c, r, s, to)" by (cases v)
  note checked = Inr [unfolded v]
  show ?thesis
  proof (cases rule: guard_cases [of now auth d])
    case (refused e)
    with checked show ?thesis
      by (intro that(1) [of e]) (simp add: post_message_def guarded_refused bindE_def)
  next
    case passed
    show ?thesis
    proof (cases "post_tx now auth input body md c r s d")
      case (Inl e)
      with checked passed show ?thesis
        by (intro that(1) [of e]) (simp add: post_message_def guarded_passed transact_def bindE_def)
    next
      case (Inr w)
      then obtain info d' where w: "post_tx now auth input body md c r s d = Inr (info, d')"
        by (cases w) auto
      with checked passed show ?thesis
        by (intro that(2) [OF checked passed w]) (simp add: post_message_def guarded_passed transact_def bindE_def)
    qed
  qed
qed

subsection \<open>Reading\<close>

definition read_since :: "ext \<Rightarrow> auth_ctx \<Rightarrow> scope \<Rightarrow> read_input \<Rightarrow> db \<Rightarrow> int" where
  "read_since X auth sc input d =
     (if ri_only_new input then cursor_of d (au_agent_id auth) (cursor_key_for X sc auth (ri_all_sessions input)) else 0)"

definition read_answer :: "ext \<Rightarrow> auth_ctx \<Rightarrow> scope \<Rightarrow> read_input \<Rightarrow> db \<Rightarrow> message_info list" where
  "read_answer X auth sc input d =
     (let infos = message_infos d (read_page auth sc input (read_since X auth sc input d) d) in
      if ri_only_new input then infos else rev infos)"

definition read_effect :: "ext \<Rightarrow> time \<Rightarrow> auth_ctx \<Rightarrow> scope \<Rightarrow> read_input \<Rightarrow> db \<Rightarrow> db" where
  "read_effect X now auth sc input d =
     (let since = read_since X auth sc input d; hi = max_id since (read_answer X auth sc input d);
          d' = (if ri_only_new input \<and> hi > since
                then move_cursor now (au_agent_id auth) (cursor_key_for X sc auth (ri_all_sessions input)) hi d else d) in
      if ri_only_new input \<and> (sc = Inbox \<or> sc = All) then stamp_inbox_read now auth d' else d')"

lemma read_messages_cases:
  obtains (refused) e where "read_messages X now auth input d = (Inl e, d)"
  | (answered) sc l where "resolve_scope auth (ri_scope input) d = Inr sc"
      "read_messages X now auth input d = (Inr l, read_effect X now auth sc input d)"
      "ml_messages l = read_answer X auth sc input d"
      "ml_cursor l = max_id (read_since X auth sc input d) (read_answer X auth sc input d)"
      "ml_truncated l \<longleftrightarrow> int (length (read_page auth sc input (read_since X auth sc input d) d)) =
         clamp 1 MAX_MESSAGE_LIMIT (ri_limit input)"
proof (cases "resolve_scope auth (ri_scope input) d")
  case (Inl e)
  then show ?thesis by (intro refused [of e]) (simp add: read_messages_def)
next
  case (Inr sc)
  show ?thesis
  proof (cases "ri_only_new input \<and>
      max_id (read_since X auth sc input d) (read_answer X auth sc input d) > read_since X auth sc input d \<and>
      guard now auth d \<noteq> Inr ()")
    case True
    then have o: "ri_only_new input" and h: "max_id (read_since X auth sc input d) (read_answer X auth sc input d)
        > read_since X auth sc input d" by auto
    from True obtain e where "guard now auth d = Inl e" by (cases "guard now auth d") auto
    with o h Inr show ?thesis
      by (intro refused [of e]) (simp add: read_messages_def read_answer_def read_since_def Let_def guarded_refused)
  next
    case False
    let ?l = "\<lparr>ml_messages = read_answer X auth sc input d, ml_scope = scope_label sc,
      ml_cursor = max_id (read_since X auth sc input d) (read_answer X auth sc input d),
      ml_truncated = (int (length (read_page auth sc input (read_since X auth sc input d) d)) =
         clamp 1 MAX_MESSAGE_LIMIT (ri_limit input))\<rparr>"
    have "read_messages X now auth input d = (Inr ?l, read_effect X now auth sc input d)"
      using False Inr by (cases "ri_only_new input")
        (auto simp: read_messages_def read_answer_def read_since_def read_effect_def Let_def guarded_passed transact_def)
    with Inr show ?thesis by (intro answered [of sc ?l]) simp_all
  qed
qed

lemma stamp_inbox_read_frame [simp]:
  "d_messages (stamp_inbox_read now auth d) = d_messages d" "d_message_seq (stamp_inbox_read now auth d) = d_message_seq d"
  "d_cursors (stamp_inbox_read now auth d) = d_cursors d" "d_channels (stamp_inbox_read now auth d) = d_channels d"
  "d_agents (stamp_inbox_read now auth d) = d_agents d" "d_sessions (stamp_inbox_read now auth d) = d_sessions d"
  by (simp_all add: stamp_inbox_read_def)

lemma move_cursor_frame [simp]:
  "d_messages (move_cursor now a k v d) = d_messages d" "d_message_seq (move_cursor now a k v d) = d_message_seq d"
  "d_channels (move_cursor now a k v d) = d_channels d" "d_agents (move_cursor now a k v d) = d_agents d"
  "d_sessions (move_cursor now a k v d) = d_sessions d"
  by (simp_all add: move_cursor_def)

lemma read_effect_frame [simp]:
  "d_messages (read_effect X now auth sc input d) = d_messages d"
  "d_message_seq (read_effect X now auth sc input d) = d_message_seq d"
  "d_channels (read_effect X now auth sc input d) = d_channels d"
  "d_agents (read_effect X now auth sc input d) = d_agents d"
  "d_sessions (read_effect X now auth sc input d) = d_sessions d"
  by (simp_all add: read_effect_def Let_def)

lemma cursor_of_stamp [simp]: "cursor_of (stamp_inbox_read now auth d) a k = cursor_of d a k"
  by (simp add: cursor_of_def)

lemma cursor_of_move:
  "cursor_of (move_cursor now a k v d) a' k' =
     (if a' = a \<and> k' = k then (if exists_row (\<lambda>c. rc_agent_id c = a \<and> rc_scope c = k) (d_cursors d)
        then max (cursor_of d a k) v else v) else cursor_of d a' k')"
proof (cases "a' = a \<and> k' = k")
  case True
  then show ?thesis
    by (auto simp: move_cursor_def cursor_of_def exists_row_find find_upd_where find_append unwrap_or_def
        dest: find_SomeD split: option.split)
next
  case False
  then have u: "find (\<lambda>c. rc_agent_id c = a' \<and> rc_scope c = k') (upd_where (\<lambda>c. rc_agent_id c = a \<and> rc_scope c = k)
        (\<lambda>c. c\<lparr>rc_last_message_id := max (rc_last_message_id c) v, rc_updated_at := now\<rparr>) (d_cursors d)) =
      find (\<lambda>c. rc_agent_id c = a' \<and> rc_scope c = k') (d_cursors d)"
    by (intro find_upd_where_other) auto
  have "find (\<lambda>c. rc_agent_id c = a' \<and> rc_scope c = k') (d_cursors (move_cursor now a k v d)) =
      find (\<lambda>c. rc_agent_id c = a' \<and> rc_scope c = k') (d_cursors d)"
    using False by (auto simp: move_cursor_def find_append u split: option.split)
  with False show ?thesis by (auto simp: cursor_of_def)
qed

lemma cursor_of_read:
  "cursor_of (read_effect X now auth sc input d) a k =
     (if ri_only_new input \<and> a = au_agent_id auth \<and> k = cursor_key_for X sc auth (ri_all_sessions input)
      then max (cursor_of d a k) (max_id (read_since X auth sc input d) (read_answer X auth sc input d))
      else cursor_of d a k)"
  by (auto simp: read_effect_def Let_def cursor_of_move read_since_def)

subsection \<open>The log stays well formed\<close>

lemma channel_named_team:
  assumes "distinct (map ch_id (d_channels d))"
    and "find (\<lambda>c. ch_team_id c = team \<and> ch_name c = name) (d_channels d) = Some c"
  shows "channel_team d (ch_id c) = Some team"
  using assms find_unique [of ch_id "d_channels d" c] find_SomeD [OF assms(2)] by (simp add: channel_team_def)

lemma channel_id_by_name_team:
  assumes "distinct (map ch_id (d_channels d))" and "channel_id_by_name d team name = Inr i"
  shows "channel_team d i = Some team"
  using assms channel_named_team [OF assms(1)] by (auto simp: channel_id_by_name_def ok_or_def Let_def split: option.splits)

lemma first_channel_team:
  assumes "distinct (map ch_id (d_channels d))"
  shows "first_channel team d names = Some (i, n) \<Longrightarrow> channel_team d i = Some team"
  by (induction names) (auto simp: channel_named_team [OF assms] channel_named_def [abs_def] split: option.splits)

lemma post_target_Inr:
  assumes "distinct (map ch_id (d_channels d))" and "post_target auth input d = Inr (c, r, s, to)"
  shows "(c = None \<longleftrightarrow> r \<noteq> None) \<and> (case c of None \<Rightarrow> True | Some i \<Rightarrow> channel_team d i = Some (au_team_id auth))"
  using assms(2) channel_id_by_name_team [OF assms(1)] first_channel_team [OF assms(1)]
  by (auto simp: post_target_def bindE_def default_channel_def
      split: option.splits sum.splits if_splits prod.splits)

lemma message_ok_mono:
  assumes "message_ok d m" and "d_message_seq d \<le> d_message_seq d'" and "d_agents d' = d_agents d"
    and "\<And>c t. channel_team d c = Some t \<Longrightarrow> channel_team d' c = Some t"
  shows "message_ok d' m"
  using assms by (auto simp: message_ok_def agent_name_of_def split: option.splits)

lemma post_wf:
  assumes wf: "messages_wf d"
  shows "messages_wf (snd (post_message X now auth input d))"
proof (cases rule: post_message_cases [of X now auth input d])
  case (refused e)
  with wf show ?thesis by simp
next
  case (posted body md c r s to info d')
  let ?m = "posted_row now auth input body md c r s (d_message_seq d + 1)"
  from post_tx_frame [OF posted(3)] obtain rows where
    d': "d' = d\<lparr>d_message_seq := d_message_seq d + 1, d_messages := d_messages d @ [?m],
      d_attachments := d_attachments d @ rows,
      d_attachment_seq := d_attachment_seq d + int (length (po_attachments input))\<rparr>"
    and info: "message_info_of d' ?m = Some info" by metis
  have ct: "channel_team d' = channel_team d"
    by (rule ext) (simp add: d' channel_team_def)
  from wf have dist: "distinct (map ch_id (d_channels d))" by (simp add: messages_wf_def)
  have new: "message_ok d' ?m"
    using info post_target_Inr [OF dist post_checks_Inr(4) [OF posted(1)]] ct
    by (auto simp: message_ok_def posted_row_def message_info_of_def d' split: option.splits)
  have old: "\<forall>m \<in> set (d_messages d). message_ok d' m"
  proof
    fix m assume "m \<in> set (d_messages d)"
    with wf have "message_ok d m" by (simp add: messages_wf_def)
    then show "message_ok d' m" by (rule message_ok_mono) (simp_all add: ct, simp_all add: d')
  qed
  have "sorted_wrt (<) (map ms_id (d_messages d'))"
    using wf by (auto simp: d' posted_row_def messages_wf_def message_ok_def sorted_wrt_append)
  moreover have "d_messages d' = d_messages d @ [?m]" "d_message_seq d' = d_message_seq d + 1"
    "d_cursors d' = d_cursors d" "d_channels d' = d_channels d" by (simp_all add: d')
  ultimately have "messages_wf d'" using wf new old by (auto simp: messages_wf_def)
  with posted(4) show ?thesis by simp
qed

lemma sort_key_sorted: "sorted (map k xs) \<Longrightarrow> sort_key k xs = xs"
  by (induction xs) (auto simp: insort_is_Cons)

lemma ids_sorted: "messages_wf d \<Longrightarrow> sorted_wrt (<) (map ms_id (filter P (d_messages d)))"
  by (simp add: messages_wf_def sorted_wrt_map sorted_wrt_filter)

lemma page_from_log: "set (read_page auth sc input since d) \<subseteq> set (d_messages d)"
  using set_take_subset by (fastforce simp: read_page_def message_select_def)

lemma page_in_scope:
  assumes "m \<in> set (read_page auth sc input since d)"
  shows "m \<in> set (d_messages d) \<and> in_scope auth sc (ri_all_sessions input) m \<and> ms_id m > since"
  using assms set_take_subset by (fastforce simp: read_page_def message_select_def)

lemma read_answer_ids:
  assumes "messages_wf d"
  shows "map mi_id (read_answer X auth sc input d) =
    (let ids = map ms_id (read_page auth sc input (read_since X auth sc input d) d) in
     if ri_only_new input then ids else rev ids)"
proof -
  have "\<forall>m \<in> set (read_page auth sc input (read_since X auth sc input d) d).
      agent_name_of d (ms_sender_agent_id m) \<noteq> None"
    using assms page_from_log by (fastforce simp: messages_wf_def message_ok_def)
  then show ?thesis by (simp add: read_answer_def Let_def message_infos_ids flip: rev_map)
qed

lemma fold_max_in: "fold max is (i::int) \<in> set (i # is)"
proof (induction "is" arbitrary: i)
  case Nil
  then show ?case by simp
next
  case (Cons j js)
  from Cons.IH [of "max j i"] show ?case by (auto simp: max_def split: if_splits)
qed

lemma fold_max_ge: "\<forall>j \<in> set (i # is). j \<le> fold max is (i::int)"
proof (induction "is" arbitrary: i)
  case Nil
  then show ?case by simp
next
  case (Cons j js)
  from Cons.IH [of "max j i"] show ?case by auto
qed

lemma max_id_spec:
  "(map mi_id ms = [] \<longrightarrow> max_id since ms = since) \<and>
   (map mi_id ms \<noteq> [] \<longrightarrow> max_id since ms \<in> set (map mi_id ms) \<and> (\<forall>i \<in> set (map mi_id ms). i \<le> max_id since ms))"
proof (cases "map mi_id ms")
  case Nil
  then show ?thesis by (simp add: max_id_def)
next
  case (Cons i js)
  then show ?thesis using fold_max_in [of js i] fold_max_ge [of i js] by (simp add: max_id_def)
qed

lemma read_high:
  assumes wf: "messages_wf d"
  shows "max_id (read_since X auth sc input d) (read_answer X auth sc input d) \<le> max (d_message_seq d) (read_since X auth sc input d)"
    "read_since X auth sc input d \<le> max_id (read_since X auth sc input d) (read_answer X auth sc input d)"
proof -
  let ?s = "read_since X auth sc input d" and ?a = "read_answer X auth sc input d"
  have ids: "set (map mi_id ?a) \<subseteq> {i. ?s < i \<and> i \<le> d_message_seq d}"
    using wf page_in_scope [of _ auth sc input ?s d]
    by (auto simp: read_answer_ids [OF wf] Let_def messages_wf_def message_ok_def)
  show "max_id ?s ?a \<le> max (d_message_seq d) ?s" "?s \<le> max_id ?s ?a"
    using ids max_id_spec [of ?a ?s] by (cases "map mi_id ?a = []"; force)+
qed

lemma cursor_bound: "messages_wf d \<Longrightarrow> cursor_of d a k \<le> d_message_seq d"
  by (auto simp: cursor_of_def messages_wf_def unwrap_or_def dest: find_SomeD split: option.split)

lemma move_cursor_bounded:
  assumes "\<forall>c \<in> set (d_cursors d). rc_last_message_id c \<le> n" and "v \<le> n"
  shows "\<forall>c \<in> set (d_cursors (move_cursor now a k v d)). rc_last_message_id c \<le> n"
  using assms by (auto simp: move_cursor_def set_upd_where)

lemma read_wf:
  assumes wf: "messages_wf d"
  shows "messages_wf (snd (read_messages X now auth input d))"
proof (cases rule: read_messages_cases [of X now auth input d])
  case (refused e)
  with wf show ?thesis by simp
next
  case (answered sc l)
  let ?d = "read_effect X now auth sc input d"
  let ?hi = "max_id (read_since X auth sc input d) (read_answer X auth sc input d)"
  have "read_since X auth sc input d \<le> d_message_seq d"
    using wf cursor_bound [OF wf] by (simp add: read_since_def messages_wf_def)
  then have hi: "?hi \<le> d_message_seq d" using read_high(1) [OF wf, of X auth sc input] by simp
  have "\<forall>c \<in> set (d_cursors ?d). rc_last_message_id c \<le> d_message_seq d"
    using wf move_cursor_bounded [OF _ hi, of d] by (simp add: read_effect_def Let_def messages_wf_def)
  moreover have "message_ok ?d m" if "message_ok d m" for m
    using that by (rule message_ok_mono) (simp_all add: channel_team_def)
  ultimately show ?thesis using wf answered(2) by (simp add: messages_wf_def)
qed

lemma create_channel_cases:
  obtains (same) "snd (create_channel now i auth name topic d) = d"
  | (topic) P t where "snd (create_channel now i auth name topic d) =
        d\<lparr>d_channels := upd_where P (\<lambda>c. c\<lparr>ch_topic := t c\<rparr>) (d_channels d)\<rparr>"
  | (new) c where "snd (create_channel now i auth name topic d) = d\<lparr>d_channels := d_channels d @ [c]\<rparr>"
      "ch_id c \<notin> ch_id ` set (d_channels d)"
proof (cases "normalize_channel name = [] \<or> length (normalize_channel name) > 64 \<or>
    (\<exists>e. traverse_opt (\<lambda>t. check_text t MAX_TOPIC_BYTES) topic = Inl e)")
  case True
  then show ?thesis by (intro same) (auto simp: create_channel_def Let_def)
next
  case False
  then obtain t where t: "traverse_opt (\<lambda>t. check_text t MAX_TOPIC_BYTES) topic = Inr t"
    by (cases "traverse_opt (\<lambda>t. check_text t MAX_TOPIC_BYTES) topic") auto
  show ?thesis
  proof (cases "find (channel_named (au_team_id auth) (normalize_channel name)) (d_channels d)")
    case (Some c)
    with False t show ?thesis by (intro topic) (simp add: create_channel_def Let_def)
  next
    case None
    show ?thesis
    proof (cases "exists_row (\<lambda>c. ch_id c = i) (d_channels d)")
      case True
      with None False t show ?thesis by (intro same) (simp add: create_channel_def Let_def)
    next
      case fresh: False
      with None False t show ?thesis by (intro new) (auto simp: create_channel_def Let_def exists_row_def)
    qed
  qed
qed

lemma channel_team_kept:
  assumes "channel_team d c = Some t"
  shows "channel_team (snd (create_channel now i auth name topic d)) c = Some t"
proof (cases rule: create_channel_cases [of now i auth name topic d])
  case same
  with assms show ?thesis by simp
next
  case (topic P f)
  from assms obtain r where "find (\<lambda>r. ch_id r = c) (d_channels d) = Some r" "ch_team_id r = t"
    by (auto simp: channel_team_def)
  with topic show ?thesis by (simp add: channel_team_def find_upd_where)
next
  case (new r)
  with assms show ?thesis by (auto simp: channel_team_def find_append)
qed

lemma channel_ids_distinct:
  assumes "distinct (map ch_id (d_channels d))"
  shows "distinct (map ch_id (d_channels (snd (create_channel now i auth name topic d))))"
proof (cases rule: create_channel_cases [of now i auth name topic d])
  case same
  with assms show ?thesis by simp
next
  case (topic P f)
  with assms show ?thesis by (simp add: map_upd_where_same)
next
  case (new r)
  with assms show ?thesis by simp
qed

lemma create_channel_frame [simp]:
  "d_messages (snd (create_channel now i auth name topic d)) = d_messages d"
  "d_message_seq (snd (create_channel now i auth name topic d)) = d_message_seq d"
  "d_cursors (snd (create_channel now i auth name topic d)) = d_cursors d"
  "d_agents (snd (create_channel now i auth name topic d)) = d_agents d"
  "d_sessions (snd (create_channel now i auth name topic d)) = d_sessions d"
  by (cases rule: create_channel_cases [of now i auth name topic d]; simp)+

lemma channel_wf:
  assumes wf: "messages_wf d"
  shows "messages_wf (snd (create_channel now i auth name topic d))"
proof -
  have "message_ok (snd (create_channel now i auth name topic d)) m" if "message_ok d m" for m
    using that by (rule message_ok_mono) (simp_all add: channel_team_kept)
  then show ?thesis using wf channel_ids_distinct [of d] by (simp add: messages_wf_def)
qed

interpretation message_log: kept_invariant msg_exec messages_wf
proof
  fix d q assume "messages_wf d"
  then show "messages_wf (msg_exec q d)"
    by (cases q) (simp_all add: post_wf read_wf channel_wf)
qed

end
