(* ===== verification/Delivery.thy ===== *)
theory Delivery
  imports Messaging
begin

text \<open>
  What reading promises: the cursor keys of \<^verbatim>\<open>Scope::cursor_key_for\<close> keep views apart, incremental
  reads of \<^verbatim>\<open>read_messages\<close> drain a scope exactly once under every interleaving (the contract
  \<open>drained_log\<close>, interpreted on the requests of the message log), what a reader may see, and how
  the two sides of a question agree.
\<close>

section \<open>Cursors\<close>

text \<open>UUIDs print injectively and without a slash.\<close>

definition uuid_text_ok :: "ext \<Rightarrow> bool" where
  "uuid_text_ok X \<longleftrightarrow> inj (x_uuid_str X) \<and> (\<forall>i. CHR ''/'' \<notin> set (x_uuid_str X i))"

fun same_view :: "scope \<Rightarrow> scope \<Rightarrow> bool" where
  "same_view All All = True"
| "same_view Inbox Inbox = True"
| "same_view (Channel i _) (Channel j _) = (i = j)"
| "same_view _ _ = False"

lemma same_view_in_scope:
  "same_view sc sc' \<Longrightarrow> au_agent_id a = au_agent_id a' \<Longrightarrow> au_team_id a = au_team_id a' \<Longrightarrow>
   au_session a = au_session a' \<Longrightarrow> in_scope a sc al m = in_scope a' sc' al m"
  by (cases "(sc, sc')" rule: same_view.cases) (auto simp: in_scope_def to_me_def)

definition cursor_suffix :: "string \<Rightarrow> bool \<Rightarrow> string" where
  "cursor_suffix session al =
     (if session = [] \<and> \<not> al then [] else CHR ''/'' # (if al then CHR ''a'' else CHR ''s'') # CHR ''/'' # session)"

lemma cursor_scope_for_suffix: "cursor_scope_for b s al = b @ cursor_suffix s al"
  by (simp add: cursor_scope_for_def cursor_suffix_def)

lemma cursor_suffix_inj: "cursor_suffix s al = cursor_suffix s' al' \<Longrightarrow> s = s' \<and> al = al'"
  by (simp add: cursor_suffix_def split: if_splits)

lemma cursor_base: "CHR ''/'' \<notin> set b \<Longrightarrow> takeWhile (\<lambda>c. c \<noteq> CHR ''/'') (cursor_scope_for b s al) = b"
  by (auto simp: cursor_scope_for_suffix cursor_suffix_def takeWhile_append2 takeWhile_tail)

lemma cursor_scope_for_inj:
  assumes "CHR ''/'' \<notin> set b" "CHR ''/'' \<notin> set b'" and eq: "cursor_scope_for b s al = cursor_scope_for b' s' al'"
  shows "b = b' \<and> s = s' \<and> al = al'"
proof -
  have "b = b'" using cursor_base [OF assms(1), of s al] cursor_base [OF assms(2), of s' al'] eq by simp
  moreover from this eq have "cursor_suffix s al = cursor_suffix s' al'" by (simp add: cursor_scope_for_suffix)
  ultimately show ?thesis using cursor_suffix_inj by blast
qed

lemma cursor_keys_disjoint:
  assumes X: "uuid_text_ok X" and eq: "cursor_key_for X sc a al = cursor_key_for X sc' a' al'"
  shows "same_view sc sc' \<and> au_session a = au_session a' \<and> al = al'"
proof -
  let ?b = "\<lambda>sc. case sc of All \<Rightarrow> ''all'' | Inbox \<Rightarrow> ''inbox'' | Channel i n \<Rightarrow> ''channel:'' @ x_uuid_str X i"
  have "CHR ''/'' \<notin> set (?b sc)" for sc using X by (cases sc) (auto simp: uuid_text_ok_def)
  from cursor_scope_for_inj [OF this this] eq have "?b sc = ?b sc' \<and> au_session a = au_session a' \<and> al = al'"
    by (simp add: cursor_key_for_def Let_def)
  then show ?thesis
    using X by (cases sc; cases sc') (auto simp: uuid_text_ok_def dest: injD)
qed

subsection \<open>A window drains its scope exactly once\<close>

fun delivered :: "uuid \<Rightarrow> string \<Rightarrow> msg_req \<Rightarrow> db \<Rightarrow> int list" where
  "delivered agent key (ReadReq X now auth input) d =
     (case (fst (read_messages X now auth input d), resolve_scope auth (ri_scope input) d) of
        (Inr l, Inr sc) \<Rightarrow>
          if ri_only_new input \<and> au_agent_id auth = agent \<and> cursor_key_for X sc auth (ri_all_sessions input) = key
          then map mi_id (ml_messages l) else []
      | _ \<Rightarrow> [])"
| "delivered agent key _ d = []"

text \<open>Every request prints UUIDs the same way, and an agent's requests carry its team.\<close>

fun consistent :: "ext \<Rightarrow> auth_ctx \<Rightarrow> msg_req \<Rightarrow> bool" where
  "consistent X auth (ReadReq X' now a input) \<longleftrightarrow>
     X' = X \<and> (au_agent_id a = au_agent_id auth \<longrightarrow> au_team_id a = au_team_id auth)"
| "consistent X auth _ = True"

definition backlog :: "auth_ctx \<Rightarrow> scope \<Rightarrow> bool \<Rightarrow> db \<Rightarrow> message_row list" where
  "backlog auth sc al d = filter (in_scope auth sc al) (d_messages d)"

lemma filter_upto_take:
  assumes "sorted_wrt (<) (map k ys)" and "hi \<in> k ` set (take n ys)" and "\<forall>m \<in> set (take n ys). k m \<le> hi"
  shows "filter (\<lambda>m. k m \<le> (hi::int)) ys = take n ys"
proof -
  have "sorted_wrt (<) (map k (take n ys @ drop n ys))" using assms(1) by simp
  then have "\<forall>x \<in> set (take n ys). \<forall>y \<in> set (drop n ys). k x < k y"
    by (simp only: map_append sorted_wrt_append) auto
  then have "filter (\<lambda>m. k m \<le> hi) (drop n ys) = []" using assms(2) by (force simp: filter_empty_conv)
  moreover have "filter (\<lambda>m. k m \<le> hi) (take n ys) = take n ys" using assms(3) by (simp add: filter_id_conv)
  ultimately show ?thesis by (metis append_Nil2 append_take_drop_id filter_append)
qed

lemma only_new_page:
  assumes wf: "messages_wf d" and new: "ri_only_new input"
  shows "read_page auth sc input since d =
    take (nat (clamp 1 MAX_MESSAGE_LIMIT (ri_limit input))) (filter (\<lambda>m. since < ms_id m) (backlog auth sc (ri_all_sessions input) d))"
proof -
  have "sorted (map ms_id (filter P (d_messages d)))" for P
    using ids_sorted [OF wf, of P] by (simp add: strict_sorted_imp_sorted)
  then have "sort_key ms_id (filter P (d_messages d)) = filter P (d_messages d)" for P
    by (rule sort_key_sorted)
  then show ?thesis
    using new by (simp add: read_page_def message_select_wf [OF wf] backlog_def conj_commute)
qed

lemma only_new_delivers:
  assumes wf: "messages_wf d" and new: "ri_only_new input" and since_def: "since = read_since X auth sc input d"
  shows "map mi_id (read_answer X auth sc input d) = map ms_id
    (between ms_id since (max_id since (read_answer X auth sc input d)) (backlog auth sc (ri_all_sessions input) d))"
proof -
  let ?ys = "filter (\<lambda>m. since < ms_id m) (backlog auth sc (ri_all_sessions input) d)"
  let ?n = "nat (clamp 1 MAX_MESSAGE_LIMIT (ri_limit input))"
  let ?hi = "max_id since (read_answer X auth sc input d)"
  have ids: "map mi_id (read_answer X auth sc input d) = map ms_id (take ?n ?ys)"
    using new by (simp add: read_answer_ids [OF wf] only_new_page [OF wf new] since_def)
  have sorted: "sorted_wrt (<) (map ms_id ?ys)"
    using ids_sorted [OF wf] by (simp add: backlog_def)
  have split: "between ms_id since ?hi (backlog auth sc (ri_all_sessions input) d) = filter (\<lambda>m. ms_id m \<le> ?hi) ?ys"
    by (simp add: between_def conj_commute)
  have "filter (\<lambda>m. ms_id m \<le> ?hi) ?ys = take ?n ?ys"
  proof (cases "take ?n ?ys = []")
    case True
    then have "?hi = since" using ids max_id_spec [of "read_answer X auth sc input d" since] by simp
    with True show ?thesis by (auto simp: filter_empty_conv)
  next
    case False
    then show ?thesis
      using ids max_id_spec [of "read_answer X auth sc input d" since] by (intro filter_upto_take [OF sorted]) auto
  qed
  with ids split show ?thesis by simp
qed

lemma cursor_of_post [simp]: "cursor_of (snd (post_message X now auth input d)) a k = cursor_of d a k"
proof (cases rule: post_message_cases [of X now auth input d])
  case (posted body md c r s to info d')
  from post_tx_frame [OF posted(3)] have "d_cursors d' = d_cursors d" by fastforce
  with posted(4) show ?thesis by (simp add: cursor_of_def)
qed simp

lemma cursor_of_channel [simp]: "cursor_of (snd (create_channel now i auth name topic d)) a k = cursor_of d a k"
  by (simp add: cursor_of_def)

lemma backlog_post:
  assumes "messages_wf d"
  shows "\<exists>new. backlog auth sc al (snd (post_message X now a input d)) = backlog auth sc al d @ new \<and>
    (\<forall>m \<in> set new. d_message_seq d < ms_id m)"
proof (cases rule: post_message_cases [of X now a input d])
  case (refused e)
  then show ?thesis by simp
next
  case (posted body md c r s to info d')
  from post_tx_frame [OF posted(3)] have
    "d_messages d' = d_messages d @ [posted_row now a input body md c r s (d_message_seq d + 1)]" by fastforce
  with posted(4) show ?thesis by (simp add: backlog_def posted_row_def)
qed

lemma backlog_read [simp]: "backlog auth sc al (snd (read_messages X now a input d)) = backlog auth sc al d"
  by (cases rule: read_messages_cases [of X now a input d]) (simp_all add: backlog_def)

lemma backlog_channel [simp]: "backlog auth sc al (snd (create_channel now i a name topic d)) = backlog auth sc al d"
  by (simp add: backlog_def)

text \<open>What a read does to one cursor and to the list it hands out.\<close>

lemma read_delivers:
  assumes wf: "messages_wf d" and X: "uuid_text_ok X"
    and team: "au_agent_id a = au_agent_id auth \<longrightarrow> au_team_id a = au_team_id auth"
    and key_def: "key = cursor_key_for X sc auth al"
  shows "cursor_of d (au_agent_id auth) key \<le> cursor_of (snd (read_messages X now a input d)) (au_agent_id auth) key \<and>
    delivered (au_agent_id auth) key (ReadReq X now a input) d =
      map ms_id (between ms_id (cursor_of d (au_agent_id auth) key)
        (cursor_of (snd (read_messages X now a input d)) (au_agent_id auth) key) (backlog auth sc al d))"
proof (cases rule: read_messages_cases [of X now a input d])
  case (refused e)
  then show ?thesis by (auto simp: between_def)
next
  case (answered sc' l)
  show ?thesis
  proof (cases "ri_only_new input \<and> au_agent_id a = au_agent_id auth \<and> cursor_key_for X sc' a (ri_all_sessions input) = key")
    case False
    with answered(1,2) show ?thesis by (auto simp: cursor_of_read between_def)
  next
    case True
    then have same: "same_view sc' sc" "au_session a = au_session auth" "ri_all_sessions input = al"
      using cursor_keys_disjoint [OF X, of sc' a "ri_all_sessions input" sc auth al] by (simp_all add: key_def)
    have view: "backlog a sc' (ri_all_sessions input) d = backlog auth sc al d"
      unfolding backlog_def same(3)
      by (rule filter_cong [OF refl], rule same_view_in_scope [OF same(1)]) (use True team same(2) in simp_all)
    have since: "cursor_of d (au_agent_id auth) key = read_since X a sc' input d"
      using True by (simp add: read_since_def)
    have hi: "cursor_of (read_effect X now a sc' input d) (au_agent_id auth) key =
        max_id (read_since X a sc' input d) (read_answer X a sc' input d)"
      using True since read_high(2) [OF wf, of X a sc' input] by (simp add: cursor_of_read)
    show ?thesis
      using True answered(1-3) only_new_delivers [OF wf _ refl, of input X a sc'] read_high(2) [OF wf, of X a sc' input]
      by (simp add: hi view since)
  qed
qed

interpretation drained: drained_log msg_exec "\<lambda>d. messages_wf d \<and> uuid_text_ok X" "consistent X auth"
  "backlog auth sc al" ms_id "\<lambda>d. cursor_of d (au_agent_id auth) (cursor_key_for X sc auth al)"
  "delivered (au_agent_id auth) (cursor_key_for X sc auth al)"
proof
  fix d q
  assume d: "messages_wf d \<and> uuid_text_ok X"
  then show "sorted (map ms_id (backlog auth sc al d))"
    using ids_sorted by (simp add: backlog_def strict_sorted_imp_sorted)
  assume q: "consistent X auth q"
  show "messages_wf (msg_exec q d) \<and> uuid_text_ok X" using d message_log.invar_step by blast
  let ?c = "\<lambda>d. cursor_of d (au_agent_id auth) (cursor_key_for X sc auth al)"
  have "?c d \<le> ?c (msg_exec q d) \<and>
    delivered (au_agent_id auth) (cursor_key_for X sc auth al) q d = map ms_id (between ms_id (?c d) (?c (msg_exec q d)) (backlog auth sc al d))"
    using d q read_delivers [of d X _ auth _ sc al] by (cases q) (auto simp: between_def)
  then show "?c d \<le> ?c (msg_exec q d)" and
    "delivered (au_agent_id auth) (cursor_key_for X sc auth al) q d = map ms_id (between ms_id (?c d) (?c (msg_exec q d)) (backlog auth sc al d))"
    by auto
  show "\<exists>new. backlog auth sc al (msg_exec q d) = backlog auth sc al d @ new \<and> (\<forall>m \<in> set new. ?c (msg_exec q d) < ms_id m)"
  proof (cases q)
    case (PostReq X' now a input)
    from backlog_post [of d auth sc al X' now a input] d obtain new where
      "backlog auth sc al (msg_exec q d) = backlog auth sc al d @ new" "\<forall>m \<in> set new. d_message_seq d < ms_id m"
      by (auto simp: PostReq)
    moreover have "?c d \<le> d_message_seq d" using d cursor_bound by blast
    ultimately show ?thesis by (force simp: PostReq)
  qed simp_all
qed

section \<open>Properties\<close>


lemma demo_messages_wf: "messages_wf demo_db"
  by (simp add: messages_wf_def demo_defs)

lemma demo_uuid_text: "uuid_text_ok demo_ext"
  by (auto simp: uuid_text_ok_def demo_ext_def inj_def dest: arg_cong [of _ _ length])

definition demo_post :: post_input where
  "demo_post = \<lparr>po_channel = Some ''#Dev'', po_to = None, po_announce = False, po_body = '' hi '',
     po_reply_to = None, po_metadata = None, po_attachments = []\<rparr>"

definition demo_read :: read_input where
  "demo_read = \<lparr>ri_scope = ''dev'', ri_only_new = True, ri_limit = 1, ri_all_sessions = False\<rparr>"

definition demo_traffic :: "msg_req list" where
  "demo_traffic = [PostReq demo_ext 5 bo demo_post, PostReq demo_ext 6 bo demo_post,
     ReadReq demo_ext 7 ana_api demo_read, PostReq demo_ext 8 bo demo_post, ReadReq demo_ext 9 ana_api demo_read]"


text \<open>An incremental read whose page is not full leaves nothing unread: every message of the
  scope is then behind the cursor the read stored.\<close>

theorem short_page_catches_up:
  assumes "messages_wf d" and "ri_only_new input" and "resolve_scope auth (ri_scope input) d = Inr sc"
    and "read_messages X now auth input d = (Inr l, d')" and "\<not> ml_truncated l"
  shows "\<forall>m \<in> set (backlog auth sc (ri_all_sessions input) d').
    ms_id m \<le> cursor_of d' (au_agent_id auth) (cursor_key_for X sc auth (ri_all_sessions input))"
proof (cases rule: read_messages_cases [of X now auth input d])
  case (refused e)
  with assms(4) show ?thesis by simp
next
  case (answered sc' l')
  let ?s = "read_since X auth sc input d" and ?a = "read_answer X auth sc input d"
  let ?new = "filter (\<lambda>m. ?s < ms_id m) (backlog auth sc (ri_all_sessions input) d)"
  let ?n = "clamp 1 MAX_MESSAGE_LIMIT (ri_limit input)"
  have [simp]: "sc' = sc" "l' = l" "d' = read_effect X now auth sc input d" using answered assms(3,4) by auto
  have page: "read_page auth sc input ?s d = take (nat ?n) ?new" by (rule only_new_page [OF assms(1,2)])
  have "int (length (take (nat ?n) ?new)) \<noteq> ?n" using answered(5) assms(5) page by simp
  moreover have "1 \<le> ?n" by (simp add: clamp_def MAX_MESSAGE_LIMIT_def)
  ultimately have "take (nat ?n) ?new = ?new" by (simp add: min_def split: if_splits)
  then have "map mi_id ?a = map ms_id ?new"
    using page assms(2) by (simp add: read_answer_ids [OF assms(1)])
  then have ids: "set (map mi_id ?a) = ms_id ` set ?new" by (simp only: set_map)
  have cur: "cursor_of d' (au_agent_id auth) (cursor_key_for X sc auth (ri_all_sessions input)) = max ?s (max_id ?s ?a)"
    using assms(2) by (simp add: cursor_of_read read_since_def)
  show ?thesis
  proof
    fix m assume "m \<in> set (backlog auth sc (ri_all_sessions input) d')"
    then have m: "m \<in> set (backlog auth sc (ri_all_sessions input) d)" by (simp add: backlog_def)
    show "ms_id m \<le> cursor_of d' (au_agent_id auth) (cursor_key_for X sc auth (ri_all_sessions input))"
    proof (cases "?s < ms_id m")
      case True
      with m ids have "ms_id m \<in> set (map mi_id ?a)" by auto
      with max_id_spec [of ?a ?s] have "ms_id m \<le> max_id ?s ?a" by (cases "map mi_id ?a = []") auto
      then show ?thesis using cur by simp
    next
      case False
      then show ?thesis using cur by simp
    qed
  qed
qed

theorem short_page_catches_up_witness:
  "list_all (\<lambda>m. ms_id m \<le> cursor_of (snd (read_messages demo_ext 7 ana_api (demo_read\<lparr>ri_limit := 5\<rparr>)
        (runs msg_exec (take 2 demo_traffic) demo_db))) 10 (cursor_key_for demo_ext (Channel 30 ''dev'') ana_api False))
     (backlog ana_api (Channel 30 ''dev'') False (snd (read_messages demo_ext 7 ana_api (demo_read\<lparr>ri_limit := 5\<rparr>)
        (runs msg_exec (take 2 demo_traffic) demo_db))))"
proof -
  let ?d = "runs msg_exec (take 2 demo_traffic) demo_db"
  let ?i = "demo_read\<lparr>ri_limit := 5\<rparr>"
  have ok: "isl (fst (read_messages demo_ext 7 ana_api ?i ?d)) = False \<and>
      ml_truncated (projr (fst (read_messages demo_ext 7 ana_api ?i ?d))) = False \<and>
      resolve_scope ana_api (ri_scope ?i) ?d = Inr (Channel 30 ''dev'')"
    by code_simp
  obtain l d' where r: "read_messages demo_ext 7 ana_api ?i ?d = (Inr l, d')"
    using ok by (cases "read_messages demo_ext 7 ana_api ?i ?d"; cases "fst (read_messages demo_ext 7 ana_api ?i ?d)") auto
  show ?thesis
    using short_page_catches_up [OF message_log.invar_runs [OF demo_messages_wf], of ?i ana_api "take 2 demo_traffic" "Channel 30 ''dev''" demo_ext 7 l d'] ok r
    by (simp add: demo_read_def ana_api_def list_all_iff)
qed

definition may_read :: "auth_ctx \<Rightarrow> message_row \<Rightarrow> bool" where
  "may_read auth m \<longleftrightarrow> (ms_channel_id m \<noteq> None \<and> ms_team_id m = au_team_id auth) \<or>
     ms_recipient_agent_id m = Some (au_agent_id auth) \<or> ms_sender_agent_id m = au_agent_id auth"

definition of_this_window :: "auth_ctx \<Rightarrow> message_row \<Rightarrow> bool" where
  "of_this_window auth m \<longleftrightarrow> ms_channel_id m \<noteq> None \<or> ms_sender_agent_id m = au_agent_id auth \<or>
     ms_recipient_session m \<in> {None, Some (au_session auth)}"

lemma in_scope_may_read:
  assumes wf: "messages_wf d" and "resolve_scope auth raw d = Inr sc" and "m \<in> set (d_messages d)" and "in_scope auth sc al m"
  shows "may_read auth m \<and> (\<not> al \<longrightarrow> of_this_window auth m)"
proof (cases sc)
  case (Channel i n)
  then have "channel_team d i = Some (au_team_id auth)" "ms_channel_id m = Some i"
    using assms channel_id_by_name_team [of d] by (auto simp: messages_wf_def resolve_scope_def in_scope_def Let_def bindE_def split: if_splits sum.splits)
  moreover have "message_ok d m" using wf assms(3) by (simp add: messages_wf_def)
  ultimately show ?thesis by (auto simp: message_ok_def may_read_def of_this_window_def)
qed (use assms(4) in \<open>auto simp: in_scope_def to_me_def may_read_def of_this_window_def\<close>)

lemma message_info_of_row: "message_info_of d m = Some i \<Longrightarrow> mi_id i = ms_id m \<and> mi_body i = ms_body m"
  by (auto simp: message_info_of_def)


lemma demo_dm_wf: "messages_wf demo_dm"
  by (simp add: messages_wf_def message_ok_def agent_name_of_def demo_dm_def demo_defs)


definition asks_this_window :: "time \<Rightarrow> auth_ctx \<Rightarrow> message_row \<Rightarrow> bool" where
  "asks_this_window now auth q \<longleftrightarrow> ms_recipient_agent_id q = Some (au_agent_id auth) \<and>
     (ms_recipient_session q = None \<or> ms_recipient_session q = Some (au_session auth)) \<and> is_question q \<and>
     ms_created_at q > now - secs (PENDING_QUESTION_HOURS * 3600) \<and> \<not> sent_here auth q"

lemma find_answer_None:
  assumes "messages_wf d"
  shows "find_answer asker target ts qid d = None \<longleftrightarrow>
    \<not> exists_row (answers (au_agent_id asker) (au_session asker) target ts qid) (d_messages d)"
proof -
  let ?P = "answers (au_agent_id asker) (au_session asker) target ts qid"
  let ?k = "\<lambda>m. (if ms_reply_to m = Some qid then 0 else if ms_reply_to m \<noteq> None then 1 else (2 :: int), ms_id m)"
  let ?rows = "sort_key ?k (filter ?P (d_messages d))"
  have "message_info_of d m \<noteq> None" if "m \<in> set ?rows" for m
    using assms that by (auto simp: messages_wf_def message_ok_def message_info_of_def)
  then have "Option.bind (fetch_optional ?rows) (message_info_of d) = None \<longleftrightarrow> ?rows = []"
    by (cases ?rows) (auto simp: fetch_optional_def simp del: sort_key_Nil_iff)
  then show ?thesis
    by (simp add: find_answer_def message_select_wf [OF assms] exists_row_def filter_empty_conv)
qed

text \<open>Asker and asked agree on what is answered. A question of the last day that is addressed to a
  window counts as pending for it exactly as long as the asking window, waiting for that question, would
  still be handed no answer.\<close>

theorem pending_iff_no_answer_found:
  assumes "messages_wf d" and "au_agent_id asker = ms_sender_agent_id q" and "au_session asker = coalesce_str (ms_sender_session q)"
  shows "pending_question now auth d q \<longleftrightarrow> asks_this_window now auth q \<and>
    find_answer asker (au_agent_id auth) (ms_recipient_session q) (ms_id q) d = None"
  unfolding find_answer_None [OF assms(1)] answers_def [abs_def] pending_question_def asks_this_window_def sent_here_def assms(2,3)
  by blast

definition demo_question :: post_input where
  "demo_question = demo_post\<lparr>po_channel := None, po_to := Some ''ana/api'', po_metadata := Some (JObj [(''question'', JBool True)])\<rparr>"

definition demo_asked :: db where
  "demo_asked = snd (post_message demo_ext 5 bo demo_question demo_db)"

definition demo_answered :: db where
  "demo_answered = snd (post_message demo_ext 6 ana_api (demo_post\<lparr>po_channel := None, po_to := Some ''bo''\<rparr>) demo_asked)"

theorem pending_iff_no_answer_found_witness:
  "pending_questions 7 ana_api demo_asked = 1 \<and> find_answer bo 10 (Some ''api'') 1 demo_asked = None \<and>
   \<not> pending_question 7 ana_api demo_answered (hd (d_messages demo_answered)) \<and>
   find_answer bo 10 (Some ''api'') 1 demo_answered \<noteq> None"
proof -
  let ?q = "hd (d_messages demo_answered)"
  have "messages_wf demo_answered"
    unfolding demo_answered_def demo_asked_def by (intro post_wf demo_messages_wf)
  moreover have "ms_sender_agent_id ?q = 11 \<and> coalesce_str (ms_sender_session ?q) = [] \<and> ms_recipient_session ?q = Some ''api'' \<and>
      ms_id ?q = 1 \<and> asks_this_window 7 ana_api ?q \<and> \<not> pending_question 7 ana_api demo_answered ?q"
    by code_simp
  moreover have "pending_questions 7 ana_api demo_asked = 1" by code_simp
  moreover have "find_answer bo 10 (Some ''api'') 1 demo_asked = None" by code_simp
  ultimately show ?thesis
    using pending_iff_no_answer_found [of demo_answered bo ?q 7 ana_api] by (simp add: bo_def ana_api_def)
qed

text \<open>A post is all or nothing and cannot be forged. When it succeeds, the guard held in the same
  transaction, exactly one message was appended, with an id above every other, the caller's own agent,
  window and team, the trimmed body, and a channel of that team or one recipient; its attachments were
  stored with it; nothing else changed. When it fails, nothing changed at all.\<close>

theorem post_message_spec:
  assumes "messages_wf d"
  shows "case post_message X now auth input d of
      (Inl e, d') \<Rightarrow> d' = d
    | (Inr (info, to), d') \<Rightarrow> guard now auth d = Inr () \<and> (\<exists>m rows.
        d' = d\<lparr>d_message_seq := ms_id m, d_messages := d_messages d @ [m], d_attachments := d_attachments d @ rows,
               d_attachment_seq := d_attachment_seq d + int (length rows)\<rparr> \<and>
        (\<forall>m' \<in> set (d_messages d). ms_id m' < ms_id m) \<and>
        ms_sender_agent_id m = au_agent_id auth \<and> coalesce_str (ms_sender_session m) = au_session auth \<and>
        ms_team_id m = au_team_id auth \<and> ms_body m = trim (po_body input) \<and> ms_body m \<noteq> [] \<and>
        int (length (ms_body m)) \<le> MAX_BODY_BYTES \<and> message_ok d' m \<and> message_info_of d' m = Some info \<and>
        map at_data rows = map na_data (po_attachments input) \<and>
        (\<forall>a \<in> set rows. at_message_id a = Some (ms_id m) \<and> at_team_id a = au_team_id auth))"
proof (cases rule: post_message_cases [of X now auth input d])
  case (refused e)
  then show ?thesis by simp
next
  case (posted body md c r s to info d')
  let ?m = "posted_row now auth input body md c r s (d_message_seq d + 1)"
  from post_tx_frame [OF posted(3)] obtain rows where
    d': "d' = d\<lparr>d_message_seq := d_message_seq d + 1, d_messages := d_messages d @ [?m],
      d_attachments := d_attachments d @ rows,
      d_attachment_seq := d_attachment_seq d + int (length (po_attachments input))\<rparr>"
    and info: "message_info_of d' ?m = Some info"
    and rows: "map at_data rows = map na_data (po_attachments input)"
      "\<forall>a \<in> set rows. at_message_id a = Some (d_message_seq d + 1) \<and> at_team_id a = au_team_id auth"
    by blast
  have len: "length rows = length (po_attachments input)" using rows(1) map_eq_imp_length_eq by blast
  have below: "\<forall>m' \<in> set (d_messages d). ms_id m' < d_message_seq d + 1"
    using assms by (auto simp: messages_wf_def message_ok_def)
  have "messages_wf d'" using post_wf [OF assms, of X now auth input] posted(4) by simp
  then have ok: "message_ok d' ?m" by (simp add: messages_wf_def d')
  note b = post_checks_Inr(1-3) [OF posted(1)]
  have "ms_sender_agent_id ?m = au_agent_id auth \<and> coalesce_str (ms_sender_session ?m) = au_session auth \<and>
      ms_team_id ?m = au_team_id auth \<and> ms_body ?m = body \<and> ms_id ?m = d_message_seq d + 1"
    by (simp add: posted_row_def)
  then show ?thesis
    using posted(2) d' below info rows ok len b by (auto simp: posted(4) intro!: exI [of _ ?m] exI [of _ rows])
qed

theorem post_message_spec_witness:
  "(\<exists>info to. fst (post_message demo_ext 5 bo demo_post demo_db) = Inr (info, to) \<and>
      guard 5 bo demo_db = Inr () \<and> map ms_body (d_messages (snd (post_message demo_ext 5 bo demo_post demo_db))) = [''hi'']) \<and>
   post_message demo_ext 5 bo (demo_post\<lparr>po_to := Some ''ana''\<rparr>) demo_db =
     (Inl (Invalid ''set either channel or to, not both''), demo_db)"
proof -
  have "\<not> isl (fst (post_message demo_ext 5 bo demo_post demo_db)) \<and>
      trim (po_body demo_post) = ''hi'' \<and> d_messages demo_db = []"
    by code_simp
  then obtain info to d' where p: "post_message demo_ext 5 bo demo_post demo_db = (Inr (info, to), d')" and
    t: "trim (po_body demo_post) = ''hi''" "d_messages demo_db = []"
    by (cases "post_message demo_ext 5 bo demo_post demo_db"; cases "fst (post_message demo_ext 5 bo demo_post demo_db)") auto
  have "fst (post_message demo_ext 5 bo (demo_post\<lparr>po_to := Some ''ana''\<rparr>) demo_db) =
      Inl (Invalid ''set either channel or to, not both'')" by code_simp
  with post_message_spec [OF demo_messages_wf, where X = demo_ext and now = 5 and auth = bo and input = demo_post] p t
    post_message_spec [OF demo_messages_wf, where X = demo_ext and now = 5 and auth = bo and input = "demo_post\<lparr>po_to := Some ''ana''\<rparr>"]
  show ?thesis by (auto split: prod.splits)
qed

text \<open>No two views share a cursor. The stored key of a read is the same for two requests exactly
  when they read the same scope, through the same session label, with the same \<open>all_sessions\<close>.\<close>

theorem cursor_keys_are_injective:
  assumes "uuid_text_ok X"
  shows "cursor_key_for X sc a al = cursor_key_for X sc' a' al' \<longleftrightarrow>
    same_view sc sc' \<and> au_session a = au_session a' \<and> al = al'"
proof
  assume "same_view sc sc' \<and> au_session a = au_session a' \<and> al = al'"
  then show "cursor_key_for X sc a al = cursor_key_for X sc' a' al'"
    by (cases "(sc, sc')" rule: same_view.cases) (auto simp: cursor_key_for_def)
qed (rule cursor_keys_disjoint [OF assms])

theorem cursor_keys_are_injective_witness:
  "cursor_key_for demo_ext Inbox ana_api False \<noteq> cursor_key_for demo_ext Inbox bo False \<and>
   cursor_key_for demo_ext (Channel 3 ''x'') bo True = cursor_key_for demo_ext (Channel 3 ''y'') bo True"
  using cursor_keys_are_injective [OF demo_uuid_text, of Inbox ana_api False Inbox bo False]
    cursor_keys_are_injective [OF demo_uuid_text, of "Channel 3 ''x''" bo True "Channel 3 ''y''" bo True]
  by (simp add: ana_api_def bo_def)

definition hash_db :: db where
  "hash_db = snd (post_message demo_ext 6 bo (demo_post\<lparr>po_channel := Some ''# #dev''\<rparr>)
     (snd (create_channel 5 31 bo ''# #dev'' None demo_db)))"

text \<open>Stripping the leading hashes is not idempotent, and a read scope is normalised twice. A
  channel created as \<open># #dev\<close> accepts posts under that name, but reading that same name shows the
  channel \<open>dev\<close> instead, without the post.\<close>

theorem channel_named_with_a_hash_cannot_be_read:
  "map ms_channel_id (d_messages hash_db) = [Some 31] \<and>
   resolve_scope bo ''# #dev'' hash_db = Inr (Channel 30 ''#dev'') \<and>
   ml_messages (projr (fst (read_messages demo_ext 7 bo (demo_read\<lparr>ri_scope := ''# #dev''\<rparr>) hash_db))) = []"
  by code_simp

end
