(* ===== verification/ConvSchema.thy ===== *)
theory ConvSchema
  imports Messaging
begin

text \<open>
  The tables of conversations (\<^verbatim>\<open>migrations/0014\<close> to \<^verbatim>\<open>0019\<close>) and what every operation of
  \<^verbatim>\<open>store/conversations.rs\<close> starts from: the capability, access resolved from rows, the project
  grant re-read inside a transaction, and the audit trail.

  A request of this part of the bus reads twice. Its admission checks run on one state, and its
  transaction on a later one; the two are separate arguments of every operation that writes, \<open>d0\<close>
  and \<open>d\<close>, so a theorem about an operation holds whatever other requests committed in between.
  The columns that migrations add to \<^verbatim>\<open>teams\<close> are a table of their own. The \<^verbatim>\<open>detail\<close> of an
  audit row is left out.
\<close>

section \<open>Rows\<close>

record conv_team =
  ct_id :: uuid
  ct_conversations_enabled :: bool
  ct_default_backend :: string

record project_row =
  pj_id :: uuid
  pj_team_id :: uuid
  pj_name :: string
  pj_created_at :: time
  pj_archived_at :: "time option"

record grant_row =
  pa_project_id :: uuid
  pa_agent_id :: uuid
  pa_team_id :: uuid
  pa_granted_by :: "uuid option"

datatype visibility = VProject | VPrivate
datatype publication_mode = Sync | ViaOutbox

record conversation_row =
  cv_id :: uuid
  cv_team_id :: uuid
  cv_project_id :: "uuid option"
  cv_visibility :: visibility
  cv_title :: string
  cv_created_by :: uuid
  cv_created_session :: string
  cv_created_at :: time
  cv_archived_at :: "time option"
  cv_last_seq :: int
  cv_backend :: string
  cv_publication :: publication_mode
  cv_write_paused_at :: "time option"

datatype seat_role = Owner | Moderator | Participant | Observer
datatype seat_state = Invited | Active | Left | Removed

record seat_row =
  mb_id :: uuid
  mb_conversation_id :: uuid
  mb_agent_id :: uuid
  mb_session :: string
  mb_session_id :: "uuid option"
  mb_role :: seat_role
  mb_state :: seat_state
  mb_history_from_seq :: "int option"
  mb_invited_by :: "uuid option"
  mb_invited_at :: time
  mb_accepted_at :: "time option"
  mb_ended_at :: "time option"
  mb_superseded_by :: "uuid option"
  mb_transfer_from :: "uuid option"

datatype publication_state = Stored | PendingPublication | PublicationFailed

record conv_message_row =
  cm_id :: uuid
  cm_conversation_id :: uuid
  cm_seq :: int
  cm_sender_agent :: uuid
  cm_sender_session :: string
  cm_body :: string
  cm_reply_to :: "uuid option"
  cm_metadata :: json
  cm_request_id :: uuid
  cm_created_at :: time
  cm_deleted_at :: "time option"
  cm_publication_state :: publication_state
  cm_canonical_locator :: "string option"
  cm_uncertain_at :: "time option"
  cm_tombstoned_at :: "time option"
  cm_tombstone_reason :: "string option"
  cm_body_sha256 :: "string option"
  cm_backend :: string

record recipient_row =
  rp_message_id :: uuid
  rp_membership_id :: uuid
  rp_agent_id :: uuid
  rp_session :: string

record receipt_row =
  rr_message_id :: uuid
  rr_membership_id :: uuid
  rr_stored_at :: "time option"
  rr_delivered_at :: "time option"
  rr_presented_at :: "time option"
  rr_acknowledged_at :: "time option"
  rr_resolved_at :: "time option"
  rr_note :: "string option"

record audit_row =
  ca_team_id :: uuid
  ca_conversation_id :: "uuid option"
  ca_actor_agent :: uuid
  ca_actor_session :: string
  ca_action :: string
  ca_subject :: "uuid option"
  ca_at :: time

datatype slot_state = Pending | Leased | SlotFailed

record outbox_row =
  ob_message_id :: uuid
  ob_conversation_id :: uuid
  ob_team_id :: uuid
  ob_backend :: string
  ob_payload :: string
  ob_payload_bytes :: int
  ob_publish_key :: uuid
  ob_state :: slot_state
  ob_attempts :: int
  ob_generation :: int
  ob_leased_by :: "string option"
  ob_lease_expires_at :: "time option"
  ob_next_attempt_at :: time
  ob_last_error :: "string option"
  ob_created_at :: time
  ob_updated_at :: time

datatype event_kind = KMessage | KReceipt
datatype event_state = EvPending | EvPublished | EvFailed

record inbox_event_row =
  ie_id :: uuid
  ie_team_id :: uuid
  ie_recipient_key :: string
  ie_kind :: event_kind
  ie_message_id :: uuid
  ie_membership_id :: "uuid option"
  ie_state :: event_state
  ie_attempts :: int
  ie_last_error :: "string option"
  ie_next_attempt_at :: time
  ie_created_at :: time
  ie_dedup :: string

record delivery_row =
  dl_id :: uuid
  dl_team_id :: uuid
  dl_recipient_key :: string
  dl_session_id :: "uuid option"
  dl_epoch :: "int option"
  dl_message_id :: uuid
  dl_membership_id :: "uuid option"
  dl_ack_subject :: string
  dl_stream_seq :: "int option"
  dl_event_dedup :: string
  dl_handed_at :: time
  dl_confirmed_at :: "time option"

text \<open>\<open>cd_moving\<close> are the messages a migration that is planned, copying, verified or cut over touches.\<close>

record cdb =
  cd_base :: db
  cd_teams :: "conv_team list"
  cd_projects :: "project_row list"
  cd_grants :: "grant_row list"
  cd_conversations :: "conversation_row list"
  cd_seats :: "seat_row list"
  cd_messages :: "conv_message_row list"
  cd_recipients :: "recipient_row list"
  cd_receipts :: "receipt_row list"
  cd_audit :: "audit_row list"
  cd_outbox :: "outbox_row list"
  cd_events :: "inbox_event_row list"
  cd_deliveries :: "delivery_row list"
  cd_moving :: "uuid list"

type_synonym 'a conv_tx = "cdb \<Rightarrow> bus_error + ('a \<times> cdb)"

section \<open>How a request runs\<close>

text \<open>Checks first, then a transaction that opens with the session guard; \<open>readback\<close> is a query on the
  committed state that makes the answer.\<close>

definition after_checks :: "'v res \<Rightarrow> ('v \<Rightarrow> cdb \<Rightarrow> 'a res \<times> cdb) \<Rightarrow> cdb \<Rightarrow> 'a res \<times> cdb" where
  "after_checks checks run d = (case checks of Inl e \<Rightarrow> (Inl e, d) | Inr v \<Rightarrow> run v d)"

definition conv_guarded :: "time \<Rightarrow> auth_ctx \<Rightarrow> 'a conv_tx \<Rightarrow> cdb \<Rightarrow> 'a res \<times> cdb" where
  "conv_guarded now auth body = transact (\<lambda>d. bindE (guard now auth (cd_base d)) (\<lambda>_. body d))"

definition readback :: "('a \<Rightarrow> cdb \<Rightarrow> 'b res) \<Rightarrow> 'a res \<times> cdb \<Rightarrow> 'b res \<times> cdb" where
  "readback query r = (bindE (fst r) (\<lambda>x. query x (snd r)), snd r)"

section \<open>Shared steps\<close>

definition MAX_CONV_TITLE_BYTES :: int where "MAX_CONV_TITLE_BYTES = 200"
definition MAX_CONV_BODY_BYTES :: int where "MAX_CONV_BODY_BYTES = 1024 * 1024"
definition MAX_PAGE :: int where "MAX_PAGE = 200"
definition DEFAULT_PAGE :: int where "DEFAULT_PAGE = 50"
definition MAX_MEMBERS :: nat where "MAX_MEMBERS = 200"

definition capability_enabled :: "auth_ctx \<Rightarrow> cdb \<Rightarrow> bool" where
  "capability_enabled auth d =
     (case find (\<lambda>t. ct_id t = au_team_id auth) (cd_teams d) of Some t \<Rightarrow> ct_conversations_enabled t | None \<Rightarrow> False)"

definition require_capability :: "auth_ctx \<Rightarrow> cdb \<Rightarrow> unit res" where
  "require_capability auth d =
     (if capability_enabled auth d then Inr () else Inl (Forbidden ''conversations are not enabled for this team''))"

definition address_of :: "string \<Rightarrow> string \<Rightarrow> string" where
  "address_of agent session = (if session = [] then agent else agent @ ''/'' @ session)"

definition check_title :: "string \<Rightarrow> string res" where
  "check_title raw =
     (let value = trim raw in
      if value = [] then Inl (Invalid ''title cannot be empty'')
      else if int (length value) > MAX_CONV_TITLE_BYTES then Inl (Invalid ''title over the limit'')
      else if list_ex is_control value then Inl (Invalid ''title must not contain control characters'')
      else Inr value)"

definition MAX_LABEL_BYTES :: nat where "MAX_LABEL_BYTES = 64"

definition is_ascii_alphanumeric :: "char \<Rightarrow> bool" where
  "is_ascii_alphanumeric c \<longleftrightarrow> (let n = (of_char c :: nat) in
     48 \<le> n \<and> n \<le> 57 \<or> 65 \<le> n \<and> n \<le> 90 \<or> 97 \<le> n \<and> n \<le> 122)"

definition normalize_label :: "string \<Rightarrow> string res" where
  "normalize_label raw =
     (let label = to_lowercase (trim raw) in
      if label = [] then Inr label
      else if length label > MAX_LABEL_BYTES then Inl (Invalid ''label over the limit'')
      else if \<not> list_all (\<lambda>c. is_ascii_alphanumeric c \<or> c \<in> set ''-_.:'') label
      then Inl (Invalid ''label may only contain ASCII letters, digits and a few signs'')
      else Inr label)"

definition conv_audit :: "time \<Rightarrow> auth_ctx \<Rightarrow> uuid option \<Rightarrow> string \<Rightarrow> uuid option \<Rightarrow> cdb \<Rightarrow> cdb" where
  "conv_audit now auth conversation action subject d = d\<lparr>cd_audit := cd_audit d @
     [\<lparr>ca_team_id = au_team_id auth, ca_conversation_id = conversation, ca_actor_agent = au_agent_id auth,
       ca_actor_session = au_session auth, ca_action = action, ca_subject = subject, ca_at = now\<rparr>]\<rparr>"

definition granted :: "cdb \<Rightarrow> uuid \<Rightarrow> uuid \<Rightarrow> bool" where
  "granted d project agent \<longleftrightarrow>
     exists_row (\<lambda>g. pa_project_id g = project \<and> pa_agent_id g = agent) (cd_grants d)"

definition project_granted :: "cdb \<Rightarrow> conversation_row \<Rightarrow> uuid \<Rightarrow> bool" where
  "project_granted d c agent = (case cv_project_id c of None \<Rightarrow> False | Some p \<Rightarrow> granted d p agent)"

text \<open>A project thread is open to an agent only while the agent has the project; a private one always.\<close>

definition open_to :: "cdb \<Rightarrow> conversation_row \<Rightarrow> uuid \<Rightarrow> bool" where
  "open_to d c agent \<longleftrightarrow> cv_visibility c \<noteq> VProject \<or> project_granted d c agent"

definition conversation_at :: "cdb \<Rightarrow> uuid \<Rightarrow> conversation_row option" where
  "conversation_at d i = find (\<lambda>c. cv_id c = i) (cd_conversations d)"

definition require_project_open :: "auth_ctx \<Rightarrow> uuid \<Rightarrow> cdb \<Rightarrow> unit res" where
  "require_project_open auth conversation d =
     (case find (\<lambda>c. cv_id c = conversation \<and> cv_team_id c = au_team_id auth) (cd_conversations d) of
        None \<Rightarrow> Inl (NotFound ''no such conversation'')
      | Some c \<Rightarrow> if open_to d c (au_agent_id auth) then Inr ()
                  else Inl (Forbidden ''your access to this project has been revoked''))"

section \<open>Access\<close>

record membership =
  me_id :: uuid
  me_role :: seat_role
  me_state :: seat_state
  me_history_from_seq :: "int option"

record access_info =
  ac_conversation_id :: uuid
  ac_visibility :: visibility
  ac_archived :: bool
  ac_last_seq :: int
  ac_title :: string
  ac_membership :: "membership option"
  ac_by_project :: bool

definition project_open :: "access_info \<Rightarrow> bool" where
  "project_open a \<longleftrightarrow> ac_visibility a \<noteq> VProject \<or> ac_by_project a"

definition seat_is :: "access_info \<Rightarrow> seat_state list \<Rightarrow> seat_role list \<Rightarrow> bool" where
  "seat_is a states roles \<longleftrightarrow> (case ac_membership a of
     None \<Rightarrow> False | Some m \<Rightarrow> me_state m \<in> set states \<and> me_role m \<in> set roles)"

definition can_read :: "access_info \<Rightarrow> bool" where
  "can_read a \<longleftrightarrow> project_open a \<and>
     (ac_by_project a \<or> seat_is a [Active, Invited] [Owner, Moderator, Participant, Observer])"

definition can_read_messages :: "access_info \<Rightarrow> bool" where
  "can_read_messages a \<longleftrightarrow> project_open a \<and>
     (ac_by_project a \<or> seat_is a [Active] [Owner, Moderator, Participant, Observer])"

definition can_send :: "access_info \<Rightarrow> bool" where
  "can_send a \<longleftrightarrow> project_open a \<and> seat_is a [Active] [Owner, Moderator, Participant]"

definition can_moderate :: "access_info \<Rightarrow> bool" where
  "can_moderate a \<longleftrightarrow> project_open a \<and> seat_is a [Active] [Owner, Moderator]"

definition is_owner :: "access_info \<Rightarrow> bool" where
  "is_owner a \<longleftrightarrow> project_open a \<and> seat_is a [Active] [Owner]"

text \<open>The seat of an address, and the seat the caller's credential may sit in: a seat bound to a
  registered window needs a session credential.\<close>

definition seat_key_is :: "uuid \<Rightarrow> uuid \<Rightarrow> string \<Rightarrow> seat_row \<Rightarrow> bool" where
  "seat_key_is conversation agent session m \<longleftrightarrow>
     mb_conversation_id m = conversation \<and> mb_agent_id m = agent \<and> mb_session m = session"

definition my_seat :: "auth_ctx \<Rightarrow> uuid \<Rightarrow> seat_row \<Rightarrow> bool" where
  "my_seat auth conversation m \<longleftrightarrow> seat_key_is conversation (au_agent_id auth) (au_session auth) m \<and>
     (mb_session_id m = None \<or> au_session_id auth \<noteq> None)"

definition access :: "auth_ctx \<Rightarrow> uuid \<Rightarrow> cdb \<Rightarrow> access_info res" where
  "access auth conversation d =
     (case find (\<lambda>c. cv_id c = conversation \<and> cv_team_id c = au_team_id auth) (cd_conversations d) of
        None \<Rightarrow> Inl (NotFound ''no such conversation'')
      | Some c \<Rightarrow> Inr
          \<lparr>ac_conversation_id = conversation, ac_visibility = cv_visibility c,
           ac_archived = (cv_archived_at c \<noteq> None), ac_last_seq = cv_last_seq c, ac_title = cv_title c,
           ac_membership = map_option
             (\<lambda>m. \<lparr>me_id = mb_id m, me_role = mb_role m, me_state = mb_state m, me_history_from_seq = mb_history_from_seq m\<rparr>)
             (find (my_seat auth conversation) (cd_seats d)),
           ac_by_project = (cv_visibility c = VProject \<and> project_granted d c (au_agent_id auth))\<rparr>)"

definition body_digest :: "ext \<Rightarrow> string \<Rightarrow> string" where
  "body_digest X body = hex_of (x_sha256 X body)"

definition require_accepted :: "access_info \<Rightarrow> unit res" where
  "require_accepted a = (if can_read_messages a then Inr ()
     else Inl (Forbidden ''you have been invited to this conversation and have not accepted''))"

definition readable :: "auth_ctx \<Rightarrow> uuid \<Rightarrow> cdb \<Rightarrow> access_info res" where
  "readable auth conversation d = bindE (access auth conversation d) (\<lambda>a.
     if can_read a then Inr a else Inl (NotFound ''no such conversation''))"

end
