(* ===== verification/Conversations.thy ===== *)
theory Conversations
  imports ConvSchema Contracts
begin

text \<open>
  \<^verbatim>\<open>src/src/store/conversations.rs\<close>, projects and seats: who may see a thread, who sits in it, and
  how a seat changes hands (creation, invitation, joining, leaving, removal, transfer).
  \<open>ConvMessages\<close> models what is said in it.

  A name that resolves two projects (one by id, one by name) takes the first row.
\<close>

section \<open>Projects\<close>

record project_info =
  pi_id :: uuid
  pi_name :: string
  pi_members :: "string list"
  pi_archived :: bool
  pi_created_at :: time

definition project_info_of :: "auth_ctx \<Rightarrow> uuid \<Rightarrow> cdb \<Rightarrow> project_info res" where
  "project_info_of auth i d =
     (case find (\<lambda>p. pj_id p = i \<and> pj_team_id p = au_team_id auth \<and> granted d (pj_id p) (au_agent_id auth)) (cd_projects d) of
        None \<Rightarrow> Inl (NotFound ''no such project, or you have no access to it'')
      | Some p \<Rightarrow> Inr \<lparr>pi_id = i, pi_name = pj_name p,
          pi_members = sort (List.map_filter (\<lambda>g. agent_name_of (cd_base d) (pa_agent_id g))
            (filter (\<lambda>g. pa_project_id g = i) (cd_grants d))),
          pi_archived = (pj_archived_at p \<noteq> None), pi_created_at = pj_created_at p\<rparr>)"

definition project_id_for :: "ext \<Rightarrow> auth_ctx \<Rightarrow> string \<Rightarrow> cdb \<Rightarrow> uuid res" where
  "project_id_for X auth project d =
     (let by_id = x_uuid_parse X project; name = to_lowercase (trim project) in
      ok_or (map_option pj_id (find (\<lambda>p. pj_team_id p = au_team_id auth \<and>
          (by_id = Some (pj_id p) \<or> pj_name p = name) \<and> granted d (pj_id p) (au_agent_id auth)) (cd_projects d)))
        (NotFound ''no project of that name you have access to''))"

text \<open>\<^verbatim>\<open>INSERT .. ON CONFLICT DO NOTHING\<close> of a grant.\<close>

definition add_grant :: "auth_ctx \<Rightarrow> uuid \<Rightarrow> uuid \<Rightarrow> cdb \<Rightarrow> cdb" where
  "add_grant auth project agent d = (if granted d project agent then d else
     d\<lparr>cd_grants := cd_grants d @ [\<lparr>pa_project_id = project, pa_agent_id = agent, pa_team_id = au_team_id auth,
         pa_granted_by = Some (au_agent_id auth)\<rparr>]\<rparr>)"

definition create_project :: "time \<Rightarrow> uuid \<Rightarrow> auth_ctx \<Rightarrow> string \<Rightarrow> cdb \<Rightarrow> cdb \<Rightarrow> project_info res \<times> cdb" where
  "create_project now new_id auth name d0 =
     after_checks
       (bindE (require_capability auth d0) (\<lambda>_.
        bindE (normalize_label name) (\<lambda>name.
          if name = [] then Inl (Invalid ''a project name is required'') else Inr name)))
       (\<lambda>name d. readback (project_info_of auth) (conv_guarded now auth (\<lambda>d.
          case find (\<lambda>p. pj_team_id p = au_team_id auth \<and> pj_name p = name) (cd_projects d) of
            Some p \<Rightarrow> Inr (pj_id p, d)
          | None \<Rightarrow>
              if exists_row (\<lambda>p. pj_id p = new_id) (cd_projects d) then Inl (Db ''duplicate key'')
              else Inr (new_id, conv_audit now auth None ''project.create'' (Some new_id)
                (add_grant auth new_id (au_agent_id auth) (d\<lparr>cd_projects := cd_projects d @
                   [\<lparr>pj_id = new_id, pj_team_id = au_team_id auth, pj_name = name, pj_created_at = now, pj_archived_at = None\<rparr>]\<rparr>)))) d))"

definition set_project_access ::
    "ext \<Rightarrow> time \<Rightarrow> auth_ctx \<Rightarrow> string \<Rightarrow> string \<Rightarrow> bool \<Rightarrow> cdb \<Rightarrow> cdb \<Rightarrow> project_info res \<times> cdb" where
  "set_project_access X now auth project agent grant d0 =
     after_checks
       (bindE (require_capability auth d0) (\<lambda>_.
        bindE (project_id_for X auth project d0) (\<lambda>project_id.
        bindE (agent_id_by_name (cd_base d0) (au_team_id auth) agent) (\<lambda>target. Inr (project_id, target)))))
       (\<lambda>(project_id, target) d. readback (project_info_of auth) (conv_guarded now auth (\<lambda>d.
          if \<not> granted d project_id (au_agent_id auth)
          then Inl (Forbidden ''your access to this project has been revoked'')
          else if grant
          then Inr (project_id, conv_audit now auth None ''project.grant'' (Some target) (add_grant auth project_id target d))
          else if target = au_agent_id auth then Inl (Invalid ''you cannot revoke your own access'')
          else Inr (project_id, conv_audit now auth None ''project.revoke'' (Some target)
            (d\<lparr>cd_grants := del_where (\<lambda>g. pa_project_id g = project_id \<and> pa_agent_id g = target) (cd_grants d)\<rparr>))) d))"

definition list_projects :: "auth_ctx \<Rightarrow> cdb \<Rightarrow> project_info list res" where
  "list_projects auth d = bindE (require_capability auth d) (\<lambda>_.
     traverse (\<lambda>p. project_info_of auth (pj_id p) d)
       (sort_key pj_name (filter (\<lambda>p. pj_team_id p = au_team_id auth \<and> granted d (pj_id p) (au_agent_id auth)) (cd_projects d))))"

section \<open>Threads\<close>

record membership_info =
  mi_membership_id :: uuid
  mi_agent :: string
  mi_session :: "string option"
  mi_address :: string
  mi_role :: seat_role
  mi_state :: seat_state
  mi_history_from_seq :: "int option"
  mi_invited_at :: time
  mi_accepted_at :: "time option"

record conversation_info =
  ci_id :: uuid
  ci_title :: string
  ci_visibility :: visibility
  ci_project :: "string option"
  ci_created_by :: string
  ci_created_at :: time
  ci_archived :: bool
  ci_last_seq :: int
  ci_membership :: "membership_info option"
  ci_members :: "membership_info list"

definition membership_info_of :: "cdb \<Rightarrow> seat_row \<Rightarrow> membership_info option" where
  "membership_info_of d m = map_option (\<lambda>agent.
     \<lparr>mi_membership_id = mb_id m, mi_agent = agent,
      mi_session = (if mb_session m = [] then None else Some (mb_session m)),
      mi_address = address_of agent (mb_session m), mi_role = mb_role m, mi_state = mb_state m,
      mi_history_from_seq = mb_history_from_seq m, mi_invited_at = mb_invited_at m, mi_accepted_at = mb_accepted_at m\<rparr>)
     (agent_name_of (cd_base d) (mb_agent_id m))"

definition members_of :: "uuid \<Rightarrow> cdb \<Rightarrow> membership_info list" where
  "members_of conversation d = sort_key (\<lambda>i. (mi_agent i, unwrap_or [] (mi_session i)))
     (List.map_filter (membership_info_of d) (filter (\<lambda>m. mb_conversation_id m = conversation) (cd_seats d)))"

definition conversation_info_of :: "auth_ctx \<Rightarrow> uuid \<Rightarrow> cdb \<Rightarrow> conversation_info res" where
  "conversation_info_of auth i d = bindE (readable auth i d) (\<lambda>a.
     bindE (ok_or (Option.bind (conversation_at d i) (\<lambda>c. map_option (\<lambda>creator. (c, creator))
             (agent_name_of (cd_base d) (cv_created_by c)))) (Db ''no rows'')) (\<lambda>(c, creator).
       let members = (if ac_membership a \<noteq> None then members_of i d else []);
           mine = Option.bind (ac_membership a) (\<lambda>m. find (\<lambda>info. mi_membership_id info = me_id m) members) in
       Inr \<lparr>ci_id = i, ci_title = cv_title c, ci_visibility = cv_visibility c,
            ci_project = Option.bind (cv_project_id c) (\<lambda>p. map_option pj_name (find (\<lambda>r. pj_id r = p) (cd_projects d))),
            ci_created_by = creator, ci_created_at = cv_created_at c, ci_archived = (cv_archived_at c \<noteq> None),
            ci_last_seq = cv_last_seq c, ci_membership = mine, ci_members = members\<rparr>))"

definition list_candidates :: "auth_ctx \<Rightarrow> bool \<Rightarrow> cdb \<Rightarrow> uuid list" where
  "list_candidates auth include_archived d = sort (remdups (map cv_id (filter (\<lambda>c.
     cv_team_id c = au_team_id auth \<and> (include_archived \<or> cv_archived_at c = None) \<and>
     (exists_row (\<lambda>m. my_seat auth (cv_id c) m \<and> mb_state m \<in> set [Invited, Active]) (cd_seats d) \<and>
        open_to d c (au_agent_id auth) \<or>
      cv_visibility c = VProject \<and> project_granted d c (au_agent_id auth))) (cd_conversations d))))"

fun list_conversations_among :: "auth_ctx \<Rightarrow> uuid list \<Rightarrow> cdb \<Rightarrow> conversation_info list res" where
  "list_conversations_among auth [] d = Inr []"
| "list_conversations_among auth (i # is) d = (case conversation_info_of auth i d of
      Inr info \<Rightarrow> bindE (list_conversations_among auth is d) (\<lambda>infos. Inr (info # infos))
    | Inl (NotFound _) \<Rightarrow> list_conversations_among auth is d
    | Inl (Forbidden _) \<Rightarrow> list_conversations_among auth is d
    | Inl e \<Rightarrow> Inl e)"

definition list_conversations :: "auth_ctx \<Rightarrow> bool \<Rightarrow> cdb \<Rightarrow> cdb \<Rightarrow> conversation_info list res" where
  "list_conversations auth include_archived d0 d = bindE (require_capability auth d0) (\<lambda>_.
     list_conversations_among auth (list_candidates auth include_archived d0) d)"

record create_conv_input =
  cc_title :: string
  cc_project :: "string option"
  cc_private :: bool
  cc_invite :: "string list"

definition conv_project :: "ext \<Rightarrow> auth_ctx \<Rightarrow> create_conv_input \<Rightarrow> cdb \<Rightarrow> uuid option res" where
  "conv_project X auth input d = (case (cc_project input, cc_private input) of
      (Some p, True) \<Rightarrow> Inl (Invalid ''a conversation is either private or visible to a project, not both'')
    | (Some p, False) \<Rightarrow> bindE (project_id_for X auth p d) (\<lambda>i. Inr (Some i))
    | (None, True) \<Rightarrow> Inr None
    | (None, False) \<Rightarrow> Inl (Invalid ''a project conversation needs a project''))"

definition resolve_address :: "auth_ctx \<Rightarrow> cdb \<Rightarrow> string \<Rightarrow> (uuid \<times> string) res" where
  "resolve_address auth d raw = bindE (parse_address raw) (\<lambda>(agent, session).
     bindE (agent_id_by_name (cd_base d) (au_team_id auth) agent) (\<lambda>i. Inr (i, coalesce_str session)))"

definition new_seat :: "time \<Rightarrow> uuid \<Rightarrow> auth_ctx \<Rightarrow> uuid \<Rightarrow> uuid \<Rightarrow> string \<Rightarrow> seat_role \<Rightarrow> int option \<Rightarrow> seat_row" where
  "new_seat now i auth conversation agent session role floor_seq =
     \<lparr>mb_id = i, mb_conversation_id = conversation, mb_agent_id = agent, mb_session = session, mb_session_id = None,
      mb_role = role, mb_state = Invited, mb_history_from_seq = floor_seq, mb_invited_by = Some (au_agent_id auth),
      mb_invited_at = now, mb_accepted_at = None, mb_ended_at = None, mb_superseded_by = None, mb_transfer_from = None\<rparr>"

definition insert_seat :: "seat_row \<Rightarrow> cdb \<Rightarrow> bus_error + cdb" where
  "insert_seat m d = (if exists_row (\<lambda>r. mb_id r = mb_id m) (cd_seats d) then Inl (Db ''duplicate key'')
     else Inr (d\<lparr>cd_seats := cd_seats d @ [m]\<rparr>))"

text \<open>\<^verbatim>\<open>INSERT .. ON CONFLICT (conversation_id, agent_id, session) DO UPDATE\<close>.\<close>

definition put_seat :: "seat_row \<Rightarrow> (seat_row \<Rightarrow> seat_row) \<Rightarrow> cdb \<Rightarrow> bus_error + cdb" where
  "put_seat new upd d =
     (let key = seat_key_is (mb_conversation_id new) (mb_agent_id new) (mb_session new) in
      if exists_row key (cd_seats d) then Inr (d\<lparr>cd_seats := upd_where key upd (cd_seats d)\<rparr>) else insert_seat new d)"

text \<open>\<open>fresh k\<close> is the \<open>k\<close>th id the statement draws.\<close>

fun invite_all :: "time \<Rightarrow> (nat \<Rightarrow> uuid) \<Rightarrow> nat \<Rightarrow> auth_ctx \<Rightarrow> uuid \<Rightarrow> (uuid \<times> string) list \<Rightarrow> cdb \<Rightarrow> bus_error + cdb" where
  "invite_all now fresh k auth conversation [] d = Inr d"
| "invite_all now fresh k auth conversation ((agent, session) # rest) d =
     bindE (if exists_row (seat_key_is conversation agent session) (cd_seats d) then Inr d
            else insert_seat (new_seat now (fresh k) auth conversation agent session Participant (Some 0)) d) (\<lambda>d.
       invite_all now fresh (Suc k) auth conversation rest (conv_audit now auth (Some conversation) ''member.invite'' (Some agent) d))"

definition new_thread :: "time \<Rightarrow> uuid \<Rightarrow> auth_ctx \<Rightarrow> string \<Rightarrow> uuid option \<Rightarrow> bool \<Rightarrow> conv_team \<Rightarrow> conversation_row" where
  "new_thread now i auth title project private t =
     \<lparr>cv_id = i, cv_team_id = au_team_id auth, cv_project_id = project,
      cv_visibility = (if private then VPrivate else VProject), cv_title = title,
      cv_created_by = au_agent_id auth, cv_created_session = au_session auth, cv_created_at = now,
      cv_archived_at = None, cv_last_seq = 0, cv_backend = ct_default_backend t,
      cv_publication = (if ct_default_backend t = ''postgres'' then Sync else ViaOutbox),
      cv_write_paused_at = None\<rparr>"

definition owner_seat :: "time \<Rightarrow> uuid \<Rightarrow> auth_ctx \<Rightarrow> uuid \<Rightarrow> seat_row" where
  "owner_seat now new_id auth i = (new_seat now new_id auth i (au_agent_id auth) (au_session auth) Owner None)
     \<lparr>mb_state := Active, mb_session_id := au_session_id auth, mb_accepted_at := Some now\<rparr>"

definition create_conversation_tx ::
    "time \<Rightarrow> uuid \<Rightarrow> (nat \<Rightarrow> uuid) \<Rightarrow> auth_ctx \<Rightarrow> string \<Rightarrow> uuid option \<Rightarrow> bool \<Rightarrow> (uuid \<times> string) list \<Rightarrow> uuid conv_tx" where
  "create_conversation_tx now i fresh auth title project private invites d =
     (if (case project of None \<Rightarrow> False | Some p \<Rightarrow> \<not> granted d p (au_agent_id auth))
      then Inl (Forbidden ''your access to this project has been revoked'')
      else bindE (ok_or (find (\<lambda>t. ct_id t = au_team_id auth) (cd_teams d)) (Db ''no rows'')) (\<lambda>t.
        if conversation_at d i \<noteq> None then Inl (Db ''duplicate key'')
        else
          bindE (insert_seat (owner_seat now (fresh 0) auth i)
            (d\<lparr>cd_conversations := cd_conversations d @ [new_thread now i auth title project private t]\<rparr>)) (\<lambda>d.
          bindE (invite_all now fresh 1 auth i invites d) (\<lambda>d.
            Inr (i, conv_audit now auth (Some i) ''conversation.create'' (Some i) d)))))"

definition create_conversation ::
    "ext \<Rightarrow> time \<Rightarrow> uuid \<Rightarrow> (nat \<Rightarrow> uuid) \<Rightarrow> auth_ctx \<Rightarrow> create_conv_input \<Rightarrow> cdb \<Rightarrow> cdb \<Rightarrow> conversation_info res \<times> cdb" where
  "create_conversation X now i fresh auth input d0 =
     after_checks
       (bindE (require_capability auth d0) (\<lambda>_.
        bindE (check_title (cc_title input)) (\<lambda>title.
        bindE (conv_project X auth input d0) (\<lambda>project.
        bindE (traverse (resolve_address auth d0) (cc_invite input)) (\<lambda>invites.
          if length invites > MAX_MEMBERS then Inl (Invalid ''a conversation holds at most 200 members'')
          else Inr (title, project, invites))))))
       (\<lambda>(title, project, invites) d. readback (conversation_info_of auth)
          (conv_guarded now auth (create_conversation_tx now i fresh auth title project (cc_private input) invites) d))"

definition archive_conversation :: "time \<Rightarrow> auth_ctx \<Rightarrow> uuid \<Rightarrow> cdb \<Rightarrow> cdb \<Rightarrow> conversation_info res \<times> cdb" where
  "archive_conversation now auth i d0 =
     after_checks
       (bindE (require_capability auth d0) (\<lambda>_.
        bindE (readable auth i d0) (\<lambda>a.
          if \<not> can_moderate a then Inl (Forbidden ''only an owner or moderator can archive it'') else Inr ())))
       (\<lambda>_ d. readback (\<lambda>_. conversation_info_of auth i) (conv_guarded now auth (\<lambda>d.
          bindE (require_project_open auth i d) (\<lambda>_.
            Inr ((), conv_audit now auth (Some i) ''conversation.archive'' (Some i)
              (d\<lparr>cd_conversations := upd_where (\<lambda>c. cv_id c = i \<and> cv_archived_at c = None)
                  (\<lambda>c. c\<lparr>cv_archived_at := Some now\<rparr>) (cd_conversations d)\<rparr>)))) d))"

section \<open>Seats\<close>

definition parse_role :: "string option \<Rightarrow> seat_role res" where
  "parse_role role = (case opt_filter (\<lambda>r. r \<noteq> []) (map_option trim role) of
      None \<Rightarrow> Inr Participant
    | Some r \<Rightarrow>
        let r = to_lowercase r in
        if r = ''moderator'' then Inr Moderator
        else if r = ''participant'' then Inr Participant
        else if r = ''observer'' then Inr Observer
        else Inl (Invalid ''role must be moderator, participant or observer''))"

definition ended :: "seat_row \<Rightarrow> bool" where
  "ended m \<longleftrightarrow> mb_state m \<in> set [Left, Removed]"

definition seated :: "seat_row \<Rightarrow> bool" where
  "seated m \<longleftrightarrow> mb_state m \<in> set [Invited, Active]"

text \<open>What an invitation makes of a seat that exists: a seat that had ended is offered again, unbound
  and with the history decided now; a seat that is taken keeps its state, its history and its binding.\<close>

definition offer_seat :: "time \<Rightarrow> auth_ctx \<Rightarrow> seat_role \<Rightarrow> int option \<Rightarrow> seat_row \<Rightarrow> seat_row" where
  "offer_seat now auth role from_seq m = m\<lparr>mb_role := role,
     mb_state := (if ended m then Invited else mb_state m),
     mb_history_from_seq := (if ended m then from_seq else mb_history_from_seq m),
     mb_session_id := (if ended m then None else mb_session_id m),
     mb_invited_by := Some (au_agent_id auth), mb_invited_at := now, mb_ended_at := None\<rparr>"

definition invite_tx ::
    "time \<Rightarrow> uuid \<Rightarrow> auth_ctx \<Rightarrow> uuid \<Rightarrow> uuid \<Rightarrow> string \<Rightarrow> seat_role \<Rightarrow> bool \<Rightarrow> unit conv_tx" where
  "invite_tx now new_id auth i agent session role history_from_start d =
     bindE (ok_or (conversation_at d i) (Db ''no rows'')) (\<lambda>c.
     bindE (require_project_open auth i d) (\<lambda>_.
     case find (seat_key_is i (au_agent_id auth) (au_session auth)) (cd_seats d) of
       None \<Rightarrow> Inl (Forbidden ''your seat in this conversation changed while you were inviting'')
     | Some inviter \<Rightarrow>
         if \<not> (mb_state inviter = Active \<and> mb_role inviter \<in> set [Owner, Moderator])
         then Inl (Forbidden ''your seat in this conversation changed while you were inviting'')
         else if count_rows (\<lambda>m. mb_conversation_id m = i) (cd_seats d) \<ge> MAX_MEMBERS
         then Inl (Conflict ''this conversation already holds 200 members'')
         else
           let seat = find (seat_key_is i agent session) (cd_seats d);
               readmitting = (map_option mb_state seat = Some Removed) in
           if (case seat of None \<Rightarrow> False
               | Some m \<Rightarrow> seated m \<and> mb_role m = Owner \<and> mb_role inviter \<noteq> Owner)
           then Inl (Forbidden ''only an owner can change or remove another owner'')
           else
             let from_seq = (if readmitting \<or> \<not> history_from_start then Some (cv_last_seq c)
                             else mb_history_from_seq inviter) in
             bindE (put_seat (new_seat now new_id auth i agent session role from_seq) (offer_seat now auth role from_seq) d) (\<lambda>d.
             Inr ((), conv_audit now auth (Some i) (if readmitting then ''member.readmit'' else ''member.invite'') (Some agent) d))))"

definition invite ::
    "time \<Rightarrow> uuid \<Rightarrow> auth_ctx \<Rightarrow> uuid \<Rightarrow> string \<Rightarrow> string option \<Rightarrow> bool \<Rightarrow> cdb \<Rightarrow> cdb \<Rightarrow> conversation_info res \<times> cdb" where
  "invite now new_id auth i address role history_from_start d0 =
     after_checks
       (bindE (require_capability auth d0) (\<lambda>_.
        bindE (readable auth i d0) (\<lambda>a.
          if \<not> can_moderate a then Inl (Forbidden ''only an owner or moderator can invite'')
          else if ac_archived a then Inl (Conflict ''this conversation is archived'')
          else bindE (parse_role role) (\<lambda>role.
            bindE (resolve_address auth d0 address) (\<lambda>(agent, session). Inr (role, agent, session))))))
       (\<lambda>(role, agent, session) d. readback (\<lambda>_. conversation_info_of auth i)
          (conv_guarded now auth (invite_tx now new_id auth i agent session role history_from_start) d))"

text \<open>The seat a transfer came from ends when its successor accepts; the proposal is spent.\<close>

definition supersede_predecessor :: "time \<Rightarrow> auth_ctx \<Rightarrow> uuid \<Rightarrow> uuid \<Rightarrow> cdb \<Rightarrow> cdb" where
  "supersede_predecessor now auth conversation new_membership d =
     (let from = Option.bind (find (\<lambda>n. mb_id n = new_membership) (cd_seats d)) mb_transfer_from;
          P = (\<lambda>p. from = Some (mb_id p) \<and> mb_conversation_id p = conversation \<and> mb_agent_id p = au_agent_id auth \<and>
                 mb_id p \<noteq> new_membership \<and> mb_state p = Active \<and> mb_superseded_by p = None) in
      d\<lparr>cd_seats := upd_where (\<lambda>m. mb_id m = new_membership) (\<lambda>m. m\<lparr>mb_transfer_from := None\<rparr>)
         (upd_where P (\<lambda>p. p\<lparr>mb_state := Left, mb_ended_at := Some now, mb_superseded_by := Some new_membership\<rparr>)
           (cd_seats d))\<rparr>)"

definition not_joined :: "access_info res \<Rightarrow> bus_error" where
  "not_joined r = (case r of
      Inl e \<Rightarrow> e
    | Inr a \<Rightarrow> (case map_option me_state (ac_membership a) of
        Some Active \<Rightarrow> Conflict ''you are already in this conversation''
      | Some Removed \<Rightarrow> Forbidden ''you were removed from this conversation''
      | _ \<Rightarrow> NotFound ''no invitation for this window''))"

definition join :: "time \<Rightarrow> auth_ctx \<Rightarrow> uuid \<Rightarrow> cdb \<Rightarrow> cdb \<Rightarrow> conversation_info res \<times> cdb" where
  "join now auth i d0 =
     after_checks
       (bindE (require_capability auth d0) (\<lambda>_. require_window auth (cd_base d0)))
       (\<lambda>_ d. readback (\<lambda>_. conversation_info_of auth i) (conv_guarded now auth (\<lambda>d.
          bindE (require_project_open auth i d) (\<lambda>_.
            let P = (\<lambda>m. seat_key_is i (au_agent_id auth) (au_session auth) m \<and> mb_state m = Invited) in
            case find P (cd_seats d) of
              None \<Rightarrow> Inl (not_joined (access auth i d))
            | Some m \<Rightarrow> Inr ((), conv_audit now auth (Some i) ''member.join'' None
                (supersede_predecessor now auth i (mb_id m)
                  (d\<lparr>cd_seats := upd_where P (\<lambda>m. m\<lparr>mb_state := Active, mb_accepted_at := Some now,
                     mb_session_id := au_session_id auth\<rparr>) (cd_seats d)\<rparr>))))) d))"

definition leave :: "time \<Rightarrow> auth_ctx \<Rightarrow> uuid \<Rightarrow> cdb \<Rightarrow> cdb \<Rightarrow> unit res \<times> cdb" where
  "leave now auth i d0 =
     after_checks (require_capability auth d0)
       (\<lambda>_. conv_guarded now auth (\<lambda>d.
          let P = (\<lambda>m. seat_key_is i (au_agent_id auth) (au_session auth) m \<and> seated m) in
          if \<not> exists_row P (cd_seats d) then Inl (NotFound ''you are not in this conversation'')
          else Inr ((), conv_audit now auth (Some i) ''member.leave'' None
            (d\<lparr>cd_seats := upd_where P (\<lambda>m. m\<lparr>mb_state := Left, mb_ended_at := Some now\<rparr>) (cd_seats d)\<rparr>))))"

definition remove_tx :: "time \<Rightarrow> auth_ctx \<Rightarrow> uuid \<Rightarrow> uuid \<Rightarrow> string \<Rightarrow> unit conv_tx" where
  "remove_tx now auth i agent session d =
     bindE (require_project_open auth i d) (\<lambda>_.
       let caller = find (seat_key_is i (au_agent_id auth) (au_session auth)) (cd_seats d);
           P = (\<lambda>m. seat_key_is i agent session m \<and> seated m) in
       if \<not> (case caller of None \<Rightarrow> False | Some m \<Rightarrow> mb_role m \<in> set [Owner, Moderator] \<and> mb_state m = Active)
       then Inl (Forbidden ''your seat in this conversation changed while you were removing a member'')
       else case find P (cd_seats d) of
         None \<Rightarrow> Inl (NotFound ''not in this conversation'')
       | Some m \<Rightarrow>
           if mb_role m = Owner \<and> map_option mb_role caller \<noteq> Some Owner
           then Inl (Forbidden ''only an owner can remove another owner'')
           else Inr ((), conv_audit now auth (Some i) ''member.remove'' (Some agent)
             (d\<lparr>cd_seats := upd_where P (\<lambda>m. m\<lparr>mb_state := Removed, mb_ended_at := Some now\<rparr>) (cd_seats d)\<rparr>)))"

definition remove_member :: "time \<Rightarrow> auth_ctx \<Rightarrow> uuid \<Rightarrow> string \<Rightarrow> cdb \<Rightarrow> cdb \<Rightarrow> conversation_info res \<times> cdb" where
  "remove_member now auth i address d0 =
     after_checks
       (bindE (require_capability auth d0) (\<lambda>_.
        bindE (readable auth i d0) (\<lambda>a.
          if \<not> can_moderate a then Inl (Forbidden ''only an owner or moderator can remove a member'')
          else bindE (resolve_address auth d0 address) (\<lambda>(agent, session).
            if agent = au_agent_id auth \<and> session = au_session auth
            then Inl (Invalid ''use leave_conversation to remove yourself'') else Inr (agent, session)))))
       (\<lambda>(agent, session) d. readback (\<lambda>_. conversation_info_of auth i)
          (conv_guarded now auth (remove_tx now auth i agent session) d))"

definition transfer_seat :: "time \<Rightarrow> seat_row \<Rightarrow> seat_row \<Rightarrow> seat_row" where
  "transfer_seat now source m = m\<lparr>mb_role := mb_role source, mb_state := Invited,
     mb_history_from_seq := mb_history_from_seq source, mb_transfer_from := Some (mb_id source),
     mb_session_id := None, mb_invited_at := now, mb_ended_at := None\<rparr>"

definition transfer_tx :: "time \<Rightarrow> uuid \<Rightarrow> auth_ctx \<Rightarrow> uuid \<Rightarrow> uuid \<Rightarrow> string \<Rightarrow> unit conv_tx" where
  "transfer_tx now new_id auth i mine session d =
     bindE (require_project_open auth i d) (\<lambda>_.
       case find (\<lambda>m. mb_id m = mine) (cd_seats d) of
         None \<Rightarrow> Inl (Conflict ''your membership of this conversation is no longer active'')
       | Some source \<Rightarrow>
           if mb_state source \<noteq> Active then Inl (Conflict ''your membership of this conversation is no longer active'')
           else
             case map_option mb_state (find (seat_key_is i (au_agent_id auth) session) (cd_seats d)) of
               Some Active \<Rightarrow> Inl (Conflict ''already in this conversation with a seat of its own'')
             | Some Invited \<Rightarrow> Inl (Conflict ''already holds an invitation to this conversation'')
             | Some Removed \<Rightarrow> Inl (Forbidden ''a transfer does not undo a removal'')
             | _ \<Rightarrow>
                 bindE (put_seat ((new_seat now new_id auth i (au_agent_id auth) session (mb_role source)
                     (mb_history_from_seq source))\<lparr>mb_transfer_from := Some mine\<rparr>) (transfer_seat now source) d) (\<lambda>d.
                 Inr ((), conv_audit now auth (Some i) ''member.transfer'' (Some (au_agent_id auth))
                   (d\<lparr>cd_seats := upd_where (\<lambda>m. mb_id m = mine) (\<lambda>m. m\<lparr>mb_superseded_by := None\<rparr>) (cd_seats d)\<rparr>))))"

record transfer_result =
  tr_conversation_id :: uuid
  tr_from_address :: string
  tr_to_address :: string

definition transfer_membership :: "time \<Rightarrow> uuid \<Rightarrow> auth_ctx \<Rightarrow> uuid \<Rightarrow> string \<Rightarrow> cdb \<Rightarrow> cdb \<Rightarrow> transfer_result res \<times> cdb" where
  "transfer_membership now new_id auth i to d0 =
     after_checks
       (bindE (require_capability auth d0) (\<lambda>_.
        bindE (readable auth i d0) (\<lambda>a.
          case opt_filter (\<lambda>m. me_state m = Active) (ac_membership a) of
            None \<Rightarrow> Inl (Forbidden ''you have no active membership in this conversation to transfer'')
          | Some mine \<Rightarrow> bindE (resolve_address auth d0 to) (\<lambda>(agent, session).
              if agent \<noteq> au_agent_id auth
              then Inl (Forbidden ''a membership can only be transferred to another window of the same agent'')
              else if session = au_session auth then Inl (Invalid ''that is the window you are calling from'')
              else Inr (me_id mine, session)))))
       (\<lambda>(mine, session) d. readback (\<lambda>_ _. Inr \<lparr>tr_conversation_id = i,
            tr_from_address = address_of (au_agent_name auth) (au_session auth), tr_to_address = to\<rparr>)
          (conv_guarded now auth (transfer_tx now new_id auth i mine session) d))"

end
