(* ===== verification/Outbox.thy ===== *)
theory Outbox
  imports ConvSchema Contracts
begin

text \<open>
  \<^verbatim>\<open>src/src/store/outbox.rs\<close> with the boundary of \<^verbatim>\<open>store/backend.rs\<close> and the references
  \<^verbatim>\<open>store/inbox.rs\<close> queues: a message that is accepted first and published by a worker later.

  A backend is the record of what the worker calls on it; the state of a broker is outside the
  database, so its functions are arguments. The Postgres backend is modelled as the code has it,
  without the faults only tests inject. Each statement of the worker is one step: a worker leases,
  publishes with nothing held, and settles, and other workers' steps may come in between.
  The JSON payload of a queued reference, which repeats columns, is left out.
\<close>

section \<open>Backends\<close>

datatype published = Confirmed string | Retryable string | Fatal string

record envelope =
  ev_message_id :: uuid
  ev_conversation_id :: uuid
  ev_team_id :: uuid
  ev_body :: string
  ev_publish_key :: uuid

record backend =
  bk_name :: string
  bk_publish :: "envelope \<Rightarrow> cdb \<Rightarrow> published \<times> cdb"
  bk_fetch :: "string \<Rightarrow> uuid \<Rightarrow> cdb \<Rightarrow> string option res"
  bk_reconcile :: "envelope \<Rightarrow> cdb \<Rightarrow> string option res \<times> cdb"

definition pg_publish :: "ext \<Rightarrow> envelope \<Rightarrow> cdb \<Rightarrow> published \<times> cdb" where
  "pg_publish X env d =
     (let locator = x_uuid_str X (ev_message_id env) in
      (Confirmed locator, d\<lparr>cd_messages := upd_where
         (\<lambda>m. cm_id m = ev_message_id env \<and> (cm_canonical_locator m = None \<or> cm_canonical_locator m = Some locator))
         (\<lambda>m. m\<lparr>cm_canonical_locator := Some locator\<rparr>) (cd_messages d)\<rparr>))"

definition pg_fetch :: "ext \<Rightarrow> uuid option \<Rightarrow> string \<Rightarrow> uuid \<Rightarrow> cdb \<Rightarrow> string option res" where
  "pg_fetch X team locator message_id d = (case x_uuid_parse X locator of
      None \<Rightarrow> Inl (Invalid ''not a locator this backend issued'')
    | Some i \<Rightarrow>
        if i \<noteq> message_id then Inl (Forbidden ''that locator names another message'')
        else Inr (map_option cm_body (find (\<lambda>m. cm_id m = i \<and>
          (case conversation_at d (cm_conversation_id m) of None \<Rightarrow> False
           | Some c \<Rightarrow> team = None \<or> team = Some (cv_team_id c))) (cd_messages d))))"

definition pg_reconcile :: "ext \<Rightarrow> envelope \<Rightarrow> cdb \<Rightarrow> string option res \<times> cdb" where
  "pg_reconcile X env d =
     (Inr (map_option (\<lambda>m. x_uuid_str X (cm_id m)) (find (\<lambda>m. cm_canonical_locator m \<noteq> None \<and>
        exists_row (\<lambda>sl. ob_message_id sl = cm_id m \<and> ob_publish_key sl = ev_publish_key env) (cd_outbox d)) (cd_messages d))), d)"

definition postgres_backend :: "ext \<Rightarrow> uuid option \<Rightarrow> backend" where
  "postgres_backend X team = \<lparr>bk_name = ''postgres'', bk_publish = pg_publish X, bk_fetch = pg_fetch X team,
     bk_reconcile = pg_reconcile X\<rparr>"

section \<open>References for recipients\<close>

definition recipient_key :: "ext \<Rightarrow> uuid \<Rightarrow> string \<Rightarrow> string" where
  "recipient_key X agent session =
     (let simple = filter (\<lambda>c. c \<noteq> CHR ''-'') (x_uuid_str X agent) in
      if session = [] then ''a'' @ simple else ''a'' @ simple @ ''_'' @ hex_of session)"

text \<open>\<^verbatim>\<open>INSERT .. ON CONFLICT (kind, message_id, recipient_key, dedup) DO NOTHING\<close>, row after row.\<close>

definition same_event :: "inbox_event_row \<Rightarrow> inbox_event_row \<Rightarrow> bool" where
  "same_event e r \<longleftrightarrow> ie_kind r = ie_kind e \<and> ie_message_id r = ie_message_id e \<and>
     ie_recipient_key r = ie_recipient_key e \<and> ie_dedup r = ie_dedup e"

fun insert_events :: "inbox_event_row list \<Rightarrow> cdb \<Rightarrow> bus_error + cdb" where
  "insert_events [] d = Inr d"
| "insert_events (e # es) d =
     (if exists_row (same_event e) (cd_events d) then insert_events es d
      else if exists_row (\<lambda>r. ie_id r = ie_id e) (cd_events d) then Inl (Db ''duplicate key'')
      else insert_events es (d\<lparr>cd_events := cd_events d @ [e]\<rparr>))"

definition new_event ::
    "time \<Rightarrow> uuid \<Rightarrow> uuid \<Rightarrow> string \<Rightarrow> event_kind \<Rightarrow> uuid \<Rightarrow> uuid option \<Rightarrow> string \<Rightarrow> inbox_event_row" where
  "new_event now i team key kind message membership dedup =
     \<lparr>ie_id = i, ie_team_id = team, ie_recipient_key = key, ie_kind = kind, ie_message_id = message,
      ie_membership_id = membership, ie_state = EvPending, ie_attempts = 0, ie_last_error = None,
      ie_next_attempt_at = now, ie_created_at = now, ie_dedup = dedup\<rparr>"

definition seat_of_recipient :: "cdb \<Rightarrow> recipient_row \<Rightarrow> seat_row option" where
  "seat_of_recipient d r = find (\<lambda>m. mb_id m = rp_membership_id r) (cd_seats d)"

definition message_with_thread :: "cdb \<Rightarrow> uuid \<Rightarrow> (conv_message_row \<times> conversation_row) option" where
  "message_with_thread d message_id = Option.bind (find (\<lambda>m. cm_id m = message_id) (cd_messages d)) (\<lambda>m.
     map_option (\<lambda>c. (m, c)) (conversation_at d (cm_conversation_id m)))"

definition enqueue_message_references :: "ext \<Rightarrow> time \<Rightarrow> (nat \<Rightarrow> uuid) \<Rightarrow> uuid \<Rightarrow> cdb \<Rightarrow> bus_error + cdb" where
  "enqueue_message_references X now fresh message_id d = (case message_with_thread d message_id of
      None \<Rightarrow> Inr d
    | Some (msg, c) \<Rightarrow>
        if agent_name_of (cd_base d) (cm_sender_agent msg) = None then Inr d
        else insert_events (map (\<lambda>(k, m). new_event now (fresh k) (cv_team_id c)
            (recipient_key X (mb_agent_id m) (mb_session m)) KMessage (cm_id msg) (Some (mb_id m)) [])
          (enumerate 0 (filter (\<lambda>m. agent_name_of (cd_base d) (mb_agent_id m) \<noteq> None)
            (List.map_filter (seat_of_recipient d) (filter (\<lambda>r. rp_message_id r = message_id) (cd_recipients d)))))) d)"

definition enqueue_receipt_reference ::
    "ext \<Rightarrow> time \<Rightarrow> uuid \<Rightarrow> uuid \<Rightarrow> uuid \<Rightarrow> string \<Rightarrow> cdb \<Rightarrow> bus_error + cdb" where
  "enqueue_receipt_reference X now new_id message_id membership_id observation d =
     (case message_with_thread d message_id of
        None \<Rightarrow> Inr d
      | Some (msg, c) \<Rightarrow>
          if cv_backend c = ''postgres'' \<or> agent_name_of (cd_base d) (cm_sender_agent msg) = None then Inr d
          else insert_events [new_event now new_id (cv_team_id c)
            (recipient_key X (cm_sender_agent msg) (cm_sender_session msg)) KReceipt (cm_id msg) (Some membership_id)
            (x_uuid_str X membership_id @ '':'' @ observation)] d)"

section \<open>Slots\<close>

definition LEASE_SECS :: int where "LEASE_SECS = 60"
definition MAX_ATTEMPTS :: int where "MAX_ATTEMPTS = 8"
definition MAX_PAYLOAD_BYTES :: int where "MAX_PAYLOAD_BYTES = 1024 * 1024"

record slot_lease =
  le_message_id :: uuid
  le_conversation_id :: uuid
  le_team_id :: uuid
  le_backend :: string
  le_payload :: string
  le_publish_key :: uuid
  le_generation :: int
  le_attempts :: int

definition lease_of :: "outbox_row \<Rightarrow> slot_lease" where
  "lease_of sl = \<lparr>le_message_id = ob_message_id sl, le_conversation_id = ob_conversation_id sl, le_team_id = ob_team_id sl,
     le_backend = ob_backend sl, le_payload = ob_payload sl, le_publish_key = ob_publish_key sl,
     le_generation = ob_generation sl, le_attempts = ob_attempts sl\<rparr>"

definition enqueue :: "time \<Rightarrow> uuid \<Rightarrow> uuid \<Rightarrow> uuid \<Rightarrow> uuid \<Rightarrow> string \<Rightarrow> string \<Rightarrow> cdb \<Rightarrow> bus_error + cdb" where
  "enqueue now key message_id conversation_id team_id backend payload d =
     (let bytes = min (int (length payload)) i32_max in
      if bytes > MAX_PAYLOAD_BYTES then Inl (Invalid ''the outbox holds at most a megabyte'')
      else
        let d = (if exists_row (\<lambda>sl. ob_message_id sl = message_id) (cd_outbox d) then d
                 else d\<lparr>cd_outbox := cd_outbox d @
                   [\<lparr>ob_message_id = message_id, ob_conversation_id = conversation_id, ob_team_id = team_id,
                     ob_backend = backend, ob_payload = payload, ob_payload_bytes = bytes, ob_publish_key = key,
                     ob_state = Pending, ob_attempts = 0, ob_generation = 0, ob_leased_by = None,
                     ob_lease_expires_at = None, ob_next_attempt_at = now, ob_last_error = None,
                     ob_created_at = now, ob_updated_at = now\<rparr>]\<rparr>) in
        Inr (d\<lparr>cd_messages := upd_where (\<lambda>m. cm_id m = message_id)
               (\<lambda>m. m\<lparr>cm_publication_state := PendingPublication\<rparr>) (cd_messages d)\<rparr>))"

definition lease_free :: "time \<Rightarrow> outbox_row \<Rightarrow> bool" where
  "lease_free now sl \<longleftrightarrow> ob_state sl \<in> set [Pending, Leased] \<and>
     (case ob_lease_expires_at sl of None \<Rightarrow> True | Some e \<Rightarrow> e < now)"

definition due :: "time \<Rightarrow> outbox_row \<Rightarrow> bool" where
  "due now sl \<longleftrightarrow> lease_free now sl \<and> ob_next_attempt_at sl \<le> now"

definition take_lease :: "time \<Rightarrow> string \<Rightarrow> int \<Rightarrow> outbox_row \<Rightarrow> outbox_row" where
  "take_lease now worker attempt sl = sl\<lparr>ob_state := Leased, ob_leased_by := Some worker,
     ob_lease_expires_at := Some (now + secs LEASE_SECS), ob_generation := ob_generation sl + 1,
     ob_attempts := ob_attempts sl + attempt, ob_updated_at := now\<rparr>"

definition slot_is :: "uuid \<Rightarrow> outbox_row \<Rightarrow> bool" where
  "slot_is message_id sl \<longleftrightarrow> ob_message_id sl = message_id"

definition lease_next :: "time \<Rightarrow> string \<Rightarrow> cdb \<Rightarrow> slot_lease option \<times> cdb" where
  "lease_next now worker d =
     (case fetch_optional (sort_key (\<lambda>sl. (ob_next_attempt_at sl, ob_created_at sl)) (filter (due now) (cd_outbox d))) of
        None \<Rightarrow> (None, d)
      | Some sl \<Rightarrow> (Some (lease_of (take_lease now worker 1 sl)),
          d\<lparr>cd_outbox := upd_where (slot_is (ob_message_id sl)) (take_lease now worker 1) (cd_outbox d)\<rparr>))"

definition lease_one :: "time \<Rightarrow> string \<Rightarrow> uuid \<Rightarrow> cdb \<Rightarrow> slot_lease option \<times> cdb" where
  "lease_one now worker message_id d =
     (let P = (\<lambda>sl. slot_is message_id sl \<and> lease_free now sl) in
      case find P (cd_outbox d) of
        None \<Rightarrow> (None, d)
      | Some sl \<Rightarrow> (Some (lease_of (take_lease now worker 0 sl)),
          d\<lparr>cd_outbox := upd_where P (take_lease now worker 0) (cd_outbox d)\<rparr>))"

section \<open>Settling\<close>

datatype settled = SettledStored | Retrying int | SettledFailed | Fenced

text \<open>The fence: the generation the lease was taken at, and a lease that has not run out.\<close>

definition same_lease :: "slot_lease \<Rightarrow> outbox_row \<Rightarrow> bool" where
  "same_lease l sl \<longleftrightarrow> ob_message_id sl = le_message_id l \<and> ob_generation sl = le_generation l"

definition holds_slot :: "time \<Rightarrow> slot_lease \<Rightarrow> outbox_row \<Rightarrow> bool" where
  "holds_slot now l sl \<longleftrightarrow> same_lease l sl \<and>
     (case ob_lease_expires_at sl of None \<Rightarrow> False | Some e \<Rightarrow> e > now)"

definition mark_failed :: "uuid \<Rightarrow> cdb \<Rightarrow> cdb" where
  "mark_failed message_id d = d\<lparr>cd_messages := upd_where (\<lambda>m. cm_id m = message_id)
     (\<lambda>m. m\<lparr>cm_publication_state := PublicationFailed\<rparr>) (cd_messages d)\<rparr>"

definition backoff_secs :: "int \<Rightarrow> int" where
  "backoff_secs attempts = 2 ^ nat (min attempts 6)"

definition settle :: "ext \<Rightarrow> time \<Rightarrow> (nat \<Rightarrow> uuid) \<Rightarrow> slot_lease \<Rightarrow> published \<Rightarrow> settled conv_tx" where
  "settle X now fresh l outcome d =
     (if \<not> exists_row (holds_slot now l) (cd_outbox d) then Inr (Fenced, d)
      else case outcome of
        Confirmed locator \<Rightarrow>
          let d = d\<lparr>cd_outbox := del_where (holds_slot now l) (cd_outbox d),
                    cd_messages := upd_where (\<lambda>m. cm_id m = le_message_id l)
                      (\<lambda>m. m\<lparr>cm_publication_state := Stored, cm_canonical_locator := Some locator\<rparr>) (cd_messages d),
                    cd_receipts := upd_where (\<lambda>r. rr_message_id r = le_message_id l)
                      (\<lambda>r. r\<lparr>rr_stored_at := Some (unwrap_or now (rr_stored_at r))\<rparr>) (cd_receipts d)\<rparr> in
          bindE (enqueue_message_references X now fresh (le_message_id l) d) (\<lambda>d. Inr (SettledStored, d))
      | Retryable why \<Rightarrow>
          let give_up = (le_attempts l \<ge> MAX_ATTEMPTS);
              d = d\<lparr>cd_outbox := upd_where (holds_slot now l) (\<lambda>sl. sl\<lparr>
                  ob_state := (if give_up then SlotFailed else Pending), ob_leased_by := None, ob_lease_expires_at := None,
                  ob_next_attempt_at := now + secs (backoff_secs (le_attempts l)), ob_last_error := Some why,
                  ob_updated_at := now\<rparr>) (cd_outbox d)\<rparr> in
          if give_up then Inr (SettledFailed, mark_failed (le_message_id l) d)
          else Inr (Retrying (le_attempts l), d)
      | Fatal why \<Rightarrow>
          Inr (SettledFailed, mark_failed (le_message_id l) (d\<lparr>cd_outbox := upd_where (holds_slot now l) (\<lambda>sl. sl\<lparr>
             ob_state := SlotFailed, ob_leased_by := None, ob_lease_expires_at := None, ob_last_error := Some why,
             ob_updated_at := now\<rparr>) (cd_outbox d)\<rparr>)))"

definition envelope_of :: "slot_lease \<Rightarrow> envelope" where
  "envelope_of l = \<lparr>ev_message_id = le_message_id l, ev_conversation_id = le_conversation_id l, ev_team_id = le_team_id l,
     ev_body = le_payload l, ev_publish_key = le_publish_key l\<rparr>"

definition reconcile :: "ext \<Rightarrow> time \<Rightarrow> (nat \<Rightarrow> uuid) \<Rightarrow> backend \<Rightarrow> slot_lease \<Rightarrow> cdb \<Rightarrow> settled res \<times> cdb" where
  "reconcile X now fresh B l d =
     (let (found, d) = bk_reconcile B (envelope_of l) d in
      case found of
        Inl e \<Rightarrow> (Inl e, d)
      | Inr (Some locator) \<Rightarrow> transact (settle X now fresh l (Confirmed locator)) d
      | Inr None \<Rightarrow> transact (settle X now fresh l (Retryable ''the backend holds nothing for this key'')) d)"

definition publish_leased :: "ext \<Rightarrow> time \<Rightarrow> (nat \<Rightarrow> uuid) \<Rightarrow> backend \<Rightarrow> slot_lease \<Rightarrow> cdb \<Rightarrow> settled res \<times> cdb" where
  "publish_leased X now fresh B l d =
     (let (outcome, d) = bk_publish B (envelope_of l) d in
      case outcome of
        Retryable _ \<Rightarrow>
          if le_attempts l \<ge> MAX_ATTEMPTS
          then let (found, d) = bk_reconcile B (envelope_of l) d in
            (case found of
               Inl e \<Rightarrow> (Inl e, d)
             | Inr (Some locator) \<Rightarrow> transact (settle X now fresh l (Confirmed locator)) d
             | Inr None \<Rightarrow> transact (settle X now fresh l outcome) d)
          else transact (settle X now fresh l outcome) d
      | _ \<Rightarrow> transact (settle X now fresh l outcome) d)"

definition release_slot :: "time \<Rightarrow> slot_lease \<Rightarrow> string \<Rightarrow> cdb \<Rightarrow> cdb" where
  "release_slot now l why d = d\<lparr>cd_outbox := upd_where (same_lease l) (\<lambda>sl. sl\<lparr>ob_state := Pending, ob_leased_by := None,
     ob_lease_expires_at := None, ob_attempts := max (ob_attempts sl - 1) 0, ob_last_error := Some why,
     ob_updated_at := now\<rparr>) (cd_outbox d)\<rparr>"

definition unlease :: "time \<Rightarrow> slot_lease \<Rightarrow> cdb \<Rightarrow> cdb" where
  "unlease now l d = d\<lparr>cd_outbox := upd_where (same_lease l) (\<lambda>sl. sl\<lparr>ob_state := Pending, ob_leased_by := None,
     ob_lease_expires_at := None, ob_updated_at := now\<rparr>) (cd_outbox d)\<rparr>"

definition run_once :: "ext \<Rightarrow> time \<Rightarrow> (nat \<Rightarrow> uuid) \<Rightarrow> backend \<Rightarrow> string \<Rightarrow> cdb \<Rightarrow> settled option res \<times> cdb" where
  "run_once X now fresh B worker d = (case lease_next now worker d of
      (None, d) \<Rightarrow> (Inr None, d)
    | (Some l, d) \<Rightarrow>
        if le_backend l \<noteq> bk_name B
        then (Inr (Some Fenced), release_slot now l ''leased by a worker for another backend'' d)
        else let (r, d) = publish_leased X now fresh B l d in (bindE r (\<lambda>s. Inr (Some s)), d))"

definition mark_uncertain :: "time \<Rightarrow> slot_lease \<Rightarrow> string \<Rightarrow> cdb \<Rightarrow> settled \<times> cdb" where
  "mark_uncertain now l why d =
     (if \<not> exists_row (same_lease l) (cd_outbox d) then (Fenced, d)
      else (Retrying (le_attempts l), d\<lparr>
        cd_outbox := upd_where (same_lease l) (\<lambda>sl. sl\<lparr>ob_state := Pending, ob_leased_by := None, ob_lease_expires_at := None,
          ob_next_attempt_at := now + secs 5, ob_last_error := Some why, ob_updated_at := now\<rparr>) (cd_outbox d),
        cd_messages := upd_where (\<lambda>m. cm_id m = le_message_id l)
          (\<lambda>m. m\<lparr>cm_uncertain_at := Some (unwrap_or now (cm_uncertain_at m))\<rparr>) (cd_messages d)\<rparr>))"

record outbox_status =
  os_pending :: nat
  os_leased :: nat
  os_failed :: nat
  os_oldest_pending_seconds :: "int option"
  os_pending_bytes :: int

definition outbox_status_of :: "time \<Rightarrow> uuid \<Rightarrow> cdb \<Rightarrow> outbox_status" where
  "outbox_status_of now team d =
     (let slots = filter (\<lambda>sl. ob_team_id sl = team) (cd_outbox d);
          unsettled = filter (\<lambda>sl. ob_state sl \<noteq> SlotFailed) slots in
      \<lparr>os_pending = count_rows (\<lambda>sl. ob_state sl = Pending) slots, os_leased = count_rows (\<lambda>sl. ob_state sl = Leased) slots,
       os_failed = count_rows (\<lambda>sl. ob_state sl = SlotFailed) slots,
       os_oldest_pending_seconds = map_option (\<lambda>sl. (now - ob_created_at sl + 500000) div 1000000)
         (fetch_optional (sort_key ob_created_at unsettled)),
       os_pending_bytes = sum_list (map ob_payload_bytes unsettled)\<rparr>)"

definition set_publication :: "uuid \<Rightarrow> bool \<Rightarrow> unit conv_tx" where
  "set_publication conversation_id outbox d =
     (if conversation_at d conversation_id = None then Inl (Db ''no rows'')
      else if \<not> outbox \<and> exists_row (\<lambda>sl. ob_conversation_id sl = conversation_id \<and> ob_state sl \<noteq> SlotFailed) (cd_outbox d)
      then Inl (Conflict ''messages of this conversation are still awaiting publication'')
      else Inr ((), d\<lparr>cd_conversations := upd_where (\<lambda>c. cv_id c = conversation_id)
        (\<lambda>c. c\<lparr>cv_publication := (if outbox then ViaOutbox else Sync)\<rparr>) (cd_conversations d)\<rparr>))"

definition tombstone :: "time \<Rightarrow> uuid \<Rightarrow> string \<Rightarrow> cdb \<Rightarrow> cdb" where
  "tombstone now message_id reason d = d\<lparr>cd_messages := upd_where (\<lambda>m. cm_id m = message_id)
     (\<lambda>m. m\<lparr>cm_tombstoned_at := Some (unwrap_or now (cm_tombstoned_at m)), cm_tombstone_reason := Some reason\<rparr>) (cd_messages d)\<rparr>"

section \<open>Reconciling and releasing\<close>

fun resolve_slots ::
    "ext \<Rightarrow> time \<Rightarrow> (nat \<Rightarrow> uuid) \<Rightarrow> backend \<Rightarrow> (uuid \<times> string) list \<Rightarrow> nat \<Rightarrow> cdb \<Rightarrow> nat res \<times> cdb" where
  "resolve_slots X now fresh B [] n d = (Inr n, d)"
| "resolve_slots X now fresh B ((message_id, slot_backend) # rows) n d =
     (if slot_backend \<noteq> bk_name B then resolve_slots X now fresh B rows n d
      else case lease_one now ''reconciler'' message_id d of
        (None, d) \<Rightarrow> resolve_slots X now fresh B rows n d
      | (Some l, d) \<Rightarrow>
          (case bk_reconcile B (envelope_of l) d of
             (Inl e, d) \<Rightarrow> (Inl e, unlease now l d)
           | (Inr None, d) \<Rightarrow> resolve_slots X now fresh B rows n (unlease now l d)
           | (Inr (Some locator), d) \<Rightarrow>
               (case transact (settle X now fresh l (Confirmed locator)) d of
                  (Inl e, d) \<Rightarrow> (Inl e, d)
                | (Inr s, d) \<Rightarrow> resolve_slots X now fresh B rows (if s = SettledStored then Suc n else n) d)))"

definition uncertain_slots :: "uuid \<Rightarrow> cdb \<Rightarrow> (uuid \<times> string) list" where
  "uncertain_slots team d = map (\<lambda>sl. (ob_message_id sl, ob_backend sl)) (filter (\<lambda>sl. ob_team_id sl = team \<and>
     ob_state sl \<noteq> SlotFailed \<and> exists_row (\<lambda>m. cm_id m = ob_message_id sl \<and> cm_uncertain_at m \<noteq> None) (cd_messages d)) (cd_outbox d))"

definition forget_uncertain :: "uuid \<Rightarrow> cdb \<Rightarrow> cdb" where
  "forget_uncertain team d = d\<lparr>cd_messages := upd_where (\<lambda>m. cm_uncertain_at m \<noteq> None \<and> cm_publication_state m = Stored \<and>
       (case conversation_at d (cm_conversation_id m) of None \<Rightarrow> False | Some c \<Rightarrow> cv_team_id c = team))
     (\<lambda>m. m\<lparr>cm_uncertain_at := None\<rparr>) (cd_messages d)\<rparr>"

definition resolve_uncertain :: "ext \<Rightarrow> time \<Rightarrow> (nat \<Rightarrow> uuid) \<Rightarrow> backend \<Rightarrow> uuid \<Rightarrow> cdb \<Rightarrow> nat res \<times> cdb" where
  "resolve_uncertain X now fresh B team d =
     (case resolve_slots X now fresh B (uncertain_slots team d) 0 d of
        (Inl e, d) \<Rightarrow> (Inl e, d)
      | (Inr n, d) \<Rightarrow> (Inr n, forget_uncertain team d))"

definition RELEASE_BATCH :: nat where "RELEASE_BATCH = 200"
definition SCAN_LIMIT :: nat where "SCAN_LIMIT = 1000"

definition on_broker :: "cdb \<Rightarrow> conv_message_row \<Rightarrow> bool" where
  "on_broker d m \<longleftrightarrow> (case conversation_at d (cm_conversation_id m) of None \<Rightarrow> False | Some c \<Rightarrow> cv_backend c \<noteq> ''postgres'') \<and>
     cm_publication_state m = Stored \<and> cm_canonical_locator m \<noteq> None \<and> cm_body m \<noteq> [] \<and> cm_id m \<notin> set (cd_moving d)"

definition release_candidates :: "time \<Rightarrow> uuid option \<Rightarrow> int \<Rightarrow> cdb \<Rightarrow> conv_message_row list" where
  "release_candidates now conversation min_age_secs d = sort_key (\<lambda>m. (cm_created_at m, cm_id m)) (filter (\<lambda>m.
     (conversation = None \<or> conversation = Some (cm_conversation_id m)) \<and> on_broker d m \<and> cm_body_sha256 m \<noteq> None \<and>
     cm_created_at m \<le> now - secs min_age_secs) (cd_messages d))"

text \<open>The pages of the scan read one unchanging candidate list, so the scan is a walk over it. A backend
  that cannot be opened or fails is skipped for its team from then on.\<close>

fun scan_bodies ::
    "ext \<Rightarrow> (string \<Rightarrow> uuid \<Rightarrow> backend res) \<Rightarrow> cdb \<Rightarrow> conv_message_row list \<Rightarrow> nat \<Rightarrow> (string \<times> uuid) list \<Rightarrow> uuid list \<Rightarrow> uuid list" where
  "scan_bodies X Bs d [] examined unusable confirmed = confirmed"
| "scan_bodies X Bs d (m # ms) examined unusable confirmed =
     (if examined \<ge> SCAN_LIMIT \<or> length confirmed \<ge> RELEASE_BATCH then confirmed
      else case conversation_at d (cm_conversation_id m) of
        None \<Rightarrow> scan_bodies X Bs d ms (Suc examined) unusable confirmed
      | Some c \<Rightarrow>
          if (cv_backend c, cv_team_id c) \<in> set unusable then scan_bodies X Bs d ms (Suc examined) unusable confirmed
          else case Bs (cv_backend c) (cv_team_id c) of
            Inl e \<Rightarrow> scan_bodies X Bs d ms (Suc examined) ((cv_backend c, cv_team_id c) # unusable) confirmed
          | Inr B \<Rightarrow>
              (case bk_fetch B (unwrap_or [] (cm_canonical_locator m)) (cm_id m) d of
                 Inl e \<Rightarrow> scan_bodies X Bs d ms (Suc examined) ((cv_backend c, cv_team_id c) # unusable) confirmed
               | Inr (Some body) \<Rightarrow> scan_bodies X Bs d ms (Suc examined) unusable
                   (if Some (body_digest X body) = cm_body_sha256 m then confirmed @ [cm_id m] else confirmed)
               | Inr None \<Rightarrow> scan_bodies X Bs d ms (Suc examined) unusable confirmed))"

definition clear_bodies :: "uuid list \<Rightarrow> cdb \<Rightarrow> cdb" where
  "clear_bodies confirmed d = d\<lparr>cd_messages := upd_where (\<lambda>m. cm_id m \<in> set confirmed \<and> on_broker d m)
     (\<lambda>m. m\<lparr>cm_body := []\<rparr>) (cd_messages d)\<rparr>"

text \<open>The scan reads \<open>d0\<close> and talks to the brokers; the clearing statement runs on \<open>d\<close>.\<close>

definition release_published_bodies ::
    "ext \<Rightarrow> time \<Rightarrow> (string \<Rightarrow> uuid \<Rightarrow> backend res) \<Rightarrow> bool option \<Rightarrow> uuid option \<Rightarrow> int \<Rightarrow> cdb \<Rightarrow> cdb \<Rightarrow> cdb" where
  "release_published_bodies X now Bs reachable conversation min_age_secs d0 d =
     (if reachable \<noteq> Some True then d
      else clear_bodies (scan_bodies X Bs d0 (release_candidates now conversation min_age_secs d0) 0 [] []) d)"

end
