(* ===== verification/ConvMessages.thy ===== *)
theory ConvMessages
  imports Conversations Outbox
begin

text \<open>
  \<^verbatim>\<open>src/src/store/conversations.rs\<close>, messages: sending with a recipient snapshot and an idempotency
  key, bodies that may live on another backend, reading from a history boundary, acknowledging,
  receipts, and the owner's read-only recovery.

  \<open>Bs\<close> is \<^verbatim>\<open>Backends::for_message\<close>: the handle for a backend by name and team, or why it cannot be
  opened. A read is split where the code reads twice: the page on \<open>d0\<close>, the second access check and
  the bodies on \<open>d\<close>.
\<close>

section \<open>Sending\<close>

record send_input =
  sn_body :: string
  sn_request_id :: uuid
  sn_reply_to :: "uuid option"
  sn_metadata :: "json option"

record sent_message =
  st_message_id :: uuid
  st_conversation_id :: uuid
  st_seq :: int
  st_stored :: bool
  st_publication :: publication_state
  st_recipients :: "string list"
  st_created_at :: time

definition recipients_of :: "uuid \<Rightarrow> cdb \<Rightarrow> string list" where
  "recipients_of message_id d = map (\<lambda>(agent, session). address_of agent session) (sort
     (List.map_filter (\<lambda>r. map_option (\<lambda>n. (n, rp_session r)) (agent_name_of (cd_base d) (rp_agent_id r)))
       (filter (\<lambda>r. rp_message_id r = message_id) (cd_recipients d))))"

definition send_checks :: "ext \<Rightarrow> auth_ctx \<Rightarrow> uuid \<Rightarrow> send_input \<Rightarrow> cdb \<Rightarrow> (string \<times> json) res" where
  "send_checks X auth i input d =
     bindE (require_capability auth d) (\<lambda>_.
     bindE (readable auth i d) (\<lambda>a.
       if \<not> can_send a then Inl (Forbidden ''you cannot post in this conversation'')
       else if ac_archived a then Inl (Conflict ''this conversation is archived'')
       else bindE (check_text (sn_body input) MAX_CONV_BODY_BYTES) (\<lambda>body.
         if body = [] then Inl (Invalid ''a message body is required'')
         else
           let metadata = normalize_metadata X (sn_metadata input) in
           bindE (check_metadata X metadata) (\<lambda>_. Inr (body, unwrap_or (JObj []) metadata)))))"

definition may_send :: "seat_row \<Rightarrow> bool" where
  "may_send m \<longleftrightarrow> mb_state m = Active \<and> mb_role m \<in> set [Owner, Moderator, Participant]"

text \<open>Everyone active except the sender, and in a project thread only those who still have the project.\<close>

definition addressed :: "auth_ctx \<Rightarrow> conversation_row \<Rightarrow> cdb \<Rightarrow> seat_row \<Rightarrow> bool" where
  "addressed auth c d m \<longleftrightarrow> mb_conversation_id m = cv_id c \<and> mb_state m = Active \<and>
     \<not> (mb_agent_id m = au_agent_id auth \<and> mb_session m = au_session auth) \<and> open_to d c (mb_agent_id m)"

definition snapshot_recipients :: "auth_ctx \<Rightarrow> conversation_row \<Rightarrow> uuid \<Rightarrow> cdb \<Rightarrow> recipient_row list" where
  "snapshot_recipients auth c message_id d =
     map (\<lambda>m. \<lparr>rp_message_id = message_id, rp_membership_id = mb_id m, rp_agent_id = mb_agent_id m, rp_session = mb_session m\<rparr>)
       (filter (addressed auth c d) (cd_seats d))"

definition new_receipt :: "time option \<Rightarrow> recipient_row \<Rightarrow> receipt_row" where
  "new_receipt stored r = \<lparr>rr_message_id = rp_message_id r, rr_membership_id = rp_membership_id r, rr_stored_at = stored,
     rr_delivered_at = None, rr_presented_at = None, rr_acknowledged_at = None, rr_resolved_at = None, rr_note = None\<rparr>"

text \<open>The writes of a new message, past every check: sequence, row, snapshot, receipts, and the slot when
  the thread publishes through the outbox.\<close>

definition store_message ::
    "ext \<Rightarrow> time \<Rightarrow> uuid \<Rightarrow> uuid \<Rightarrow> auth_ctx \<Rightarrow> conversation_row \<Rightarrow> send_input \<Rightarrow> string \<Rightarrow> json \<Rightarrow> cdb \<Rightarrow> bus_error + cdb" where
  "store_message X now new_id key auth c input body metadata d =
     (let i = cv_id c; seq = cv_last_seq c + 1; asynchronous = (cv_publication c = ViaOutbox);
          msg = \<lparr>cm_id = new_id, cm_conversation_id = i, cm_seq = seq, cm_sender_agent = au_agent_id auth,
                 cm_sender_session = au_session auth, cm_body = body, cm_reply_to = sn_reply_to input, cm_metadata = metadata,
                 cm_request_id = sn_request_id input, cm_created_at = now, cm_deleted_at = None,
                 cm_publication_state = Stored, cm_canonical_locator = None, cm_uncertain_at = None,
                 cm_tombstoned_at = None, cm_tombstone_reason = None, cm_body_sha256 = Some (body_digest X body),
                 cm_backend = cv_backend c\<rparr>;
          rcpts = snapshot_recipients auth c new_id d;
          d = d\<lparr>cd_conversations := upd_where (\<lambda>r. cv_id r = i) (\<lambda>r. r\<lparr>cv_last_seq := cv_last_seq r + 1\<rparr>) (cd_conversations d)\<rparr> in
      if (case sn_reply_to input of None \<Rightarrow> False
          | Some r \<Rightarrow> \<not> exists_row (\<lambda>m. cm_id m = r \<and> cm_conversation_id m = i) (cd_messages d))
      then Inl (NotFound ''reply_to is not a message of this conversation'')
      else if exists_row (\<lambda>m. cm_id m = new_id \<or> cm_conversation_id m = i \<and> cm_seq m = seq) (cd_messages d)
      then Inl (Db ''duplicate key'')
      else
        let d = d\<lparr>cd_messages := cd_messages d @ [msg], cd_recipients := cd_recipients d @ rcpts,
                  cd_receipts := cd_receipts d @ map (new_receipt (if asynchronous then None else Some now)) rcpts\<rparr> in
        bindE (if asynchronous then enqueue now key new_id i (au_team_id auth) (cv_backend c) body d else Inr d) (\<lambda>d.
          Inr (conv_audit now auth (Some i) ''message.send'' (Some new_id) d)))"

definition send_tx ::
    "ext \<Rightarrow> time \<Rightarrow> uuid \<Rightarrow> uuid \<Rightarrow> auth_ctx \<Rightarrow> uuid \<Rightarrow> send_input \<Rightarrow> string \<Rightarrow> json \<Rightarrow> sent_message conv_tx" where
  "send_tx X now new_id key auth i input body metadata d =
     bindE (ok_or (conversation_at d i) (Db ''no rows'')) (\<lambda>c.
       if cv_archived_at c \<noteq> None then Inl (Conflict ''this conversation is archived'')
       else if cv_write_paused_at c \<noteq> None then Inl (Conflict ''writes are paused while storage is being moved'')
       else bindE (require_project_open auth i d) (\<lambda>_.
         if \<not> (case find (my_seat auth i) (cd_seats d) of None \<Rightarrow> False | Some m \<Rightarrow> may_send m)
         then Inl (Forbidden ''your membership of this conversation is no longer one that can post'')
         else case find (\<lambda>m. cm_conversation_id m = i \<and> cm_request_id m = sn_request_id input) (cd_messages d) of
           Some m \<Rightarrow>
             if cm_body_sha256 m \<noteq> Some (body_digest X body)
             then Inl (Conflict ''this request_id already sent a different message'')
             else Inr (\<lparr>st_message_id = cm_id m, st_conversation_id = i, st_seq = cm_seq m,
                 st_stored = (cm_publication_state m = Stored), st_publication = cm_publication_state m,
                 st_recipients = recipients_of (cm_id m) d, st_created_at = cm_created_at m\<rparr>, d)
         | None \<Rightarrow>
             bindE (store_message X now new_id key auth c input body metadata d) (\<lambda>d.
               Inr (\<lparr>st_message_id = new_id, st_conversation_id = i, st_seq = cv_last_seq c + 1,
                 st_stored = (cv_publication c = Sync),
                 st_publication = (if cv_publication c = ViaOutbox then PendingPublication else Stored),
                 st_recipients = recipients_of new_id d, st_created_at = now\<rparr>, d))))"

definition send ::
    "ext \<Rightarrow> time \<Rightarrow> uuid \<Rightarrow> uuid \<Rightarrow> auth_ctx \<Rightarrow> uuid \<Rightarrow> send_input \<Rightarrow> cdb \<Rightarrow> cdb \<Rightarrow> sent_message res \<times> cdb" where
  "send X now new_id key auth i input d0 =
     after_checks (send_checks X auth i input d0)
       (\<lambda>(body, metadata). conv_guarded now auth (send_tx X now new_id key auth i input body metadata))"

section \<open>Bodies\<close>

datatype body_state =
    Present string
  | Missing publication_report bus_error
  | Unreachable bus_error
and publication_report = RStored | RPending | RFailed | RTombstoned

definition report_of :: "publication_state \<Rightarrow> publication_report" where
  "report_of s = (case s of Stored \<Rightarrow> RStored | PendingPublication \<Rightarrow> RPending | PublicationFailed \<Rightarrow> RFailed)"

definition resolve_body ::
    "(string \<Rightarrow> uuid \<Rightarrow> backend res) \<Rightarrow> time \<Rightarrow> uuid \<Rightarrow> conv_message_row \<Rightarrow> cdb \<Rightarrow> body_state \<times> cdb" where
  "resolve_body Bs now team m d =
     (if cm_tombstoned_at m \<noteq> None
      then (Missing RTombstoned (NotFound ''this body is no longer held by its backend''), d)
      else if cm_backend m = ''postgres'' \<or> cm_body m \<noteq> [] then (Present (cm_body m), d)
      else case cm_publication_state m of
        PendingPublication \<Rightarrow> (Missing RPending (Conflict ''accepted but not confirmed yet''), d)
      | PublicationFailed \<Rightarrow> (Missing RFailed (NotFound ''never stored by its backend''), d)
      | Stored \<Rightarrow>
          (case cm_canonical_locator m of
             None \<Rightarrow> (Missing RFailed (NotFound ''no body and no locator''), d)
           | Some locator \<Rightarrow>
               (case Bs (cm_backend m) team of
                  Inl e \<Rightarrow> (Unreachable (Conflict ''the backend holding this body cannot be reached''), d)
                | Inr B \<Rightarrow>
                    (case bk_fetch B locator (cm_id m) d of
                       Inl e \<Rightarrow> (Unreachable (Conflict ''this body could not be read from its backend''), d)
                     | Inr (Some body) \<Rightarrow> (Present body, d)
                     | Inr None \<Rightarrow> (Missing RTombstoned (NotFound ''this body is no longer held by its backend''),
                         tombstone now (cm_id m) ''missing from backend'' d)))))"

definition body_of :: "(string \<Rightarrow> uuid \<Rightarrow> backend res) \<Rightarrow> time \<Rightarrow> uuid \<Rightarrow> cdb \<Rightarrow> string res \<times> cdb" where
  "body_of Bs now message_id d = (case message_with_thread d message_id of
      None \<Rightarrow> (Inl (NotFound ''no such message''), d)
    | Some (m, c) \<Rightarrow>
        (case resolve_body Bs now (cv_team_id c) m d of
           (Present body, d) \<Rightarrow> (Inr body, d)
         | (Missing _ why, d) \<Rightarrow> (Inl why, d)
         | (Unreachable why, d) \<Rightarrow> (Inl why, d)))"

section \<open>Reading\<close>

record receipt_info =
  ri_address :: string
  ri_agent :: string
  ri_session :: "string option"
  ri_stored_at :: "time option"
  ri_delivered_at :: "time option"
  ri_presented_at :: "time option"
  ri_acknowledged_at :: "time option"
  ri_resolved_at :: "time option"
  ri_note :: "string option"

definition receipt_info_of :: "cdb \<Rightarrow> receipt_row \<Rightarrow> receipt_info option" where
  "receipt_info_of d r = Option.bind (find (\<lambda>m. mb_id m = rr_membership_id r) (cd_seats d)) (\<lambda>m.
     map_option (\<lambda>agent. \<lparr>ri_address = address_of agent (mb_session m), ri_agent = agent,
       ri_session = (if mb_session m = [] then None else Some (mb_session m)), ri_stored_at = rr_stored_at r,
       ri_delivered_at = rr_delivered_at r, ri_presented_at = rr_presented_at r, ri_acknowledged_at = rr_acknowledged_at r,
       ri_resolved_at = rr_resolved_at r, ri_note = rr_note r\<rparr>) (agent_name_of (cd_base d) (mb_agent_id m)))"

definition receipt_of :: "uuid \<Rightarrow> uuid \<Rightarrow> cdb \<Rightarrow> receipt_info option" where
  "receipt_of message_id membership_id d = fetch_optional (List.map_filter (receipt_info_of d)
     (filter (\<lambda>r. rr_message_id r = message_id \<and> rr_membership_id r = membership_id) (cd_receipts d)))"

definition receipts_for :: "uuid list \<Rightarrow> uuid \<Rightarrow> cdb \<Rightarrow> (uuid \<times> receipt_info) list" where
  "receipts_for message_ids membership_id d = List.map_filter (\<lambda>r. map_option (\<lambda>i. (rr_message_id r, i)) (receipt_info_of d r))
     (filter (\<lambda>r. rr_message_id r \<in> set message_ids \<and> rr_membership_id r = membership_id) (cd_receipts d))"

record conv_message =
  vm_message_id :: uuid
  vm_seq :: int
  vm_from :: string
  vm_from_address :: string
  vm_body :: string
  vm_reply_to :: "uuid option"
  vm_metadata :: json
  vm_created_at :: time
  vm_my_receipt :: "receipt_info option"
  vm_publication :: publication_report
  vm_unavailable :: "bus_error option"

definition show_message :: "conv_message_row \<Rightarrow> string \<Rightarrow> receipt_info option \<Rightarrow> body_state \<Rightarrow> conv_message" where
  "show_message m agent receipt body =
     (let (text, publication, unavailable) = (case body of
          Present b \<Rightarrow> (b, report_of (cm_publication_state m), None)
        | Missing p why \<Rightarrow> ([], p, Some why)
        | Unreachable why \<Rightarrow> ([], report_of (cm_publication_state m), Some why)) in
      \<lparr>vm_message_id = cm_id m, vm_seq = cm_seq m, vm_from = agent, vm_from_address = address_of agent (cm_sender_session m),
       vm_body = text, vm_reply_to = cm_reply_to m, vm_metadata = cm_metadata m, vm_created_at = cm_created_at m,
       vm_my_receipt = receipt, vm_publication = publication, vm_unavailable = unavailable\<rparr>)"

text \<open>The bodies of a page, one after another; a body found missing leaves a tombstone.\<close>

fun show_page ::
    "(string \<Rightarrow> uuid \<Rightarrow> backend res) \<Rightarrow> time \<Rightarrow> uuid \<Rightarrow> (uuid \<Rightarrow> receipt_info option) \<Rightarrow>
     (conv_message_row \<times> string) list \<Rightarrow> cdb \<Rightarrow> conv_message list \<times> cdb" where
  "show_page Bs now team mine [] d = ([], d)"
| "show_page Bs now team mine ((m, agent) # rows) d =
     (let (body, d) = resolve_body Bs now team m d; (rest, d) = show_page Bs now team mine rows d in
      (show_message m agent (mine (cm_id m)) body # rest, d))"

definition with_sender :: "cdb \<Rightarrow> conv_message_row list \<Rightarrow> (conv_message_row \<times> string) list" where
  "with_sender d ms = List.map_filter (\<lambda>m. map_option (\<lambda>a. (m, a)) (agent_name_of (cd_base d) (cm_sender_agent m))) ms"

definition thread_page :: "uuid \<Rightarrow> int \<Rightarrow> int \<Rightarrow> cdb \<Rightarrow> (conv_message_row \<times> string) list" where
  "thread_page i after page_size d = take (nat page_size) (with_sender d (sort_key cm_seq
     (filter (\<lambda>m. cm_conversation_id m = i \<and> cm_seq m > after \<and> cm_deleted_at m = None) (cd_messages d))))"

definition floor_of :: "access_info \<Rightarrow> int" where
  "floor_of a = unwrap_or 0 (Option.bind (ac_membership a) me_history_from_seq)"

definition next_after :: "int \<Rightarrow> conv_message list \<Rightarrow> int option" where
  "next_after last_seq ms =
     (let first_pending = map_option vm_seq (find (\<lambda>m. vm_publication m = RPending) ms) in
      opt_filter (\<lambda>s. s < last_seq \<and> s > 0) (if ms = [] then None else
        Some (case first_pending of Some p \<Rightarrow> min (vm_seq (last ms)) (p - 1) | None \<Rightarrow> vm_seq (last ms))))"

record conversation_read =
  vr_conversation_id :: uuid
  vr_next_after_seq :: "int option"
  vr_history_from_seq :: "int option"
  vr_messages :: "conv_message list"

definition conv_read ::
    "(string \<Rightarrow> uuid \<Rightarrow> backend res) \<Rightarrow> time \<Rightarrow> auth_ctx \<Rightarrow> uuid \<Rightarrow> int option \<Rightarrow> int option \<Rightarrow> cdb \<Rightarrow> cdb \<Rightarrow>
     conversation_read res \<times> cdb" where
  "conv_read Bs now auth i after_seq limit d0 d =
     (case bindE (require_capability auth d0) (\<lambda>_. bindE (readable auth i d0) (\<lambda>a. bindE (require_accepted a) (\<lambda>_. Inr a))) of
        Inl e \<Rightarrow> (Inl e, d)
      | Inr a0 \<Rightarrow>
          let rows = thread_page i (max (unwrap_or 0 after_seq) (floor_of a0))
                (clamp 1 MAX_PAGE (unwrap_or DEFAULT_PAGE limit)) d0 in
          (case bindE (readable auth i d) (\<lambda>a. bindE (require_accepted a) (\<lambda>_. Inr a)) of
             Inl e \<Rightarrow> (Inl e, d)
           | Inr a \<Rightarrow>
               let mine = (case ac_membership a of None \<Rightarrow> (\<lambda>_. None)
                     | Some m \<Rightarrow> map_of (rev (receipts_for (map (cm_id \<circ> fst) rows) (me_id m) d)));
                   (messages, d) = show_page Bs now (au_team_id auth) mine rows d in
               (Inr \<lparr>vr_conversation_id = i, vr_next_after_seq = next_after (ac_last_seq a) messages,
                  vr_history_from_seq = Option.bind (ac_membership a) me_history_from_seq, vr_messages = messages\<rparr>, d)))"

definition before_floor :: "access_info \<Rightarrow> int \<Rightarrow> bool" where
  "before_floor a seq \<longleftrightarrow> (case Option.bind (ac_membership a) me_history_from_seq of None \<Rightarrow> False | Some f \<Rightarrow> seq \<le> f)"

definition get_message ::
    "(string \<Rightarrow> uuid \<Rightarrow> backend res) \<Rightarrow> time \<Rightarrow> auth_ctx \<Rightarrow> uuid \<Rightarrow> cdb \<Rightarrow> conv_message res \<times> cdb" where
  "get_message Bs now auth message_id d =
     (case bindE (require_capability auth d) (\<lambda>_.
           bindE (ok_or (fetch_optional (with_sender d (filter (\<lambda>m. cm_id m = message_id \<and> cm_deleted_at m = None) (cd_messages d))))
             (NotFound ''no such message'')) (\<lambda>(m, agent).
           bindE (readable auth (cm_conversation_id m) d) (\<lambda>a.
           bindE (require_accepted a) (\<lambda>_.
             if before_floor a (cm_seq m) then Inl (Forbidden ''before the point your membership starts'')
             else Inr (m, agent, a))))) of
        Inl e \<Rightarrow> (Inl e, d)
      | Inr (m, agent, a) \<Rightarrow>
          let receipt = Option.bind (ac_membership a) (\<lambda>s. receipt_of message_id (me_id s) d);
              (body, d) = resolve_body Bs now (au_team_id auth) m d in
          (Inr (show_message m agent receipt body), d))"

section \<open>Receipts\<close>

definition acknowledge :: "time \<Rightarrow> bool \<Rightarrow> string option \<Rightarrow> receipt_row \<Rightarrow> receipt_row" where
  "acknowledge now resolved note r = r\<lparr>rr_acknowledged_at := Some (unwrap_or now (rr_acknowledged_at r)),
     rr_resolved_at := (if resolved then Some (unwrap_or now (rr_resolved_at r)) else rr_resolved_at r),
     rr_note := (case note of None \<Rightarrow> rr_note r | Some n \<Rightarrow> Some n)\<rparr>"

definition conv_ack ::
    "ext \<Rightarrow> time \<Rightarrow> uuid \<Rightarrow> auth_ctx \<Rightarrow> uuid \<Rightarrow> bool \<Rightarrow> string option \<Rightarrow> cdb \<Rightarrow> cdb \<Rightarrow> receipt_info res \<times> cdb" where
  "conv_ack X now new_id auth message_id resolved note d0 =
     after_checks
       (bindE (require_capability auth d0) (\<lambda>_.
        bindE (ok_or (map_option cm_conversation_id (find (\<lambda>m. cm_id m = message_id) (cd_messages d0))) (NotFound ''no such message'')) (\<lambda>i.
        bindE (readable auth i d0) (\<lambda>a.
        case opt_filter (\<lambda>m. me_state m = Active) (ac_membership a) of
          None \<Rightarrow> Inl (Forbidden ''only an active member can acknowledge its messages'')
        | Some m \<Rightarrow> bindE (traverse_opt (\<lambda>n. check_text n 2000) note) (\<lambda>note. Inr (i, me_id m, note))))))
       (\<lambda>(i, membership, note) d. readback (\<lambda>_ d. ok_or (receipt_of message_id membership d) (NotFound ''receipt vanished''))
          (conv_guarded now auth (\<lambda>d.
             bindE (require_project_open auth i d) (\<lambda>_.
               let P = (\<lambda>r. rr_message_id r = message_id \<and> rr_membership_id r = membership \<and>
                     exists_row (\<lambda>m. mb_id m = rr_membership_id r \<and> mb_state m = Active) (cd_seats d)) in
               if \<not> exists_row P (cd_receipts d) then Inl (Forbidden ''this message was not addressed to your window'')
               else bindE (enqueue_receipt_reference X now new_id message_id membership (if resolved then ''resolved'' else ''acknowledged'')
                   (conv_audit now auth (Some i) ''message.ack'' (Some message_id)
                     (d\<lparr>cd_receipts := upd_where P (acknowledge now resolved note) (cd_receipts d)\<rparr>))) (\<lambda>d. Inr ((), d)))) d))"

record message_receipts =
  mr_message_id :: uuid
  mr_seq :: int
  mr_acknowledged :: nat
  mr_resolved :: nat
  mr_total :: nat
  mr_receipts :: "receipt_info list"

definition receipts :: "auth_ctx \<Rightarrow> uuid \<Rightarrow> cdb \<Rightarrow> message_receipts res" where
  "receipts auth message_id d =
     bindE (require_capability auth d) (\<lambda>_.
     bindE (ok_or (find (\<lambda>m. cm_id m = message_id) (cd_messages d)) (NotFound ''no such message'')) (\<lambda>m.
     bindE (readable auth (cm_conversation_id m) d) (\<lambda>a.
     bindE (require_accepted a) (\<lambda>_.
       if before_floor a (cm_seq m) then Inl (Forbidden ''before the point your membership starts'')
       else
         let rows = sort_key (\<lambda>i. (ri_agent i, unwrap_or [] (ri_session i)))
               (List.map_filter (receipt_info_of d) (filter (\<lambda>r. rr_message_id r = message_id) (cd_receipts d))) in
         Inr \<lparr>mr_message_id = message_id, mr_seq = cm_seq m,
              mr_acknowledged = count_rows (\<lambda>r. ri_acknowledged_at r \<noteq> None) rows,
              mr_resolved = count_rows (\<lambda>r. ri_resolved_at r \<noteq> None) rows, mr_total = length rows, mr_receipts = rows\<rparr>))))"

record conversation_activity =
  va_conversation_id :: uuid
  va_title :: string
  va_last_seq :: int
  va_unacknowledged :: nat

definition activity :: "auth_ctx \<Rightarrow> cdb \<Rightarrow> conversation_activity list" where
  "activity auth d = filter (\<lambda>v. va_unacknowledged v > 0) (sort_key (\<lambda>v. - va_last_seq v)
     (concat (map (\<lambda>c. map (\<lambda>m. \<lparr>va_conversation_id = cv_id c, va_title = cv_title c, va_last_seq = cv_last_seq c,
          va_unacknowledged = count_rows (\<lambda>r. rr_membership_id r = mb_id m \<and> rr_acknowledged_at r = None) (cd_receipts d)\<rparr>)
        (filter (\<lambda>m. seat_key_is (cv_id c) (au_agent_id auth) (au_session auth) m \<and> mb_state m = Active \<and>
           open_to d c (mb_agent_id m)) (cd_seats d)))
      (filter (\<lambda>c. cv_team_id c = au_team_id auth \<and> cv_archived_at c = None) (cd_conversations d)))))"

section \<open>Recovery by the owning agent\<close>

definition live_window :: "time \<Rightarrow> uuid \<Rightarrow> db \<Rightarrow> session_row \<Rightarrow> bool" where
  "live_window now agent b s \<longleftrightarrow> se_agent_id s = agent \<and> se_revoked_at s = None \<and> se_expires_at s > now \<and> \<not> parent_revoked b s"

definition recoverable :: "auth_ctx \<Rightarrow> conversation_row \<Rightarrow> cdb \<Rightarrow> conv_message_row \<Rightarrow> bool" where
  "recoverable auth c d m \<longleftrightarrow> cm_conversation_id m = cv_id c \<and> cv_team_id c = au_team_id auth \<and> cm_deleted_at m = None \<and>
     exists_row (\<lambda>me. mb_conversation_id me = cv_id c \<and> mb_agent_id me = au_agent_id auth \<and> mb_state me \<noteq> Removed \<and>
       mb_accepted_at me \<noteq> None \<and> cm_seq m > unwrap_or 0 (mb_history_from_seq me)) (cd_seats d) \<and>
     (cv_visibility c = VPrivate \<or> project_granted d c (au_agent_id auth))"

definition recover_tx :: "time \<Rightarrow> auth_ctx \<Rightarrow> uuid \<Rightarrow> int \<Rightarrow> int \<Rightarrow> (conv_message_row \<times> string) list conv_tx" where
  "recover_tx now auth i after page_size d =
     bindE (lock_agent (cd_base d) (au_agent_id auth)) (\<lambda>_.
       if exists_row (live_window now (au_agent_id auth) (cd_base d)) (d_sessions (cd_base d))
       then Inl (Conflict ''sessions of yours are still live'')
       else
         let rows = take (nat page_size) (with_sender d (sort_key cm_seq (filter (\<lambda>m. cm_seq m > after \<and>
               (case conversation_at d i of None \<Rightarrow> False | Some c \<Rightarrow> recoverable auth c d m)) (cd_messages d)))) in
         if rows = [] then Inl (NotFound ''nothing to recover here'')
         else Inr (rows, conv_audit now auth (Some i) ''member.recover'' (Some (au_agent_id auth)) d))"

definition recover_history ::
    "(string \<Rightarrow> uuid \<Rightarrow> backend res) \<Rightarrow> time \<Rightarrow> auth_ctx \<Rightarrow> uuid \<Rightarrow> int option \<Rightarrow> int option \<Rightarrow> cdb \<Rightarrow> cdb \<Rightarrow>
     conversation_read res \<times> cdb" where
  "recover_history Bs now auth i after_seq limit d0 d =
     (case require_capability auth d0 of
        Inl e \<Rightarrow> (Inl e, d)
      | Inr _ \<Rightarrow>
          if session_is_authenticated auth then (Inl (Forbidden ''recovery is an owner-agent operation''), d)
          else
            let page_size = clamp 1 MAX_PAGE (unwrap_or DEFAULT_PAGE limit) in
            (case transact (recover_tx now auth i (unwrap_or 0 after_seq) page_size) d of
               (Inl e, d) \<Rightarrow> (Inl e, d)
             | (Inr rows, d) \<Rightarrow>
                 let (messages, d) = show_page Bs now (au_team_id auth) (\<lambda>_. None) rows d in
                 (Inr \<lparr>vr_conversation_id = i,
                    vr_next_after_seq = (if int (length rows) = page_size then Some (cm_seq (fst (last rows))) else None),
                    vr_history_from_seq = None, vr_messages = messages\<rparr>, d)))"

end
