(* ===== verification/ConvRuns.thy ===== *)
theory ConvRuns
  imports ConvMessages
begin

text \<open>
  The conversation subsystem as one machine: every request a client can make of it and every
  statement a publication worker runs, each executed as one step on the shared tables, in any order.

  A client's request carries the state its admission checks read, which may be arbitrarily old. The
  worker's statements are steps of their own, with any lease a worker may still believe it holds, so
  crashes, timeouts and late answers are interleavings like any other. \<open>ElsewhereReq\<close> stands for
  whatever the rest of the bus does to its own tables.
\<close>

section \<open>Requests\<close>

type_synonym backends = "string \<Rightarrow> uuid \<Rightarrow> backend res"

datatype conv_req =
    CreateProjectReq time uuid auth_ctx string cdb
  | ProjectAccessReq ext time auth_ctx string string bool cdb
  | CreateConvReq ext time uuid "nat \<Rightarrow> uuid" auth_ctx create_conv_input cdb
  | ArchiveReq time auth_ctx uuid cdb
  | InviteReq time uuid auth_ctx uuid string "string option" bool cdb
  | JoinReq time auth_ctx uuid cdb
  | LeaveReq time auth_ctx uuid cdb
  | RemoveReq time auth_ctx uuid string cdb
  | TransferReq time uuid auth_ctx uuid string cdb
  | SendReq ext time uuid uuid auth_ctx uuid send_input cdb
  | AckReq ext time uuid auth_ctx uuid bool "string option" cdb
  | ReadReq backends time auth_ctx uuid "int option" "int option" cdb
  | GetReq backends time auth_ctx uuid
  | RecoverReq backends time auth_ctx uuid "int option" "int option" cdb
  | LeaseNextReq time string
  | LeaseOneReq time string uuid
  | PgPublishReq ext envelope
  | SettleReq ext time "nat \<Rightarrow> uuid" slot_lease published
  | ReleaseSlotReq time slot_lease string
  | UnleaseReq time slot_lease
  | MarkUncertainReq time slot_lease string
  | ForgetUncertainReq uuid
  | SetPublicationReq uuid bool
  | ReleaseBodiesReq ext time backends "bool option" "uuid option" int cdb
  | ElsewhereReq "db \<Rightarrow> db"

fun conv_exec :: "conv_req \<Rightarrow> cdb \<Rightarrow> cdb" where
  "conv_exec (CreateProjectReq now new_id auth name d0) d = snd (create_project now new_id auth name d0 d)"
| "conv_exec (ProjectAccessReq X now auth project agent grant d0) d = snd (set_project_access X now auth project agent grant d0 d)"
| "conv_exec (CreateConvReq X now i fresh auth input d0) d = snd (create_conversation X now i fresh auth input d0 d)"
| "conv_exec (ArchiveReq now auth i d0) d = snd (archive_conversation now auth i d0 d)"
| "conv_exec (InviteReq now new_id auth i address role from_start d0) d = snd (invite now new_id auth i address role from_start d0 d)"
| "conv_exec (JoinReq now auth i d0) d = snd (join now auth i d0 d)"
| "conv_exec (LeaveReq now auth i d0) d = snd (leave now auth i d0 d)"
| "conv_exec (RemoveReq now auth i address d0) d = snd (remove_member now auth i address d0 d)"
| "conv_exec (TransferReq now new_id auth i to d0) d = snd (transfer_membership now new_id auth i to d0 d)"
| "conv_exec (SendReq X now new_id key auth i input d0) d = snd (send X now new_id key auth i input d0 d)"
| "conv_exec (AckReq X now new_id auth message_id resolved note d0) d = snd (conv_ack X now new_id auth message_id resolved note d0 d)"
| "conv_exec (ReadReq Bs now auth i after_seq limit d0) d = snd (conv_read Bs now auth i after_seq limit d0 d)"
| "conv_exec (GetReq Bs now auth message_id) d = snd (get_message Bs now auth message_id d)"
| "conv_exec (RecoverReq Bs now auth i after_seq limit d0) d = snd (recover_history Bs now auth i after_seq limit d0 d)"
| "conv_exec (LeaseNextReq now worker) d = snd (lease_next now worker d)"
| "conv_exec (LeaseOneReq now worker message_id) d = snd (lease_one now worker message_id d)"
| "conv_exec (PgPublishReq X env) d = snd (pg_publish X env d)"
| "conv_exec (SettleReq X now fresh l outcome) d = snd (transact (settle X now fresh l outcome) d)"
| "conv_exec (ReleaseSlotReq now l why) d = release_slot now l why d"
| "conv_exec (UnleaseReq now l) d = unlease now l d"
| "conv_exec (MarkUncertainReq now l why) d = snd (mark_uncertain now l why d)"
| "conv_exec (ForgetUncertainReq team) d = forget_uncertain team d"
| "conv_exec (SetPublicationReq i outbox) d = snd (transact (set_publication i outbox) d)"
| "conv_exec (ReleaseBodiesReq X now Bs reachable conversation age d0) d =
     release_published_bodies X now Bs reachable conversation age d0 d"
| "conv_exec (ElsewhereReq f) d = d\<lparr>cd_base := f (cd_base d)\<rparr>"

section \<open>What a request leaves behind\<close>

text \<open>A relation between the state before and after holds of a whole request when it is reflexive and
  holds of the transaction: checks that fail, a guard that refuses and an error all leave the state.\<close>

named_theorems keep \<open>rules that reduce a request to its transaction\<close>

lemma keep_after_checks [keep]:
  "R d d \<Longrightarrow> (\<And>v. checks = Inr v \<Longrightarrow> R d (snd (run v d))) \<Longrightarrow> R d (snd (after_checks checks run d))"
  by (cases checks) (simp_all add: after_checks_def)

lemma keep_readback [keep]: "R d (snd r) \<Longrightarrow> R d (snd (readback query r))"
  by (simp add: readback_def)

lemma keep_transact:
  "R d d \<Longrightarrow> (\<And>x d'. body d = Inr (x, d') \<Longrightarrow> R d d') \<Longrightarrow> R d (snd (transact body d))"
  by (rule transact_cases [of body d]) simp_all

lemma keep_conv_guarded [keep]:
  "R d d \<Longrightarrow> (\<And>x d'. guard now auth (cd_base d) = Inr () \<Longrightarrow> body d = Inr (x, d') \<Longrightarrow> R d d') \<Longrightarrow>
   R d (snd (conv_guarded now auth body d))"
  unfolding conv_guarded_def by (rule keep_transact) (auto simp: bindE_eq_Inr)

lemma snd_case_sum: "snd (case r of Inl e \<Rightarrow> (Inl e, d) | Inr v \<Rightarrow> f v) = (case r of Inl e \<Rightarrow> d | Inr v \<Rightarrow> snd (f v))"
  by (cases r) simp_all

end
