(* ===== verification/Threads.thy ===== *)
theory Threads
  imports ConvRuns
begin

text \<open>
  Messages of conversations over every run of the subsystem. Each request is shown to be a step of a
  small abstract machine on the message tables (\<open>thread_step\<close>): it keeps the tables up to mutable
  columns, opens a thread, posts, settles a publication, or gives one up. Sequences without gaps,
  idempotent sends, fixed recipient lists, growing receipts and publication that happens once are
  then facts about the machine.
\<close>

section \<open>What stays of a row\<close>

definition conv_core :: "conversation_row \<Rightarrow> uuid \<times> uuid \<times> uuid option \<times> visibility \<times> int \<times> string" where
  "conv_core c = (cv_id c, cv_team_id c, cv_project_id c, cv_visibility c, cv_last_seq c, cv_backend c)"

definition msg_core :: "conv_message_row \<Rightarrow> uuid \<times> uuid \<times> int \<times> uuid \<times> string \<times> uuid option \<times> json \<times> uuid \<times> time \<times> string option \<times> string" where
  "msg_core m = (cm_id m, cm_conversation_id m, cm_seq m, cm_sender_agent m, cm_sender_session m, cm_reply_to m,
     cm_metadata m, cm_request_id m, cm_created_at m, cm_body_sha256 m, cm_backend m)"

definition msg_kept :: "conv_message_row \<Rightarrow> conv_message_row \<Rightarrow> bool" where
  "msg_kept m m' \<longleftrightarrow> msg_core m' = msg_core m \<and> cm_publication_state m' = cm_publication_state m \<and>
     (cm_publication_state m \<noteq> Stored \<longrightarrow> cm_body m' = cm_body m) \<and>
     (cm_canonical_locator m \<noteq> None \<longrightarrow> cm_canonical_locator m' = cm_canonical_locator m)"

definition seen_once :: "'a option \<Rightarrow> 'a option \<Rightarrow> bool" where
  "seen_once x y \<longleftrightarrow> x = None \<or> y = x"

definition receipt_grows :: "receipt_row \<Rightarrow> receipt_row \<Rightarrow> bool" where
  "receipt_grows r r' \<longleftrightarrow> rr_message_id r' = rr_message_id r \<and> rr_membership_id r' = rr_membership_id r \<and>
     seen_once (rr_stored_at r) (rr_stored_at r') \<and> seen_once (rr_delivered_at r) (rr_delivered_at r') \<and>
     seen_once (rr_presented_at r) (rr_presented_at r') \<and> seen_once (rr_acknowledged_at r) (rr_acknowledged_at r') \<and>
     seen_once (rr_resolved_at r) (rr_resolved_at r')"

definition slot_kept :: "outbox_row \<Rightarrow> outbox_row \<Rightarrow> bool" where
  "slot_kept sl sl' \<longleftrightarrow> ob_message_id sl' = ob_message_id sl \<and> ob_conversation_id sl' = ob_conversation_id sl \<and>
     ob_backend sl' = ob_backend sl \<and> ob_payload sl' = ob_payload sl \<and> ob_publish_key sl' = ob_publish_key sl \<and>
     ob_generation sl \<le> ob_generation sl' \<and> (ob_state sl' = SlotFailed \<longrightarrow> ob_state sl = SlotFailed)"

named_theorems kept_rows \<open>what it means for a row to be kept\<close>
declare msg_kept_def [kept_rows] receipt_grows_def [kept_rows] slot_kept_def [kept_rows] msg_core_def [kept_rows]
  conv_core_def [kept_rows] seen_once_def [kept_rows]

lemma list_all2_upd_where:
  "(\<And>r. r \<in> set rows \<Longrightarrow> P r \<Longrightarrow> R r (f r)) \<Longrightarrow> (\<And>r. R r r) \<Longrightarrow> list_all2 R rows (upd_where P f rows)"
  by (induction rows) auto

lemma list_all2_left: "list_all2 R xs ys \<Longrightarrow> x \<in> set xs \<Longrightarrow> \<exists>y \<in> set ys. R x y"
  by (induction xs ys rule: list_all2_induct) auto

lemma list_all2_right: "list_all2 R xs ys \<Longrightarrow> y \<in> set ys \<Longrightarrow> \<exists>x \<in> set xs. R x y"
  by (induction xs ys rule: list_all2_induct) auto

lemma kept_refl [simp]: "msg_kept m m" "receipt_grows r r" "slot_kept sl sl"
  by (simp_all add: kept_rows)

lemma kept_all_refl [simp]: "list_all2 msg_kept ms ms" "list_all2 receipt_grows rs rs" "list_all2 slot_kept sls sls"
  by (simp_all add: list_all2_refl)

lemma msg_kept_trans: "msg_kept a b \<Longrightarrow> msg_kept b c \<Longrightarrow> msg_kept a c"
  by (auto simp: kept_rows)

section \<open>The abstract machine\<close>

definition same_tables :: "cdb \<Rightarrow> cdb \<Rightarrow> bool" where
  "same_tables d d' \<longleftrightarrow> cd_messages d' = cd_messages d \<and> cd_recipients d' = cd_recipients d \<and>
     cd_receipts d' = cd_receipts d \<and> cd_outbox d' = cd_outbox d"

inductive thread_step :: "cdb \<Rightarrow> cdb \<Rightarrow> bool" where
  kept: "map conv_core (cd_conversations d') = map conv_core (cd_conversations d) \<Longrightarrow>
    list_all2 msg_kept (cd_messages d) (cd_messages d') \<Longrightarrow> cd_recipients d' = cd_recipients d \<Longrightarrow>
    list_all2 receipt_grows (cd_receipts d) (cd_receipts d') \<Longrightarrow> list_all2 slot_kept (cd_outbox d) (cd_outbox d') \<Longrightarrow>
    thread_step d d'"
| opened: "conversation_at d (cv_id c) = None \<Longrightarrow> cv_last_seq c = 0 \<Longrightarrow>
    cd_conversations d' = cd_conversations d @ [c] \<Longrightarrow> same_tables d d' \<Longrightarrow> thread_step d d'"
| posted: "conversation_at d (cm_conversation_id m) = Some c \<Longrightarrow> cm_seq m = cv_last_seq c + 1 \<Longrightarrow>
    cm_backend m = cv_backend c \<Longrightarrow> find (\<lambda>r. cm_id r = cm_id m) (cd_messages d) = None \<Longrightarrow>
    find (\<lambda>r. cm_conversation_id r = cm_conversation_id m \<and> cm_request_id r = cm_request_id m) (cd_messages d) = None \<Longrightarrow>
    cd_conversations d' = upd_where (\<lambda>r. cv_id r = cm_conversation_id m) (\<lambda>r. r\<lparr>cv_last_seq := cv_last_seq r + 1\<rparr>) (cd_conversations d) \<Longrightarrow>
    cd_messages d' = cd_messages d @ [m] \<Longrightarrow> cd_recipients d' = cd_recipients d @ rs \<Longrightarrow>
    \<forall>r \<in> set rs. rp_message_id r = cm_id m \<Longrightarrow> cd_receipts d' = cd_receipts d @ map (new_receipt st) rs \<Longrightarrow>
    (cm_publication_state m = Stored \<and> cd_outbox d' = cd_outbox d \<or>
     cm_publication_state m = PendingPublication \<and> ob_message_id sl = cm_id m \<and> ob_payload sl = cm_body m \<and> ob_state sl = Pending \<and>
     cd_outbox d' = (if exists_row (slot_is (cm_id m)) (cd_outbox d) then cd_outbox d else cd_outbox d @ [sl])) \<Longrightarrow>
    thread_step d d'"
| published: "exists_row (holds_slot now l) (cd_outbox d) \<Longrightarrow> cd_conversations d' = cd_conversations d \<Longrightarrow>
    cd_outbox d' = del_where (holds_slot now l) (cd_outbox d) \<Longrightarrow>
    cd_messages d' = upd_where (\<lambda>m. cm_id m = le_message_id l)
      (\<lambda>m. m\<lparr>cm_publication_state := Stored, cm_canonical_locator := Some locator\<rparr>) (cd_messages d) \<Longrightarrow>
    cd_recipients d' = cd_recipients d \<Longrightarrow> list_all2 receipt_grows (cd_receipts d) (cd_receipts d') \<Longrightarrow> thread_step d d'"
| gave_up: "exists_row (holds_slot now l) (cd_outbox d) \<Longrightarrow> cd_conversations d' = cd_conversations d \<Longrightarrow>
    cd_outbox d' = upd_where (holds_slot now l) f (cd_outbox d) \<Longrightarrow>
    (\<And>sl. ob_message_id (f sl) = ob_message_id sl \<and> ob_payload (f sl) = ob_payload sl \<and> ob_generation (f sl) = ob_generation sl) \<Longrightarrow>
    cd_messages d' = upd_where (\<lambda>m. cm_id m = le_message_id l) (\<lambda>m. m\<lparr>cm_publication_state := PublicationFailed\<rparr>) (cd_messages d) \<Longrightarrow>
    cd_recipients d' = cd_recipients d \<Longrightarrow> cd_receipts d' = cd_receipts d \<Longrightarrow> thread_step d d'"

lemma thread_step_same: "cd_conversations d' = cd_conversations d \<Longrightarrow> same_tables d d' \<Longrightarrow> thread_step d d'"
  by (rule kept) (simp_all add: same_tables_def)

lemma thread_step_refl [simp]: "thread_step d d"
  by (rule thread_step_same) (simp_all add: same_tables_def)

section \<open>Every request is a step\<close>

lemmas seat_tx_defs = invite_tx_def remove_tx_def transfer_tx_def insert_seat_def conv_audit_def

lemma conv_audit_same [simp]:
  "cd_conversations (conv_audit now auth i act s d) = cd_conversations d"
  "same_tables d0 (conv_audit now auth i act s d) = same_tables d0 d"
  "cd_seats (conv_audit now auth i act s d) = cd_seats d"
  "cd_grants (conv_audit now auth i act s d) = cd_grants d"
  "cd_messages (conv_audit now auth i act s d) = cd_messages d"
  "cd_recipients (conv_audit now auth i act s d) = cd_recipients d"
  "cd_receipts (conv_audit now auth i act s d) = cd_receipts d"
  "cd_outbox (conv_audit now auth i act s d) = cd_outbox d"
  "cd_base (conv_audit now auth i act s d) = cd_base d"
  by (simp_all add: conv_audit_def same_tables_def)

lemma insert_seat_same: "insert_seat m d = Inr d' \<Longrightarrow> cd_conversations d' = cd_conversations d \<and> same_tables d d'"
  by (auto simp: insert_seat_def same_tables_def split: if_splits)

lemma same_tables_trans: "same_tables a b \<Longrightarrow> same_tables b c \<Longrightarrow> same_tables a c"
  by (simp add: same_tables_def)

lemma invite_all_same:
  "invite_all now fresh k auth i invites d = Inr d' \<Longrightarrow> cd_conversations d' = cd_conversations d \<and> same_tables d d'"
proof (induction invites arbitrary: k d)
  case Nil
  then show ?case by (simp add: same_tables_def)
next
  case (Cons a invites)
  obtain agent session where a: "a = (agent, session)" by force
  from Cons.prems obtain d1 where
    d1: "(if exists_row (seat_key_is i agent session) (cd_seats d) then Inr d
          else insert_seat (new_seat now (fresh k) auth i agent session Participant (Some 0)) d) = Inr d1"
    and rest: "invite_all now fresh (Suc k) auth i invites (conv_audit now auth (Some i) ''member.invite'' (Some agent) d1) = Inr d'"
    by (auto simp: a bindE_eq_Inr)
  have "cd_conversations d1 = cd_conversations d \<and> same_tables d d1"
    using d1 insert_seat_same by (auto simp: same_tables_def split: if_splits)
  then show ?case using Cons.IH [OF rest] by (auto simp: conv_audit_def same_tables_def)
qed


lemma create_conversation_step:
  assumes "create_conversation_tx now i fresh auth title project private invites d = Inr (x, d')"
  shows "thread_step d d'"
proof -
  from assms obtain t d1 d2 where
    new: "conversation_at d i = None"
    and d1: "insert_seat (owner_seat now (fresh 0) auth i)
      (d\<lparr>cd_conversations := cd_conversations d @ [new_thread now i auth title project private t]\<rparr>) = Inr d1"
    and d2: "invite_all now fresh 1 auth i invites d1 = Inr d2"
    and d': "d' = conv_audit now auth (Some i) ''conversation.create'' (Some i) d2"
    by (auto simp: create_conversation_tx_def bindE_eq_Inr ok_or_eq_Inr split: if_splits)
  have "cd_conversations d' = cd_conversations d @ [new_thread now i auth title project private t]" "same_tables d d'"
    using insert_seat_same [OF d1] invite_all_same [OF d2] by (auto simp: d' same_tables_def)
  then show ?thesis using new by (intro opened) (simp_all add: new_thread_def)
qed

lemma put_seat_same: "put_seat new upd d = Inr d' \<Longrightarrow> cd_conversations d' = cd_conversations d \<and> same_tables d d'"
  using insert_seat_same [of new d d'] by (auto simp: put_seat_def Let_def same_tables_def split: if_splits)

lemma invite_tx_put:
  assumes "invite_tx now new_id auth i agent session role from_start d = Inr (x, d')"
  obtains c inviter from_seq d1 act where
    "conversation_at d i = Some c" "require_project_open auth i d = Inr ()"
    "find (seat_key_is i (au_agent_id auth) (au_session auth)) (cd_seats d) = Some inviter"
    "mb_state inviter = Active" "mb_role inviter \<in> set [Owner, Moderator]"
    "count_rows (\<lambda>m. mb_conversation_id m = i) (cd_seats d) < MAX_MEMBERS"
    "\<And>m. find (seat_key_is i agent session) (cd_seats d) = Some m \<Longrightarrow> seated m \<Longrightarrow> mb_role m = Owner \<Longrightarrow> mb_role inviter = Owner"
    "from_seq = (if map_option mb_state (find (seat_key_is i agent session) (cd_seats d)) = Some Removed \<or> \<not> from_start
       then Some (cv_last_seq c) else mb_history_from_seq inviter)"
    "put_seat (new_seat now new_id auth i agent session role from_seq) (offer_seat now auth role from_seq) d = Inr d1"
    "d' = conv_audit now auth (Some i) act (Some agent) d1"
proof -
  from assms obtain c inviter where c: "conversation_at d i = Some c" "require_project_open auth i d = Inr ()"
    and inviter: "find (seat_key_is i (au_agent_id auth) (au_session auth)) (cd_seats d) = Some inviter"
    by (auto simp: invite_tx_def bindE_eq_Inr ok_or_eq_Inr split: option.splits)
  note rest = assms [unfolded invite_tx_def c inviter ok_or_simps bindE_Inr option.case Let_def]
  from rest have "mb_state inviter = Active" "mb_role inviter \<in> set [Owner, Moderator]"
    "count_rows (\<lambda>m. mb_conversation_id m = i) (cd_seats d) < MAX_MEMBERS"
    by (simp_all split: if_splits)
  moreover from rest have "mb_role inviter = Owner"
    if "find (seat_key_is i agent session) (cd_seats d) = Some m" "seated m" "mb_role m = Owner" for m
    using that by (simp split: if_splits)
  moreover from rest obtain d1 where
    "put_seat (new_seat now new_id auth i agent session role (if map_option mb_state (find (seat_key_is i agent session) (cd_seats d)) = Some Removed \<or> \<not> from_start
       then Some (cv_last_seq c) else mb_history_from_seq inviter)) (offer_seat now auth role (if map_option mb_state (find (seat_key_is i agent session) (cd_seats d)) = Some Removed \<or> \<not> from_start
       then Some (cv_last_seq c) else mb_history_from_seq inviter)) d = Inr d1"
    "d' = conv_audit now auth (Some i) (if map_option mb_state (find (seat_key_is i agent session) (cd_seats d)) = Some Removed then ''member.readmit'' else ''member.invite'') (Some agent) d1"
    by (auto simp: bindE_eq_Inr split: if_splits)
  ultimately show thesis using that c inviter by blast
qed

lemma transfer_tx_put:
  assumes "transfer_tx now new_id auth i mine session d = Inr (x, d')"
  obtains source d1 where "require_project_open auth i d = Inr ()"
    "find (\<lambda>m. mb_id m = mine) (cd_seats d) = Some source" "mb_state source = Active"
    "\<And>m. find (seat_key_is i (au_agent_id auth) session) (cd_seats d) = Some m \<Longrightarrow> mb_state m = Left"
    "put_seat ((new_seat now new_id auth i (au_agent_id auth) session (mb_role source) (mb_history_from_seq source))
       \<lparr>mb_transfer_from := Some mine\<rparr>) (transfer_seat now source) d = Inr d1"
    "d' = conv_audit now auth (Some i) ''member.transfer'' (Some (au_agent_id auth))
       (d1\<lparr>cd_seats := upd_where (\<lambda>m. mb_id m = mine) (\<lambda>m. m\<lparr>mb_superseded_by := None\<rparr>) (cd_seats d1)\<rparr>)"
proof -
  from assms obtain source where s: "require_project_open auth i d = Inr ()"
    "find (\<lambda>m. mb_id m = mine) (cd_seats d) = Some source" "mb_state source = Active"
    by (auto simp: transfer_tx_def bindE_eq_Inr split: option.splits if_splits)
  note rest = assms [unfolded transfer_tx_def s ok_or_simps bindE_Inr option.case]
  from rest have "mb_state m = Left" if "find (seat_key_is i (au_agent_id auth) session) (cd_seats d) = Some m" for m
    using that by (cases "mb_state m") simp_all
  with rest s that show thesis
    by (cases "find (seat_key_is i (au_agent_id auth) session) (cd_seats d)") (auto simp: bindE_eq_Inr)
qed

lemma seat_tx_steps:
  "invite_tx now new_id auth i agent session role from_start d = Inr (x, d') \<Longrightarrow> thread_step d d'"
  "remove_tx now auth i agent session d = Inr (x, d') \<Longrightarrow> thread_step d d'"
  "transfer_tx now new_id auth i mine session d = Inr (x, d') \<Longrightarrow> thread_step d d'"
proof -
  show "invite_tx now new_id auth i agent session role from_start d = Inr (x, d') \<Longrightarrow> thread_step d d'"
    by (erule invite_tx_put) (auto dest!: put_seat_same intro!: thread_step_same)
  show "remove_tx now auth i agent session d = Inr (x, d') \<Longrightarrow> thread_step d d'"
    by (rule thread_step_same; auto simp: remove_tx_def conv_audit_def same_tables_def bindE_eq_Inr Let_def split: if_splits option.splits)
  show "transfer_tx now new_id auth i mine session d = Inr (x, d') \<Longrightarrow> thread_step d d'"
    by (erule transfer_tx_put) (auto simp: same_tables_def conv_audit_def dest!: put_seat_same intro!: thread_step_same)
qed

lemma insert_events_same:
  "insert_events es d = Inr d' \<Longrightarrow> cd_conversations d' = cd_conversations d \<and> same_tables d d'"
proof (induction es arbitrary: d)
  case Nil
  then show ?case by (simp add: same_tables_def)
next
  case (Cons e es)
  from Cons.prems have "insert_events es d = Inr d' \<or> insert_events es (d\<lparr>cd_events := cd_events d @ [e]\<rparr>) = Inr d'"
    by (auto split: if_splits)
  then show ?case using Cons.IH by (fastforce simp: same_tables_def)
qed

lemma enqueue_references_same:
  "enqueue_message_references X now fresh i d = Inr d' \<Longrightarrow> cd_conversations d' = cd_conversations d \<and> same_tables d d'"
  "enqueue_receipt_reference X now new_id i mb obs d = Inr d' \<Longrightarrow> cd_conversations d' = cd_conversations d \<and> same_tables d d'"
  by (auto simp: enqueue_message_references_def enqueue_receipt_reference_def same_tables_def
      dest!: insert_events_same split: option.splits if_splits)

lemma settle_step: "settle X now fresh l outcome d = Inr (x, d') \<Longrightarrow> thread_step d d'"
proof (cases "exists_row (holds_slot now l) (cd_outbox d)")
  case False
  then show "settle X now fresh l outcome d = Inr (x, d') \<Longrightarrow> thread_step d d'" by (simp add: settle_def)
next
  case held: True
  assume settle: "settle X now fresh l outcome d = Inr (x, d')"
  show ?thesis
  proof (cases outcome)
    case (Confirmed locator)
    have "list_all2 receipt_grows (cd_receipts d) (upd_where (\<lambda>r. rr_message_id r = le_message_id l)
        (\<lambda>r. r\<lparr>rr_stored_at := Some (unwrap_or now (rr_stored_at r))\<rparr>) (cd_receipts d))"
      by (rule list_all2_upd_where) (auto simp: kept_rows unwrap_or_def split: option.split)
    then show ?thesis using settle held Confirmed
      by (auto simp: settle_def Let_def bindE_eq_Inr same_tables_def dest!: enqueue_references_same(1)
          intro!: published [of now l d d' locator])
  next
    case (Retryable why)
    have slots: "list_all2 slot_kept (cd_outbox d) (upd_where (holds_slot now l) (\<lambda>sl. sl\<lparr>
        ob_state := Pending, ob_leased_by := None, ob_lease_expires_at := None,
        ob_next_attempt_at := now + secs (backoff_secs (le_attempts l)), ob_last_error := Some why, ob_updated_at := now\<rparr>) (cd_outbox d))"
      by (rule list_all2_upd_where) (auto simp: kept_rows)
    show ?thesis
    proof (cases "le_attempts l \<ge> MAX_ATTEMPTS")
      case True
      with settle held Retryable show ?thesis
        by (intro gave_up [of now l d d' "\<lambda>sl. sl\<lparr>ob_state := SlotFailed, ob_leased_by := None, ob_lease_expires_at := None,
          ob_next_attempt_at := now + secs (backoff_secs (le_attempts l)), ob_last_error := Some why, ob_updated_at := now\<rparr>"])
          (auto simp: settle_def mark_failed_def Let_def)
    next
      case False
      with settle held Retryable slots show ?thesis
        by (intro kept) (auto simp: settle_def Let_def)
    qed
  next
    case (Fatal why)
    with settle held show ?thesis
      by (intro gave_up [of now l d d' "\<lambda>sl. sl\<lparr>ob_state := SlotFailed, ob_leased_by := None, ob_lease_expires_at := None,
          ob_last_error := Some why, ob_updated_at := now\<rparr>"])
        (auto simp: settle_def mark_failed_def Let_def)
  qed
qed


lemma snapshot_message: "\<forall>r \<in> set (snapshot_recipients auth c i d). rp_message_id r = i"
  by (auto simp: snapshot_recipients_def)

lemma slot_is_eq: "slot_is i = (\<lambda>sl. ob_message_id sl = i)"
  by (rule ext) (simp add: slot_is_def)

lemma store_message_step:
  assumes "store_message X now new_id key auth c input body metadata d = Inr d'"
    and c: "conversation_at d (cv_id c) = Some c"
    and fresh: "find (\<lambda>m. cm_conversation_id m = cv_id c \<and> cm_request_id m = sn_request_id input) (cd_messages d) = None"
  shows "thread_step d d'"
proof -
  define m where "m = \<lparr>cm_id = new_id, cm_conversation_id = cv_id c, cm_seq = cv_last_seq c + 1, cm_sender_agent = au_agent_id auth,
     cm_sender_session = au_session auth, cm_body = body, cm_reply_to = sn_reply_to input, cm_metadata = metadata,
     cm_request_id = sn_request_id input, cm_created_at = now, cm_deleted_at = None,
     cm_publication_state = (if cv_publication c = ViaOutbox then PendingPublication else Stored), cm_canonical_locator = None, cm_uncertain_at = None,
     cm_tombstoned_at = None, cm_tombstone_reason = None, cm_body_sha256 = Some (body_digest X body), cm_backend = cv_backend c\<rparr>"
  define sl where "sl = \<lparr>ob_message_id = new_id, ob_conversation_id = cv_id c, ob_team_id = au_team_id auth,
     ob_backend = cv_backend c, ob_payload = body, ob_payload_bytes = min (int (length body)) i32_max, ob_publish_key = key,
     ob_state = Pending, ob_attempts = 0, ob_generation = 0, ob_leased_by = None, ob_lease_expires_at = None,
     ob_next_attempt_at = now, ob_last_error = None, ob_created_at = now, ob_updated_at = now\<rparr>"
  have new: "\<forall>r \<in> set (cd_messages d). cm_id r \<noteq> new_id"
    using assms(1) by (auto simp: store_message_def Let_def exists_row_def split: if_splits)
  then have "upd_where (\<lambda>m. cm_id m = new_id) (\<lambda>m. m\<lparr>cm_publication_state := PendingPublication\<rparr>) (cd_messages d) = cd_messages d"
    by (auto intro: upd_where_none)
  then have d': "cd_conversations d' = upd_where (\<lambda>r. cv_id r = cv_id c) (\<lambda>r. r\<lparr>cv_last_seq := cv_last_seq r + 1\<rparr>) (cd_conversations d)"
      "cd_messages d' = cd_messages d @ [m]"
      "cd_recipients d' = cd_recipients d @ snapshot_recipients auth c new_id d"
      "cd_receipts d' = cd_receipts d @ map (new_receipt (if cv_publication c = ViaOutbox then None else Some now)) (snapshot_recipients auth c new_id d)"
      "cv_publication c \<noteq> ViaOutbox \<Longrightarrow> cd_outbox d' = cd_outbox d"
      "cv_publication c = ViaOutbox \<Longrightarrow> cd_outbox d' = (if exists_row (slot_is new_id) (cd_outbox d) then cd_outbox d else cd_outbox d @ [sl])"
    using assms(1) by (simp_all add: store_message_def enqueue_def m_def sl_def Let_def bindE_eq_Inr slot_is_eq split: if_splits)
      (auto simp: store_message_def enqueue_def m_def sl_def Let_def bindE_eq_Inr slot_is_eq split: if_splits)
  show ?thesis
    using c fresh new snapshot_message [of auth c new_id d] d'
    by (intro posted [of d m c d' "snapshot_recipients auth c new_id d" "if cv_publication c = ViaOutbox then None else Some now" sl])
      (auto simp: m_def sl_def find_None_set)
qed


lemma conversation_at_id: "conversation_at d i = Some c \<Longrightarrow> cv_id c = i"
  by (auto simp: conversation_at_def dest: find_SomeD)

text \<open>A send that commits found a thread that is open and a seat that may post in the very state it
  committed on, and was a retry or a new message.\<close>

lemma send_tx_cases:
  assumes "send_tx X now new_id key auth i input body metadata d = Inr (x, d')"
  obtains (retry) c s m where "conversation_at d i = Some c" "cv_archived_at c = None" "cv_write_paused_at c = None"
      "require_project_open auth i d = Inr ()" "find (my_seat auth i) (cd_seats d) = Some s" "may_send s"
      "find (\<lambda>m. cm_conversation_id m = i \<and> cm_request_id m = sn_request_id input) (cd_messages d) = Some m"
      "cm_body_sha256 m = Some (body_digest X body)" "st_message_id x = cm_id m" "st_seq x = cm_seq m" "d' = d"
    | (fresh) c s where "conversation_at d i = Some c" "cv_archived_at c = None" "cv_write_paused_at c = None"
      "require_project_open auth i d = Inr ()" "find (my_seat auth i) (cd_seats d) = Some s" "may_send s"
      "find (\<lambda>m. cm_conversation_id m = i \<and> cm_request_id m = sn_request_id input) (cd_messages d) = None"
      "store_message X now new_id key auth c input body metadata d = Inr d'" "st_message_id x = new_id" "st_seq x = cv_last_seq c + 1"
proof -
  from assms obtain c where c: "conversation_at d i = Some c" by (auto simp: send_tx_def bindE_eq_Inr ok_or_eq_Inr)
  note rest = assms [unfolded send_tx_def c ok_or_simps bindE_Inr]
  from rest have open1: "cv_archived_at c = None" "cv_write_paused_at c = None" "require_project_open auth i d = Inr ()"
    by (auto simp: bindE_eq_Inr split: if_splits)
  from rest obtain s where s: "find (my_seat auth i) (cd_seats d) = Some s" "may_send s"
    by (auto simp: open1 split: if_splits option.splits)
  note last = rest [unfolded open1 s option.case bindE_Inr]
  show thesis
  proof (cases "find (\<lambda>m. cm_conversation_id m = i \<and> cm_request_id m = sn_request_id input) (cd_messages d)")
    case None
    with last s obtain d1 where "store_message X now new_id key auth c input body metadata d = Inr d1" "d' = d1"
      "st_message_id x = new_id" "st_seq x = cv_last_seq c + 1"
      by (auto simp: bindE_eq_Inr)
    with None c open1 s fresh show thesis by simp
  next
    case (Some m)
    with last s have "cm_body_sha256 m = Some (body_digest X body)" "st_message_id x = cm_id m" "st_seq x = cm_seq m" "d' = d"
      by (auto split: if_splits)
    with Some c open1 s retry show thesis by simp
  qed
qed

lemma send_step: "send_tx X now new_id key auth i input body metadata d = Inr (x, d') \<Longrightarrow> thread_step d d'"
proof (erule send_tx_cases)
  fix c
  assume "conversation_at d i = Some c" "store_message X now new_id key auth c input body metadata d = Inr d'"
    "find (\<lambda>m. cm_conversation_id m = i \<and> cm_request_id m = sn_request_id input) (cd_messages d) = None"
  then show "thread_step d d'" using conversation_at_id by (intro store_message_step) auto
qed simp

text \<open>Reading writes nothing but tombstones.\<close>

definition only_tombstones :: "cdb \<Rightarrow> cdb \<Rightarrow> bool" where
  "only_tombstones d d' \<longleftrightarrow> (\<exists>ms. d' = d\<lparr>cd_messages := ms\<rparr> \<and> list_all2 msg_kept (cd_messages d) ms)"

lemma only_tombstones_refl [simp]: "only_tombstones d d"
  unfolding only_tombstones_def by (rule exI [of _ "cd_messages d"]) simp

lemma only_tombstones_trans: "only_tombstones a b \<Longrightarrow> only_tombstones b c \<Longrightarrow> only_tombstones a c"
  unfolding only_tombstones_def
  by (elim exE conjE, rule exI [of _ "cd_messages c"]) (auto intro: list_all2_trans [OF msg_kept_trans])

lemma tombstone_only: "only_tombstones d (tombstone now i why d)"
  unfolding only_tombstones_def tombstone_def
  by (intro exI conjI, rule refl) (rule list_all2_upd_where; simp add: kept_rows)

lemma resolve_body_only: "only_tombstones d (snd (resolve_body Bs now team m d))"
  by (auto simp: resolve_body_def tombstone_only split: publication_state.split option.split sum.split)

lemma show_page_only: "only_tombstones d (snd (show_page Bs now team mine rows d))"
proof (induction rows arbitrary: d)
  case Nil
  then show ?case by simp
next
  case (Cons row rows)
  obtain m agent where row: "row = (m, agent)" by force
  obtain body d1 where r: "resolve_body Bs now team m d = (body, d1)" by force
  have "only_tombstones d d1" using resolve_body_only [of d Bs now team m] by (simp add: r)
  then show ?case using Cons.IH [of d1]
    by (simp add: row r case_prod_beta' Let_def only_tombstones_trans)
qed

lemma only_tombstones_step: "only_tombstones d d' \<Longrightarrow> thread_step d d'"
  by (auto simp: only_tombstones_def intro!: kept)

lemma get_message_only: "only_tombstones d (snd (get_message Bs now auth message_id d))"
  unfolding get_message_def snd_case_sum
  by (auto simp: Let_def case_prod_beta' resolve_body_only split: sum.split)

lemma conv_read_only: "only_tombstones d (snd (conv_read Bs now auth i after_seq limit d0 d))"
  unfolding conv_read_def snd_case_sum Let_def
  by (auto simp: case_prod_beta' show_page_only split: sum.split)

lemma recover_tx_same: "recover_tx now auth i after n d = Inr (rows, d') \<Longrightarrow> d' = conv_audit now auth (Some i) ''member.recover'' (Some (au_agent_id auth)) d"
  by (auto simp: recover_tx_def bindE_eq_Inr Let_def split: if_splits)

lemma recover_step: "thread_step d (snd (recover_history Bs now auth i after_seq limit d0 d))"
proof -
  define r where "r = transact (recover_tx now auth i (unwrap_or 0 after_seq) (clamp 1 MAX_PAGE (unwrap_or DEFAULT_PAGE limit))) d"
  have "thread_step d (snd (show_page Bs now (au_team_id auth) (\<lambda>_. None) rows (snd r)))" if "fst r = Inr rows" for rows
  proof -
    have "snd r = conv_audit now auth (Some i) ''member.recover'' (Some (au_agent_id auth)) d"
      using that by (auto simp: r_def transact_def dest: recover_tx_same split: sum.splits)
    then show ?thesis
      using show_page_only [of "snd r" Bs now "au_team_id auth" "\<lambda>_. None" rows]
      by (auto simp: only_tombstones_def intro!: kept)
  qed
  moreover have "snd r = d" if "fst r = Inl e" for e
    using that by (simp add: r_def transact_error_rolls_back)
  ultimately show ?thesis
    unfolding recover_history_def snd_case_sum Let_def r_def [symmetric]
    by (auto simp: case_prod_beta' split: sum.split)
qed

lemma worker_steps:
  "thread_step d (snd (lease_next now worker d))"
  "thread_step d (snd (lease_one now worker message_id d))"
  "thread_step d (snd (pg_publish X env d))"
  "thread_step d (release_slot now l why d)"
  "thread_step d (unlease now l d)"
  "thread_step d (snd (mark_uncertain now l why d))"
  "thread_step d (forget_uncertain team d)"
  "thread_step d (clear_bodies confirmed d)"
proof -
  have lease: "slot_kept sl (take_lease now worker n sl)" for sl n
    by (simp add: kept_rows take_lease_def)
  show "thread_step d (snd (lease_next now worker d))"
    by (auto simp: lease_next_def lease split: option.split intro!: kept list_all2_upd_where)
  show "thread_step d (snd (lease_one now worker message_id d))"
    by (auto simp: lease_one_def Let_def lease split: option.split intro!: kept list_all2_upd_where)
  show "thread_step d (snd (pg_publish X env d))"
    by (auto simp: pg_publish_def Let_def kept_rows intro!: kept list_all2_upd_where)
  show "thread_step d (release_slot now l why d)" "thread_step d (unlease now l d)"
    by (auto simp: release_slot_def unlease_def kept_rows intro!: kept list_all2_upd_where)
  show "thread_step d (snd (mark_uncertain now l why d))"
    by (auto simp: mark_uncertain_def kept_rows intro!: kept list_all2_upd_where)
  show "thread_step d (forget_uncertain team d)" "thread_step d (clear_bodies confirmed d)"
    by (auto simp: forget_uncertain_def clear_bodies_def on_broker_def kept_rows intro!: kept list_all2_upd_where)
qed

lemma set_publication_step: "set_publication i outbox d = Inr (x, d') \<Longrightarrow> thread_step d d'"
  by (rule kept; auto simp: set_publication_def kept_rows map_upd_where_same split: if_splits)

lemma ack_step:
  assumes "(let P = (\<lambda>r. rr_message_id r = message_id \<and> rr_membership_id r = membership \<and>
                     exists_row (\<lambda>m. mb_id m = rr_membership_id r \<and> mb_state m = Active) (cd_seats d)) in
     if \<not> exists_row P (cd_receipts d) then Inl e
     else bindE (enqueue_receipt_reference X now new_id message_id membership obs
       (conv_audit now auth (Some i) act (Some message_id) (d\<lparr>cd_receipts := upd_where P (acknowledge now resolved note) (cd_receipts d)\<rparr>)))
       (\<lambda>d. Inr ((), d))) = Inr (x, d')"
  shows "thread_step d d'"
proof -
  have grows: "receipt_grows r (acknowledge now resolved note r)" for r
    by (auto simp: kept_rows acknowledge_def unwrap_or_def split: option.split)
  show ?thesis
    using assms by (auto simp: Let_def bindE_eq_Inr same_tables_def grows split: if_splits
      dest!: enqueue_references_same(2) intro!: kept list_all2_upd_where)
qed

lemma after_open: "bindE (require_project_open auth i d) (\<lambda>_. f) = Inr y \<Longrightarrow> f = Inr y \<and> require_project_open auth i d = Inr ()"
  by (simp add: bindE_eq_Inr)

lemmas thread_keep = keep_after_checks [where R = thread_step] keep_readback [where R = thread_step]
  keep_conv_guarded [where R = thread_step] keep_transact [where R = thread_step]

lemma conv_exec_step: "thread_step d (conv_exec q d)"
proof (cases q)
  case (CreateProjectReq now new_id auth name d0)
  show ?thesis
    unfolding CreateProjectReq conv_exec.simps create_project_def split_beta
    by (intro thread_keep thread_step_refl) (auto simp: add_grant_def same_tables_def split: option.splits if_splits intro!: thread_step_same)
next
  case (ProjectAccessReq X now auth project agent grant d0)
  show ?thesis
    unfolding ProjectAccessReq conv_exec.simps set_project_access_def split_beta
    by (intro thread_keep thread_step_refl) (auto simp: add_grant_def same_tables_def split: if_splits intro!: thread_step_same)
next
  case (CreateConvReq X now i fresh auth input d0)
  show ?thesis
    unfolding CreateConvReq conv_exec.simps create_conversation_def split_beta
    by (intro thread_keep thread_step_refl) (auto intro: create_conversation_step)
next
  case (ArchiveReq now auth i d0)
  show ?thesis
    unfolding ArchiveReq conv_exec.simps archive_conversation_def split_beta
    by (intro thread_keep thread_step_refl) (auto simp: kept_rows map_upd_where_same dest!: after_open intro!: kept)
next
  case (InviteReq now new_id auth i address role from_start d0)
  show ?thesis
    unfolding InviteReq conv_exec.simps invite_def split_beta
    by (intro thread_keep thread_step_refl) (auto dest: seat_tx_steps(1))
next
  case (JoinReq now auth i d0)
  show ?thesis
    unfolding JoinReq conv_exec.simps join_def split_beta
    by (intro thread_keep thread_step_refl) (auto simp: supersede_predecessor_def same_tables_def Let_def split: option.splits dest!: after_open intro!: thread_step_same)
next
  case (LeaveReq now auth i d0)
  show ?thesis
    unfolding LeaveReq conv_exec.simps leave_def split_beta
    by (intro thread_keep thread_step_refl) (auto simp: same_tables_def Let_def split: if_splits intro!: thread_step_same)
next
  case (RemoveReq now auth i address d0)
  show ?thesis
    unfolding RemoveReq conv_exec.simps remove_member_def split_beta
    by (intro thread_keep thread_step_refl) (auto dest: seat_tx_steps(2))
next
  case (TransferReq now new_id auth i to d0)
  show ?thesis
    unfolding TransferReq conv_exec.simps transfer_membership_def split_beta
    by (intro thread_keep thread_step_refl) (auto dest: seat_tx_steps(3))
next
  case (SendReq X now new_id key auth i input d0)
  show ?thesis
    unfolding SendReq conv_exec.simps send_def split_beta
    by (intro thread_keep thread_step_refl) (auto dest: send_step)
next
  case (AckReq X now new_id auth message_id resolved remark d0)
  show ?thesis
    unfolding AckReq conv_exec.simps conv_ack_def split_beta
    by (intro thread_keep thread_step_refl) (auto dest!: after_open dest: ack_step)
next
  case (SettleReq X now fresh l outcome)
  show ?thesis
    unfolding SettleReq conv_exec.simps  split_beta
    by (intro thread_keep thread_step_refl) (auto dest: settle_step)
next
  case (SetPublicationReq i outbox)
  show ?thesis
    unfolding SetPublicationReq conv_exec.simps  split_beta
    by (intro thread_keep thread_step_refl) (auto dest: set_publication_step)
next
  case (ElsewhereReq f)
  then show ?thesis by (auto simp: same_tables_def intro!: thread_step_same)
qed (auto simp: worker_steps recover_step release_published_bodies_def
    intro: only_tombstones_step [OF conv_read_only] only_tombstones_step [OF get_message_only])

end
