(* ===== verification/ConvDemo.thy ===== *)
theory ConvDemo
  imports ConvRuns Demo
begin

text \<open>
  A small conversation the witnesses of the conversation theories evaluate: \<open>ana\<close> opens a private
  thread from her window and invites \<open>bo\<close>, who joins. \<open>start_cdb b\<close> is the installation with the
  feature switched on and new threads routed to the backend \<open>b\<close>.
\<close>

definition start_cdb :: "string \<Rightarrow> cdb" where
  "start_cdb b = \<lparr>cd_base = demo_db, cd_teams = [\<lparr>ct_id = 1, ct_conversations_enabled = True, ct_default_backend = b\<rparr>],
     cd_projects = [], cd_grants = [], cd_conversations = [], cd_seats = [], cd_messages = [], cd_recipients = [],
     cd_receipts = [], cd_audit = [], cd_outbox = [], cd_events = [], cd_deliveries = [], cd_moving = []\<rparr>"

definition demo_conv :: create_conv_input where
  "demo_conv = \<lparr>cc_title = ''plan'', cc_project = None, cc_private = True, cc_invite = [''bo'']\<rparr>"

definition demo_create :: "string \<Rightarrow> conv_req" where
  "demo_create b = CreateConvReq demo_ext 10 7 (\<lambda>k. 20 + k) ana_api demo_conv (start_cdb b)"

definition demo_join :: "string \<Rightarrow> conv_req" where
  "demo_join b = JoinReq 11 bo 7 (start_cdb b)"

definition demo_thread :: "string \<Rightarrow> cdb" where
  "demo_thread b = runs conv_exec [demo_create b, demo_join b] (start_cdb b)"

definition demo_input :: "uuid \<Rightarrow> string \<Rightarrow> send_input" where
  "demo_input request body = \<lparr>sn_body = body, sn_request_id = request, sn_reply_to = None, sn_metadata = None\<rparr>"

lemma demo_thread_seats:
  "map (\<lambda>m. (mb_id m, mb_agent_id m, mb_session m, mb_role m, mb_state m)) (cd_seats (demo_thread ''postgres'')) =
     [(20, 10, ''api'', Owner, Active), (21, 11, [], Participant, Active)]"
  by code_simp

lemma demo_send: "\<not> isl (fst (send demo_ext 12 40 60 ana_api 7 (demo_input 5 ''hello'') (demo_thread ''postgres'') (demo_thread ''postgres'')))"
  by code_simp

end
