(* ===== verification/ThreadHistory.thy ===== *)
theory ThreadHistory
  imports Threads ConvDemo
begin

text \<open>
  What a thread's history promises over every run of the subsystem: sequences without gaps, one
  message per request id, a recipient list that is never rewritten and receipts that only grow.
\<close>

section \<open>Rows that persist\<close>

lemma list_all2_filter_map:
  "list_all2 R xs ys \<Longrightarrow> (\<And>x y. R x y \<Longrightarrow> P y = P x \<and> g y = g x) \<Longrightarrow> map g (filter P ys) = map g (filter P xs)"
  by (induction xs ys rule: list_all2_induct) auto

lemma list_all2_map: "list_all2 R xs ys \<Longrightarrow> (\<And>x y. R x y \<Longrightarrow> g y = g x) \<Longrightarrow> map g ys = map g xs"
  by (induction xs ys rule: list_all2_induct) auto

lemma list_all2_filter:
  "list_all2 R xs ys \<Longrightarrow> (\<And>x y. R x y \<Longrightarrow> P y = P x) \<Longrightarrow> list_all2 R (filter P xs) (filter P ys)"
  by (induction xs ys rule: list_all2_induct) auto

lemma message_persists:
  assumes "thread_step d d'" and "m \<in> set (cd_messages d)"
  shows "\<exists>m' \<in> set (cd_messages d'). msg_core m' = msg_core m"
  using assms
proof (cases rule: thread_step.cases)
  case kept
  then show ?thesis using list_all2_left [OF kept(2) assms(2)] by (auto simp: msg_kept_def)
next
  case (published now l locator)
  then show ?thesis using assms(2)
    by (intro bexI [of _ "if cm_id m = le_message_id l then m\<lparr>cm_publication_state := Stored, cm_canonical_locator := Some locator\<rparr> else m"])
      (auto simp: set_upd_where msg_core_def)
next
  case (gave_up now l f)
  then show ?thesis using assms(2)
    by (intro bexI [of _ "if cm_id m = le_message_id l then m\<lparr>cm_publication_state := PublicationFailed\<rparr> else m"])
      (auto simp: set_upd_where msg_core_def)
qed (use assms(2) in \<open>auto simp: same_tables_def\<close>)

section \<open>Well-formed threads\<close>

definition thread_seqs :: "cdb \<Rightarrow> uuid \<Rightarrow> int list" where
  "thread_seqs d i = map cm_seq (filter (\<lambda>m. cm_conversation_id m = i) (cd_messages d))"

definition request_key :: "conv_message_row \<Rightarrow> uuid \<times> uuid" where
  "request_key m = (cm_conversation_id m, cm_request_id m)"

definition has_thread :: "cdb \<Rightarrow> conv_message_row \<Rightarrow> bool" where
  "has_thread d m \<longleftrightarrow> list_ex (\<lambda>c. cv_id c = cm_conversation_id m \<and> cv_backend c = cm_backend m) (cd_conversations d)"

definition gap_free :: "cdb \<Rightarrow> conversation_row \<Rightarrow> bool" where
  "gap_free d c \<longleftrightarrow> 0 \<le> cv_last_seq c \<and> thread_seqs d (cv_id c) = [1..cv_last_seq c]"

definition thread_wf :: "cdb \<Rightarrow> bool" where
  "thread_wf d \<longleftrightarrow> distinct (map cv_id (cd_conversations d)) \<and> distinct (map cm_id (cd_messages d)) \<and>
     distinct (map request_key (cd_messages d)) \<and> list_all (gap_free d) (cd_conversations d) \<and>
     list_all (has_thread d) (cd_messages d)"

lemma has_thread_core:
  assumes "map conv_core (cd_conversations d') = map conv_core (cd_conversations d)" and m: "msg_core m' = msg_core m"
  shows "has_thread d' m' = has_thread d m"
proof -
  have eq: "has_thread d m \<longleftrightarrow> list_ex (\<lambda>(i, _, _, _, _, b). i = cm_conversation_id m \<and> b = cm_backend m) (map conv_core (cd_conversations d))"
    for d m by (simp add: has_thread_def list_ex_iff conv_core_def)
  have "cm_conversation_id m' = cm_conversation_id m" "cm_backend m' = cm_backend m" using m by (simp_all add: msg_core_def)
  then show ?thesis unfolding eq assms(1) by simp
qed

lemma gap_free_core:
  assumes "map conv_core cs' = map conv_core cs" and "\<And>i. thread_seqs d' i = thread_seqs d i"
  shows "list_all (gap_free d') cs' = list_all (gap_free d) cs"
proof -
  have "list_all (gap_free d) cs \<longleftrightarrow> list_all (\<lambda>(i, _, _, _, n, _). 0 \<le> n \<and> thread_seqs d i = [1..n]) (map conv_core cs)" for d cs
    by (induction cs) (auto simp: gap_free_def conv_core_def)
  then show ?thesis using assms by simp
qed

text \<open>Updating columns outside \<open>msg_core\<close> keeps the threads well-formed.\<close>

lemma thread_wf_core:
  assumes "thread_wf d" and convs: "map conv_core (cd_conversations d') = map conv_core (cd_conversations d)"
    and msgs: "map msg_core (cd_messages d') = map msg_core (cd_messages d)"
  shows "thread_wf d'"
proof -
  have l: "list_all2 (\<lambda>a b. msg_core b = msg_core a) (cd_messages d) (cd_messages d')"
    using msgs by (auto simp: list_all2_conv_all_nth dest: map_eq_imp_length_eq) (metis map_eq_imp_length_eq nth_map)
  have "map cv_id cs = map fst (map conv_core cs)" for cs by (simp add: conv_core_def)
  then have "map cv_id (cd_conversations d') = map cv_id (cd_conversations d)" using convs by metis
  moreover have "map cm_id (cd_messages d') = map cm_id (cd_messages d)"
    "map request_key (cd_messages d') = map request_key (cd_messages d)"
    by (rule list_all2_map [OF l]; simp add: msg_core_def request_key_def)+
  moreover have "thread_seqs d' i = thread_seqs d i" for i
    unfolding thread_seqs_def by (rule list_all2_filter_map [OF l]) (simp add: msg_core_def)
  then have "list_all (gap_free d') (cd_conversations d') = list_all (gap_free d) (cd_conversations d)"
    by (rule gap_free_core [OF convs])
  moreover have "list_all2 (\<lambda>a b. has_thread d' b = has_thread d a) (cd_messages d) (cd_messages d')"
    by (rule list_all2_mono [OF l]) (rule has_thread_core [OF convs])
  then have "list_all (has_thread d') (cd_messages d') = list_all (has_thread d) (cd_messages d)"
    by (induction rule: list_all2_induct) simp_all
  ultimately show ?thesis using assms(1) by (simp add: thread_wf_def)
qed


lemma map_core_upd: "(\<And>m. msg_core (f m) = msg_core m) \<Longrightarrow> map msg_core (upd_where P f ms) = map msg_core ms"
  by (rule map_upd_where_same)

lemma thread_wf_open:
  assumes wf: "thread_wf d" and new: "conversation_at d (cv_id c) = None" "cv_last_seq c = 0"
    and d': "cd_conversations d' = cd_conversations d @ [c]" "cd_messages d' = cd_messages d"
  shows "thread_wf d'"
proof -
  have fresh: "cv_id c \<notin> cv_id ` set (cd_conversations d)"
    using new(1) by (force simp: conversation_at_def find_None_set)
  have "cm_conversation_id m \<noteq> cv_id c" if "m \<in> set (cd_messages d)" for m
  proof -
    have "has_thread d m" using wf that by (simp add: thread_wf_def list_all_iff)
    then obtain x where "x \<in> set (cd_conversations d)" "cv_id x = cm_conversation_id m"
      by (auto simp: has_thread_def list_ex_iff)
    with fresh show ?thesis by (metis imageI)
  qed
  then have "thread_seqs d (cv_id c) = []"
    by (simp add: thread_seqs_def filter_empty_conv)
  moreover have "thread_seqs d' = thread_seqs d" by (rule ext) (simp add: thread_seqs_def d')
  ultimately show ?thesis using wf fresh new(2)
    by (auto simp: thread_wf_def d' gap_free_def has_thread_def list_all_iff list_ex_iff)
qed

lemma thread_wf_post:
  assumes wf: "thread_wf d" and c: "conversation_at d (cm_conversation_id m) = Some c"
    and seq: "cm_seq m = cv_last_seq c + 1" and backend: "cm_backend m = cv_backend c"
    and new: "find (\<lambda>r. cm_id r = cm_id m) (cd_messages d) = None"
      "find (\<lambda>r. cm_conversation_id r = cm_conversation_id m \<and> cm_request_id r = cm_request_id m) (cd_messages d) = None"
    and d': "cd_conversations d' = upd_where (\<lambda>r. cv_id r = cm_conversation_id m) (\<lambda>r. r\<lparr>cv_last_seq := cv_last_seq r + 1\<rparr>) (cd_conversations d)"
      "cd_messages d' = cd_messages d @ [m]"
  shows "thread_wf d'"
proof -
  let ?bump = "\<lambda>r. if cv_id r = cm_conversation_id m then r\<lparr>cv_last_seq := cv_last_seq r + 1\<rparr> else r"
  have cin: "c \<in> set (cd_conversations d)" "cv_id c = cm_conversation_id m"
    using c by (auto simp: conversation_at_def dest: find_SomeD)
  have only: "r = c" if "r \<in> set (cd_conversations d)" "cv_id r = cm_conversation_id m" for r
    using wf that cin distinct_map_inj [of cv_id "cd_conversations d" r c] by (simp add: thread_wf_def)
  have seqs: "thread_seqs d' i = thread_seqs d i @ (if i = cm_conversation_id m then [cm_seq m] else [])" for i
    by (simp add: thread_seqs_def d')
  have bumped: "gap_free d' (?bump r)" if r: "r \<in> set (cd_conversations d)" for r
  proof (cases "cv_id r = cm_conversation_id m")
    case True
    with r only have "r = c" by simp
    moreover have "gap_free d c" using wf cin by (simp add: thread_wf_def list_all_iff)
    ultimately show ?thesis
      using True upto_rec2 [of 1 "cv_last_seq c + 1"] by (simp add: gap_free_def seqs seq)
  next
    case False
    moreover have "gap_free d r" using wf r by (simp add: thread_wf_def list_all_iff)
    ultimately show ?thesis by (simp add: gap_free_def seqs)
  qed
  have "list_all (gap_free d') (cd_conversations d')"
    unfolding list_all_iff d' set_upd_where using bumped by (intro ballI) (erule imageE, simp only:)
  moreover have "has_thread d' r" if "r \<in> set (cd_messages d')" for r
  proof -
    have "has_thread d r"
      using that wf cin backend by (auto simp: d' thread_wf_def has_thread_def list_all_iff list_ex_iff)
    then obtain x where "x \<in> set (cd_conversations d)" "cv_id x = cm_conversation_id r" "cv_backend x = cm_backend r"
      by (auto simp: has_thread_def list_ex_iff)
    then show ?thesis unfolding has_thread_def list_ex_iff d' set_upd_where by (intro bexI [of _ "?bump x"]) auto
  qed
  moreover have "map cv_id (cd_conversations d') = map cv_id (cd_conversations d)"
    by (simp add: d' map_upd_where_same)
  moreover have "cm_id m \<notin> cm_id ` set (cd_messages d)" "request_key m \<notin> request_key ` set (cd_messages d)"
    using new by (auto simp: find_None_set request_key_def)
  ultimately show ?thesis using wf
    by (simp add: thread_wf_def d'(2) list_all_iff)
qed

lemma thread_wf_step:
  assumes "thread_wf d" and "thread_step d d'"
  shows "thread_wf d'"
  using assms(2)
proof (cases rule: thread_step.cases)
  case kept
  have "map msg_core (cd_messages d') = map msg_core (cd_messages d)"
    by (rule list_all2_map [OF kept(2)]) (simp add: msg_kept_def)
  then show ?thesis by (rule thread_wf_core [OF assms(1) kept(1)])
next
  case (opened c)
  then show ?thesis using thread_wf_open [OF assms(1) opened(1-3)] by (simp add: same_tables_def)
next
  case (posted m c rs st sl)
  show ?thesis by (rule thread_wf_post [OF assms(1) posted(1-7)])
next
  case (published now l locator)
  show ?thesis
    by (rule thread_wf_core [OF assms(1)]) (simp_all add: published(2,4) map_core_upd msg_core_def)
next
  case (gave_up now l f)
  show ?thesis
    by (rule thread_wf_core [OF assms(1)]) (simp_all add: gave_up(2,5) map_core_upd msg_core_def)
qed

interpretation threads: kept_invariant conv_exec thread_wf
  by unfold_locales (rule thread_wf_step [OF _ conv_exec_step])


section \<open>One message per request\<close>

lemma runs_core_persists:
  "m \<in> set (cd_messages d) \<Longrightarrow> \<exists>m' \<in> set (cd_messages (runs conv_exec qs d)). msg_core m' = msg_core m"
proof (induction qs arbitrary: d m)
  case Nil
  then show ?case by auto
next
  case (Cons q qs)
  obtain m1 where "m1 \<in> set (cd_messages (conv_exec q d))" "msg_core m1 = msg_core m"
    using message_persists [OF conv_exec_step Cons.prems] by auto
  then show ?case using Cons.IH [of m1 "conv_exec q d"] by auto
qed

lemma conv_guarded_Inr:
  "conv_guarded now auth body d = (Inr x, d') \<Longrightarrow> body d = Inr (x, d') \<and> guard now auth (cd_base d) = Inr ()"
  by (auto simp: conv_guarded_def transact_def bindE_eq_Inr split: sum.splits)

lemma send_Inr:
  assumes "send X now new_id key auth i input d0 d = (Inr r, d')"
  obtains body metadata where "send_checks X auth i input d0 = Inr (body, metadata)"
    "guard now auth (cd_base d) = Inr ()" "send_tx X now new_id key auth i input body metadata d = Inr (r, d')"
  using assms by (auto simp: send_def after_checks_def split: sum.splits dest!: conv_guarded_Inr)

lemma store_message_row:
  assumes "store_message X now new_id key auth c input body metadata d = Inr d'"
  shows "\<exists>m \<in> set (cd_messages d'). cm_id m = new_id \<and> cm_conversation_id m = cv_id c \<and> cm_seq m = cv_last_seq c + 1 \<and>
    cm_request_id m = sn_request_id input \<and> cm_body_sha256 m = Some (body_digest X body) \<and> cm_sender_agent m = au_agent_id auth \<and>
    cm_sender_session m = au_session auth"
  using assms by (auto simp: store_message_def enqueue_def Let_def bindE_eq_Inr set_upd_where split: if_splits)

lemma send_leaves_a_row:
  assumes "send X now new_id key auth i input d0 d = (Inr r, d')"
  shows "\<exists>m \<in> set (cd_messages d'). cm_id m = st_message_id r \<and> cm_seq m = st_seq r \<and>
    cm_conversation_id m = i \<and> cm_request_id m = sn_request_id input"
proof -
  obtain body metadata where "send_tx X now new_id key auth i input body metadata d = Inr (r, d')"
    by (rule send_Inr [OF assms])
  then show ?thesis
  proof (cases rule: send_tx_cases)
    case (retry c s m)
    then show ?thesis by (auto dest!: find_SomeD)
  next
    case (fresh c s)
    then show ?thesis using store_message_row [OF fresh(8)] conversation_at_id [OF fresh(1)] by auto
  qed
qed

lemma request_found:
  assumes "thread_wf d" and "m \<in> set (cd_messages d)"
  shows "find (\<lambda>r. cm_conversation_id r = cm_conversation_id m \<and> cm_request_id r = cm_request_id m) (cd_messages d) = Some m"
  using find_unique [of request_key "cd_messages d" m] assms by (simp add: thread_wf_def request_key_def)

lemma send_writes:
  assumes "find (\<lambda>m. cm_conversation_id m = i \<and> cm_request_id m = sn_request_id input) (cd_messages d) = Some m"
  shows "snd (send X now new_id key auth i input d0 d) = d"
    and "fst (send X now new_id key auth i input d0 d) = Inr r \<Longrightarrow> st_message_id r = cm_id m \<and> st_seq r = cm_seq m"
proof -
  have tx: "d' = d \<and> st_message_id r = cm_id m \<and> st_seq r = cm_seq m"
    if "send_tx X now new_id key auth i input body metadata d = Inr (r, d')" for body metadata r d'
    using that assms by (cases rule: send_tx_cases) auto
  show "snd (send X now new_id key auth i input d0 d) = d"
    unfolding send_def split_beta
    by (intro keep_after_checks [where R = "\<lambda>a b. b = a"] keep_conv_guarded [where R = "\<lambda>a b. b = a"]) (auto dest: tx)
  show "st_message_id r = cm_id m \<and> st_seq r = cm_seq m" if "fst (send X now new_id key auth i input d0 d) = Inr r"
    by (rule send_Inr [of X now new_id key auth i input d0 d r "snd (send X now new_id key auth i input d0 d)"])
      (use that tx in \<open>auto simp: prod_eq_iff\<close>)
qed


lemma start_thread_wf: "thread_wf (start_cdb b)"
  by (simp add: thread_wf_def start_cdb_def)

lemma demo_thread_wf: "thread_wf (demo_thread b)"
  unfolding demo_thread_def by (rule threads.invar_runs [OF start_thread_wf])

definition demo_chat :: "conv_req list" where
  "demo_chat = [SendReq demo_ext 12 40 60 ana_api 7 (demo_input 5 ''hello'') (demo_thread ''postgres''),
     SendReq demo_ext 13 41 61 bo 7 (demo_input 6 ''hi'') (demo_thread ''postgres''),
     SendReq demo_ext 14 42 62 bo 7 (demo_input 6 ''hi'') (demo_thread ''postgres'')]"

text \<open>C3: the messages of every thread are numbered 1, 2, 3 and so on up to the thread's last sequence,
  in the order they were accepted, with unique ids and at most one message per request id, whatever
  clients, stale admission checks and publication workers are interleaved.\<close>

theorem threads_have_no_gaps:
  assumes "thread_wf d"
  shows "thread_wf (runs conv_exec qs d)"
  using assms by (rule threads.invar_runs)

theorem threads_have_no_gaps_witness:
  "thread_wf (runs conv_exec demo_chat (demo_thread ''postgres'')) \<and>
   thread_seqs (runs conv_exec demo_chat (demo_thread ''postgres'')) 7 = [1, 2]"
proof -
  have "thread_seqs (runs conv_exec demo_chat (demo_thread ''postgres'')) 7 = [1, 2]" by code_simp
  with threads_have_no_gaps [OF demo_thread_wf] show ?thesis by blast
qed

text \<open>C13: a request id is sent once. After a send was answered, every later send in that thread with
  the same request id, by anybody, with any body and after any run, is refused or answered with the
  first message's id and sequence, and writes nothing.\<close>

theorem a_request_is_sent_once:
  assumes "thread_wf d" and "send X now new_id key auth i input d0 d = (Inr r, d1)"
    and "sn_request_id again = sn_request_id input"
  shows "snd (send X' now' new_id' key' auth' i again d0' (runs conv_exec qs d1)) = runs conv_exec qs d1 \<and>
    (\<forall>r'. fst (send X' now' new_id' key' auth' i again d0' (runs conv_exec qs d1)) = Inr r' \<longrightarrow>
      st_message_id r' = st_message_id r \<and> st_seq r' = st_seq r)"
proof -
  have d1: "d1 = conv_exec (SendReq X now new_id key auth i input d0) d" using assms(2) by simp
  have wf: "thread_wf (runs conv_exec qs d1)"
    unfolding d1 by (intro threads.invar_runs threads.invar_step assms(1))
  obtain m where "m \<in> set (cd_messages d1)" and m: "cm_id m = st_message_id r" "cm_seq m = st_seq r"
      "cm_conversation_id m = i" "cm_request_id m = sn_request_id input"
    using send_leaves_a_row [OF assms(2)] by auto
  then obtain m' where in': "m' \<in> set (cd_messages (runs conv_exec qs d1))" and "msg_core m' = msg_core m"
    using runs_core_persists by blast
  with m have m': "cm_id m' = st_message_id r" "cm_seq m' = st_seq r" "cm_conversation_id m' = i"
      "cm_request_id m' = sn_request_id again" by (simp_all add: msg_core_def assms(3))
  show ?thesis using send_writes [of i again "runs conv_exec qs d1" m'] request_found [OF wf in'] m' by auto
qed

theorem a_request_is_sent_once_witness:
  "conv_exec (SendReq demo_ext 20 43 63 bo 7 (demo_input 5 ''other'') (demo_thread ''postgres''))
     (runs conv_exec demo_chat (demo_thread ''postgres'')) = runs conv_exec demo_chat (demo_thread ''postgres'')"
proof -
  let ?d = "demo_thread ''postgres''"
  let ?send = "send demo_ext 12 40 60 ana_api 7 (demo_input 5 ''hello'') ?d ?d"
  obtain r d1 where s: "?send = (Inr r, d1)"
    using demo_send by (cases ?send; cases "fst ?send") auto
  have "runs conv_exec demo_chat ?d = runs conv_exec (tl demo_chat) d1"
    using s by (simp add: demo_chat_def)
  then show ?thesis
    using a_request_is_sent_once [OF demo_thread_wf s, of "demo_input 5 ''other''"] by (simp add: demo_input_def)
qed

section \<open>Recipients and receipts\<close>

definition recipients_rows :: "cdb \<Rightarrow> uuid \<Rightarrow> recipient_row list" where
  "recipients_rows d i = filter (\<lambda>r. rp_message_id r = i) (cd_recipients d)"

definition receipt_rows :: "cdb \<Rightarrow> uuid \<Rightarrow> receipt_row list" where
  "receipt_rows d i = filter (\<lambda>r. rr_message_id r = i) (cd_receipts d)"

lemma receipts_filter:
  "list_all2 receipt_grows rs rs' \<Longrightarrow> list_all2 receipt_grows (filter (\<lambda>r. rr_message_id r = i) rs) (filter (\<lambda>r. rr_message_id r = i) rs')"
  by (erule list_all2_filter) (simp add: receipt_grows_def)

lemma receipts_step:
  assumes "thread_step d d'" and m: "m \<in> set (cd_messages d)"
  shows "recipients_rows d' (cm_id m) = recipients_rows d (cm_id m) \<and>
    list_all2 receipt_grows (receipt_rows d (cm_id m)) (receipt_rows d' (cm_id m))"
  using assms(1)
proof (cases rule: thread_step.cases)
  case (posted n c rs st sl)
  have ne: "cm_id n \<noteq> cm_id m" using posted(4) m by (auto simp: find_None_set)
  have "filter (\<lambda>r. rp_message_id r = cm_id m) rs = []"
    "filter (\<lambda>r. rr_message_id r = cm_id m) (map (new_receipt st) rs) = []"
    using posted(9) ne by (auto simp: filter_empty_conv new_receipt_def)
  then show ?thesis by (simp add: recipients_rows_def receipt_rows_def posted(8,10))
next
  case (published now l locator)
  show ?thesis
    using receipts_filter [OF published(6)] by (simp add: recipients_rows_def receipt_rows_def published(5))
next
  case kept
  show ?thesis
    using receipts_filter [OF kept(4)] by (simp add: recipients_rows_def receipt_rows_def kept(3))
next
  case (opened c)
  then show ?thesis by (simp add: recipients_rows_def receipt_rows_def same_tables_def)
next
  case (gave_up now l f)
  show ?thesis by (simp add: recipients_rows_def receipt_rows_def gave_up(6,7))
qed

lemma seen_once_trans: "seen_once x y \<Longrightarrow> seen_once y z \<Longrightarrow> seen_once x z"
  by (auto simp: seen_once_def)

lemma receipt_grows_trans: "receipt_grows a b \<Longrightarrow> receipt_grows b c \<Longrightarrow> receipt_grows a c"
  unfolding receipt_grows_def by (elim conjE, intro conjI) (auto elim: seen_once_trans)

text \<open>Who was asked is a fact about the message. From the moment a message is stored its
  recipient list never changes, whoever joins, leaves or is removed later, and its receipts are the
  same rows in which an observation once made is never unmade or moved.\<close>

theorem recipients_and_receipts_are_kept:
  assumes "m \<in> set (cd_messages d)"
  shows "recipients_rows (runs conv_exec qs d) (cm_id m) = recipients_rows d (cm_id m) \<and>
    list_all2 receipt_grows (receipt_rows d (cm_id m)) (receipt_rows (runs conv_exec qs d) (cm_id m))"
  using assms
proof (induction qs arbitrary: d m)
  case Nil
  then show ?case by simp
next
  case (Cons q qs)
  obtain m1 where m1: "m1 \<in> set (cd_messages (conv_exec q d))" "msg_core m1 = msg_core m"
    using message_persists [OF conv_exec_step Cons.prems] by auto
  then have "cm_id m1 = cm_id m" by (simp add: msg_core_def)
  then show ?case
    using Cons.IH [OF m1(1)] receipts_step [OF conv_exec_step [of d q] Cons.prems]
    by (auto intro: list_all2_trans [OF receipt_grows_trans])
qed

theorem recipients_and_receipts_are_kept_witness:
  "map rp_membership_id (recipients_rows (runs conv_exec (demo_chat @ [LeaveReq 30 bo 7 (demo_thread ''postgres'')]) (demo_thread ''postgres'')) 40) = [21]"
proof -
  let ?d = "runs conv_exec (take 1 demo_chat) (demo_thread ''postgres'')"
  have "map cm_id (cd_messages ?d) = [40] \<and> map rp_membership_id (recipients_rows ?d 40) = [21]" by code_simp
  then obtain m where "m \<in> set (cd_messages ?d)" "cm_id m = 40" "map rp_membership_id (recipients_rows ?d 40) = [21]" by auto
  with recipients_and_receipts_are_kept [of m ?d "drop 1 demo_chat @ [LeaveReq 30 bo 7 (demo_thread ''postgres'')]"]
  show ?thesis by (simp add: demo_chat_def runs_append)
qed

end
