(* ===== verification/Reading.thy ===== *)
theory Reading
  imports ThreadHistory
begin

text \<open>
  Who may read and write a thread, and what following a reader's cursor yields. The theorems are about
  the tables: access is spelled out in rows of seats and grants, not in the predicates the code
  computes it with.
\<close>

section \<open>Who may read\<close>

definition thread_reader :: "auth_ctx \<Rightarrow> uuid \<Rightarrow> cdb \<Rightarrow> bool" where
  "thread_reader auth i d \<longleftrightarrow> list_ex (\<lambda>c. cv_id c = i \<and> cv_team_id c = au_team_id auth \<and>
     (case cv_visibility c of
        VProject \<Rightarrow> project_granted d c (au_agent_id auth)
      | VPrivate \<Rightarrow> list_ex (\<lambda>m. my_seat auth i m \<and> mb_state m = Active) (cd_seats d))) (cd_conversations d)"

definition above_floor :: "auth_ctx \<Rightarrow> uuid \<Rightarrow> cdb \<Rightarrow> int \<Rightarrow> bool" where
  "above_floor auth i d seq \<longleftrightarrow> (case find (my_seat auth i) (cd_seats d) of
      None \<Rightarrow> True
    | Some s \<Rightarrow> (case mb_history_from_seq s of None \<Rightarrow> True | Some f \<Rightarrow> f < seq))"

lemma access_Inr:
  assumes "access auth i d = Inr a"
  obtains c where "c \<in> set (cd_conversations d)" "cv_id c = i" "cv_team_id c = au_team_id auth"
    "ac_visibility a = cv_visibility c" "ac_by_project a = (cv_visibility c = VProject \<and> project_granted d c (au_agent_id auth))"
    "ac_last_seq a = cv_last_seq c"
    "ac_membership a = map_option (\<lambda>m. \<lparr>me_id = mb_id m, me_role = mb_role m, me_state = mb_state m, me_history_from_seq = mb_history_from_seq m\<rparr>)
      (find (my_seat auth i) (cd_seats d))"
  using assms by (auto simp: access_def split: option.splits dest!: find_SomeD)

lemma accepted_reader:
  assumes "readable auth i d = Inr a" and "require_accepted a = Inr ()"
  shows "thread_reader auth i d"
proof -
  have acc: "access auth i d = Inr a" using assms(1) by (auto simp: readable_def bindE_eq_Inr split: if_splits)
  then obtain c where c: "c \<in> set (cd_conversations d)" "cv_id c = i" "cv_team_id c = au_team_id auth"
    "ac_visibility a = cv_visibility c" "ac_by_project a = (cv_visibility c = VProject \<and> project_granted d c (au_agent_id auth))"
    and m: "ac_membership a = map_option (\<lambda>m. \<lparr>me_id = mb_id m, me_role = mb_role m, me_state = mb_state m, me_history_from_seq = mb_history_from_seq m\<rparr>)
      (find (my_seat auth i) (cd_seats d))" by (rule access_Inr)
  have may: "can_read_messages a" using assms(2) by (simp add: require_accepted_def split: if_splits)
  show ?thesis
  proof (cases "cv_visibility c")
    case VProject
    then show ?thesis using c may unfolding thread_reader_def list_ex_iff
      by (intro bexI [of _ c]) (auto simp: can_read_messages_def project_open_def)
  next
    case VPrivate
    then have "seat_is a [Active] [Owner, Moderator, Participant, Observer]"
      using c may by (simp add: can_read_messages_def)
    then obtain s where "find (my_seat auth i) (cd_seats d) = Some s" "mb_state s = Active"
      by (auto simp: seat_is_def m split: option.splits)
    then have "s \<in> set (cd_seats d)" "my_seat auth i s" "mb_state s = Active" by (auto dest: find_SomeD)
    with VPrivate c show ?thesis unfolding thread_reader_def list_ex_iff
      by (intro bexI [of _ c]) auto
  qed
qed

lemma floor_above: "access auth i d = Inr a \<Longrightarrow> floor_of a < seq \<Longrightarrow> above_floor auth i d seq"
  by (erule access_Inr) (auto simp: floor_of_def above_floor_def split: option.splits)

lemma before_floor_iff: "access auth i d = Inr a \<Longrightarrow> before_floor a seq \<longleftrightarrow> \<not> above_floor auth i d seq"
  by (erule access_Inr) (auto simp: before_floor_def above_floor_def split: option.splits)

lemma readable_access: "readable auth i d = Inr a \<Longrightarrow> access auth i d = Inr a"
  by (auto simp: readable_def bindE_eq_Inr split: if_splits)

lemma show_message_keys [simp]:
  "vm_message_id (show_message m agent r b) = cm_id m" "vm_seq (show_message m agent r b) = cm_seq m"
  by (simp_all add: show_message_def split: body_state.split)

lemma show_page_keys:
  "map (\<lambda>v. (vm_message_id v, vm_seq v)) (fst (show_page Bs now team mine rows d)) = map (\<lambda>(m, _). (cm_id m, cm_seq m)) rows"
  by (induction rows arbitrary: d) (auto simp: Let_def case_prod_beta')

lemma with_sender_fst: "(m, a) \<in> set (with_sender d ms) \<Longrightarrow> m \<in> set ms"
  by (auto simp: with_sender_def List.map_filter_def)

lemma thread_page_row:
  assumes "(m, a) \<in> set (thread_page i after n d)"
  shows "m \<in> set (cd_messages d) \<and> cm_conversation_id m = i \<and> after < cm_seq m \<and> cm_deleted_at m = None"
proof -
  have "(m, a) \<in> set (with_sender d (sort_key cm_seq (filter (\<lambda>m. cm_conversation_id m = i \<and> cm_seq m > after \<and> cm_deleted_at m = None) (cd_messages d))))"
    using assms unfolding thread_page_def by (rule in_set_takeD)
  from with_sender_fst [OF this] show ?thesis by simp
qed

lemma conv_read_Inr:
  assumes "conv_read Bs now auth i after_seq limit d0 d = (Inr r, d')"
  obtains a0 a mine where "readable auth i d0 = Inr a0" "require_accepted a0 = Inr ()" "readable auth i d = Inr a" "require_accepted a = Inr ()"
    "vr_messages r = fst (show_page Bs now (au_team_id auth) mine (thread_page i (max (unwrap_or 0 after_seq) (floor_of a0))
        (clamp 1 MAX_PAGE (unwrap_or DEFAULT_PAGE limit)) d0) d)"
    "vr_next_after_seq r = next_after (ac_last_seq a) (vr_messages r)"
proof -
  from assms obtain a0 where a0: "readable auth i d0 = Inr a0" "require_accepted a0 = Inr ()" "require_capability auth d0 = Inr ()"
    by (auto simp: conv_read_def bindE_def split: sum.splits)
  from assms obtain a where a: "readable auth i d = Inr a" "require_accepted a = Inr ()"
    by (auto simp: conv_read_def a0 Let_def bindE_def split: sum.splits)
  define rows where "rows = thread_page i (max (unwrap_or 0 after_seq) (floor_of a0)) (clamp 1 MAX_PAGE (unwrap_or DEFAULT_PAGE limit)) d0"
  define mine where "mine = (case ac_membership a of None \<Rightarrow> (\<lambda>_. None)
    | Some m \<Rightarrow> map_of (rev (receipts_for (map (cm_id \<circ> fst) rows) (me_id m) d)))"
  have "vr_messages r = fst (show_page Bs now (au_team_id auth) mine rows d)" "vr_next_after_seq r = next_after (ac_last_seq a) (vr_messages r)"
    using assms by (auto simp: conv_read_def a0 a Let_def case_prod_beta' simp flip: rows_def mine_def)
  with that [OF a0(1,2) a] show thesis unfolding rows_def by blast
qed


lemma demo_reads:
  "\<not> isl (fst (conv_read (\<lambda>_ _. Inl (Db ''off'')) 20 bo 7 None None (runs conv_exec demo_chat (demo_thread ''postgres''))
     (runs conv_exec demo_chat (demo_thread ''postgres''))))"
  "\<not> isl (fst (get_message (\<lambda>_ _. Inl (Db ''off'')) 20 bo 40 (runs conv_exec demo_chat (demo_thread ''postgres''))))"
  "\<not> isl (receipts bo 40 (runs conv_exec demo_chat (demo_thread ''postgres'')))"
  by code_simp+

text \<open>C8: a thread is read only by those who may, from where they may. A page, a message or a list of
  receipts is handed out only to a caller of the thread's team who has the project of a project thread
  or an active seat of a private one, in the state the answer is made on; and never anything from
  before the point the caller's seat starts at.\<close>

theorem conversations_stay_private:
  "(fst (conv_read Bs now auth i after_seq limit d0 d) = Inr r \<longrightarrow>
      thread_reader auth i d0 \<and> thread_reader auth i d \<and>
      (\<forall>v \<in> set (vr_messages r). \<exists>m \<in> set (cd_messages d0). cm_id m = vm_message_id v \<and> cm_conversation_id m = i \<and>
         cm_deleted_at m = None \<and> above_floor auth i d0 (cm_seq m))) \<and>
   (fst (get_message Bs now auth k d) = Inr v \<longrightarrow>
      (\<exists>m \<in> set (cd_messages d). cm_id m = k \<and> vm_message_id v = k \<and> cm_deleted_at m = None \<and>
         thread_reader auth (cm_conversation_id m) d \<and> above_floor auth (cm_conversation_id m) d (cm_seq m))) \<and>
   (receipts auth k d = Inr rs \<longrightarrow>
      (\<exists>m \<in> set (cd_messages d). cm_id m = k \<and> thread_reader auth (cm_conversation_id m) d \<and>
         above_floor auth (cm_conversation_id m) d (cm_seq m)))"
proof (intro conjI impI)
  assume "fst (conv_read Bs now auth i after_seq limit d0 d) = Inr r"
  then obtain d' where "conv_read Bs now auth i after_seq limit d0 d = (Inr r, d')" by (metis prod.collapse)
  then obtain a0 a mine where a0: "readable auth i d0 = Inr a0" "require_accepted a0 = Inr ()"
    and a: "readable auth i d = Inr a" "require_accepted a = Inr ()"
    and ms: "vr_messages r = fst (show_page Bs now (au_team_id auth) mine (thread_page i (max (unwrap_or 0 after_seq) (floor_of a0))
        (clamp 1 MAX_PAGE (unwrap_or DEFAULT_PAGE limit)) d0) d)" by (rule conv_read_Inr)
  show "thread_reader auth i d0" "thread_reader auth i d" using a0 a by (auto intro: accepted_reader)
  show "\<forall>v \<in> set (vr_messages r). \<exists>m \<in> set (cd_messages d0). cm_id m = vm_message_id v \<and> cm_conversation_id m = i \<and>
         cm_deleted_at m = None \<and> above_floor auth i d0 (cm_seq m)"
  proof
    fix v assume "v \<in> set (vr_messages r)"
    then have "(vm_message_id v, vm_seq v) \<in> set (map (\<lambda>v. (vm_message_id v, vm_seq v)) (vr_messages r))" by auto
    then obtain m ag where m: "(m, ag) \<in> set (thread_page i (max (unwrap_or 0 after_seq) (floor_of a0)) (clamp 1 MAX_PAGE (unwrap_or DEFAULT_PAGE limit)) d0)"
      "cm_id m = vm_message_id v" unfolding ms show_page_keys by auto
    from thread_page_row [OF m(1)] have row: "m \<in> set (cd_messages d0)" "cm_conversation_id m = i" "cm_deleted_at m = None" "floor_of a0 < cm_seq m"
      by auto
    with m(2) floor_above [OF readable_access [OF a0(1)] row(4)]
    show "\<exists>m \<in> set (cd_messages d0). cm_id m = vm_message_id v \<and> cm_conversation_id m = i \<and> cm_deleted_at m = None \<and> above_floor auth i d0 (cm_seq m)"
      by blast
  qed
next
  assume "fst (get_message Bs now auth k d) = Inr v"
  then obtain m ag a where f: "fetch_optional (with_sender d (filter (\<lambda>m. cm_id m = k \<and> cm_deleted_at m = None) (cd_messages d))) = Some (m, ag)"
    and a: "readable auth (cm_conversation_id m) d = Inr a" "require_accepted a = Inr ()" "\<not> before_floor a (cm_seq m)" "vm_message_id v = cm_id m"
    by (auto simp: get_message_def bindE_def ok_or_def Let_def case_prod_beta' split: sum.splits option.splits if_splits)
  from f have "(m, ag) \<in> set (with_sender d (filter (\<lambda>m. cm_id m = k \<and> cm_deleted_at m = None) (cd_messages d)))"
    by (auto simp: fetch_optional_def split: list.splits)
  from with_sender_fst [OF this] a show "\<exists>m \<in> set (cd_messages d). cm_id m = k \<and> vm_message_id v = k \<and> cm_deleted_at m = None \<and>
         thread_reader auth (cm_conversation_id m) d \<and> above_floor auth (cm_conversation_id m) d (cm_seq m)"
    using before_floor_iff [OF readable_access [OF a(1)]] accepted_reader by auto
next
  assume "receipts auth k d = Inr rs"
  then obtain m a where "find (\<lambda>m. cm_id m = k) (cd_messages d) = Some m" "readable auth (cm_conversation_id m) d = Inr a"
    "require_accepted a = Inr ()" "\<not> before_floor a (cm_seq m)"
    by (auto simp: receipts_def bindE_eq_Inr ok_or_eq_Inr split: if_splits)
  then show "\<exists>m \<in> set (cd_messages d). cm_id m = k \<and> thread_reader auth (cm_conversation_id m) d \<and> above_floor auth (cm_conversation_id m) d (cm_seq m)"
    using before_floor_iff [OF readable_access] accepted_reader by (auto dest!: find_SomeD)
qed

theorem conversations_stay_private_witness:
  "list_ex (\<lambda>m. cm_id m = 40 \<and> thread_reader bo (cm_conversation_id m) (runs conv_exec demo_chat (demo_thread ''postgres'')))
     (cd_messages (runs conv_exec demo_chat (demo_thread ''postgres''))) \<and>
   isl (receipts (bo\<lparr>au_session := ''x''\<rparr>) 40 (runs conv_exec demo_chat (demo_thread ''postgres'')))"
proof -
  let ?d = "runs conv_exec demo_chat (demo_thread ''postgres'')"
  obtain rs where "receipts bo 40 ?d = Inr rs" using demo_reads(3) by (cases "receipts bo 40 ?d") auto
  moreover have "isl (receipts (bo\<lparr>au_session := ''x''\<rparr>) 40 ?d)" by code_simp
  ultimately show ?thesis
    using conversations_stay_private [where Bs = "\<lambda>_ _. Inl (Db ''off'')" and now = 20 and auth = bo and d = ?d and k = 40 and rs = rs,
        THEN conjunct2, THEN conjunct2]
    by (auto simp: list_ex_iff)
qed

section \<open>Who may post\<close>

definition may_post :: "auth_ctx \<Rightarrow> uuid \<Rightarrow> cdb \<Rightarrow> bool" where
  "may_post auth i d \<longleftrightarrow> list_ex (\<lambda>c. cv_id c = i \<and> cv_team_id c = au_team_id auth \<and> open_to d c (au_agent_id auth)) (cd_conversations d) \<and>
     list_ex (\<lambda>m. my_seat auth i m \<and> mb_state m = Active \<and> mb_role m \<noteq> Observer) (cd_seats d)"

lemma project_open_reader:
  "require_project_open auth i d = Inr () \<Longrightarrow>
   list_ex (\<lambda>c. cv_id c = i \<and> cv_team_id c = au_team_id auth \<and> open_to d c (au_agent_id auth)) (cd_conversations d)"
  by (auto simp: require_project_open_def list_ex_iff split: option.splits if_splits dest!: find_SomeD)

text \<open>The rows a new message adds, and whom it is addressed to.\<close>

definition snapshot_of :: "auth_ctx \<Rightarrow> uuid \<Rightarrow> cdb \<Rightarrow> (uuid \<times> uuid \<times> string) list" where
  "snapshot_of auth i d = map (\<lambda>m. (mb_id m, mb_agent_id m, mb_session m)) (filter (\<lambda>m. mb_conversation_id m = i \<and> mb_state m = Active \<and>
     (mb_agent_id m, mb_session m) \<noteq> window_of auth \<and>
     (case conversation_at d i of None \<Rightarrow> False | Some c \<Rightarrow> open_to d c (mb_agent_id m))) (cd_seats d))"

lemma store_message_snapshot:
  assumes "store_message X now new_id key auth c input body metadata d = Inr d'" and "conversation_at d i = Some c"
  shows "map (\<lambda>r. (rp_membership_id r, rp_agent_id r, rp_session r)) (recipients_rows d' new_id) =
    map (\<lambda>r. (rp_membership_id r, rp_agent_id r, rp_session r)) (recipients_rows d new_id) @ snapshot_of auth i d"
proof -
  have i: "cv_id c = i" using assms(2) by (rule conversation_at_id)
  have "cd_recipients d' = cd_recipients d @ snapshot_recipients auth c new_id d"
    using assms(1) by (auto simp: store_message_def enqueue_def Let_def bindE_eq_Inr split: if_splits)
  moreover have "filter (\<lambda>r. rp_message_id r = new_id) (snapshot_recipients auth c new_id d) = snapshot_recipients auth c new_id d"
    using snapshot_message [of auth c new_id d] by (simp add: filter_id_conv)
  moreover have "addressed auth c d = (\<lambda>m. mb_conversation_id m = i \<and> mb_state m = Active \<and>
      (mb_agent_id m, mb_session m) \<noteq> window_of auth \<and> open_to d c (mb_agent_id m))"
    by (rule ext) (auto simp: addressed_def window_of_def i)
  then have "map (\<lambda>r. (rp_membership_id r, rp_agent_id r, rp_session r)) (snapshot_recipients auth c new_id d) = snapshot_of auth i d"
    by (simp add: snapshot_recipients_def snapshot_of_def assms(2) comp_def)
  ultimately show ?thesis by (simp add: recipients_rows_def)
qed

text \<open>C6: posting is decided on the state it commits on. A send that is answered had a valid session, a
  thread that is neither archived nor paused, the project of a project thread and an active seat that
  may write in that very state, however old the state its checks read was. A message it adds carries
  the caller's own identity and is addressed to exactly the other active windows that may read.\<close>

theorem posting_needs_a_current_seat:
  assumes "send X now new_id key auth i input d0 d = (Inr r, d')"
  shows "guard now auth (cd_base d) = Inr () \<and> may_post auth i d \<and>
    (\<exists>c. conversation_at d i = Some c \<and> cv_archived_at c = None \<and> cv_write_paused_at c = None) \<and>
    (d' = d \<or> (\<exists>m \<in> set (cd_messages d'). cm_id m = new_id \<and> cm_conversation_id m = i \<and>
       cm_sender_agent m = au_agent_id auth \<and> cm_sender_session m = au_session auth \<and>
       map (\<lambda>r. (rp_membership_id r, rp_agent_id r, rp_session r)) (recipients_rows d' new_id) =
         map (\<lambda>r. (rp_membership_id r, rp_agent_id r, rp_session r)) (recipients_rows d new_id) @ snapshot_of auth i d))"
proof -
  have post: "may_post auth i d" if "require_project_open auth i d = Inr ()" "find (my_seat auth i) (cd_seats d) = Some s" "may_send s" for s
    using that by (auto simp: may_post_def may_send_def list_ex_iff dest!: find_SomeD project_open_reader)
  obtain body metadata where g: "guard now auth (cd_base d) = Inr ()" and tx: "send_tx X now new_id key auth i input body metadata d = Inr (r, d')"
    by (rule send_Inr [OF assms])
  from tx show ?thesis
  proof (cases rule: send_tx_cases)
    case (retry c s m)
    with g post show ?thesis by blast
  next
    case (fresh c s)
    have "cv_id c = i" by (rule conversation_at_id [OF fresh(1)])
    with g post [OF fresh(4-6)] fresh(1-3) store_message_row [OF fresh(8)] store_message_snapshot [OF fresh(8,1)] show ?thesis by blast
  qed
qed

theorem posting_needs_a_current_seat_witness:
  "may_post ana_api 7 (demo_thread ''postgres'') \<and>
   isl (fst (send demo_ext 30 44 64 bo 7 (demo_input 9 ''late'') (demo_thread ''postgres'')
     (conv_exec (LeaveReq 29 bo 7 (demo_thread ''postgres'')) (demo_thread ''postgres''))))"
proof -
  let ?d = "demo_thread ''postgres''"
  let ?send = "send demo_ext 12 40 60 ana_api 7 (demo_input 5 ''hello'') ?d ?d"
  obtain r d1 where s: "?send = (Inr r, d1)" using demo_send by (cases ?send; cases "fst ?send") auto
  have "isl (fst (send demo_ext 30 44 64 bo 7 (demo_input 9 ''late'') ?d (conv_exec (LeaveReq 29 bo 7 ?d) ?d)))" by code_simp
  with posting_needs_a_current_seat [OF s] show ?thesis by blast
qed

end
