(* ===== verification/ThreadPages.thy ===== *)
theory ThreadPages
  imports Reading
begin

text \<open>
  Following a reader's cursor. \<open>read_all\<close> is a client that asks for page after page from where the last
  one said to go on, over a thread nobody changes meanwhile; \<open>None\<close> is a client that never stops.
\<close>

definition visible :: "cdb \<Rightarrow> uuid \<Rightarrow> int \<Rightarrow> (conv_message_row \<times> string) list" where
  "visible d i after = with_sender d (sort_key cm_seq
     (filter (\<lambda>m. cm_conversation_id m = i \<and> cm_seq m > after \<and> cm_deleted_at m = None) (cd_messages d)))"

fun read_all :: "nat \<Rightarrow> backends \<Rightarrow> time \<Rightarrow> auth_ctx \<Rightarrow> uuid \<Rightarrow> int option \<Rightarrow> int option \<Rightarrow> cdb \<Rightarrow> int list option" where
  "read_all 0 Bs now auth i after_seq limit d = None"
| "read_all (Suc fuel) Bs now auth i after_seq limit d =
     (case fst (conv_read Bs now auth i after_seq limit d d) of
        Inl e \<Rightarrow> None
      | Inr r \<Rightarrow> (case vr_next_after_seq r of
          None \<Rightarrow> Some (map vm_seq (vr_messages r))
        | Some next \<Rightarrow> map_option (\<lambda>rest. map vm_seq (vr_messages r) @ rest) (read_all fuel Bs now auth i (Some next) limit d)))"

lemma filter_with_sender: "filter (\<lambda>p. P (fst p)) (with_sender d ms) = with_sender d (filter P ms)"
  by (induction ms) (auto simp: with_sender_def List.map_filter_simps split: option.split)

lemma visible_after: "after \<le> s \<Longrightarrow> visible d i s = filter (\<lambda>p. s < cm_seq (fst p)) (visible d i after)"
proof -
  assume le: "after \<le> s"
  have "filter (\<lambda>m. cm_conversation_id m = i \<and> cm_seq m > s \<and> cm_deleted_at m = None) (cd_messages d) =
      filter (\<lambda>m. s < cm_seq m) (filter (\<lambda>m. cm_conversation_id m = i \<and> cm_seq m > after \<and> cm_deleted_at m = None) (cd_messages d))"
    using le by (auto intro!: filter_cong)
  then show ?thesis
    unfolding visible_def filter_with_sender [of "\<lambda>m. s < cm_seq m"] by (simp add: filter_sort)
qed

lemma with_sender_seqs: "\<exists>P. map (\<lambda>p. cm_seq (fst p)) (with_sender d ms) = map cm_seq (filter P ms)"
proof (intro exI)
  show "map (\<lambda>p. cm_seq (fst p)) (with_sender d ms) = map cm_seq (filter (\<lambda>m. agent_name_of (cd_base d) (cm_sender_agent m) \<noteq> None) ms)"
    by (induction ms) (auto simp: with_sender_def List.map_filter_simps)
qed

lemma distinct_thread_seqs:
  assumes "thread_wf d" and "conversation_at d i = Some c"
  shows "distinct (map cm_seq (filter (\<lambda>m. cm_conversation_id m = i) (cd_messages d)))"
    and "\<And>m. m \<in> set (cd_messages d) \<Longrightarrow> cm_conversation_id m = i \<Longrightarrow> 1 \<le> cm_seq m \<and> cm_seq m \<le> cv_last_seq c"
proof -
  have "gap_free d c" "cv_id c = i"
    using assms by (auto simp: thread_wf_def list_all_iff conversation_at_def dest!: find_SomeD)
  then have s: "map cm_seq (filter (\<lambda>m. cm_conversation_id m = i) (cd_messages d)) = [1..cv_last_seq c]"
    by (simp add: gap_free_def thread_seqs_def)
  then show "distinct (map cm_seq (filter (\<lambda>m. cm_conversation_id m = i) (cd_messages d)))" by simp
  show "1 \<le> cm_seq m \<and> cm_seq m \<le> cv_last_seq c" if "m \<in> set (cd_messages d)" "cm_conversation_id m = i" for m
  proof -
    have "cm_seq m \<in> set (map cm_seq (filter (\<lambda>m. cm_conversation_id m = i) (cd_messages d)))" using that by auto
    then show ?thesis unfolding s by simp
  qed
qed

lemma visible_strict:
  assumes "thread_wf d" and "conversation_at d i = Some c"
  shows "sorted_wrt (<) (map (\<lambda>p. cm_seq (fst p)) (visible d i after))"
proof -
  let ?ms = "filter (\<lambda>m. cm_conversation_id m = i \<and> cm_seq m > after \<and> cm_deleted_at m = None) (cd_messages d)"
  have "distinct (map cm_seq (filter (\<lambda>m. cm_seq m > after \<and> cm_deleted_at m = None) (filter (\<lambda>m. cm_conversation_id m = i) (cd_messages d))))"
    by (rule distinct_map_filter [OF distinct_thread_seqs(1) [OF assms]])
  then have "distinct (map cm_seq ?ms)" by (simp add: conj_commute conj_left_commute)
  then have "distinct (map cm_seq (sort_key cm_seq ?ms))" by (simp add: distinct_map)
  then have strict: "sorted_wrt (<) (map cm_seq (sort_key cm_seq ?ms))"
    by (simp add: strict_sorted_iff del: map_map)
  obtain P where "map (\<lambda>p. cm_seq (fst p)) (visible d i after) = map cm_seq (filter P (sort_key cm_seq ?ms))"
    unfolding visible_def using with_sender_seqs by blast
  with strict show ?thesis by (simp add: sorted_wrt_map sorted_wrt_filter)
qed

lemma sorted_last: "sorted ys \<Longrightarrow> y \<in> set ys \<Longrightarrow> y \<le> last ys"
  by (induction ys) auto

text \<open>In a strictly sorted list, what lies past the last row of a page is the rest.\<close>

lemma past_a_page:
  assumes "sorted_wrt (<) (map k xs)" and "take n xs \<noteq> []"
  shows "filter (\<lambda>x. (k (last (take n xs)) :: int) < k x) xs = drop n xs"
proof -
  have "xs = take n xs @ drop n xs" by simp
  then have s: "sorted_wrt (<) (map k (take n xs) @ map k (drop n xs))" using assms(1) by (metis map_append)
  have "filter (\<lambda>x. k (last (take n xs)) < k x) (take n xs) = []"
  proof -
    have "k x \<le> k (last (take n xs))" if "x \<in> set (take n xs)" for x
    proof -
      have "sorted_wrt (<) (map k (take n xs))" using s by (simp add: sorted_wrt_append)
      then have "sorted (map k (take n xs))" by (simp add: strict_sorted_imp_sorted)
      then have "\<forall>y \<in> set (map k (take n xs)). y \<le> last (map k (take n xs))" using sorted_last by blast
      with that assms(2) show ?thesis by (simp add: last_map)
    qed
    then show ?thesis by (force simp: filter_empty_conv)
  qed
  moreover have "filter (\<lambda>x. k (last (take n xs)) < k x) (drop n xs) = drop n xs"
  proof -
    have "k (last (take n xs)) \<in> set (map k (take n xs))" using assms(2) by (auto intro: last_in_set)
    then have "k (last (take n xs)) < k x" if "x \<in> set (drop n xs)" for x
      using s that by (auto simp: sorted_wrt_append)
    then show ?thesis by (simp add: filter_id_conv)
  qed
  ultimately show ?thesis by (metis append_take_drop_id filter_append self_append_conv2)
qed


text \<open>A page shows a pending message only if it is pending.\<close>

lemma show_page_pending:
  assumes "\<forall>(m, a) \<in> set rows. cm_publication_state m \<noteq> PendingPublication"
  shows "\<forall>v \<in> set (fst (show_page Bs now team mine rows d)). vm_publication v \<noteq> RPending"
  using assms
proof (induction rows arbitrary: d)
  case Nil
  then show ?case by simp
next
  case (Cons row rows)
  obtain m a where row: "row = (m, a)" by force
  have "vm_publication (show_message m a r (fst (resolve_body Bs now team m d))) \<noteq> RPending" for r
    using Cons.prems by (auto simp: row show_message_def resolve_body_def report_of_def
        split: publication_state.splits option.splits sum.splits if_splits)
  with Cons show ?case by (simp add: row Let_def case_prod_beta')
qed

lemma next_after_settled:
  assumes "\<forall>v \<in> set ms. vm_publication v \<noteq> RPending"
  shows "next_after n ms = (if ms = [] then None else if vm_seq (last ms) < n \<and> 0 < vm_seq (last ms) then Some (vm_seq (last ms)) else None)"
proof -
  have "find (\<lambda>m. vm_publication m = RPending) ms = None" using assms by (auto simp: find_None_set)
  then show ?thesis by (simp add: next_after_def Let_def)
qed

text \<open>One page of \<open>read_all\<close>, in terms of the rows it shows.\<close>

lemma page_of_thread:
  assumes wf: "thread_wf d" and r: "fst (conv_read Bs now auth i after_seq limit d d) = Inr r"
    and settled: "\<forall>(m, a) \<in> set (visible d i after). cm_publication_state m \<noteq> PendingPublication"
    and acc: "access auth i d = Inr b" and after: "after = max (unwrap_or 0 after_seq) (floor_of b)"
    and n: "n = nat (clamp 1 MAX_PAGE (unwrap_or DEFAULT_PAGE limit))"
  shows "map vm_seq (vr_messages r) = map (\<lambda>p. cm_seq (fst p)) (take n (visible d i after))"
    and "vr_next_after_seq r = None \<Longrightarrow> drop n (visible d i after) = []"
    and "vr_next_after_seq r = Some s \<Longrightarrow> take n (visible d i after) \<noteq> [] \<and> s = cm_seq (fst (last (take n (visible d i after)))) \<and> after < s"
proof -
  obtain d' where "conv_read Bs now auth i after_seq limit d d = (Inr r, d')" using r by (metis prod.collapse)
  then obtain a0 a mine where a0: "readable auth i d = Inr a0" and a: "readable auth i d = Inr a"
    and ms: "vr_messages r = fst (show_page Bs now (au_team_id auth) mine (thread_page i (max (unwrap_or 0 after_seq) (floor_of a0))
        (clamp 1 MAX_PAGE (unwrap_or DEFAULT_PAGE limit)) d) d)"
    and nx: "vr_next_after_seq r = next_after (ac_last_seq a) (vr_messages r)" by (rule conv_read_Inr)
  let ?page = "take n (visible d i after)"
  have page: "thread_page i (max (unwrap_or 0 after_seq) (floor_of a0)) (clamp 1 MAX_PAGE (unwrap_or DEFAULT_PAGE limit)) d = ?page"
    using readable_access [OF a0] acc by (simp add: thread_page_def visible_def after n)
  have sub: "set ?page \<subseteq> set (visible d i after)" by (auto dest: in_set_takeD)
  show seqs: "map vm_seq (vr_messages r) = map (\<lambda>p. cm_seq (fst p)) ?page"
    using arg_cong [OF show_page_keys [of Bs now "au_team_id auth" mine ?page d], of "map snd"]
    by (simp add: ms page comp_def case_prod_beta')
  have nopend: "\<forall>v \<in> set (vr_messages r). vm_publication v \<noteq> RPending"
    unfolding ms page using settled sub by (intro show_page_pending) blast
  obtain c0 where c0: "c0 \<in> set (cd_conversations d)" "cv_id c0 = i" "ac_last_seq a = cv_last_seq c0"
    by (rule access_Inr [OF readable_access [OF a]])
  have c: "conversation_at d i = Some c0" using find_unique [of cv_id "cd_conversations d" c0] wf c0 by (simp add: conversation_at_def thread_wf_def)
  have empty: "vr_messages r = [] \<longleftrightarrow> ?page = []" using seqs by (metis map_is_Nil_conv)
  have lastseq: "vm_seq (last (vr_messages r)) = cm_seq (fst (last ?page))" if "?page \<noteq> []"
    using seqs that empty by (metis (mono_tags, lifting) last_map)
  have nxt: "vr_next_after_seq r = (if ?page = [] then None
      else if cm_seq (fst (last ?page)) < cv_last_seq c0 \<and> 0 < cm_seq (fst (last ?page)) then Some (cm_seq (fst (last ?page))) else None)"
    using next_after_settled [OF nopend, of "ac_last_seq a"] nx empty lastseq c0(3) by auto
  have bounds: "1 \<le> cm_seq (fst p) \<and> cm_seq (fst p) \<le> cv_last_seq c0 \<and> after < cm_seq (fst p)" if p: "p \<in> set (visible d i after)" for p
  proof -
    obtain m ag where p': "p = (m, ag)" by force
    have "m \<in> set (sort_key cm_seq (filter (\<lambda>m. cm_conversation_id m = i \<and> cm_seq m > after \<and> cm_deleted_at m = None) (cd_messages d)))"
      using p unfolding p' visible_def by (rule with_sender_fst)
    then show ?thesis using distinct_thread_seqs(2) [OF wf c, of m] by (simp add: p')
  qed
  have lastin: "last ?page \<in> set (visible d i after)" if "?page \<noteq> []" using that by (meson in_set_takeD last_in_set)
  show "?page \<noteq> [] \<and> s = cm_seq (fst (last ?page)) \<and> after < s" if some: "vr_next_after_seq r = Some s"
  proof -
    have ne: "?page \<noteq> []" using nxt some by (cases "?page = []") simp_all
    moreover have "s = cm_seq (fst (last ?page))" using nxt some ne by (simp split: if_splits)
    moreover have "after < cm_seq (fst (last ?page))" using bounds [OF lastin [OF ne]] by blast
    ultimately show ?thesis by blast
  qed
  show "drop n (visible d i after) = []" if none: "vr_next_after_seq r = None"
  proof (cases "?page = []")
    case True
    have "1 \<le> n" using clamp_bounds [of 1 MAX_PAGE "unwrap_or DEFAULT_PAGE limit"] unfolding n MAX_PAGE_def by linarith
    with True show ?thesis by (cases "visible d i after") auto
  next
    case False
    have "cv_last_seq c0 \<le> cm_seq (fst (last ?page))" using nxt none False bounds [OF lastin [OF False]] by (auto split: if_splits)
    then have "filter (\<lambda>x. cm_seq (fst (last ?page)) < cm_seq (fst x)) (visible d i after) = []"
      using bounds by (force simp: filter_empty_conv)
    with past_a_page [OF visible_strict [OF wf c], of n] False show ?thesis by simp
  qed
qed

text \<open>Whether a read is answered does not depend on where it starts.\<close>

lemma conv_read_ok: "isl (fst (conv_read Bs now auth i s limit d0 d)) = isl (fst (conv_read Bs now auth i t limit d0 d))"
  by (auto simp: conv_read_def Let_def case_prod_beta' split: sum.splits)

lemma read_all_visible:
  assumes wf: "thread_wf d" and c: "conversation_at d i = Some c" and a: "access auth i d = Inr a"
    and ok: "\<not> isl (fst (conv_read Bs now auth i None limit d d))"
    and settled: "\<forall>(m, ag) \<in> set (visible d i (max (unwrap_or 0 after_seq) (floor_of a))). cm_publication_state m \<noteq> PendingPublication"
    and fuel: "length (visible d i (max (unwrap_or 0 after_seq) (floor_of a))) < fuel"
  shows "read_all fuel Bs now auth i after_seq limit d =
    Some (map (\<lambda>p. cm_seq (fst p)) (visible d i (max (unwrap_or 0 after_seq) (floor_of a))))"
  using settled fuel
proof (induction fuel arbitrary: after_seq)
  case 0
  then show ?case by simp
next
  case (Suc fuel)
  let ?after = "max (unwrap_or 0 after_seq) (floor_of a)"
  let ?v = "visible d i ?after"
  let ?n = "nat (clamp 1 MAX_PAGE (unwrap_or DEFAULT_PAGE limit))"
  obtain r where r: "fst (conv_read Bs now auth i after_seq limit d d) = Inr r"
    using ok conv_read_ok [of Bs now auth i None limit d d after_seq] by (cases "fst (conv_read Bs now auth i after_seq limit d d)") auto
  note page = page_of_thread [OF wf r Suc.prems(1) a refl refl]
  show ?case
  proof (cases "vr_next_after_seq r")
    case None
    have "?v = take ?n ?v @ drop ?n ?v" by simp
    then have "take ?n ?v = ?v" unfolding page(2) [OF None] by simp
    with page(1) show ?thesis by (simp add: r None)
  next
    case (Some s)
    from page(3) [OF Some] have ne: "take ?n ?v \<noteq> []" and s: "s = cm_seq (fst (last (take ?n ?v)))" and lt: "?after < s" by auto
    have rest: "visible d i (max (unwrap_or 0 (Some s)) (floor_of a)) = drop ?n ?v"
    proof -
      have "max s (floor_of a) = s" using lt by simp
      moreover have "visible d i s = filter (\<lambda>p. s < cm_seq (fst p)) ?v" using lt by (intro visible_after) simp
      ultimately show ?thesis using past_a_page [OF visible_strict [OF wf c] ne] s by simp
    qed
    have "length (drop ?n ?v) < fuel" using ne Suc.prems(2) by (cases ?v) auto
    moreover have "\<forall>(m, ag) \<in> set (drop ?n ?v). cm_publication_state m \<noteq> PendingPublication"
      using Suc.prems(1) by (blast dest: in_set_dropD)
    ultimately have "read_all fuel Bs now auth i (Some s) limit d = Some (map (\<lambda>p. cm_seq (fst p)) (drop ?n ?v))"
      using Suc.IH [of "Some s"] unfolding rest by blast
    then have "read_all (Suc fuel) Bs now auth i after_seq limit d =
        Some (map (\<lambda>p. cm_seq (fst p)) (take ?n ?v) @ map (\<lambda>p. cm_seq (fst p)) (drop ?n ?v))"
      using page(1) by (simp add: r Some)
    then show ?thesis by (simp add: map_append [symmetric] del: map_append)
  qed
qed



end
