(* ===== verification/Publication.thy ===== *)
theory Publication
  imports ThreadHistory
begin

text \<open>
  Publication through the outbox, over every run of the subsystem: a message is unpublished exactly
  while a slot holds its body, a publication that was confirmed is final, and a slot's lease excludes
  every other worker until it runs out.
\<close>

section \<open>Slots and messages\<close>

definition slot_backed :: "cdb \<Rightarrow> outbox_row \<Rightarrow> bool" where
  "slot_backed d sl \<longleftrightarrow> list_ex (\<lambda>m. cm_id m = ob_message_id sl \<and> cm_publication_state m \<noteq> Stored \<and> cm_body m = ob_payload sl) (cd_messages d)"

definition has_slot :: "cdb \<Rightarrow> conv_message_row \<Rightarrow> bool" where
  "has_slot d m \<longleftrightarrow> cm_publication_state m = Stored \<or>
     list_ex (\<lambda>sl. ob_message_id sl = cm_id m \<and> (cm_publication_state m = PendingPublication \<longrightarrow> ob_state sl \<noteq> SlotFailed)) (cd_outbox d)"

definition slots_wf :: "cdb \<Rightarrow> bool" where
  "slots_wf d \<longleftrightarrow> distinct (map cm_id (cd_messages d)) \<and> distinct (map ob_message_id (cd_outbox d)) \<and>
     list_all (slot_backed d) (cd_outbox d) \<and> list_all (has_slot d) (cd_messages d)"

lemma slots_wfD:
  assumes "slots_wf d"
  shows "distinct (map cm_id (cd_messages d))" "distinct (map ob_message_id (cd_outbox d))"
    and "\<And>sl. sl \<in> set (cd_outbox d) \<Longrightarrow> \<exists>m \<in> set (cd_messages d). cm_id m = ob_message_id sl \<and> cm_publication_state m \<noteq> Stored \<and> cm_body m = ob_payload sl"
    and "\<And>m. m \<in> set (cd_messages d) \<Longrightarrow> cm_publication_state m \<noteq> Stored \<Longrightarrow>
      \<exists>sl \<in> set (cd_outbox d). ob_message_id sl = cm_id m \<and> (cm_publication_state m = PendingPublication \<longrightarrow> ob_state sl \<noteq> SlotFailed)"
  using assms by (auto simp: slots_wf_def slot_backed_def has_slot_def list_all_iff list_ex_iff)

lemma slots_wfI:
  assumes "distinct (map cm_id (cd_messages d))" "distinct (map ob_message_id (cd_outbox d))"
    and "\<And>sl. sl \<in> set (cd_outbox d) \<Longrightarrow> \<exists>m \<in> set (cd_messages d). cm_id m = ob_message_id sl \<and> cm_publication_state m \<noteq> Stored \<and> cm_body m = ob_payload sl"
    and "\<And>m. m \<in> set (cd_messages d) \<Longrightarrow> cm_publication_state m \<noteq> Stored \<Longrightarrow>
      \<exists>sl \<in> set (cd_outbox d). ob_message_id sl = cm_id m \<and> (cm_publication_state m = PendingPublication \<longrightarrow> ob_state sl \<noteq> SlotFailed)"
  shows "slots_wf d"
  using assms by (auto simp: slots_wf_def slot_backed_def has_slot_def list_all_iff list_ex_iff)

lemma filter_unique: "distinct (map k rows) \<Longrightarrow> r \<in> set rows \<Longrightarrow> filter (\<lambda>x. k x = k r) rows = [r]"
proof (induction rows)
  case Nil
  then show ?case by simp
next
  case (Cons a rows)
  then show ?case by (cases "a = r") (auto simp: filter_empty_conv rev_image_eqI)
qed

lemma stored_has_no_slot:
  assumes "slots_wf d" and "m \<in> set (cd_messages d)" and "cm_publication_state m = Stored"
  shows "\<not> exists_row (slot_is (cm_id m)) (cd_outbox d)"
proof
  assume "exists_row (slot_is (cm_id m)) (cd_outbox d)"
  then obtain sl where "sl \<in> set (cd_outbox d)" "ob_message_id sl = cm_id m" by (auto simp: exists_row_def slot_is_def)
  then obtain n where "n \<in> set (cd_messages d)" "cm_id n = cm_id m" "cm_publication_state n \<noteq> Stored"
    using slots_wfD(3) [OF assms(1)] by metis
  then show False using assms(2,3) distinct_map_inj [OF slots_wfD(1) [OF assms(1)]] by metis
qed

lemma holds_slot_message: "holds_slot now l sl \<Longrightarrow> ob_message_id sl = le_message_id l"
  by (simp add: holds_slot_def same_lease_def)

lemma slots_wf_kept:
  assumes wf: "slots_wf d" and ms: "list_all2 msg_kept (cd_messages d) (cd_messages d')"
    and sls: "list_all2 slot_kept (cd_outbox d) (cd_outbox d')"
  shows "slots_wf d'"
proof (rule slots_wfI)
  have "map cm_id (cd_messages d') = map cm_id (cd_messages d)"
    by (rule list_all2_map [OF ms]) (simp add: msg_kept_def msg_core_def)
  then show "distinct (map cm_id (cd_messages d'))" using slots_wfD(1) [OF wf] by simp
  have "map ob_message_id (cd_outbox d') = map ob_message_id (cd_outbox d)"
    by (rule list_all2_map [OF sls]) (simp add: slot_kept_def)
  then show "distinct (map ob_message_id (cd_outbox d'))" using slots_wfD(2) [OF wf] by simp
next
  fix sl' assume "sl' \<in> set (cd_outbox d')"
  then obtain sl where sl: "sl \<in> set (cd_outbox d)" "slot_kept sl sl'" using list_all2_right [OF sls] by blast
  then obtain m where m: "m \<in> set (cd_messages d)" "cm_id m = ob_message_id sl" "cm_publication_state m \<noteq> Stored" "cm_body m = ob_payload sl"
    using slots_wfD(3) [OF wf] by blast
  moreover obtain m' where "m' \<in> set (cd_messages d')" "msg_kept m m'" using list_all2_left [OF ms m(1)] by blast
  ultimately show "\<exists>m \<in> set (cd_messages d'). cm_id m = ob_message_id sl' \<and> cm_publication_state m \<noteq> Stored \<and> cm_body m = ob_payload sl'"
    using sl(2) by (intro bexI [of _ m']) (simp_all add: msg_kept_def msg_core_def slot_kept_def)
next
  fix m' assume "m' \<in> set (cd_messages d')" "cm_publication_state m' \<noteq> Stored"
  moreover then obtain m where m: "m \<in> set (cd_messages d)" "msg_kept m m'" using list_all2_right [OF ms] by blast
  ultimately obtain sl where sl: "sl \<in> set (cd_outbox d)" "ob_message_id sl = cm_id m" "cm_publication_state m = PendingPublication \<longrightarrow> ob_state sl \<noteq> SlotFailed"
    using slots_wfD(4) [OF wf, of m] by (auto simp: msg_kept_def)
  moreover obtain sl' where "sl' \<in> set (cd_outbox d')" "slot_kept sl sl'" using list_all2_left [OF sls sl(1)] by blast
  ultimately show "\<exists>sl \<in> set (cd_outbox d'). ob_message_id sl = cm_id m' \<and> (cm_publication_state m' = PendingPublication \<longrightarrow> ob_state sl \<noteq> SlotFailed)"
    using m(2) by (intro bexI [of _ sl']) (auto simp: msg_kept_def msg_core_def slot_kept_def)
qed

lemma slots_wf_post:
  assumes wf: "slots_wf d" and new: "find (\<lambda>r. cm_id r = cm_id m) (cd_messages d) = None"
    and ms: "cd_messages d' = cd_messages d @ [m]"
    and sls: "cm_publication_state m = Stored \<and> cd_outbox d' = cd_outbox d \<or>
     cm_publication_state m = PendingPublication \<and> ob_message_id sl = cm_id m \<and> ob_payload sl = cm_body m \<and> ob_state sl = Pending \<and>
     cd_outbox d' = (if exists_row (slot_is (cm_id m)) (cd_outbox d) then cd_outbox d else cd_outbox d @ [sl])"
  shows "slots_wf d'"
proof -
  have new': "cm_id m \<notin> cm_id ` set (cd_messages d)" using new by (auto simp: find_None_set)
  have no_slot: "ob_message_id s \<noteq> cm_id m" if "s \<in> set (cd_outbox d)" for s
    using slots_wfD(3) [OF wf that] new' by (metis imageI)
  then have "\<not> exists_row (slot_is (cm_id m)) (cd_outbox d)" by (auto simp: exists_row_def slot_is_def)
  with sls consider (stored) "cm_publication_state m = Stored" "cd_outbox d' = cd_outbox d"
    | (slot) "cm_publication_state m = PendingPublication" "ob_message_id sl = cm_id m" "ob_payload sl = cm_body m"
        "ob_state sl = Pending" "cd_outbox d' = cd_outbox d @ [sl]" by auto
  then show ?thesis
  proof cases
    case stored
    show ?thesis
      by (rule slots_wfI; use slots_wfD [OF wf] new' stored ms in \<open>auto\<close>)
  next
    case slot
    have "ob_message_id sl \<notin> ob_message_id ` set (cd_outbox d)" using no_slot slot(2) by (metis imageE)
    with slot show ?thesis
      by (intro slots_wfI) (use slots_wfD [OF wf] new' ms in \<open>auto\<close>)
  qed
qed


lemma holder_is_unique:
  assumes "slots_wf d" and "exists_row (holds_slot now l) (cd_outbox d)" and "sl \<in> set (cd_outbox d)" and "ob_message_id sl = le_message_id l"
  shows "holds_slot now l sl"
proof -
  obtain h where h: "h \<in> set (cd_outbox d)" "holds_slot now l h" using assms(2) by (auto simp: exists_row_def)
  then have "h = sl" using distinct_map_inj [OF slots_wfD(2) [OF assms(1)], of h sl] assms(3,4) holds_slot_message by metis
  with h show ?thesis by simp
qed

lemma slots_wf_published:
  assumes wf: "slots_wf d" and held: "exists_row (holds_slot now l) (cd_outbox d)"
    and sls: "cd_outbox d' = del_where (holds_slot now l) (cd_outbox d)"
    and ms: "cd_messages d' = upd_where (\<lambda>m. cm_id m = le_message_id l)
      (\<lambda>m. m\<lparr>cm_publication_state := Stored, cm_canonical_locator := Some locator\<rparr>) (cd_messages d)"
  shows "slots_wf d'"
proof (rule slots_wfI)
  show "distinct (map cm_id (cd_messages d'))"
    using slots_wfD(1) [OF wf] by (simp add: ms map_upd_where_same)
  show "distinct (map ob_message_id (cd_outbox d'))"
    using slots_wfD(2) [OF wf] by (simp add: sls distinct_map_del_where)
next
  fix sl assume "sl \<in> set (cd_outbox d')"
  then have sl: "sl \<in> set (cd_outbox d)" "\<not> holds_slot now l sl" by (simp_all add: sls set_del_where)
  then have other: "ob_message_id sl \<noteq> le_message_id l" using holder_is_unique [OF wf held] by blast
  obtain m where "m \<in> set (cd_messages d)" "cm_id m = ob_message_id sl" "cm_publication_state m \<noteq> Stored" "cm_body m = ob_payload sl"
    using slots_wfD(3) [OF wf sl(1)] by blast
  with other show "\<exists>m \<in> set (cd_messages d'). cm_id m = ob_message_id sl \<and> cm_publication_state m \<noteq> Stored \<and> cm_body m = ob_payload sl"
    unfolding ms by (intro bexI [of _ m] conjI upd_where_other) simp_all
next
  fix m' assume "m' \<in> set (cd_messages d')" and new: "cm_publication_state m' \<noteq> Stored"
  then have m: "m' \<in> set (cd_messages d)" "cm_id m' \<noteq> le_message_id l"
    by (auto simp: ms set_upd_where split: if_splits)
  then obtain sl where sl: "sl \<in> set (cd_outbox d)" "ob_message_id sl = cm_id m'" "cm_publication_state m' = PendingPublication \<longrightarrow> ob_state sl \<noteq> SlotFailed"
    using slots_wfD(4) [OF wf m(1) new] by blast
  then have "\<not> holds_slot now l sl" using m(2) holds_slot_message by metis
  with sl show "\<exists>sl \<in> set (cd_outbox d'). ob_message_id sl = cm_id m' \<and> (cm_publication_state m' = PendingPublication \<longrightarrow> ob_state sl \<noteq> SlotFailed)"
    by (auto simp: sls set_del_where)
qed

lemma slots_wf_gave_up:
  assumes wf: "slots_wf d" and sls: "cd_outbox d' = upd_where (holds_slot now l) f (cd_outbox d)"
    and f: "\<And>sl. ob_message_id (f sl) = ob_message_id sl \<and> ob_payload (f sl) = ob_payload sl \<and> ob_generation (f sl) = ob_generation sl"
    and ms: "cd_messages d' = upd_where (\<lambda>m. cm_id m = le_message_id l) (\<lambda>m. m\<lparr>cm_publication_state := PublicationFailed\<rparr>) (cd_messages d)"
    and held: "exists_row (holds_slot now l) (cd_outbox d)"
  shows "slots_wf d'"
proof (rule slots_wfI)
  show "distinct (map cm_id (cd_messages d'))"
    using slots_wfD(1) [OF wf] by (simp add: ms map_upd_where_same)
  show "distinct (map ob_message_id (cd_outbox d'))"
    using slots_wfD(2) [OF wf] by (simp add: sls map_upd_where_same f)
next
  fix sl' assume "sl' \<in> set (cd_outbox d')"
  then obtain sl where sl: "sl \<in> set (cd_outbox d)" "ob_message_id sl' = ob_message_id sl" "ob_payload sl' = ob_payload sl"
    by (auto simp: sls set_upd_where f split: if_splits)
  obtain m where "m \<in> set (cd_messages d)" "cm_id m = ob_message_id sl" "cm_publication_state m \<noteq> Stored" "cm_body m = ob_payload sl"
    using slots_wfD(3) [OF wf sl(1)] by blast
  then show "\<exists>m \<in> set (cd_messages d'). cm_id m = ob_message_id sl' \<and> cm_publication_state m \<noteq> Stored \<and> cm_body m = ob_payload sl'"
    unfolding ms set_upd_where sl
    by (intro bexI [of _ "if cm_id m = le_message_id l then m\<lparr>cm_publication_state := PublicationFailed\<rparr> else m"]) auto
next
  fix m' assume "m' \<in> set (cd_messages d')" "cm_publication_state m' \<noteq> Stored"
  then obtain m where m: "m \<in> set (cd_messages d)" "m' = (if cm_id m = le_message_id l then m\<lparr>cm_publication_state := PublicationFailed\<rparr> else m)"
    by (auto simp: ms set_upd_where)
  show "\<exists>sl \<in> set (cd_outbox d'). ob_message_id sl = cm_id m' \<and> (cm_publication_state m' = PendingPublication \<longrightarrow> ob_state sl \<noteq> SlotFailed)"
  proof (cases "cm_id m = le_message_id l")
    case True
    obtain h where h: "h \<in> set (cd_outbox d)" "holds_slot now l h" using held by (auto simp: exists_row_def)
    then have "f h \<in> set (cd_outbox d')" unfolding sls by (rule upd_where_hit)
    with True m h holds_slot_message f show ?thesis by (intro bexI [of _ "f h"]) auto
  next
    case False
    with m \<open>cm_publication_state m' \<noteq> Stored\<close> obtain sl where
      sl: "sl \<in> set (cd_outbox d)" "ob_message_id sl = cm_id m'" "cm_publication_state m' = PendingPublication \<longrightarrow> ob_state sl \<noteq> SlotFailed"
      using slots_wfD(4) [OF wf m(1)] by auto
    then have "\<not> holds_slot now l sl" using m(2) False holds_slot_message by metis
    with sl show ?thesis unfolding sls by (intro bexI [of _ sl] conjI upd_where_other)
  qed
qed

lemma slots_wf_step:
  assumes "slots_wf d" and "thread_step d d'"
  shows "slots_wf d'"
  using assms(2)
proof (cases rule: thread_step.cases)
  case kept
  show ?thesis by (rule slots_wf_kept [OF assms(1) kept(2,5)])
next
  case (opened c)
  then show ?thesis by (intro slots_wf_kept [OF assms(1)]) (simp_all add: same_tables_def)
next
  case (posted m c rs st sl)
  show ?thesis by (rule slots_wf_post [OF assms(1) posted(4,7,11)])
next
  case (published now l locator)
  show ?thesis by (rule slots_wf_published [OF assms(1) published(1,3,4)])
next
  case (gave_up now l f)
  show ?thesis by (rule slots_wf_gave_up [OF assms(1) gave_up(3,4,5,1)])
qed

interpretation slots: kept_invariant conv_exec slots_wf
  by unfold_locales (rule slots_wf_step [OF _ conv_exec_step])


section \<open>Publication as a small machine\<close>

definition publications :: "cdb \<Rightarrow> uuid \<rightharpoonup> publication_state" where
  "publications d i = map_option cm_publication_state (find (\<lambda>m. cm_id m = i) (cd_messages d))"

inductive pub_step :: "(uuid \<rightharpoonup> publication_state) \<Rightarrow> (uuid \<rightharpoonup> publication_state) \<Rightarrow> bool" where
  idle: "pub_step p p"
| accept: "p i = None \<Longrightarrow> s \<noteq> PublicationFailed \<Longrightarrow> pub_step p (p(i \<mapsto> s))"
| confirm: "p i = Some s \<Longrightarrow> s \<noteq> Stored \<Longrightarrow> pub_step p (p(i \<mapsto> Stored))"
| abandon: "p i = Some s \<Longrightarrow> s \<noteq> Stored \<Longrightarrow> pub_step p (p(i \<mapsto> PublicationFailed))"

inductive_cases pub_stepE: "pub_step p p'"

lemma publications_kept:
  assumes "list_all2 msg_kept ms ms'"
  shows "map_option cm_publication_state (find (\<lambda>m. cm_id m = i) ms') = map_option cm_publication_state (find (\<lambda>m. cm_id m = i) ms)"
  using assms by (induction rule: list_all2_induct) (auto simp: msg_kept_def msg_core_def)

lemma publications_set:
  assumes "cd_messages d' = upd_where (\<lambda>m. cm_id m = i) f (cd_messages d)" and "publications d i = Some s"
    and "\<And>m. cm_id (f m) = cm_id m \<and> cm_publication_state (f m) = s'"
  shows "publications d' = (publications d)(i \<mapsto> s')"
proof
  fix k
  have u: "publications d' k = map_option (\<lambda>m. cm_publication_state (if cm_id m = i then f m else m)) (find (\<lambda>m. cm_id m = k) (cd_messages d))"
    using assms(3) by (simp add: publications_def assms(1) find_upd_where option.map_comp comp_def)
  show "publications d' k = ((publications d)(i \<mapsto> s')) k"
  proof (cases "find (\<lambda>m. cm_id m = k) (cd_messages d)")
    case None
    then show ?thesis using u assms(2) by (auto simp: publications_def)
  next
    case (Some m)
    then have "cm_id m = k" by (auto dest: find_SomeD)
    then have "publications d' k = Some (if k = i then s' else cm_publication_state m)" "publications d k = Some (cm_publication_state m)"
      using Some assms(3) by (simp_all add: u) (simp add: publications_def)
    then show ?thesis by simp
  qed
qed

lemma slot_unpublished:
  assumes wf: "slots_wf d" and "exists_row (holds_slot now l) (cd_outbox d)"
  shows "\<exists>s. publications d (le_message_id l) = Some s \<and> s \<noteq> Stored"
proof -
  obtain sl where "sl \<in> set (cd_outbox d)" "ob_message_id sl = le_message_id l"
    using assms(2) holds_slot_message by (auto simp: exists_row_def)
  then obtain m where m: "m \<in> set (cd_messages d)" "cm_id m = le_message_id l" "cm_publication_state m \<noteq> Stored"
    using slots_wfD(3) [OF wf] by metis
  then have "find (\<lambda>x. cm_id x = le_message_id l) (cd_messages d) = Some m"
    using find_unique [OF slots_wfD(1) [OF wf] m(1)] by simp
  with m show ?thesis by (simp add: publications_def)
qed

lemma thread_step_publishes:
  assumes wf: "slots_wf d" and "thread_step d d'"
  shows "pub_step (publications d) (publications d')"
  using assms(2)
proof (cases rule: thread_step.cases)
  case kept
  have "publications d' = publications d"
    by (rule ext) (simp add: publications_def publications_kept [OF kept(2)])
  then show ?thesis by (simp add: idle)
next
  case (opened c)
  then have "publications d' = publications d" by (intro ext) (simp add: publications_def same_tables_def)
  then show ?thesis by (simp add: idle)
next
  case (posted m c rs st sl)
  have "publications d' = (publications d)(cm_id m \<mapsto> cm_publication_state m)"
    using posted(4) by (auto simp: publications_def posted(7) find_append fun_eq_iff split: option.split)
  moreover have "publications d (cm_id m) = None" using posted(4) by (simp add: publications_def)
  moreover have "cm_publication_state m \<noteq> PublicationFailed" using posted(11) by auto
  ultimately show ?thesis by (simp add: accept)
next
  case (published now l locator)
  obtain s where s: "publications d (le_message_id l) = Some s" "s \<noteq> Stored"
    using slot_unpublished [OF wf published(1)] by blast
  have "publications d' = (publications d)(le_message_id l \<mapsto> Stored)"
    by (rule publications_set [OF published(4) s(1)]) simp
  with confirm [of "publications d", OF s] show ?thesis by simp
next
  case (gave_up now l f)
  obtain s where s: "publications d (le_message_id l) = Some s" "s \<noteq> Stored"
    using slot_unpublished [OF wf gave_up(1)] by blast
  have "publications d' = (publications d)(le_message_id l \<mapsto> PublicationFailed)"
    by (rule publications_set [OF gave_up(5) s(1)]) simp
  with abandon [of "publications d", OF s] show ?thesis by simp
qed

text \<open>A stored message and its locator, across one step.\<close>

definition stored_at_locator :: "cdb \<Rightarrow> uuid \<Rightarrow> string option \<Rightarrow> bool" where
  "stored_at_locator d i loc \<longleftrightarrow> list_ex (\<lambda>m. cm_id m = i \<and> cm_publication_state m = Stored \<and>
     (loc \<noteq> None \<longrightarrow> cm_canonical_locator m = loc)) (cd_messages d)"

lemma stored_stays:
  assumes wf: "slots_wf d" and "thread_step d d'" and "stored_at_locator d i loc"
  shows "stored_at_locator d' i loc"
proof -
  obtain m where m: "m \<in> set (cd_messages d)" "cm_id m = i" "cm_publication_state m = Stored" "loc \<noteq> None \<longrightarrow> cm_canonical_locator m = loc"
    using assms(3) by (auto simp: stored_at_locator_def list_ex_iff)
  have other: "cm_id m \<noteq> le_message_id l" if "exists_row (holds_slot now l) (cd_outbox d)" for now l
    using stored_has_no_slot [OF wf m(1,3)] that holds_slot_message by (fastforce simp: exists_row_def slot_is_def)
  show ?thesis
    using assms(2)
  proof (cases rule: thread_step.cases)
    case kept
    then obtain m' where "m' \<in> set (cd_messages d')" "msg_kept m m'" using list_all2_left [OF kept(2) m(1)] by blast
    with m show ?thesis unfolding stored_at_locator_def list_ex_iff
      by (intro bexI [of _ m']) (auto simp: msg_kept_def msg_core_def)
  next
    case (published now l locator)
    have "m \<in> set (cd_messages d')" unfolding published(4) using m(1) other [OF published(1)] by (rule upd_where_other)
    with m show ?thesis by (auto simp: stored_at_locator_def list_ex_iff)
  next
    case (gave_up now l f)
    have "m \<in> set (cd_messages d')" unfolding gave_up(5) using m(1) other [OF gave_up(1)] by (rule upd_where_other)
    with m show ?thesis by (auto simp: stored_at_locator_def list_ex_iff)
  qed (use m in \<open>auto simp: stored_at_locator_def list_ex_iff same_tables_def\<close>)
qed


section \<open>Leases on slots\<close>

text \<open>Only these requests touch slots that exist.\<close>

fun on_slots :: "conv_req \<Rightarrow> bool" where
  "on_slots (LeaseNextReq now worker) = True"
| "on_slots (LeaseOneReq now worker message_id) = True"
| "on_slots (SettleReq X now fresh l outcome) = True"
| "on_slots (ReleaseSlotReq now l why) = True"
| "on_slots (UnleaseReq now l) = True"
| "on_slots (MarkUncertainReq now l why) = True"
| "on_slots q = False"

definition slots_extended :: "cdb \<Rightarrow> cdb \<Rightarrow> bool" where
  "slots_extended d d' \<longleftrightarrow> (\<exists>new. cd_outbox d' = cd_outbox d @ new \<and>
     (\<forall>sl \<in> set new. \<not> exists_row (slot_is (ob_message_id sl)) (cd_outbox d)))"

lemma slots_extended_same: "cd_outbox d' = cd_outbox d \<Longrightarrow> slots_extended d d'"
  by (simp add: slots_extended_def)

lemma slots_extended_refl [simp]: "slots_extended d d"
  by (simp add: slots_extended_same)

lemmas slots_keep = keep_after_checks [where R = slots_extended] keep_readback [where R = slots_extended]
  keep_conv_guarded [where R = slots_extended] keep_transact [where R = slots_extended]

lemma send_extends: "send_tx X now new_id key auth i input body metadata d = Inr (x, d') \<Longrightarrow> slots_extended d d'"
proof (erule send_tx_cases)
  fix c assume "store_message X now new_id key auth c input body metadata d = Inr d'"
  then show "slots_extended d d'"
    by (auto simp: store_message_def enqueue_def Let_def bindE_eq_Inr slots_extended_def slot_is_eq split: if_splits)
qed simp

lemma seat_tx_slots:
  "invite_tx now new_id auth i agent session role from_start d = Inr (x, d') \<Longrightarrow> cd_outbox d' = cd_outbox d"
  "remove_tx now auth i agent session d = Inr (x, d') \<Longrightarrow> cd_outbox d' = cd_outbox d"
  "transfer_tx now new_id auth i mine session d = Inr (x, d') \<Longrightarrow> cd_outbox d' = cd_outbox d"
  "create_conversation_tx now i fresh auth title project private invites d = Inr (y, d') \<Longrightarrow> cd_outbox d' = cd_outbox d"
proof -
  show "invite_tx now new_id auth i agent session role from_start d = Inr (x, d') \<Longrightarrow> cd_outbox d' = cd_outbox d"
    by (erule invite_tx_put) (auto simp: same_tables_def dest!: put_seat_same)
  show "remove_tx now auth i agent session d = Inr (x, d') \<Longrightarrow> cd_outbox d' = cd_outbox d"
    by (auto simp: remove_tx_def bindE_eq_Inr Let_def split: if_splits option.splits)
  show "transfer_tx now new_id auth i mine session d = Inr (x, d') \<Longrightarrow> cd_outbox d' = cd_outbox d"
    by (erule transfer_tx_put) (auto simp: same_tables_def dest!: put_seat_same)
  show "create_conversation_tx now i fresh auth title project private invites d = Inr (y, d') \<Longrightarrow> cd_outbox d' = cd_outbox d"
    by (auto simp: create_conversation_tx_def bindE_eq_Inr ok_or_eq_Inr same_tables_def split: if_splits
        dest!: insert_seat_same invite_all_same)
qed

lemma recover_outbox: "cd_outbox (snd (recover_history Bs now auth i after_seq limit d0 d)) = cd_outbox d"
proof -
  define r where "r = transact (recover_tx now auth i (unwrap_or 0 after_seq) (clamp 1 MAX_PAGE (unwrap_or DEFAULT_PAGE limit))) d"
  have "cd_outbox (snd r) = cd_outbox d"
    unfolding r_def by (rule keep_transact [where R = "\<lambda>a b. cd_outbox b = cd_outbox a"]) (auto dest: recover_tx_same)
  moreover have "cd_outbox (snd (show_page Bs now (au_team_id auth) (\<lambda>_. None) rows e)) = cd_outbox e" for rows e
    using show_page_only [of e Bs now "au_team_id auth" "\<lambda>_. None" rows] by (auto simp: only_tombstones_def)
  ultimately show ?thesis
    unfolding recover_history_def snd_case_sum Let_def r_def [symmetric]
    by (auto simp: case_prod_beta' split: sum.split)
qed

lemma conv_exec_extends: "\<not> on_slots q \<Longrightarrow> slots_extended d (conv_exec q d)"
proof (cases q)
  case (CreateProjectReq now new_id auth name d0)
  show ?thesis unfolding CreateProjectReq conv_exec.simps create_project_def
    by (intro slots_keep slots_extended_refl slots_extended_same) (auto simp: add_grant_def split: option.splits if_splits)
next
  case (ProjectAccessReq X now auth project agent grant d0)
  show ?thesis unfolding ProjectAccessReq conv_exec.simps set_project_access_def split_beta
    by (intro slots_keep slots_extended_refl) (auto simp: add_grant_def split: if_splits intro!: slots_extended_same)
next
  case (CreateConvReq X now i fresh auth input d0)
  show ?thesis unfolding CreateConvReq conv_exec.simps create_conversation_def split_beta
    by (intro slots_keep slots_extended_refl) (auto dest: seat_tx_slots intro!: slots_extended_same)
next
  case (ArchiveReq now auth i d0)
  show ?thesis unfolding ArchiveReq conv_exec.simps archive_conversation_def
    by (intro slots_keep slots_extended_refl) (auto dest!: after_open intro!: slots_extended_same)
next
  case (InviteReq now new_id auth i address role from_start d0)
  show ?thesis unfolding InviteReq conv_exec.simps invite_def split_beta
    by (intro slots_keep slots_extended_refl) (auto dest: seat_tx_slots intro!: slots_extended_same)
next
  case (JoinReq now auth i d0)
  show ?thesis unfolding JoinReq conv_exec.simps join_def
    by (intro slots_keep slots_extended_refl)
      (auto simp: supersede_predecessor_def Let_def split: option.splits dest!: after_open intro!: slots_extended_same)
next
  case (LeaveReq now auth i d0)
  show ?thesis unfolding LeaveReq conv_exec.simps leave_def
    by (intro slots_keep slots_extended_refl) (auto simp: Let_def split: if_splits intro!: slots_extended_same)
next
  case (RemoveReq now auth i address d0)
  show ?thesis unfolding RemoveReq conv_exec.simps remove_member_def split_beta
    by (intro slots_keep slots_extended_refl) (auto dest: seat_tx_slots intro!: slots_extended_same)
next
  case (TransferReq now new_id auth i to d0)
  show ?thesis unfolding TransferReq conv_exec.simps transfer_membership_def split_beta
    by (intro slots_keep slots_extended_refl) (auto dest: seat_tx_slots intro!: slots_extended_same)
next
  case (SendReq X now new_id key auth i input d0)
  show ?thesis unfolding SendReq conv_exec.simps send_def split_beta
    by (intro slots_keep slots_extended_refl) (auto dest: send_extends)
next
  case (AckReq X now new_id auth message_id resolved remark d0)
  show ?thesis unfolding AckReq conv_exec.simps conv_ack_def split_beta
    by (intro slots_keep slots_extended_refl)
      (auto simp: Let_def bindE_eq_Inr same_tables_def split: if_splits dest!: after_open enqueue_references_same(2) intro!: slots_extended_same)
next
  case (ReadReq Bs now auth i after_seq limit d0)
  then show ?thesis using conv_read_only [of d Bs now auth i after_seq limit d0]
    by (auto simp: only_tombstones_def intro!: slots_extended_same)
next
  case (GetReq Bs now auth message_id)
  then show ?thesis using get_message_only [of d Bs now auth message_id]
    by (auto simp: only_tombstones_def intro!: slots_extended_same)
next
  case (RecoverReq Bs now auth i after_seq limit d0)
  then show ?thesis using recover_outbox by (auto intro!: slots_extended_same)
next
  case (SetPublicationReq i outbox)
  show ?thesis unfolding SetPublicationReq conv_exec.simps
    by (intro slots_keep slots_extended_refl) (auto simp: set_publication_def split: if_splits intro!: slots_extended_same)
qed (auto simp: pg_publish_def Let_def forget_uncertain_def release_published_bodies_def clear_bodies_def intro!: slots_extended_same)


text \<open>A lease is the slot's generation: taking it draws a new one, so a worker that comes back late
  names a generation that is over.\<close>

definition slot_held :: "cdb \<Rightarrow> uuid \<Rightarrow> ((uuid \<times> int) option \<times> time) option" where
  "slot_held d i = Option.bind (find (slot_is i) (cd_outbox d)) (\<lambda>sl.
     map_option (\<lambda>e. (Some (i, ob_generation sl), e)) (ob_lease_expires_at sl))"

fun lease_named :: "conv_req \<Rightarrow> (uuid \<times> int) option" where
  "lease_named (SettleReq X now fresh l outcome) = Some (le_message_id l, le_generation l)"
| "lease_named (ReleaseSlotReq now l why) = Some (le_message_id l, le_generation l)"
| "lease_named (UnleaseReq now l) = Some (le_message_id l, le_generation l)"
| "lease_named (MarkUncertainReq now l why) = Some (le_message_id l, le_generation l)"
| "lease_named q = None"

fun leases_by :: "conv_req \<Rightarrow> time \<Rightarrow> bool" where
  "leases_by (LeaseNextReq now worker) e = (now \<le> e)"
| "leases_by (LeaseOneReq now worker message_id) e = (now \<le> e)"
| "leases_by q e = True"

lemma slot_held_iff:
  "slot_held d i = Some (w, e) \<longleftrightarrow>
     (\<exists>sl. find (slot_is i) (cd_outbox d) = Some sl \<and> ob_lease_expires_at sl = Some e \<and> w = Some (i, ob_generation sl))"
  by (auto simp: slot_held_def bind_eq_Some_conv)

text \<open>A statement that skips the slot leaves its lease.\<close>

lemma slot_held_upd:
  assumes "cd_outbox d' = upd_where P f (cd_outbox d)" and "\<And>sl. ob_message_id (f sl) = ob_message_id sl"
    and "find (slot_is i) (cd_outbox d) = Some sl" and "\<not> P sl"
  shows "slot_held d' i = slot_held d i"
  using assms by (simp add: slot_held_def find_upd_where slot_is_def)

lemma find_del_other:
  "find Q rows = Some r \<Longrightarrow> \<not> P r \<Longrightarrow> find Q (del_where P rows) = Some r"
  by (induction rows) (auto simp: del_where_def split: if_splits)

lemma held_not_free: "ob_lease_expires_at sl = Some e \<Longrightarrow> now \<le> e \<Longrightarrow> \<not> lease_free now sl"
  by (simp add: lease_free_def)

lemma slot_found_unique:
  assumes "slots_wf d" and "find (slot_is i) (cd_outbox d) = Some sl" and "c \<in> set (cd_outbox d)" and "ob_message_id c = i"
  shows "c = sl"
proof -
  have "sl \<in> set (cd_outbox d)" "ob_message_id sl = i" using assms(2) by (auto simp: slot_is_def dest: find_SomeD)
  then show ?thesis using distinct_map_inj [OF slots_wfD(2) [OF assms(1)] assms(3)] assms(4) by simp
qed

lemma other_lease_skips:
  assumes "find (slot_is i) (cd_outbox d) = Some sl" and "Some (le_message_id l, le_generation l) \<noteq> Some (i, ob_generation sl)"
  shows "\<not> same_lease l sl" "\<not> holds_slot now l sl"
  using assms by (auto simp: same_lease_def holds_slot_def slot_is_def dest: find_SomeD)

lemma settle_outbox:
  assumes "settle X now fresh l outcome d = Inr (x, d')"
  shows "cd_outbox d' = cd_outbox d \<or> cd_outbox d' = del_where (holds_slot now l) (cd_outbox d) \<or>
    (\<exists>f. cd_outbox d' = upd_where (holds_slot now l) f (cd_outbox d) \<and> (\<forall>sl. ob_message_id (f sl) = ob_message_id sl))"
proof (cases outcome)
  case (Confirmed locator)
  with assms show ?thesis
    by (auto simp: settle_def Let_def bindE_eq_Inr same_tables_def split: if_splits dest!: enqueue_references_same(1))
next
  case (Retryable why)
  define f where "f = (\<lambda>sl :: outbox_row. sl\<lparr>ob_state := (if le_attempts l \<ge> MAX_ATTEMPTS then SlotFailed else Pending), ob_leased_by := None,
    ob_lease_expires_at := None, ob_next_attempt_at := now + secs (backoff_secs (le_attempts l)), ob_last_error := Some why,
    ob_updated_at := now\<rparr>)"
  have "cd_outbox d' = cd_outbox d \<or> cd_outbox d' = upd_where (holds_slot now l) f (cd_outbox d)"
    using assms Retryable by (auto simp: settle_def f_def mark_failed_def Let_def split: if_splits)
  moreover have "ob_message_id (f sl) = ob_message_id sl" for sl by (simp add: f_def)
  ultimately show ?thesis by blast
next
  case (Fatal why)
  define f where "f = (\<lambda>sl :: outbox_row. sl\<lparr>ob_state := SlotFailed, ob_leased_by := None, ob_lease_expires_at := None,
    ob_last_error := Some why, ob_updated_at := now\<rparr>)"
  have "cd_outbox d' = cd_outbox d \<or> cd_outbox d' = upd_where (holds_slot now l) f (cd_outbox d)"
    using assms Fatal by (auto simp: settle_def f_def mark_failed_def Let_def split: if_splits)
  moreover have "ob_message_id (f sl) = ob_message_id sl" for sl by (simp add: f_def)
  ultimately show ?thesis by blast
qed


interpretation slot_leases: lease conv_exec slots_wf slot_held lease_named leases_by
proof
  fix d i w e q
  assume wf: "slots_wf d" and h: "slot_held d i = Some (w, e)" and t: "leases_by q e" and a: "lease_named q \<noteq> w"
  obtain sl where sl: "find (slot_is i) (cd_outbox d) = Some sl" "ob_lease_expires_at sl = Some e" "w = Some (i, ob_generation sl)"
    using h by (auto simp: slot_held_iff)
  have sli: "ob_message_id sl = i" using sl(1) by (auto simp: slot_is_def dest: find_SomeD)
  note skip = slot_held_upd [OF _ _ sl(1)]
  show "slot_held (conv_exec q d) i = Some (w, e)"
  proof (cases "on_slots q")
    case False
    then obtain new where "cd_outbox (conv_exec q d) = cd_outbox d @ new"
      using conv_exec_extends [of q d] by (auto simp: slots_extended_def)
    then have "find (slot_is i) (cd_outbox (conv_exec q d)) = Some sl" by (simp add: find_append sl(1))
    with sl show ?thesis by (simp add: slot_held_iff)
  next
    case True
    have kept: "slot_held (conv_exec q d) i = slot_held d i"
      if "cd_outbox (conv_exec q d) = upd_where (same_lease l) f (cd_outbox d)" "\<And>s. ob_message_id (f s) = ob_message_id s"
        "Some (le_message_id l, le_generation l) \<noteq> Some (i, ob_generation sl)" for l f
      by (rule skip [OF that(1,2) other_lease_skips(1) [OF sl(1) that(3)]])
    show ?thesis
    proof (cases q)
      case (LeaseNextReq now worker)
      have "slot_held (conv_exec q d) i = slot_held d i"
      proof (cases "fetch_optional (sort_key (\<lambda>sl. (ob_next_attempt_at sl, ob_created_at sl)) (filter (due now) (cd_outbox d)))")
        case None
        then show ?thesis by (simp add: LeaseNextReq lease_next_def)
      next
        case (Some c)
        then have c: "c \<in> set (cd_outbox d)" "due now c" using fetch_optional_sort by fastforce+
        have "ob_message_id c \<noteq> i"
          using slot_found_unique [OF wf sl(1) c(1)] c(2) held_not_free [OF sl(2)] t by (auto simp: LeaseNextReq due_def)
        with Some show ?thesis
          by (intro slot_held_upd [where P = "slot_is (ob_message_id c)" and f = "take_lease now worker 1" and sl = sl])
            (simp_all add: LeaseNextReq lease_next_def sl(1), simp_all add: take_lease_def slot_is_def sli)
      qed
      with h show ?thesis by simp
    next
      case (LeaseOneReq now worker message_id)
      have "slot_held (conv_exec q d) i = slot_held d i"
      proof (cases "find (\<lambda>sl. slot_is message_id sl \<and> lease_free now sl) (cd_outbox d)")
        case None
        then show ?thesis by (simp add: LeaseOneReq lease_one_def)
      next
        case (Some c)
        have "\<not> lease_free now sl" using held_not_free [OF sl(2)] t by (simp add: LeaseOneReq)
        with Some show ?thesis
          by (intro slot_held_upd [where P = "\<lambda>sl. slot_is message_id sl \<and> lease_free now sl" and f = "take_lease now worker 0" and sl = sl])
            (simp_all add: LeaseOneReq lease_one_def sl(1), simp_all add: take_lease_def)
      qed
      with h show ?thesis by simp
    next
      case (SettleReq X now fresh l outcome)
      then have out: "\<not> holds_slot now l sl" using a sl(3) other_lease_skips(2) [OF sl(1)] by simp
      have "slot_held (snd (transact (settle X now fresh l outcome) d)) i = slot_held d i"
      proof (rule keep_transact [where R = "\<lambda>a b. slot_held b i = slot_held a i"])
        fix x d' assume "settle X now fresh l outcome d = Inr (x, d')"
        from settle_outbox [OF this] show "slot_held d' i = slot_held d i"
        proof (elim disjE exE conjE)
          assume "cd_outbox d' = del_where (holds_slot now l) (cd_outbox d)"
          with out show ?thesis by (simp add: slot_held_def find_del_other [OF sl(1)] sl(1))
        next
          fix f assume "cd_outbox d' = upd_where (holds_slot now l) f (cd_outbox d)" "\<forall>sl. ob_message_id (f sl) = ob_message_id sl"
          with out show ?thesis
            by (intro slot_held_upd [where P = "holds_slot now l" and f = f and sl = sl]) (simp_all add: sl(1))
        qed (simp add: slot_held_def)
      qed simp
      with h show ?thesis by (simp add: SettleReq)
    next
      case (ReleaseSlotReq now l why)
      then show ?thesis using kept [of l] a sl(3) h by (auto simp: release_slot_def)
    next
      case (UnleaseReq now l)
      then show ?thesis using kept [of l] a sl(3) h by (auto simp: unlease_def)
    next
      case (MarkUncertainReq now l why)
      then show ?thesis using kept [of l] a sl(3) h by (cases "exists_row (same_lease l) (cd_outbox d)") (auto simp: mark_uncertain_def)
    qed (use True in simp_all)
  qed
qed


section \<open>Properties\<close>

lemma start_slots_wf: "slots_wf (start_cdb b)"
  by (simp add: slots_wf_def start_cdb_def)

definition demo_posted :: cdb where
  "demo_posted = runs conv_exec [SendReq demo_ext 12 40 60 ana_api 7 (demo_input 5 ''hello'') (demo_thread ''nats''), LeaseNextReq 13 ''w1'']
     (demo_thread ''nats'')"

lemma demo_posted_wf: "slots_wf demo_posted"
  unfolding demo_posted_def demo_thread_def by (intro slots.invar_runs start_slots_wf)

definition demo_lease :: "int \<Rightarrow> slot_lease" where
  "demo_lease generation = \<lparr>le_message_id = 40, le_conversation_id = 7, le_team_id = 1, le_backend = ''nats'', le_payload = ''hello'',
     le_publish_key = 60, le_generation = generation, le_attempts = 1\<rparr>"

definition demo_settles :: "conv_req list" where
  "demo_settles = [SettleReq demo_ext 14 (\<lambda>k. k) (demo_lease 0) (Fatal ''late''), LeaseNextReq 15 ''w2'',
     SettleReq demo_ext 16 (\<lambda>k. k) (demo_lease 1) (Confirmed ''s:1'')]"



text \<open>C14: publication refines a small machine in which a message is accepted once and then only moves to
  stored or failed, and never away from stored, over every run of the subsystem.\<close>

theorem publication_refines_its_machine:
  assumes "slots_wf d"
  shows "rtranclp pub_step (publications d) (publications (runs conv_exec qs d))"
  using assms
proof (induction qs arbitrary: d)
  case Nil
  then show ?case by simp
next
  case (Cons q qs)
  have "pub_step (publications d) (publications (conv_exec q d))"
    by (rule thread_step_publishes [OF Cons.prems conv_exec_step])
  with Cons.IH [OF slots.invar_step [OF Cons.prems]] show ?case
    by (simp add: converse_rtranclp_into_rtranclp)
qed

theorem publication_refines_its_machine_witness:
  "rtranclp pub_step (publications demo_posted) (publications (runs conv_exec demo_settles demo_posted)) \<and>
   publications demo_posted 40 = Some PendingPublication \<and> publications (runs conv_exec demo_settles demo_posted) 40 = Some Stored"
proof -
  have "publications demo_posted 40 = Some PendingPublication" "publications (runs conv_exec demo_settles demo_posted) 40 = Some Stored"
    by code_simp+
  with publication_refines_its_machine [OF demo_posted_wf, of demo_settles] show ?thesis by simp
qed

text \<open>C27: stored is final. Once a message is stored, no run of clients, workers, retries or late
  answers makes it anything else, and a locator it was given stays the one readers follow.\<close>

theorem stored_is_final:
  assumes "slots_wf d" and "stored_at_locator d i loc"
  shows "stored_at_locator (runs conv_exec qs d) i loc"
  using assms
proof (induction qs arbitrary: d)
  case Nil
  then show ?case by simp
next
  case (Cons q qs)
  then show ?case
    using slots.invar_step [of d q] stored_stays [OF _ conv_exec_step [of d q]] by simp
qed

theorem stored_is_final_witness:
  "stored_at_locator (runs conv_exec (demo_settles @ [SettleReq demo_ext 17 (\<lambda>k. k) (demo_lease 1) (Confirmed ''s:2'')]) demo_posted) 40 (Some ''s:1'')"
proof -
  have "stored_at_locator (runs conv_exec demo_settles demo_posted) 40 (Some ''s:1'')" by code_simp
  with stored_is_final [OF slots.invar_runs [OF demo_posted_wf], of demo_settles 40 "Some ''s:1''"
      "[SettleReq demo_ext 17 (\<lambda>k. k) (demo_lease 1) (Confirmed ''s:2'')]"]
  show ?thesis by (simp add: runs_append)
qed

text \<open>A leased slot belongs to its worker until the lease runs out. No interleaving of other
  workers, clients and late answers takes or ends the lease before that, and at the end of such a run
  an answer for the slot is fenced off exactly when it names another generation or comes too late.\<close>

theorem slot_lease_is_exclusive:
  assumes "slots_wf d" and "slot_held d i = Some (Some (i, g), e)"
    and "\<forall>q \<in> set qs. leases_by q e \<and> lease_named q \<noteq> Some (i, g)" and "le_message_id l = i"
  shows "slot_held (runs conv_exec qs d) i = Some (Some (i, g), e) \<and>
    (settle X now fresh l outcome (runs conv_exec qs d) = Inr (Fenced, runs conv_exec qs d) \<longleftrightarrow> le_generation l \<noteq> g \<or> e \<le> now)"
proof -
  let ?d = "runs conv_exec qs d"
  have held: "slot_held ?d i = Some (Some (i, g), e)"
    by (rule slot_leases.lease_survives [OF assms(1-3)])
  then obtain sl where sl: "find (slot_is i) (cd_outbox ?d) = Some sl" "ob_lease_expires_at sl = Some e" "g = ob_generation sl"
    by (auto simp: slot_held_iff)
  then have slin: "sl \<in> set (cd_outbox ?d)" "ob_message_id sl = i" by (auto simp: slot_is_def dest: find_SomeD)
  have "exists_row (holds_slot now l) (cd_outbox ?d) \<longleftrightarrow> holds_slot now l sl"
    using holder_is_unique [OF slots.invar_runs [OF assms(1)] _ slin(1), of now l] slin assms(4) by (auto simp: exists_row_def)
  also have "\<dots> \<longleftrightarrow> le_generation l = g \<and> now < e"
    using sl slin assms(4) by (auto simp: holds_slot_def same_lease_def)
  finally have "exists_row (holds_slot now l) (cd_outbox ?d) \<longleftrightarrow> le_generation l = g \<and> now < e" .
  moreover have "settle X now fresh l outcome ?d = Inr (Fenced, ?d) \<longleftrightarrow> \<not> exists_row (holds_slot now l) (cd_outbox ?d)"
    by (auto simp: settle_def Let_def bindE_eq_Inr split: published.split)
  ultimately show ?thesis using held by auto
qed

theorem slot_lease_is_exclusive_witness:
  "slot_held demo_posted 40 = Some (Some (40, 1), 60000013) \<and>
   slot_held (runs conv_exec (take 2 demo_settles) demo_posted) 40 = Some (Some (40, 1), 60000013) \<and>
   settle demo_ext 16 (\<lambda>k. k) (demo_lease 0) (Fatal ''late'') (runs conv_exec (take 2 demo_settles) demo_posted) =
     Inr (Fenced, runs conv_exec (take 2 demo_settles) demo_posted)"
proof -
  have h: "slot_held demo_posted 40 = Some (Some (40, 1), 60000013)" by code_simp
  have "\<forall>q \<in> set (take 2 demo_settles). leases_by q 60000013 \<and> lease_named q \<noteq> Some (40, 1)"
    by (simp add: demo_settles_def demo_lease_def)
  from slot_lease_is_exclusive [OF demo_posted_wf h this, of "demo_lease 0" demo_ext 16 "\<lambda>k. k" "Fatal ''late''"] h
  show ?thesis by (simp add: demo_lease_def)
qed

text \<open>A publication given up in a commit the worker never heard of is put back by its timeout: the slot
  is pending again although the message is reported as failed.\<close>

lemma uncertain_revives_a_failed_slot:
  "map ob_state (cd_outbox (runs conv_exec [SettleReq demo_ext 14 (\<lambda>k. k) (demo_lease 1) (Fatal ''too large''),
      MarkUncertainReq 15 (demo_lease 1) ''timeout''] demo_posted)) = [Pending] \<and>
   map cm_publication_state (cd_messages (runs conv_exec [SettleReq demo_ext 14 (\<lambda>k. k) (demo_lease 1) (Fatal ''too large''),
      MarkUncertainReq 15 (demo_lease 1) ''timeout''] demo_posted)) = [PublicationFailed]"
  by code_simp

end
