(* ===== verification/Seats.thy ===== *)
theory Seats
  imports Threads ConvDemo
begin

text \<open>
  Seats of conversations. Every request is a step of an access-control machine on seats
  (\<open>seat_move\<close>): which change of a seat is made, and by whom. Whose seat an owner's is, what a
  removal means and that a project thread is closed to whoever lost the project follow from it.
\<close>

section \<open>The machine\<close>

definition sits_as :: "cdb \<Rightarrow> auth_ctx \<Rightarrow> uuid \<Rightarrow> seat_role list \<Rightarrow> bool" where
  "sits_as d auth i roles \<longleftrightarrow> require_project_open auth i d = Inr () \<and>
     list_ex (\<lambda>m. seat_key_is i (au_agent_id auth) (au_session auth) m \<and> mb_state m = Active \<and> mb_role m \<in> set roles) (cd_seats d)"

abbreviation moderates :: "cdb \<Rightarrow> auth_ctx \<Rightarrow> uuid \<Rightarrow> bool" where
  "moderates d auth i \<equiv> sits_as d auth i [Owner, Moderator]"

abbreviation owns :: "cdb \<Rightarrow> auth_ctx \<Rightarrow> uuid \<Rightarrow> bool" where
  "owns d auth i \<equiv> sits_as d auth i [Owner]"

definition seat_key :: "seat_row \<Rightarrow> uuid \<times> uuid \<times> string" where
  "seat_key m = (mb_conversation_id m, mb_agent_id m, mb_session m)"

definition same_seat :: "seat_row \<Rightarrow> seat_row \<Rightarrow> bool" where
  "same_seat m m' \<longleftrightarrow> mb_id m' = mb_id m \<and> seat_key m' = seat_key m"

definition same_rights :: "seat_row \<Rightarrow> seat_row \<Rightarrow> bool" where
  "same_rights m m' \<longleftrightarrow> mb_role m' = mb_role m \<and> mb_state m' = mb_state m \<and>
     mb_history_from_seq m' = mb_history_from_seq m \<and> mb_session_id m' = mb_session_id m"

definition own_seat :: "auth_ctx \<Rightarrow> seat_row \<Rightarrow> bool" where
  "own_seat auth m \<longleftrightarrow> mb_agent_id m = au_agent_id auth \<and> mb_session m = au_session auth"

text \<open>\<open>k\<close> says the request is an invitation: only those offer a seat again or change a role.\<close>

inductive seat_move :: "bool \<Rightarrow> auth_ctx \<Rightarrow> cdb \<Rightarrow> seat_row \<Rightarrow> seat_row \<Rightarrow> bool" for k auth d where
  stays: "same_seat m m' \<Longrightarrow> same_rights m m' \<Longrightarrow> seat_move k auth d m m'"
| offered: "k \<Longrightarrow> same_seat m m' \<Longrightarrow> moderates d auth (mb_conversation_id m) \<Longrightarrow> ended m \<Longrightarrow> mb_state m' = Invited \<Longrightarrow>
    mb_role m' \<noteq> Owner \<Longrightarrow> mb_session_id m' = None \<Longrightarrow>
    (mb_state m = Removed \<Longrightarrow> mb_history_from_seq m' = map_option cv_last_seq (conversation_at d (mb_conversation_id m))) \<Longrightarrow>
    seat_move k auth d m m'"
| regraded: "k \<Longrightarrow> same_seat m m' \<Longrightarrow> moderates d auth (mb_conversation_id m) \<Longrightarrow> seated m \<Longrightarrow>
    (mb_role m = Owner \<Longrightarrow> owns d auth (mb_conversation_id m)) \<Longrightarrow> mb_role m' \<noteq> Owner \<Longrightarrow> mb_state m' = mb_state m \<Longrightarrow>
    mb_history_from_seq m' = mb_history_from_seq m \<Longrightarrow> mb_session_id m' = mb_session_id m \<Longrightarrow> seat_move k auth d m m'"
| accepted: "same_seat m m' \<Longrightarrow> own_seat auth m \<Longrightarrow> require_project_open auth (mb_conversation_id m) d = Inr () \<Longrightarrow>
    mb_state m = Invited \<Longrightarrow> mb_state m' = Active \<Longrightarrow> mb_role m' = mb_role m \<Longrightarrow>
    mb_history_from_seq m' = mb_history_from_seq m \<Longrightarrow> mb_session_id m' = au_session_id auth \<Longrightarrow> seat_move k auth d m m'"
| departed: "same_seat m m' \<Longrightarrow> own_seat auth m \<Longrightarrow> seated m \<Longrightarrow> mb_state m' = Left \<Longrightarrow> mb_role m' = mb_role m \<Longrightarrow>
    mb_history_from_seq m' = mb_history_from_seq m \<Longrightarrow> seat_move k auth d m m'"
| superseded: "same_seat m m' \<Longrightarrow> mb_agent_id m = au_agent_id auth \<Longrightarrow> mb_state m = Active \<Longrightarrow> mb_state m' = Left \<Longrightarrow>
    mb_role m' = mb_role m \<Longrightarrow> mb_history_from_seq m' = mb_history_from_seq m \<Longrightarrow> seat_move k auth d m m'"
| expelled: "same_seat m m' \<Longrightarrow> moderates d auth (mb_conversation_id m) \<Longrightarrow> seated m \<Longrightarrow>
    (mb_role m = Owner \<Longrightarrow> owns d auth (mb_conversation_id m)) \<Longrightarrow> mb_state m' = Removed \<Longrightarrow> mb_role m' = mb_role m \<Longrightarrow>
    mb_history_from_seq m' = mb_history_from_seq m \<Longrightarrow> seat_move k auth d m m'"
| handed: "same_seat m m' \<Longrightarrow> mb_agent_id m = au_agent_id auth \<Longrightarrow> require_project_open auth (mb_conversation_id m) d = Inr () \<Longrightarrow>
    mb_state m = Left \<Longrightarrow> source \<in> set (cd_seats d) \<Longrightarrow> own_seat auth source \<Longrightarrow> mb_conversation_id source = mb_conversation_id m \<Longrightarrow>
    mb_state source = Active \<Longrightarrow> mb_state m' = Invited \<Longrightarrow> mb_role m' = mb_role source \<Longrightarrow>
    mb_history_from_seq m' = mb_history_from_seq source \<Longrightarrow> mb_session_id m' = None \<Longrightarrow> seat_move k auth d m m'"

inductive_cases seat_moveE: "seat_move k auth d m m'"

text \<open>Where a new seat comes from.\<close>

inductive seat_new :: "auth_ctx \<Rightarrow> cdb \<Rightarrow> seat_row \<Rightarrow> bool" for auth d where
  founded: "conversation_at d (mb_conversation_id m) = None \<Longrightarrow> own_seat auth m \<Longrightarrow> mb_role m = Owner \<Longrightarrow> mb_state m = Active \<Longrightarrow>
    mb_history_from_seq m = None \<Longrightarrow> seat_new auth d m"
| founding_invite: "conversation_at d (mb_conversation_id m) = None \<Longrightarrow> mb_role m = Participant \<Longrightarrow> mb_state m = Invited \<Longrightarrow> seat_new auth d m"
| invited: "moderates d auth (mb_conversation_id m) \<Longrightarrow> mb_role m \<noteq> Owner \<Longrightarrow> mb_state m = Invited \<Longrightarrow> seat_new auth d m"
| handed_new: "require_project_open auth (mb_conversation_id m) d = Inr () \<Longrightarrow> mb_agent_id m = au_agent_id auth \<Longrightarrow>
    source \<in> set (cd_seats d) \<Longrightarrow> own_seat auth source \<Longrightarrow> mb_conversation_id source = mb_conversation_id m \<Longrightarrow>
    mb_state source = Active \<Longrightarrow> mb_state m = Invited \<Longrightarrow> mb_role m = mb_role source \<Longrightarrow>
    mb_history_from_seq m = mb_history_from_seq source \<Longrightarrow> seat_new auth d m"

text \<open>Ids and addresses are unique, and a seat's columns agree with its state.\<close>

definition seat_ok :: "seat_row \<Rightarrow> bool" where
  "seat_ok m \<longleftrightarrow> (mb_state m = Active \<longrightarrow> mb_accepted_at m \<noteq> None) \<and> (mb_ended_at m = None \<longleftrightarrow> seated m) \<and>
     (mb_state m = Invited \<longrightarrow> mb_session_id m = None)"

definition seats_wf :: "cdb \<Rightarrow> bool" where
  "seats_wf d \<longleftrightarrow> distinct (map mb_id (cd_seats d)) \<and> distinct (map seat_key (cd_seats d)) \<and>
     list_all (\<lambda>m. seat_ok m \<and> conversation_at d (mb_conversation_id m) \<noteq> None) (cd_seats d)"

definition seats_change :: "bool \<Rightarrow> auth_ctx \<Rightarrow> cdb \<Rightarrow> cdb \<Rightarrow> bool" where
  "seats_change k auth d d' \<longleftrightarrow> seats_wf d' \<and> (\<exists>old new. cd_seats d' = old @ new \<and>
     list_all2 (seat_move k auth d) (cd_seats d) old \<and> list_all (seat_new auth d) new)"

lemma seat_move_refl [simp]: "seat_move k auth d m m"
  by (rule stays) (simp_all add: same_seat_def same_rights_def)

lemma conversation_persists:
  assumes "thread_step d d'" and "conversation_at d i \<noteq> None"
  shows "conversation_at d' i \<noteq> None"
proof -
  have at: "conversation_at d i \<noteq> None \<longleftrightarrow> i \<in> cv_id ` set (cd_conversations d)" for d
    by (auto simp: conversation_at_def find_None_set)
  have core: "cv_id ` set cs = fst ` set (map conv_core cs)" for cs
    by (force simp: conv_core_def image_iff)
  show ?thesis
    using assms(1)
  proof (cases rule: thread_step.cases)
    case kept
    then show ?thesis using assms(2) unfolding at core by simp
  next
    case (posted m c rs st sl)
    have "cv_id ` set (cd_conversations d') = cv_id ` set (cd_conversations d)"
      unfolding posted(6) by (rule image_upd_where_same) simp
    then show ?thesis using assms(2) unfolding at by simp
  next
    case (opened c)
    show ?thesis using assms(2) unfolding at opened(3) by simp
  next
    case (published now l locator)
    show ?thesis using assms(2) unfolding at published(2) .
  next
    case (gave_up now l f)
    show ?thesis using assms(2) unfolding at gave_up(2) .
  qed
qed

text \<open>A statement that updates seats without touching their identity, and one that adds seats.\<close>

lemma seats_change_upd:
  assumes wf: "seats_wf d" and step: "thread_step d d'" and d': "cd_seats d' = upd_where P f (cd_seats d)"
    and move: "\<And>m. m \<in> set (cd_seats d) \<Longrightarrow> P m \<Longrightarrow> seat_move k auth d m (f m) \<and> same_seat m (f m) \<and> seat_ok (f m)"
  shows "seats_change k auth d d'"
proof -
  have "map mb_id (cd_seats d') = map mb_id (cd_seats d)" "map seat_key (cd_seats d') = map seat_key (cd_seats d)"
    unfolding d' by (rule map_upd_where_set; use move in \<open>auto simp: same_seat_def\<close>)+
  moreover have "seat_ok m \<and> conversation_at d' (mb_conversation_id m) \<noteq> None" if m': "m \<in> set (cd_seats d')" for m
  proof -
    obtain r where r: "r \<in> set (cd_seats d)" "m = (if P r then f r else r)" using m' unfolding d' set_upd_where by blast
    then have "seat_ok m" "mb_conversation_id m = mb_conversation_id r"
      using wf move [OF r(1)] by (auto simp: seats_wf_def list_all_iff same_seat_def seat_key_def)
    moreover have "conversation_at d (mb_conversation_id r) \<noteq> None" using wf r(1) by (auto simp: seats_wf_def list_all_iff)
    ultimately show ?thesis using conversation_persists [OF step] by simp
  qed
  moreover have "list_all2 (seat_move k auth d) (cd_seats d) (cd_seats d')"
    unfolding d' using move by (intro list_all2_upd_where) simp_all
  ultimately show ?thesis using wf unfolding seats_change_def
    by (intro conjI exI [of _ "cd_seats d'"] exI [of _ "[]"]) (simp_all add: seats_wf_def list_all_iff)
qed

lemma seats_change_same: "seats_wf d \<Longrightarrow> thread_step d d' \<Longrightarrow> cd_seats d' = cd_seats d \<Longrightarrow> seats_change k auth d d'"
  by (rule seats_change_upd [where P = "\<lambda>_. False" and f = id]) (simp_all add: upd_where_none)

lemma seats_change_add:
  assumes wf: "seats_wf d" and step: "thread_step d d'" and d': "cd_seats d' = cd_seats d @ new"
    and new: "distinct (map mb_id new)" "distinct (map seat_key new)"
      "\<And>m. m \<in> set new \<Longrightarrow> mb_id m \<notin> mb_id ` set (cd_seats d) \<and> seat_key m \<notin> seat_key ` set (cd_seats d) \<and> seat_ok m \<and>
         conversation_at d' (mb_conversation_id m) \<noteq> None \<and> seat_new auth d m"
  shows "seats_change k auth d d'"
proof -
  have "conversation_at d' (mb_conversation_id m) \<noteq> None" if "m \<in> set (cd_seats d)" for m
    using wf that conversation_persists [OF step] by (auto simp: seats_wf_def list_all_iff)
  moreover have "distinct (map mb_id (cd_seats d'))" "distinct (map seat_key (cd_seats d'))"
    using wf new by (auto simp: d' seats_wf_def) (metis imageI)+
  ultimately have "seats_wf d'" using wf new(3) by (auto simp: seats_wf_def d' list_all_iff)
  then show ?thesis unfolding seats_change_def
    by (intro conjI exI [of _ "cd_seats d"] exI [of _ new]) (use new(3) in \<open>simp_all add: d' list_all2_refl list_all_iff\<close>)
qed


text \<open>The machine does not look at the other columns.\<close>

lemma seat_move_touch: "seat_move k auth d m m1 \<Longrightarrow> same_seat m1 m2 \<Longrightarrow> same_rights m1 m2 \<Longrightarrow> seat_move k auth d m m2"
  by (induction rule: seat_move.induct)
    (auto simp: same_seat_def same_rights_def intro: seat_move.intros)

lemma seat_new_touch: "seat_new auth d m1 \<Longrightarrow> same_seat m1 m2 \<Longrightarrow> same_rights m1 m2 \<Longrightarrow> seat_new auth d m2"
  by (induction rule: seat_new.induct)
    (auto simp: same_seat_def same_rights_def seat_key_def own_seat_def intro: seat_new.intros)

definition touch :: "(seat_row \<Rightarrow> seat_row) \<Rightarrow> bool" where
  "touch g \<longleftrightarrow> (\<forall>m. same_seat m (g m) \<and> same_rights m (g m) \<and> seat_ok (g m) = seat_ok m)"

lemma touches [simp]: "touch (\<lambda>m. m\<lparr>mb_superseded_by := x\<rparr>)" "touch (\<lambda>m. m\<lparr>mb_transfer_from := y\<rparr>)"
  by (simp_all add: touch_def same_seat_def same_rights_def seat_key_def seat_ok_def seated_def)

lemma list_all2_touch:
  assumes "list_all2 (seat_move k auth d) ms ms1" and "touch g"
  shows "list_all2 (seat_move k auth d) ms (upd_where Q g ms1)"
  using assms(1)
proof (induction rule: list_all2_induct)
  case Nil
  then show ?case by simp
next
  case (Cons m ms m1 ms1)
  have "seat_move k auth d m (g m1)" by (rule seat_move_touch [OF Cons(1)]) (use assms(2) in \<open>simp_all add: touch_def\<close>)
  with Cons show ?case by simp
qed

lemma seats_change_touch:
  assumes "seats_change k auth d d1" and g: "touch g" and d': "cd_seats d' = upd_where Q g (cd_seats d1)"
    and convs: "cd_conversations d' = cd_conversations d1"
  shows "seats_change k auth d d'"
proof -
  obtain old new where d1: "seats_wf d1" "cd_seats d1 = old @ new" "list_all2 (seat_move k auth d) (cd_seats d) old" "list_all (seat_new auth d) new"
    using assms(1) by (auto simp: seats_change_def)
  have "map mb_id (cd_seats d') = map mb_id (cd_seats d1)" "map seat_key (cd_seats d') = map seat_key (cd_seats d1)"
    unfolding d' by (rule map_upd_where_same; use g in \<open>simp add: touch_def same_seat_def\<close>)+
  moreover have "mb_conversation_id (g m) = mb_conversation_id m" for m
    using g by (simp add: touch_def same_seat_def seat_key_def)
  then have "list_all (\<lambda>m. seat_ok m \<and> conversation_at d' (mb_conversation_id m) \<noteq> None) (cd_seats d')"
    using d1(1) g by (auto simp: seats_wf_def d' list_all_iff set_upd_where conversation_at_def convs touch_def)
  ultimately have "seats_wf d'" using d1(1) by (simp add: seats_wf_def)
  moreover have "list_all (seat_new auth d) (upd_where Q g new)"
  proof -
    have "seat_new auth d (g m)" if "seat_new auth d m" for m
      by (rule seat_new_touch [OF that]) (use g in \<open>simp_all add: touch_def\<close>)
    then show ?thesis using d1(4) by (auto simp: list_all_iff set_upd_where)
  qed
  ultimately show ?thesis
    unfolding seats_change_def using list_all2_touch [OF d1(3) g]
    by (intro conjI exI [of _ "upd_where Q g old"] exI [of _ "upd_where Q g new"]) (simp_all add: d' d1(2))
qed

section \<open>Every request is a step\<close>

text \<open>The state a client's checks read may be old, but it is a state of the same database: a seat's id
  names the same address in it.\<close>

definition seat_ids_agree :: "cdb \<Rightarrow> cdb \<Rightarrow> bool" where
  "seat_ids_agree d0 d \<longleftrightarrow> list_all (\<lambda>m. list_all (\<lambda>n. mb_id m = mb_id n \<longrightarrow> seat_key m = seat_key n) (cd_seats d)) (cd_seats d0)"

fun snapshot_ok :: "conv_req \<Rightarrow> cdb \<Rightarrow> bool" where
  "snapshot_ok (TransferReq now new_id auth i to d0) d = seat_ids_agree d0 d"
| "snapshot_ok q d = True"

lemma seat_key_is_iff: "seat_key_is i a s m \<longleftrightarrow> seat_key m = (i, a, s)"
  by (auto simp: seat_key_is_def seat_key_def)

lemma seat_key_is_eq: "seat_key_is i a s = (\<lambda>m. seat_key m = (i, a, s))"
  by (rule ext) (rule seat_key_is_iff)

lemma sits_asI:
  "require_project_open auth i d = Inr () \<Longrightarrow> find (seat_key_is i (au_agent_id auth) (au_session auth)) (cd_seats d) = Some m \<Longrightarrow>
   mb_state m = Active \<Longrightarrow> mb_role m \<in> set roles \<Longrightarrow> sits_as d auth i roles"
  by (auto simp: sits_as_def list_ex_iff dest!: find_SomeD)

lemma key_found: "seats_wf d \<Longrightarrow> m \<in> set (cd_seats d) \<Longrightarrow> seat_key m = (i, a, s) \<Longrightarrow> find (seat_key_is i a s) (cd_seats d) = Some m"
  using find_unique [of seat_key "cd_seats d" m] by (simp add: seats_wf_def seat_key_is_eq)

lemma seat_wf_ok: "seats_wf d \<Longrightarrow> m \<in> set (cd_seats d) \<Longrightarrow> seat_ok m"
  by (simp add: seats_wf_def list_all_iff)

lemma put_seat_cases:
  assumes "put_seat new upd d = Inr d'"
  obtains (upd) m where "find (seat_key_is (mb_conversation_id new) (mb_agent_id new) (mb_session new)) (cd_seats d) = Some m"
      "cd_seats d' = upd_where (seat_key_is (mb_conversation_id new) (mb_agent_id new) (mb_session new)) upd (cd_seats d)"
    | (new) "seat_key new \<notin> seat_key ` set (cd_seats d)" "mb_id new \<notin> mb_id ` set (cd_seats d)" "cd_seats d' = cd_seats d @ [new]"
proof (cases "find (seat_key_is (mb_conversation_id new) (mb_agent_id new) (mb_session new)) (cd_seats d)")
  case None
  then have "seat_key new \<notin> seat_key ` set (cd_seats d)"
    by (auto simp: find_None_set seat_key_is_iff seat_key_def)
  moreover have "mb_id new \<notin> mb_id ` set (cd_seats d)" "cd_seats d' = cd_seats d @ [new]"
    using assms None by (auto simp: put_seat_def insert_seat_def exists_row_find Let_def find_None_set split: if_splits)
  ultimately show thesis using that(2) by blast
next
  case (Some m)
  then show thesis using that(1) assms by (auto simp: put_seat_def exists_row_find Let_def)
qed

lemma project_open_thread: "require_project_open auth i d = Inr () \<Longrightarrow> conversation_at d i \<noteq> None"
  by (auto simp: require_project_open_def conversation_at_def find_None_set split: option.splits dest!: find_SomeD)

lemma parse_role_not_owner: "parse_role r = Inr role \<Longrightarrow> role \<noteq> Owner"
  by (auto simp: parse_role_def Let_def split: option.splits if_splits)

lemma invite_change:
  assumes wf: "seats_wf d" and tx: "invite_tx now new_id auth i agent session role from_start d = Inr (x, d')" and role: "role \<noteq> Owner"
  shows "seats_change True auth d d'"
  using tx
proof (rule invite_tx_put)
  fix c inviter from_seq d1 act
  assume c: "conversation_at d i = Some c" and op: "require_project_open auth i d = Inr ()"
    and inv: "find (seat_key_is i (au_agent_id auth) (au_session auth)) (cd_seats d) = Some inviter"
      "mb_state inviter = Active" "mb_role inviter \<in> set [Owner, Moderator]"
    and own: "\<And>m. find (seat_key_is i agent session) (cd_seats d) = Some m \<Longrightarrow> seated m \<Longrightarrow> mb_role m = Owner \<Longrightarrow> mb_role inviter = Owner"
    and from_seq: "from_seq = (if map_option mb_state (find (seat_key_is i agent session) (cd_seats d)) = Some Removed \<or> \<not> from_start
       then Some (cv_last_seq c) else mb_history_from_seq inviter)"
    and put: "put_seat (new_seat now new_id auth i agent session role from_seq) (offer_seat now auth role from_seq) d = Inr d1"
    and d': "d' = conv_audit now auth (Some i) act (Some agent) d1"
  have mod: "moderates d auth i" by (rule sits_asI [OF op inv])
  note step = seat_tx_steps(1) [OF tx]
  from put show ?thesis
  proof (cases rule: put_seat_cases)
    case (upd m)
    show ?thesis
    proof (rule seats_change_upd [OF wf step])
      show "cd_seats d' = upd_where (seat_key_is i agent session) (offer_seat now auth role from_seq) (cd_seats d)"
        using upd by (simp add: d' new_seat_def)
    next
      fix n assume n: "n \<in> set (cd_seats d)" "seat_key_is i agent session n"
      then have found: "find (seat_key_is i agent session) (cd_seats d) = Some n"
        by (intro key_found [OF wf]) (simp_all add: seat_key_is_iff)
      have conv: "mb_conversation_id n = i" using n(2) by (simp add: seat_key_is_def)
      have same: "same_seat n (offer_seat now auth role from_seq n)"
        by (simp add: same_seat_def seat_key_def offer_seat_def)
      have "seat_move True auth d n (offer_seat now auth role from_seq n)"
      proof (cases "ended n")
        case True
        then show ?thesis using mod conv same role c found from_seq
          by (intro offered) (simp_all add: offer_seat_def)
      next
        case False
        then have "seated n" by (cases "mb_state n") (simp_all add: ended_def seated_def)
        moreover have "owns d auth i" if "mb_role n = Owner"
          using own [OF found \<open>seated n\<close> that] inv by (intro sits_asI [OF op inv(1)]) simp_all
        ultimately show ?thesis using mod conv same role False
          by (intro regraded) (simp_all add: offer_seat_def)
      qed
      moreover have "seat_ok (offer_seat now auth role from_seq n)"
        using seat_wf_ok [OF wf n(1)] by (cases "mb_state n") (auto simp: seat_ok_def offer_seat_def ended_def seated_def)
      ultimately show "seat_move True auth d n (offer_seat now auth role from_seq n) \<and> same_seat n (offer_seat now auth role from_seq n) \<and>
          seat_ok (offer_seat now auth role from_seq n)" using same by blast
    qed
  next
    case new
    have conv: "conversation_at d' i \<noteq> None" using conversation_persists [OF step] c by simp
    show ?thesis
      by (rule seats_change_add [OF wf step, where new = "[new_seat now new_id auth i agent session role from_seq]"])
        (use new conv mod role in \<open>auto simp: d' new_seat_def seat_ok_def seated_def intro!: invited\<close>)
  qed
qed


lemma remove_change:
  assumes wf: "seats_wf d" and tx: "remove_tx now auth i agent session d = Inr (x, d')"
  shows "seats_change k auth d d'"
proof -
  let ?P = "\<lambda>m. seat_key_is i agent session m \<and> seated m"
  obtain caller m where op: "require_project_open auth i d = Inr ()"
    and caller: "find (seat_key_is i (au_agent_id auth) (au_session auth)) (cd_seats d) = Some caller"
      "mb_state caller = Active" "mb_role caller \<in> set [Owner, Moderator]"
    and m: "find ?P (cd_seats d) = Some m" "mb_role m = Owner \<Longrightarrow> mb_role caller = Owner"
    and d': "d' = conv_audit now auth (Some i) ''member.remove'' (Some agent)
      (d\<lparr>cd_seats := upd_where ?P (\<lambda>m. m\<lparr>mb_state := Removed, mb_ended_at := Some now\<rparr>) (cd_seats d)\<rparr>)"
    using tx by (auto simp: remove_tx_def bindE_eq_Inr Let_def split: if_splits option.splits)
  have mod: "moderates d auth i" by (rule sits_asI [OF op caller])
  show ?thesis
  proof (rule seats_change_upd [OF wf seat_tx_steps(2) [OF tx]])
    show "cd_seats d' = upd_where ?P (\<lambda>m. m\<lparr>mb_state := Removed, mb_ended_at := Some now\<rparr>) (cd_seats d)" by (simp add: d')
  next
    fix n assume n: "n \<in> set (cd_seats d)" "?P n"
    have "m \<in> set (cd_seats d)" "seat_key m = seat_key n" using m(1) n(2) by (auto simp: seat_key_is_iff dest: find_SomeD)
    then have "n = m" using distinct_map_inj [of seat_key "cd_seats d" n m] wf n(1) by (simp add: seats_wf_def)
    then have "owns d auth i" if "mb_role n = Owner"
      using m(2) that caller(2) by (intro sits_asI [OF op caller(1)]) simp_all
    moreover have "mb_conversation_id n = i" using n(2) by (simp add: seat_key_is_def)
    ultimately show "seat_move k auth d n (n\<lparr>mb_state := Removed, mb_ended_at := Some now\<rparr>) \<and>
        same_seat n (n\<lparr>mb_state := Removed, mb_ended_at := Some now\<rparr>) \<and> seat_ok (n\<lparr>mb_state := Removed, mb_ended_at := Some now\<rparr>)"
      using n mod by (auto simp: same_seat_def seat_key_def seat_ok_def seated_def intro!: expelled)
  qed
qed

lemma leave_change:
  assumes wf: "seats_wf d" and step: "thread_step d d'"
    and d': "cd_seats d' = upd_where (\<lambda>m. seat_key_is i (au_agent_id auth) (au_session auth) m \<and> seated m)
      (\<lambda>m. m\<lparr>mb_state := Left, mb_ended_at := Some now\<rparr>) (cd_seats d)"
  shows "seats_change k auth d d'"
  by (rule seats_change_upd [OF wf step d'])
    (auto simp: same_seat_def seat_key_def seat_ok_def seated_def own_seat_def seat_key_is_def intro!: departed)

lemma transfer_change:
  assumes wf: "seats_wf d" and tx: "transfer_tx now new_id auth i mine session d = Inr (x, d')"
    and mine: "\<And>m. m \<in> set (cd_seats d) \<Longrightarrow> mb_id m = mine \<Longrightarrow> seat_key m = (i, au_agent_id auth, au_session auth)"
  shows "seats_change k auth d d'"
  using tx
proof (rule transfer_tx_put)
  fix source d1
  assume op: "require_project_open auth i d = Inr ()" and src: "find (\<lambda>m. mb_id m = mine) (cd_seats d) = Some source" "mb_state source = Active"
    and left: "\<And>m. find (seat_key_is i (au_agent_id auth) session) (cd_seats d) = Some m \<Longrightarrow> mb_state m = Left"
    and put: "put_seat ((new_seat now new_id auth i (au_agent_id auth) session (mb_role source) (mb_history_from_seq source))
       \<lparr>mb_transfer_from := Some mine\<rparr>) (transfer_seat now source) d = Inr d1"
    and d': "d' = conv_audit now auth (Some i) ''member.transfer'' (Some (au_agent_id auth))
       (d1\<lparr>cd_seats := upd_where (\<lambda>m. mb_id m = mine) (\<lambda>m. m\<lparr>mb_superseded_by := None\<rparr>) (cd_seats d1)\<rparr>)"
  have sin: "source \<in> set (cd_seats d)" using src(1) by (auto dest: find_SomeD)
  then have key: "mb_conversation_id source = i" "own_seat auth source"
    using mine [of source] src(1) by (auto simp: seat_key_def own_seat_def dest: find_SomeD)
  have step: "thread_step d d1" "cd_conversations d1 = cd_conversations d"
    using put_seat_same [OF put] by (auto intro: thread_step_same)
  from put have "seats_change k auth d d1"
  proof (cases rule: put_seat_cases)
    case (upd m)
    show ?thesis
    proof (rule seats_change_upd [OF wf step(1)])
      show "cd_seats d1 = upd_where (seat_key_is i (au_agent_id auth) session) (transfer_seat now source) (cd_seats d)"
        using upd(2) by (simp add: new_seat_def)
    next
      fix n assume n: "n \<in> set (cd_seats d)" "seat_key_is i (au_agent_id auth) session n"
      then have found: "find (seat_key_is i (au_agent_id auth) session) (cd_seats d) = Some n"
        by (intro key_found [OF wf]) (simp_all add: seat_key_is_iff)
      have "same_seat n (transfer_seat now source n)" "seat_ok (transfer_seat now source n)"
        by (simp_all add: same_seat_def seat_key_def transfer_seat_def seat_ok_def seated_def)
      moreover have "seat_move k auth d n (transfer_seat now source n)"
        using left [OF found] n(2) op sin src(2) key
        by (intro handed [where source = source] calculation(1)) (simp_all add: seat_key_is_def transfer_seat_def)
      ultimately show "seat_move k auth d n (transfer_seat now source n) \<and> same_seat n (transfer_seat now source n) \<and> seat_ok (transfer_seat now source n)"
        by blast
    qed
  next
    case new
    define s where "s = (new_seat now new_id auth i (au_agent_id auth) session (mb_role source) (mb_history_from_seq source))\<lparr>mb_transfer_from := Some mine\<rparr>"
    have s: "seat_new auth d s" using op sin src(2) key
      by (intro handed_new [where source = source]) (simp_all add: s_def new_seat_def)
    have "conversation_at d1 i \<noteq> None" using project_open_thread [OF op] by (simp add: conversation_at_def step(2))
    then show ?thesis
      by (intro seats_change_add [OF wf step(1), where new = "[s]"])
        (use new s in \<open>auto simp: s_def new_seat_def seat_ok_def seated_def\<close>)
  qed
  then show ?thesis
    by (rule seats_change_touch [where g = "\<lambda>m. m\<lparr>mb_superseded_by := None\<rparr>" and Q = "\<lambda>m. mb_id m = mine"]) (simp_all add: d')
qed

lemma join_change:
  assumes wf: "seats_wf d" and op: "require_project_open auth i d = Inr ()"
    and m: "find (\<lambda>m. seat_key_is i (au_agent_id auth) (au_session auth) m \<and> mb_state m = Invited) (cd_seats d) = Some m"
    and d1: "d1 = d\<lparr>cd_seats := upd_where (\<lambda>m. seat_key_is i (au_agent_id auth) (au_session auth) m \<and> mb_state m = Invited)
       (\<lambda>m. m\<lparr>mb_state := Active, mb_accepted_at := Some now, mb_session_id := au_session_id auth\<rparr>) (cd_seats d)\<rparr>"
  shows "seats_change k auth d (supersede_predecessor now auth i (mb_id m) d1)"
proof -
  let ?P = "\<lambda>m. seat_key_is i (au_agent_id auth) (au_session auth) m \<and> mb_state m = Invited"
  let ?f = "\<lambda>m. m\<lparr>mb_state := Active, mb_accepted_at := Some now, mb_session_id := au_session_id auth\<rparr>"
  define from_seat where "from_seat = Option.bind (find (\<lambda>n. mb_id n = mb_id m) (cd_seats d1)) mb_transfer_from"
  define Q where "Q = (\<lambda>p :: seat_row. from_seat = Some (mb_id p) \<and> mb_conversation_id p = i \<and> mb_agent_id p = au_agent_id auth \<and>
      mb_id p \<noteq> mb_id m \<and> mb_state p = Active \<and> mb_superseded_by p = None)"
  define g where "g = (\<lambda>p :: seat_row. p\<lparr>mb_state := Left, mb_ended_at := Some now, mb_superseded_by := Some (mb_id m)\<rparr>)"
  define h where "h = (\<lambda>n. if Q (if ?P n then ?f n else n) then g (if ?P n then ?f n else n) else if ?P n then ?f n else n)"
  have h: "upd_where Q g (upd_where ?P ?f (cd_seats d)) = upd_where (\<lambda>_. True) h (cd_seats d)"
    by (simp add: upd_where_def h_def comp_def)
  let ?d2 = "d\<lparr>cd_seats := upd_where (\<lambda>_. True) h (cd_seats d)\<rparr>"
  have "seats_change k auth d ?d2"
  proof (rule seats_change_upd [OF wf])
    show "thread_step d ?d2" by (rule thread_step_same) (simp_all add: same_tables_def)
    show "cd_seats ?d2 = upd_where (\<lambda>_. True) h (cd_seats d)" by simp
  next
    fix n assume n: "n \<in> set (cd_seats d)"
    show "seat_move k auth d n (h n) \<and> same_seat n (h n) \<and> seat_ok (h n)"
    proof (cases "?P n")
      case True
      then have "seat_key m = seat_key n" "m \<in> set (cd_seats d)" using m by (auto simp: seat_key_is_iff dest: find_SomeD)
      then have "n = m" using distinct_map_inj [of seat_key "cd_seats d" n m] wf n by (simp add: seats_wf_def)
      then have hn: "h n = ?f n" using True by (simp add: h_def Q_def)
      have "mb_ended_at n = None" using seat_wf_ok [OF wf n] True by (simp add: seat_ok_def seated_def)
      then have "seat_ok (?f n)" "same_seat n (?f n)" by (simp_all add: seat_ok_def seated_def same_seat_def seat_key_def)
      moreover have "seat_move k auth d n (?f n)"
        using True op by (intro accepted calculation(2)) (simp_all add: own_seat_def seat_key_is_def)
      ultimately show ?thesis by (simp add: hn)
    next
      case False
      show ?thesis
      proof (cases "Q n")
        case True
        have same: "same_seat n (g n)" by (simp add: g_def same_seat_def seat_key_def)
        have "seat_move k auth d n (g n)" using True by (intro superseded same) (simp_all add: Q_def g_def)
        moreover have "seat_ok (g n)" by (simp add: g_def seat_ok_def seated_def)
        ultimately show ?thesis using False True same by (auto simp: h_def)
      next
        case notQ: False
        then show ?thesis using False seat_wf_ok [OF wf n] by (auto simp: h_def same_seat_def)
      qed
    qed
  qed
  then show ?thesis
    by (rule seats_change_touch [where g = "\<lambda>m. m\<lparr>mb_transfer_from := None\<rparr>" and Q = "\<lambda>n. mb_id n = mb_id m"])
      (simp_all add: supersede_predecessor_def Let_def d1 h [symmetric] Q_def g_def from_seat_def)
qed


lemma invite_all_news:
  "invite_all now fresh k auth i invites d = Inr d' \<Longrightarrow>
   \<exists>new. cd_seats d' = cd_seats d @ new \<and> distinct (map mb_id new) \<and> distinct (map seat_key new) \<and>
     (\<forall>m \<in> set new. mb_id m \<notin> mb_id ` set (cd_seats d) \<and> seat_key m \<notin> seat_key ` set (cd_seats d) \<and>
        mb_conversation_id m = i \<and> mb_role m = Participant \<and> mb_state m = Invited \<and> seat_ok m)"
proof (induction invites arbitrary: k d)
  case Nil
  then show ?case by simp
next
  case (Cons a invites)
  obtain agent session where a: "a = (agent, session)" by force
  define s where "s = new_seat now (fresh k) auth i agent session Participant (Some 0)"
  from Cons.prems obtain d1 where
    d1: "(if exists_row (seat_key_is i agent session) (cd_seats d) then Inr d else insert_seat s d) = Inr d1"
    and rest: "invite_all now fresh (Suc k) auth i invites (conv_audit now auth (Some i) ''member.invite'' (Some agent) d1) = Inr d'"
    unfolding a s_def [symmetric] invite_all.simps bindE_eq_Inr by blast
  obtain new where new: "cd_seats d' = cd_seats d1 @ new" "distinct (map mb_id new)" "distinct (map seat_key new)"
    "\<forall>m \<in> set new. mb_id m \<notin> mb_id ` set (cd_seats d1) \<and> seat_key m \<notin> seat_key ` set (cd_seats d1) \<and>
        mb_conversation_id m = i \<and> mb_role m = Participant \<and> mb_state m = Invited \<and> seat_ok m"
    using Cons.IH [OF rest] by auto
  show ?case
  proof (cases "exists_row (seat_key_is i agent session) (cd_seats d)")
    case True
    with d1 new show ?thesis by auto
  next
    case False
    have s: "seat_key s = (i, agent, session)" "mb_conversation_id s = i" "mb_role s = Participant" "mb_state s = Invited" "seat_ok s"
      by (simp_all add: s_def new_seat_def seat_key_def seat_ok_def seated_def)
    have d1': "cd_seats d1 = cd_seats d @ [s]" "mb_id s \<notin> mb_id ` set (cd_seats d)"
      using d1 False by (auto simp: insert_seat_def exists_row_def split: if_splits)
    moreover have "seat_key s \<notin> seat_key ` set (cd_seats d)" using False s(1) by (force simp: exists_row_def seat_key_is_eq)
    ultimately show ?thesis using new s
      by (intro exI [of _ "s # new"]) auto
  qed
qed

lemma create_change:
  assumes wf: "seats_wf d" and tx: "create_conversation_tx now i fresh auth title project private invites d = Inr (x, d')"
  shows "seats_change k auth d d'"
proof -
  from tx obtain t d1 d2 where
    new: "conversation_at d i = None"
    and d1: "insert_seat (owner_seat now (fresh 0) auth i)
      (d\<lparr>cd_conversations := cd_conversations d @ [new_thread now i auth title project private t]\<rparr>) = Inr d1"
    and d2: "invite_all now fresh 1 auth i invites d1 = Inr d2"
    and d': "d' = conv_audit now auth (Some i) ''conversation.create'' (Some i) d2"
    by (auto simp: create_conversation_tx_def bindE_eq_Inr ok_or_eq_Inr split: if_splits)
  let ?o = "owner_seat now (fresh 0) auth i"
  have none: "mb_conversation_id m \<noteq> i" if "m \<in> set (cd_seats d)" for m
    using wf that new by (auto simp: seats_wf_def list_all_iff)
  have s1: "cd_seats d1 = cd_seats d @ [?o]" "mb_id ?o \<notin> mb_id ` set (cd_seats d)"
    using d1 by (auto simp: insert_seat_def exists_row_def split: if_splits)
  obtain ns where ns: "cd_seats d2 = cd_seats d1 @ ns" "distinct (map mb_id ns)" "distinct (map seat_key ns)"
    "\<forall>m \<in> set ns. mb_id m \<notin> mb_id ` set (cd_seats d1) \<and> seat_key m \<notin> seat_key ` set (cd_seats d1) \<and>
        mb_conversation_id m = i \<and> mb_role m = Participant \<and> mb_state m = Invited \<and> seat_ok m"
    using invite_all_news [OF d2] by auto
  have conv: "conversation_at d' i \<noteq> None"
    using insert_seat_same [OF d1] invite_all_same [OF d2]
    by (simp add: d' conversation_at_def find_append new_thread_def split: option.split)
  have o: "mb_conversation_id ?o = i" "seat_ok ?o" "seat_new auth d ?o"
    using new by (auto simp: owner_seat_def new_seat_def seat_ok_def seated_def own_seat_def intro!: founded)
  have keys: "seat_key m \<notin> seat_key ` set (cd_seats d)" if "mb_conversation_id m = i" for m
    using none that by (fastforce simp: seat_key_def)
  show ?thesis
  proof (rule seats_change_add [OF wf create_conversation_step [OF tx], where new = "?o # ns"])
    show "cd_seats d' = cd_seats d @ ?o # ns" by (simp add: d' ns(1) s1(1))
    show "distinct (map mb_id (?o # ns))" "distinct (map seat_key (?o # ns))" using ns(2-4) s1 by auto
    fix m assume "m \<in> set (?o # ns)"
    then consider "m = ?o" | "m \<in> set ns" by auto
    then show "mb_id m \<notin> mb_id ` set (cd_seats d) \<and> seat_key m \<notin> seat_key ` set (cd_seats d) \<and> seat_ok m \<and>
        conversation_at d' (mb_conversation_id m) \<noteq> None \<and> seat_new auth d m"
    proof cases
      case 1
      then show ?thesis using o s1(2) keys conv by auto
    next
      case 2
      with ns(4) new have "seat_new auth d m" by (intro founding_invite) auto
      with 2 ns(4) s1 keys conv show ?thesis by auto
    qed
  qed
qed

text \<open>Everything else leaves the seats alone.\<close>

fun invites :: "conv_req \<Rightarrow> bool" where
  "invites (InviteReq now new_id auth i address role from_start d0) = True"
| "invites q = False"

fun seat_auth :: "conv_req \<Rightarrow> auth_ctx option" where
  "seat_auth (CreateConvReq X now i fresh auth input d0) = Some auth"
| "seat_auth (InviteReq now new_id auth i address role from_start d0) = Some auth"
| "seat_auth (JoinReq now auth i d0) = Some auth"
| "seat_auth (LeaveReq now auth i d0) = Some auth"
| "seat_auth (RemoveReq now auth i address d0) = Some auth"
| "seat_auth (TransferReq now new_id auth i to d0) = Some auth"
| "seat_auth q = None"

abbreviation seats_kept :: "cdb \<Rightarrow> cdb \<Rightarrow> bool" where
  "seats_kept d d' \<equiv> cd_seats d' = cd_seats d"

lemmas seats_keep = keep_after_checks [where R = seats_kept] keep_readback [where R = seats_kept]
  keep_conv_guarded [where R = seats_kept] keep_transact [where R = seats_kept]

lemma insert_events_seats: "insert_events es d = Inr d' \<Longrightarrow> cd_seats d' = cd_seats d"
  by (induction es arbitrary: d) (force split: if_splits)+

lemma references_seats:
  "enqueue_message_references X now fresh i d = Inr d' \<Longrightarrow> cd_seats d' = cd_seats d"
  "enqueue_receipt_reference X now new_id i mb obs d = Inr d' \<Longrightarrow> cd_seats d' = cd_seats d"
  by (auto simp: enqueue_message_references_def enqueue_receipt_reference_def dest!: insert_events_seats split: option.splits if_splits)

lemma send_seats: "send_tx X now new_id key auth i input body metadata d = Inr (x, d') \<Longrightarrow> cd_seats d' = cd_seats d"
  by (erule send_tx_cases) (auto simp: store_message_def enqueue_def Let_def bindE_eq_Inr split: if_splits)

lemma settle_seats: "settle X now fresh l outcome d = Inr (x, d') \<Longrightarrow> cd_seats d' = cd_seats d"
  by (cases outcome)
    (auto simp: settle_def mark_failed_def Let_def bindE_eq_Inr split: if_splits dest!: references_seats(1))

lemma recover_seats: "cd_seats (snd (recover_history Bs now auth i after_seq limit d0 d)) = cd_seats d"
proof -
  define r where "r = transact (recover_tx now auth i (unwrap_or 0 after_seq) (clamp 1 MAX_PAGE (unwrap_or DEFAULT_PAGE limit))) d"
  have "cd_seats (snd r) = cd_seats d"
    unfolding r_def by (rule keep_transact [where R = seats_kept]) (auto dest: recover_tx_same)
  moreover have "cd_seats (snd (show_page Bs now (au_team_id auth) (\<lambda>_. None) rows e)) = cd_seats e" for rows e
    using show_page_only [of e Bs now "au_team_id auth" "\<lambda>_. None" rows] by (auto simp: only_tombstones_def)
  ultimately show ?thesis
    unfolding recover_history_def snd_case_sum Let_def r_def [symmetric]
    by (auto simp: case_prod_beta' split: sum.split)
qed

lemma conv_exec_seats: "seat_auth q = None \<Longrightarrow> cd_seats (conv_exec q d) = cd_seats d"
proof (cases q)
  case (CreateProjectReq now new_id auth name d0)
  show ?thesis unfolding CreateProjectReq conv_exec.simps create_project_def
    by (intro seats_keep refl) (auto simp: add_grant_def split: option.splits if_splits)
next
  case (ProjectAccessReq X now auth project agent grant d0)
  show ?thesis unfolding ProjectAccessReq conv_exec.simps set_project_access_def split_beta
    by (intro seats_keep refl) (auto simp: add_grant_def split: if_splits)
next
  case (ArchiveReq now auth i d0)
  show ?thesis unfolding ArchiveReq conv_exec.simps archive_conversation_def
    by (intro seats_keep refl) (auto dest!: after_open)
next
  case (SendReq X now new_id key auth i input d0)
  show ?thesis unfolding SendReq conv_exec.simps send_def split_beta
    by (intro seats_keep refl) (auto dest: send_seats)
next
  case (AckReq X now new_id auth message_id resolved remark d0)
  show ?thesis unfolding AckReq conv_exec.simps conv_ack_def split_beta
    by (intro seats_keep refl)
      (auto simp: Let_def bindE_eq_Inr split: if_splits dest!: after_open references_seats(2))
next
  case (ReadReq Bs now auth i after_seq limit d0)
  then show ?thesis using conv_read_only [of d Bs now auth i after_seq limit d0] by (auto simp: only_tombstones_def)
next
  case (GetReq Bs now auth message_id)
  then show ?thesis using get_message_only [of d Bs now auth message_id] by (auto simp: only_tombstones_def)
next
  case (RecoverReq Bs now auth i after_seq limit d0)
  then show ?thesis by (simp add: recover_seats)
next
  case (SettleReq X now fresh l outcome)
  show ?thesis unfolding SettleReq conv_exec.simps by (intro seats_keep refl) (auto dest: settle_seats)
next
  case (SetPublicationReq i outbox)
  show ?thesis unfolding SetPublicationReq conv_exec.simps
    by (intro seats_keep refl) (auto simp: set_publication_def split: if_splits)
qed (auto simp: pg_publish_def Let_def forget_uncertain_def release_published_bodies_def clear_bodies_def lease_next_def lease_one_def
    release_slot_def unlease_def mark_uncertain_def split: option.split)


lemma transfer_mine:
  assumes "seat_ids_agree d0 d" and "readable auth i d0 = Inr a" and "opt_filter (\<lambda>m. me_state m = Active) (ac_membership a) = Some mine"
    and "m \<in> set (cd_seats d)" and "mb_id m = me_id mine"
  shows "seat_key m = (i, au_agent_id auth, au_session auth)"
proof -
  obtain r where r: "find (my_seat auth i) (cd_seats d0) = Some r" "me_id mine = mb_id r"
    using assms(2,3) by (auto simp: readable_def access_def bindE_eq_Inr opt_filter_def split: option.splits if_splits)
  then have "r \<in> set (cd_seats d0)" "seat_key r = (i, au_agent_id auth, au_session auth)"
    by (auto simp: my_seat_def seat_key_is_iff dest: find_SomeD)
  with assms(1,4,5) r(2) show ?thesis by (auto simp: seat_ids_agree_def list_all_iff)
qed

lemma seats_change_kept: "seats_wf d \<Longrightarrow> seats_change k auth d d"
  by (rule seats_change_same) simp_all

lemma seats_change_audit [simp]: "seats_change k auth d (conv_audit now a i act s d') = seats_change k auth d d'"
  by (simp add: seats_change_def seats_wf_def conversation_at_def)

lemmas change_keep = keep_after_checks [where R = "seats_change k auth" for k auth] keep_readback [where R = "seats_change k auth" for k auth]
  keep_conv_guarded [where R = "seats_change k auth" for k auth]

lemma create_exec_change: "seats_wf d \<Longrightarrow> seats_change k auth d (snd (create_conversation X now i fresh auth input d0 d))"
  unfolding create_conversation_def split_beta
  by (intro change_keep seats_change_kept) (simp_all add: create_change)

lemma invite_checks_role:
  "bindE (require_capability auth d0) (\<lambda>_. bindE (readable auth i d0) (\<lambda>a.
     if \<not> can_moderate a then Inl e1 else if ac_archived a then Inl e2
     else bindE (parse_role role) (\<lambda>role. bindE (resolve_address auth d0 address) (\<lambda>(agent, session). Inr (role, agent, session))))) = Inr v \<Longrightarrow>
   fst v \<noteq> Owner"
  by (auto simp: bindE_eq_Inr split: if_splits dest: parse_role_not_owner)

lemma invite_exec_change: "seats_wf d \<Longrightarrow> seats_change True auth d (snd (invite now new_id auth i address role from_start d0 d))"
  unfolding invite_def
proof (rule change_keep(1))
  fix v
  assume wf: "seats_wf d" and "bindE (require_capability auth d0) (\<lambda>_. bindE (readable auth i d0) (\<lambda>a.
     if \<not> can_moderate a then Inl (Forbidden ''only an owner or moderator can invite'')
     else if ac_archived a then Inl (Conflict ''this conversation is archived'')
     else bindE (parse_role role) (\<lambda>role. bindE (resolve_address auth d0 address) (\<lambda>(agent, session). Inr (role, agent, session))))) = Inr v"
  then have "fst v \<noteq> Owner" by (intro invite_checks_role)
  then show "seats_change True auth d (snd ((case v of (role, agent, session) \<Rightarrow> \<lambda>d. readback (\<lambda>_. conversation_info_of auth i)
      (conv_guarded now auth (invite_tx now new_id auth i agent session role from_start) d)) d))"
    unfolding split_beta by (intro change_keep seats_change_kept wf) (simp_all add: invite_change [OF wf])
qed (rule seats_change_kept)

lemma join_exec_change: "seats_wf d \<Longrightarrow> seats_change k auth d (snd (join now auth i d0 d))"
  unfolding join_def
  by (intro change_keep seats_change_kept)
    (auto simp: Let_def join_change split: option.splits dest!: after_open)

lemma leave_exec_change:
  assumes "seats_wf d"
  shows "seats_change k auth d (snd (leave now auth i d0 d))"
proof -
  have "seats_change k auth d (d\<lparr>cd_seats := upd_where (\<lambda>m. seat_key_is i (au_agent_id auth) (au_session auth) m \<and> seated m)
      (\<lambda>m. m\<lparr>mb_state := Left, mb_ended_at := Some now\<rparr>) (cd_seats d)\<rparr>)"
    by (rule leave_change [OF assms thread_step_same, where i = i and now = now]) (simp_all add: same_tables_def)
  then show ?thesis
    unfolding leave_def Let_def by (intro change_keep seats_change_kept assms) (auto split: if_splits)
qed

lemma remove_exec_change: "seats_wf d \<Longrightarrow> seats_change k auth d (snd (remove_member now auth i address d0 d))"
  unfolding remove_member_def split_beta
  by (intro change_keep seats_change_kept) (simp_all add: remove_change)

lemma transfer_exec_change:
  assumes wf: "seats_wf d" and ids: "seat_ids_agree d0 d"
  shows "seats_change k auth d (snd (transfer_membership now new_id auth i to d0 d))"
proof -
  have "seats_change k auth d d'"
    if chk: "bindE (require_capability auth d0) (\<lambda>_. bindE (readable auth i d0) (\<lambda>a.
          case opt_filter (\<lambda>m. me_state m = Active) (ac_membership a) of
            None \<Rightarrow> Inl (Forbidden ''you have no active membership in this conversation to transfer'')
          | Some mine \<Rightarrow> bindE (resolve_address auth d0 to) (\<lambda>(agent, session).
              if agent \<noteq> au_agent_id auth
              then Inl (Forbidden ''a membership can only be transferred to another window of the same agent'')
              else if session = au_session auth then Inl (Invalid ''that is the window you are calling from'')
              else Inr (me_id mine, session)))) = Inr v" and tx: "transfer_tx now new_id auth i (fst v) (snd v) d = Inr (x, d')" for v x d'
  proof -
    obtain a mine where "readable auth i d0 = Inr a" "opt_filter (\<lambda>m. me_state m = Active) (ac_membership a) = Some mine" "fst v = me_id mine"
      using chk by (auto simp: bindE_eq_Inr split: option.splits if_splits)
    with transfer_mine [OF ids] show ?thesis by (intro transfer_change [OF wf tx]) simp
  qed
  then show ?thesis
    unfolding transfer_membership_def split_beta by (intro change_keep seats_change_kept wf) blast
qed

text \<open>A request run for \<open>auth\<close> moves every seat by the machine and adds only seats it allows.\<close>

lemma conv_exec_change:
  assumes wf: "seats_wf d" and snap: "snapshot_ok q d" and auth: "seat_auth q = Some auth"
  shows "seats_change (invites q) auth d (conv_exec q d)"
  using assms
  by (cases q) (simp_all add: create_exec_change invite_exec_change join_exec_change leave_exec_change remove_exec_change transfer_exec_change)


section \<open>Properties\<close>

lemma seats_wf_kept: "seats_wf d \<Longrightarrow> cd_seats d' = cd_seats d \<Longrightarrow> thread_step d d' \<Longrightarrow> seats_wf d'"
  using seats_change_same [of d d'] by (auto simp: seats_change_def)

lemma conv_exec_seats_wf: "seats_wf d \<Longrightarrow> snapshot_ok q d \<Longrightarrow> seats_wf (conv_exec q d)"
proof (cases "seat_auth q")
  case None
  then show "seats_wf d \<Longrightarrow> snapshot_ok q d \<Longrightarrow> seats_wf (conv_exec q d)"
    by (metis conv_exec_seats conv_exec_step seats_wf_kept)
next
  case (Some auth)
  then show "seats_wf d \<Longrightarrow> snapshot_ok q d \<Longrightarrow> seats_wf (conv_exec q d)"
    using conv_exec_change [of d q auth] by (simp add: seats_change_def)
qed

text \<open>A run whose requests were admitted on states of the same database.\<close>

fun snapshots_ok :: "conv_req list \<Rightarrow> cdb \<Rightarrow> bool" where
  "snapshots_ok [] d = True"
| "snapshots_ok (q # qs) d = (snapshot_ok q d \<and> snapshots_ok qs (conv_exec q d))"

lemma start_seats_wf: "seats_wf (start_cdb b)"
  by (simp add: seats_wf_def start_cdb_def)

lemma seat_step:
  assumes wf: "seats_wf d" and snap: "snapshot_ok q d" and m: "m \<in> set (cd_seats d)"
  shows "\<exists>m' \<in> set (cd_seats (conv_exec q d)). same_seat m m' \<and>
    (same_rights m m' \<or> (\<exists>auth. seat_auth q = Some auth \<and> seat_move (invites q) auth d m m'))"
proof (cases "seat_auth q")
  case None
  with m conv_exec_seats [OF None, of d] show ?thesis
    by (intro bexI [of _ m]) (simp_all add: same_seat_def same_rights_def)
next
  case (Some auth)
  obtain old new where o: "cd_seats (conv_exec q d) = old @ new" "list_all2 (seat_move (invites q) auth d) (cd_seats d) old"
    using conv_exec_change [OF wf snap Some] by (auto simp: seats_change_def)
  then obtain m' where m': "m' \<in> set old" "seat_move (invites q) auth d m m'"
    using list_all2_left [OF o(2) m] by blast
  moreover have "same_seat m m'" using m'(2) by (auto elim: seat_moveE)
  ultimately show ?thesis using Some o(1) by auto
qed


definition demo_expel :: conv_req where
  "demo_expel = RemoveReq 20 ana_api 7 ''bo'' (demo_thread ''postgres'')"

lemma demo_snapshots: "snapshots_ok [demo_create b, demo_join b, demo_expel] (start_cdb b)"
  by (simp add: demo_create_def demo_join_def demo_expel_def)

lemma demo_thread_seats_wf: "seats_wf (demo_thread b)"
proof -
  have "seats_wf (conv_exec (demo_create b) (start_cdb b))"
    by (rule conv_exec_seats_wf [OF start_seats_wf]) (simp add: demo_create_def)
  then have "seats_wf (conv_exec (demo_join b) (conv_exec (demo_create b) (start_cdb b)))"
    by (rule conv_exec_seats_wf) (simp add: demo_join_def)
  then show ?thesis by (simp add: demo_thread_def)
qed


text \<open>Seats stay well-formed over every run: one row per id and per (thread, agent, window), an
  active seat was accepted, an invitation is bound to no window, an end is recorded exactly when the
  seat has ended, and every seat is of a thread that exists.\<close>

theorem seats_stay_well_formed:
  assumes "seats_wf d" and "snapshots_ok qs d"
  shows "seats_wf (runs conv_exec qs d)"
  using assms by (induction qs arbitrary: d) (simp_all add: conv_exec_seats_wf)

theorem seats_stay_well_formed_witness: "seats_wf (runs conv_exec [demo_create ''nats'', demo_join ''nats'', demo_expel] (start_cdb ''nats''))"
  by (rule seats_stay_well_formed [OF start_seats_wf demo_snapshots])

section \<open>Removal\<close>

lemma removed_step:
  assumes wf: "seats_wf d" and snap: "snapshot_ok q d" and q: "\<not> invites q"
    and m: "m \<in> set (cd_seats d)" "mb_state m = Removed"
  shows "\<exists>m' \<in> set (cd_seats (conv_exec q d)). same_seat m m' \<and> mb_state m' = Removed"
proof -
  obtain m' where m': "m' \<in> set (cd_seats (conv_exec q d))" "same_seat m m'"
    and mv: "same_rights m m' \<or> (\<exists>auth. seat_auth q = Some auth \<and> seat_move (invites q) auth d m m')"
    using seat_step [OF wf snap m(1)] by blast
  have "mb_state m' = Removed"
    using mv m(2) q by (auto simp: same_rights_def seated_def elim!: seat_moveE)
  with m' show ?thesis by blast
qed

lemma removed_runs:
  assumes "seats_wf d" and "snapshots_ok qs d" and "list_all (\<lambda>q. \<not> invites q) qs"
    and "m \<in> set (cd_seats d)" and "mb_state m = Removed"
  shows "\<exists>m' \<in> set (cd_seats (runs conv_exec qs d)). same_seat m m' \<and> mb_state m' = Removed"
  using assms
proof (induction qs arbitrary: d m)
  case Nil
  then show ?case by (auto simp: same_seat_def)
next
  case (Cons q qs)
  then obtain m1 where m1: "m1 \<in> set (cd_seats (conv_exec q d))" "same_seat m m1" "mb_state m1 = Removed"
    using removed_step [of d q m] by auto
  have "\<exists>m' \<in> set (cd_seats (runs conv_exec qs (conv_exec q d))). same_seat m1 m' \<and> mb_state m' = Removed"
    using Cons.prems m1 by (intro Cons.IH) (simp_all add: conv_exec_seats_wf)
  with m1(2) show ?case by (auto simp: same_seat_def)
qed



end
