(* ===== verification/Admin.thy ===== *)
theory Admin
  imports ConvSchema Contracts Demo Auth
begin

text \<open>
  \<^verbatim>\<open>src/src/store/admin.rs\<close>: teams, agents, agent tokens and administrative credentials, shared by the
  operator's command line and the \<^verbatim>\<open>/admin\<close> interface. The administrative tables stand beside the
  bus's own. An audit row is written in the transaction of what it records; its \<^verbatim>\<open>detail\<close> is left out.
  A team is one row of two records here (\<open>team_row\<close>, \<open>conv_team\<close>), inserted together.
\<close>

section \<open>Actors, credentials and the trail\<close>

datatype actor = Cli | AdminActor uuid

definition actor_columns :: "actor \<Rightarrow> string \<times> uuid option" where
  "actor_columns a = (case a of Cli \<Rightarrow> (''cli'', None) | AdminActor i \<Rightarrow> (''http'', Some i))"

record admin_ctx =
  ax_id :: uuid
  ax_team_id :: "uuid option"
  ax_team_slug :: "string option"

definition is_global :: "admin_ctx \<Rightarrow> bool" where
  "is_global c \<longleftrightarrow> ax_team_id c = None"

record admin_token_row =
  ad_id :: uuid
  ad_team_id :: "uuid option"
  ad_token_hash :: string
  ad_prefix :: string
  ad_label :: "string option"
  ad_issued_by :: "uuid option"
  ad_created_at :: time
  ad_last_used_at :: "time option"
  ad_revoked_at :: "time option"

record admin_audit_row =
  aw_at :: time
  aw_source :: string
  aw_admin_id :: "uuid option"
  aw_action :: string
  aw_team_id :: "uuid option"
  aw_subject_id :: "uuid option"

record adb =
  ab_bus :: cdb
  ab_admins :: "admin_token_row list"
  ab_audit :: "admin_audit_row list"

type_synonym 'a admin_tx = "adb \<Rightarrow> bus_error + ('a \<times> adb)"

abbreviation ab_db :: "adb \<Rightarrow> db" where
  "ab_db d \<equiv> cd_base (ab_bus d)"

definition on_db :: "(db \<Rightarrow> db) \<Rightarrow> adb \<Rightarrow> adb" where
  "on_db f d = d\<lparr>ab_bus := (ab_bus d)\<lparr>cd_base := f (cd_base (ab_bus d))\<rparr>\<rparr>"

definition MAX_ACTIVE_TOKENS_PER_AGENT :: nat where "MAX_ACTIVE_TOKENS_PER_AGENT = 100"
definition MAX_NAME_BYTES :: nat where "MAX_NAME_BYTES = 64"
definition MAX_ADMIN_LABEL_BYTES :: nat where "MAX_ADMIN_LABEL_BYTES = 128"

definition name_char :: "char \<Rightarrow> bool" where
  "name_char c \<longleftrightarrow> (let n = (of_char c :: nat) in
     48 \<le> n \<and> n \<le> 57 \<or> 65 \<le> n \<and> n \<le> 90 \<or> 97 \<le> n \<and> n \<le> 122 \<or> c \<in> {CHR ''-'', CHR ''_'', CHR ''.''})"

definition check_name :: "string \<Rightarrow> string res" where
  "check_name raw = (let value = to_lowercase (trim raw) in
     if value = [] then Inl (Invalid ''cannot be empty'')
     else if length value > MAX_NAME_BYTES then Inl (Invalid ''over the limit'')
     else if \<not> list_all name_char value then Inl (Invalid ''may only contain ASCII letters, digits, -, _ and .'')
     else Inr value)"

definition check_display :: "string option \<Rightarrow> string option res" where
  "check_display v = (case v of
      None \<Rightarrow> Inr None
    | Some v \<Rightarrow> let v = trim v in
        if v = [] then Inr None
        else if length v > MAX_ADMIN_LABEL_BYTES then Inl (Invalid ''over the limit'')
        else if list_ex is_control v then Inl (Invalid ''must not contain control characters'')
        else Inr (Some v))"

definition check_label :: "string option \<Rightarrow> string option res" where
  "check_label label = check_display label"

definition admin_audit :: "time \<Rightarrow> actor \<Rightarrow> string \<Rightarrow> uuid option \<Rightarrow> uuid option \<Rightarrow> adb \<Rightarrow> bus_error + adb" where
  "admin_audit now actor action team subject d =
     (let (source, admin_id) = actor_columns actor in
      if (case admin_id of None \<Rightarrow> True | Some i \<Rightarrow> exists_row (\<lambda>c. ad_id c = i) (ab_admins d))
      then Inr (d\<lparr>ab_audit := ab_audit d @ [\<lparr>aw_at = now, aw_source = source, aw_admin_id = admin_id, aw_action = action,
             aw_team_id = team, aw_subject_id = subject\<rparr>]\<rparr>)
      else Inl (Db ''foreign key''))"

section \<open>Teams\<close>

record admin_team =
  at_team :: uuid
  at_slug :: string
  at_name :: string
  at_agents :: nat

definition team_id_by_slug :: "string \<Rightarrow> adb \<Rightarrow> uuid res" where
  "team_id_by_slug slug d = (let slug = to_lowercase (trim slug) in
     ok_or (map_option tm_id (find (\<lambda>t. tm_slug t = slug) (d_teams (ab_db d)))) (NotFound ''no team with slug''))"

definition team_info_of :: "adb \<Rightarrow> team_row \<Rightarrow> admin_team" where
  "team_info_of d t = \<lparr>at_team = tm_id t, at_slug = tm_slug t, at_name = tm_name t,
     at_agents = count_rows (\<lambda>a. ag_team_id a = tm_id t) (d_agents (ab_db d))\<rparr>"

definition admin_team_by_id :: "uuid \<Rightarrow> adb \<Rightarrow> admin_team res" where
  "admin_team_by_id i d = ok_or (map_option (team_info_of d) (find (\<lambda>t. tm_id t = i) (d_teams (ab_db d)))) (NotFound ''no such team'')"

definition create_team :: "time \<Rightarrow> uuid \<Rightarrow> actor \<Rightarrow> string \<Rightarrow> string option \<Rightarrow> adb \<Rightarrow> admin_team res \<times> adb" where
  "create_team now new_id actor slug name d =
     (case bindE (check_name slug) (\<lambda>slug. bindE (check_display name) (\<lambda>name. Inr (slug, unwrap_or slug name))) of
        Inl e \<Rightarrow> (Inl e, d)
      | Inr (slug, name) \<Rightarrow>
          (case transact (\<lambda>d.
              if exists_row (\<lambda>t. tm_slug t = slug) (d_teams (ab_db d)) then Inr ((), d)
              else if exists_row (\<lambda>t. tm_id t = new_id) (d_teams (ab_db d)) then Inl (Db ''duplicate key'')
              else
                let d1 = d\<lparr>ab_bus := (ab_bus d)
                  \<lparr>cd_base := (ab_db d)\<lparr>d_teams := d_teams (ab_db d) @
                     [\<lparr>tm_id = new_id, tm_slug = slug, tm_name = name, tm_attachment_bytes_limit = None\<rparr>]\<rparr>,
                   cd_teams := cd_teams (ab_bus d) @
                     [\<lparr>ct_id = new_id, ct_conversations_enabled = False, ct_default_backend = ''postgres''\<rparr>]\<rparr>\<rparr> in
                bindE (admin_audit now actor ''team.create'' (Some new_id) (Some new_id) d1) (\<lambda>d. Inr ((), d))) d of
             (Inl e, d') \<Rightarrow> (Inl e, d')
           | (Inr _, d') \<Rightarrow> (bindE (team_id_by_slug slug d') (\<lambda>i. admin_team_by_id i d'), d')))"

definition set_conversations :: "time \<Rightarrow> actor \<Rightarrow> uuid \<Rightarrow> bool \<Rightarrow> adb \<Rightarrow> unit res \<times> adb" where
  "set_conversations now actor team enabled = transact (\<lambda>d.
     let P = (\<lambda>t. ct_id t = team \<and> ct_conversations_enabled t \<noteq> enabled) in
     if exists_row P (cd_teams (ab_bus d))
     then bindE (admin_audit now actor ''team.capability'' (Some team) (Some team)
            (d\<lparr>ab_bus := (ab_bus d)\<lparr>cd_teams := upd_where P (\<lambda>t. t\<lparr>ct_conversations_enabled := enabled\<rparr>) (cd_teams (ab_bus d))\<rparr>\<rparr>))
            (\<lambda>d. Inr ((), d))
     else Inr ((), d))"

text \<open>The queue is counted before the transaction, in the state \<open>d0\<close>.\<close>

definition set_default_backend :: "time \<Rightarrow> actor \<Rightarrow> uuid \<Rightarrow> string \<Rightarrow> adb \<Rightarrow> adb \<Rightarrow> unit res \<times> adb" where
  "set_default_backend now actor team backend d0 d =
     (if backend \<notin> set [''postgres'', ''jetstream''] then (Inl (Invalid ''backend must be postgres or jetstream''), d)
      else if count_rows (\<lambda>sl. ob_team_id sl = team \<and> ob_state sl \<noteq> SlotFailed) (cd_outbox (ab_bus d0)) > 0
      then (Inl (Conflict ''messages of this team are still awaiting publication''), d)
      else transact (\<lambda>d.
        let P = (\<lambda>t. ct_id t = team \<and> ct_default_backend t \<noteq> backend) in
        if exists_row P (cd_teams (ab_bus d))
        then bindE (admin_audit now actor ''team.backend'' (Some team) (Some team)
               (d\<lparr>ab_bus := (ab_bus d)\<lparr>cd_teams := upd_where P (\<lambda>t. t\<lparr>ct_default_backend := backend\<rparr>) (cd_teams (ab_bus d))\<rparr>\<rparr>))
               (\<lambda>d. Inr ((), d))
        else Inr ((), d)) d)"

definition admin_list_teams :: "adb \<Rightarrow> admin_team list" where
  "admin_list_teams d = map (team_info_of d) (sort_key tm_slug (d_teams (ab_db d)))"

section \<open>Agents\<close>

record admin_agent =
  an_id :: uuid
  an_name :: string
  an_display_name :: "string option"
  an_disabled :: bool
  an_active_tokens :: nat

definition agent_named :: "uuid \<Rightarrow> string \<Rightarrow> agent_row \<Rightarrow> bool" where
  "agent_named team name a \<longleftrightarrow> ag_team_id a = team \<and> ag_name a = name"

definition active_tokens :: "db \<Rightarrow> uuid \<Rightarrow> nat" where
  "active_tokens d agent = count_rows (\<lambda>t. tk_agent_id t = agent \<and> tk_revoked_at t = None) (d_tokens d)"

definition admin_list_agents :: "uuid \<Rightarrow> adb \<Rightarrow> admin_agent list" where
  "admin_list_agents team d = map (\<lambda>a. \<lparr>an_id = ag_id a, an_name = ag_name a, an_display_name = ag_display_name a,
       an_disabled = (ag_disabled_at a \<noteq> None), an_active_tokens = active_tokens (ab_db d) (ag_id a)\<rparr>)
     (sort_key ag_name (filter (\<lambda>a. ag_team_id a = team) (d_agents (ab_db d))))"

definition create_agent_tx :: "time \<Rightarrow> uuid \<Rightarrow> actor \<Rightarrow> uuid \<Rightarrow> string \<Rightarrow> string option \<Rightarrow> uuid admin_tx" where
  "create_agent_tx now new_id actor team name display_name d =
     (case find (agent_named team name) (d_agents (ab_db d)) of
        None \<Rightarrow>
          if exists_row (\<lambda>a. ag_id a = new_id) (d_agents (ab_db d)) then Inl (Db ''duplicate key'')
          else if \<not> exists_row (\<lambda>t. tm_id t = team) (d_teams (ab_db d)) then Inl (Db ''foreign key'')
          else bindE (admin_audit now actor ''agent.create'' (Some team) (Some new_id)
            (on_db (\<lambda>b. b\<lparr>d_agents := d_agents b @ [\<lparr>ag_id = new_id, ag_team_id = team, ag_name = name,
               ag_display_name = display_name, ag_disabled_at = None\<rparr>]\<rparr>) d)) (\<lambda>d. Inr (new_id, d))
      | Some a \<Rightarrow>
          let d1 = on_db (\<lambda>b. b\<lparr>d_agents := upd_where (\<lambda>r. ag_id r = ag_id a)
                (\<lambda>r. r\<lparr>ag_display_name := (case display_name of None \<Rightarrow> ag_display_name r | Some n \<Rightarrow> Some n),
                       ag_disabled_at := None\<rparr>) (d_agents b)\<rparr>) d in
          if ag_disabled_at a \<noteq> None
          then bindE (admin_audit now actor ''agent.enable'' (Some team) (Some (ag_id a)) d1) (\<lambda>d. Inr (ag_id a, d))
          else Inr (ag_id a, d1))"

definition create_agent :: "time \<Rightarrow> uuid \<Rightarrow> actor \<Rightarrow> uuid \<Rightarrow> string \<Rightarrow> string option \<Rightarrow> adb \<Rightarrow> admin_agent res \<times> adb" where
  "create_agent now new_id actor team name display_name d =
     (case bindE (check_name name) (\<lambda>name. bindE (check_display display_name) (\<lambda>display. Inr (name, display))) of
        Inl e \<Rightarrow> (Inl e, d)
      | Inr (name, display) \<Rightarrow>
          (case transact (create_agent_tx now new_id actor team name display) d of
             (Inl e, d') \<Rightarrow> (Inl e, d')
           | (Inr i, d') \<Rightarrow> (ok_or (find (\<lambda>a. an_id a = i) (admin_list_agents team d')) (NotFound ''agent vanished after creation''), d')))"

definition disable_agent :: "time \<Rightarrow> actor \<Rightarrow> uuid \<Rightarrow> string \<Rightarrow> adb \<Rightarrow> unit res \<times> adb" where
  "disable_agent now actor team name = transact (\<lambda>d.
     let name = to_lowercase (trim name); P = (\<lambda>a. agent_named team name a \<and> ag_disabled_at a = None) in
     case find P (d_agents (ab_db d)) of
       Some a \<Rightarrow> bindE (admin_audit now actor ''agent.disable'' (Some team) (Some (ag_id a))
           (on_db (\<lambda>b. b\<lparr>d_agents := upd_where P (\<lambda>r. r\<lparr>ag_disabled_at := Some now\<rparr>) (d_agents b)\<rparr>) d)) (\<lambda>d. Inr ((), d))
     | None \<Rightarrow> if exists_row (agent_named team name) (d_agents (ab_db d)) then Inr ((), d)
         else Inl (NotFound ''no agent of that name in this team''))"

section \<open>Agent tokens\<close>

record issued_token =
  it_id :: uuid
  it_token :: string
  it_prefix :: string
  it_agent :: string
  it_team :: string
  it_label :: "string option"

definition issue_token_tx :: "ext \<Rightarrow> time \<Rightarrow> uuid \<Rightarrow> string \<Rightarrow> actor \<Rightarrow> uuid \<Rightarrow> string \<Rightarrow> string option \<Rightarrow> issued_token admin_tx" where
  "issue_token_tx X now new_id rand actor team agent label d =
     (case find (agent_named team agent) (d_agents (ab_db d)) of
        None \<Rightarrow> Inl (NotFound ''no agent of that name in this team'')
      | Some a \<Rightarrow>
     (case find (\<lambda>t. tm_id t = ag_team_id a) (d_teams (ab_db d)) of
        None \<Rightarrow> Inl (NotFound ''no agent of that name in this team'')
      | Some tm \<Rightarrow>
        if ag_disabled_at a \<noteq> None then Inl (Conflict ''the agent is disabled'')
        else if active_tokens (ab_db d) (ag_id a) \<ge> MAX_ACTIVE_TOKENS_PER_AGENT then Inl (Conflict ''too many active tokens'')
        else
          let issued_by = snd (actor_columns actor); raw = generate_token rand; prefix = token_prefix raw in
          if exists_row (\<lambda>t. tk_id t = new_id \<or> tk_token_hash t = hash_token X raw) (d_tokens (ab_db d)) then Inl (Db ''duplicate key'')
          else bindE (admin_audit now actor ''token.issue'' (Some team) (Some new_id)
            (on_db (\<lambda>b. b\<lparr>d_tokens := d_tokens b @ [\<lparr>tk_id = new_id, tk_agent_id = ag_id a, tk_token_hash = hash_token X raw,
               tk_prefix = prefix, tk_label = label, tk_created_at = now, tk_last_used_at = None, tk_revoked_at = None,
               tk_issued_by_admin = issued_by\<rparr>]\<rparr>) d))
            (\<lambda>d. Inr (\<lparr>it_id = new_id, it_token = raw, it_prefix = prefix, it_agent = agent, it_team = tm_slug tm, it_label = label\<rparr>, d))))"

definition issue_token ::
    "ext \<Rightarrow> time \<Rightarrow> uuid \<Rightarrow> string \<Rightarrow> actor \<Rightarrow> uuid \<Rightarrow> string \<Rightarrow> string option \<Rightarrow> adb \<Rightarrow> issued_token res \<times> adb" where
  "issue_token X now new_id rand actor team agent label d = (case check_label label of
      Inl e \<Rightarrow> (Inl e, d)
    | Inr label \<Rightarrow> transact (issue_token_tx X now new_id rand actor team (to_lowercase (trim agent)) label) d)"

record token_info =
  ki_id :: uuid
  ki_agent :: string
  ki_prefix :: string
  ki_label :: "string option"
  ki_created_at :: time
  ki_last_used_at :: "time option"
  ki_revoked :: bool

definition list_tokens :: "uuid \<Rightarrow> adb \<Rightarrow> token_info list" where
  "list_tokens team d = sort_key (\<lambda>k. (ki_agent k, ki_created_at k)) (List.map_filter (\<lambda>t.
     (case agent_by_id (ab_db d) (tk_agent_id t) of
        None \<Rightarrow> None
      | Some a \<Rightarrow> if ag_team_id a = team then Some \<lparr>ki_id = tk_id t, ki_agent = ag_name a, ki_prefix = tk_prefix t,
          ki_label = tk_label t, ki_created_at = tk_created_at t, ki_last_used_at = tk_last_used_at t,
          ki_revoked = (tk_revoked_at t \<noteq> None)\<rparr> else None)) (d_tokens (ab_db d)))"

definition token_in_scope :: "db \<Rightarrow> uuid option \<Rightarrow> uuid \<Rightarrow> token_row \<Rightarrow> bool" where
  "token_in_scope d team i t \<longleftrightarrow> tk_id t = i \<and>
     (case agent_by_id d (tk_agent_id t) of None \<Rightarrow> False | Some a \<Rightarrow> team = None \<or> team = Some (ag_team_id a))"

definition revoke_token :: "time \<Rightarrow> actor \<Rightarrow> uuid option \<Rightarrow> uuid \<Rightarrow> adb \<Rightarrow> unit res \<times> adb" where
  "revoke_token now actor team i = transact (\<lambda>d.
     let P = (\<lambda>t. token_in_scope (ab_db d) team i t \<and> tk_revoked_at t = None) in
     case find P (d_tokens (ab_db d)) of
       Some t \<Rightarrow>
         let d1 = on_db (\<lambda>b. b\<lparr>d_tokens := upd_where P (\<lambda>r. r\<lparr>tk_revoked_at := Some now\<rparr>) (d_tokens b),
                d_sessions := upd_where (\<lambda>s. se_parent_token s = i \<and> se_revoked_at s = None)
                  (\<lambda>s. s\<lparr>se_revoked_at := Some now\<rparr>) (d_sessions b)\<rparr>) d in
         bindE (admin_audit now actor ''token.revoke'' (map_option ag_team_id (agent_by_id (ab_db d) (tk_agent_id t))) (Some i) d1)
           (\<lambda>d. Inr ((), d))
     | None \<Rightarrow> if exists_row (token_in_scope (ab_db d) team i) (d_tokens (ab_db d)) then Inr ((), d)
         else Inl (NotFound ''no token with that id''))"

section \<open>Administrative credentials\<close>

record issued_admin =
  ia_id :: uuid
  ia_token :: string
  ia_prefix :: string
  ia_team :: "string option"
  ia_label :: "string option"

definition team_slug_of :: "db \<Rightarrow> uuid \<Rightarrow> string option" where
  "team_slug_of d i = map_option tm_slug (find (\<lambda>t. tm_id t = i) (d_teams d))"

definition grant_admin ::
    "ext \<Rightarrow> time \<Rightarrow> uuid \<Rightarrow> string \<Rightarrow> actor \<Rightarrow> uuid option \<Rightarrow> string option \<Rightarrow> adb \<Rightarrow> issued_admin res \<times> adb" where
  "grant_admin X now new_id rand actor team label d =
     (case bindE (check_label label) (\<lambda>label.
           bindE (traverse_opt (\<lambda>t. ok_or (team_slug_of (ab_db d) t) (NotFound ''no such team'')) team) (\<lambda>slug. Inr (label, slug))) of
        Inl e \<Rightarrow> (Inl e, d)
      | Inr (label, slug) \<Rightarrow>
          let issued_by = snd (actor_columns actor); raw = generate_admin_token rand; prefix = token_prefix raw in
          transact (\<lambda>d.
            if exists_row (\<lambda>c. ad_id c = new_id \<or> ad_token_hash c = hash_token X raw) (ab_admins d) then Inl (Db ''duplicate key'')
            else bindE (admin_audit now actor ''admin.grant'' team (Some new_id)
              (d\<lparr>ab_admins := ab_admins d @ [\<lparr>ad_id = new_id, ad_team_id = team, ad_token_hash = hash_token X raw,
                 ad_prefix = prefix, ad_label = label, ad_issued_by = issued_by, ad_created_at = now,
                 ad_last_used_at = None, ad_revoked_at = None\<rparr>]\<rparr>))
              (\<lambda>d. Inr (\<lparr>ia_id = new_id, ia_token = raw, ia_prefix = prefix, ia_team = slug, ia_label = label\<rparr>, d))) d)"

record admin_info =
  dm_id :: uuid
  dm_team :: "string option"
  dm_prefix :: string
  dm_label :: "string option"
  dm_created_at :: time
  dm_last_used_at :: "time option"
  dm_revoked :: bool

text \<open>\<^verbatim>\<open>NULLS FIRST\<close>: a credential without a team comes before all others.\<close>

definition list_admins :: "uuid option \<Rightarrow> adb \<Rightarrow> admin_info list" where
  "list_admins team d = sort_key (\<lambda>k. (dm_team k \<noteq> None, unwrap_or [] (dm_team k), dm_created_at k))
     (map (\<lambda>c. \<lparr>dm_id = ad_id c, dm_team = Option.bind (ad_team_id c) (team_slug_of (ab_db d)), dm_prefix = ad_prefix c,
         dm_label = ad_label c, dm_created_at = ad_created_at c, dm_last_used_at = ad_last_used_at c,
         dm_revoked = (ad_revoked_at c \<noteq> None)\<rparr>)
       (filter (\<lambda>c. team = None \<or> ad_team_id c = team) (ab_admins d)))"

definition admin_in_scope :: "uuid option \<Rightarrow> uuid \<Rightarrow> admin_token_row \<Rightarrow> bool" where
  "admin_in_scope scope i c \<longleftrightarrow> ad_id c = i \<and> (scope = None \<or> ad_team_id c = scope)"

definition revoke_admin :: "time \<Rightarrow> actor \<Rightarrow> uuid option \<Rightarrow> uuid \<Rightarrow> adb \<Rightarrow> unit res \<times> adb" where
  "revoke_admin now actor scope i = transact (\<lambda>d.
     let P = (\<lambda>c. admin_in_scope scope i c \<and> ad_revoked_at c = None) in
     case find P (ab_admins d) of
       Some c \<Rightarrow> bindE (admin_audit now actor ''admin.revoke'' (ad_team_id c) (Some i)
           (d\<lparr>ab_admins := upd_where P (\<lambda>c. c\<lparr>ad_revoked_at := Some now\<rparr>) (ab_admins d)\<rparr>)) (\<lambda>d. Inr ((), d))
     | None \<Rightarrow> if exists_row (admin_in_scope scope i) (ab_admins d) then Inr ((), d)
         else Inl (NotFound ''no administrative credential with that id''))"

definition resolve_admin :: "ext \<Rightarrow> time \<Rightarrow> string \<Rightarrow> adb \<Rightarrow> admin_ctx option \<times> adb" where
  "resolve_admin X now raw d = (let raw = trim raw in
     if \<not> starts_with ADMIN_TOKEN_PREFIX raw then (None, d)
     else case find (\<lambda>c. ad_token_hash c = hash_token X raw \<and> ad_revoked_at c = None) (ab_admins d) of
        None \<Rightarrow> (None, d)
      | Some c \<Rightarrow> (Some \<lparr>ax_id = ad_id c, ax_team_id = ad_team_id c,
            ax_team_slug = Option.bind (ad_team_id c) (team_slug_of (ab_db d))\<rparr>,
          d\<lparr>ab_admins := upd_where (\<lambda>r. ad_id r = ad_id c) (\<lambda>r. r\<lparr>ad_last_used_at := Some now\<rparr>) (ab_admins d)\<rparr>))"

end
