(* ===== verification/AdminApi.thy ===== *)
theory AdminApi
  imports Admin
begin

text \<open>
  \<^verbatim>\<open>src/src/admin_api.rs\<close>: the \<^verbatim>\<open>/admin\<close> interface. Every permission decision is made from the
  resolved credential alone. A request is the handler's parsed input; what the web framework refuses
  before the handler (malformed JSON, a bad id, a body over the limit) is not modelled. Handlers answer
  with one value of \<open>admin_answer\<close>.
\<close>

section \<open>Errors\<close>

datatype api_error =
    AUnauthorized string
  | AForbidden string
  | ANotFound string
  | ABadRequest string
  | AConflict string
  | AThrottled nat
  | AInternal

definition api_error_of :: "bus_error \<Rightarrow> api_error" where
  "api_error_of e = (case e of
      NotFound m \<Rightarrow> ANotFound m
    | Invalid m \<Rightarrow> ABadRequest m
    | Conflict m \<Rightarrow> AConflict m
    | Unauthenticated m \<Rightarrow> AUnauthorized m
    | Forbidden m \<Rightarrow> AForbidden m
    | Db m \<Rightarrow> AInternal)"

text \<open>The status, whether the challenge header goes with it, and the \<^verbatim>\<open>Retry-After\<close> header.\<close>

definition api_status :: "api_error \<Rightarrow> nat \<times> bool \<times> nat option" where
  "api_status e = (case e of
      AUnauthorized m \<Rightarrow> (401, True, None)
    | AForbidden m \<Rightarrow> (403, False, None)
    | ANotFound m \<Rightarrow> (404, False, None)
    | ABadRequest m \<Rightarrow> (400, False, None)
    | AConflict m \<Rightarrow> (409, False, None)
    | AThrottled n \<Rightarrow> (429, False, Some n)
    | AInternal \<Rightarrow> (500, False, None))"

type_synonym 'a api_res = "api_error + 'a"

definition api :: "'a res \<Rightarrow> 'a api_res" where
  "api r = (case r of Inl e \<Rightarrow> Inl (api_error_of e) | Inr v \<Rightarrow> Inr v)"

lemma api_simps [simp]: "api (Inl e) = Inl (api_error_of e)" "api (Inr v) = Inr v"
  by (simp_all add: api_def)

section \<open>The middleware\<close>

definition ADMIN_RATE_LIMIT_DIVISOR :: nat where "ADMIN_RATE_LIMIT_DIVISOR = 10"
definition MAX_ADMIN_REQUEST_BYTES :: nat where "MAX_ADMIN_REQUEST_BYTES = 16 * 1024"

definition admin_per_minute :: "nat \<Rightarrow> nat" where
  "admin_per_minute mcp = (if mcp = 0 then 0 else max (mcp div ADMIN_RATE_LIMIT_DIVISOR) 1)"

record admin_api_state =
  ap_limiter :: "limiter option"
  ap_db :: adb

definition require_admin ::
    "ext \<Rightarrow> rounding \<Rightarrow> nat \<Rightarrow> time \<Rightarrow> headers \<Rightarrow> admin_api_state \<Rightarrow> admin_ctx api_res \<times> admin_api_state" where
  "require_admin X rnd inst now h st =
     (case bearer_of X h of
        Inl e \<Rightarrow> (Inl (AUnauthorized ''missing bearer credential''), st)
      | Inr raw \<Rightarrow>
        if starts_with TOKEN_PREFIX raw then (Inl (AUnauthorized ''agent tokens cannot administer the bus''), st)
        else if \<not> starts_with ADMIN_TOKEN_PREFIX raw then (Inl (AUnauthorized ''invalid or revoked administrative credential''), st)
        else (case charge_limiter rnd inst (hex_of (hash_token X raw)) (ap_limiter st) of
           (Inl e, lm) \<Rightarrow> (Inl (AThrottled (case e of RateLimited n \<Rightarrow> n | _ \<Rightarrow> 0)), st\<lparr>ap_limiter := lm\<rparr>)
         | (Inr _, lm) \<Rightarrow>
             (case resolve_admin X now raw (ap_db st) of
                (None, d) \<Rightarrow> (Inl (AUnauthorized ''invalid or revoked administrative credential''), st\<lparr>ap_limiter := lm, ap_db := d\<rparr>)
              | (Some c, d) \<Rightarrow> (Inr c, st\<lparr>ap_limiter := lm, ap_db := d\<rparr>))))"

section \<open>Scopes\<close>

definition require_global :: "admin_ctx \<Rightarrow> unit api_res" where
  "require_global c = (if is_global c then Inr () else Inl (AForbidden ''needs a global administrative credential''))"

definition scoped_team :: "admin_ctx \<Rightarrow> string \<Rightarrow> adb \<Rightarrow> uuid api_res" where
  "scoped_team c slug d = (let slug = to_lowercase (trim slug) in
     case (ax_team_id c, ax_team_slug c) of
       (Some tid, Some own) \<Rightarrow> if own = slug then Inr tid else Inl (AForbidden ''this credential administers one team only'')
     | _ \<Rightarrow> api (team_id_by_slug slug d))"

section \<open>Handlers\<close>

datatype admin_req =
    WhoAmIReq
  | ListTeamsReq
  | CreateTeamReq string "string option"
  | ListAgentsReq string
  | CreateAgentReq string string "string option"
  | ListTokensReq string
  | IssueTokenReq string string "string option"
  | RevokeTokenReq string uuid
  | ListCredentialsReq
  | GrantCredentialReq "string option" "string option"
  | RevokeCredentialReq uuid

datatype admin_answer =
    CredentialIs uuid bool "string option"
  | Teams "admin_team list"
  | TeamReady admin_team
  | Agents "admin_agent list"
  | AgentReady admin_agent
  | Tokens "token_info list"
  | TokenIssued issued_token
  | Credentials "admin_info list"
  | CredentialGranted issued_admin
  | Revoked uuid

definition answering :: "('a \<Rightarrow> admin_answer) \<Rightarrow> 'a res \<times> adb \<Rightarrow> admin_answer api_res \<times> adb" where
  "answering f r = (case api (fst r) of Inl e \<Rightarrow> Inl e | Inr v \<Rightarrow> Inr (f v), snd r)"

definition in_team :: "admin_ctx \<Rightarrow> string \<Rightarrow> (uuid \<Rightarrow> adb \<Rightarrow> admin_answer api_res \<times> adb) \<Rightarrow> adb \<Rightarrow> admin_answer api_res \<times> adb" where
  "in_team c slug run d = (case scoped_team c slug d of Inl e \<Rightarrow> (Inl e, d) | Inr tid \<Rightarrow> run tid d)"

definition grant_scope :: "string option \<Rightarrow> adb \<Rightarrow> uuid option api_res" where
  "grant_scope team d = (case map_option trim team of
      None \<Rightarrow> Inr None
    | Some slug \<Rightarrow> if slug = [] then Inl (ABadRequest ''team is empty'')
        else (case api (team_id_by_slug slug d) of Inl e \<Rightarrow> Inl e | Inr i \<Rightarrow> Inr (Some i)))"

fun admin_handle :: "ext \<Rightarrow> time \<Rightarrow> uuid \<Rightarrow> string \<Rightarrow> admin_ctx \<Rightarrow> admin_req \<Rightarrow> adb \<Rightarrow> admin_answer api_res \<times> adb" where
  "admin_handle X now new_id rand c WhoAmIReq d = (Inr (CredentialIs (ax_id c) (is_global c) (ax_team_slug c)), d)"
| "admin_handle X now new_id rand c ListTeamsReq d =
     (case ax_team_id c of None \<Rightarrow> (Inr (Teams (admin_list_teams d)), d)
      | Some tid \<Rightarrow> answering (\<lambda>t. Teams [t]) (admin_team_by_id tid d, d))"
| "admin_handle X now new_id rand c (CreateTeamReq slug name) d =
     (case require_global c of Inl e \<Rightarrow> (Inl e, d)
      | Inr _ \<Rightarrow> answering TeamReady (create_team now new_id (AdminActor (ax_id c)) slug name d))"
| "admin_handle X now new_id rand c (ListAgentsReq team) d =
     in_team c team (\<lambda>tid d. (Inr (Agents (admin_list_agents tid d)), d)) d"
| "admin_handle X now new_id rand c (CreateAgentReq team name display) d =
     in_team c team (\<lambda>tid d. answering AgentReady (create_agent now new_id (AdminActor (ax_id c)) tid name display d)) d"
| "admin_handle X now new_id rand c (ListTokensReq team) d =
     in_team c team (\<lambda>tid d. (Inr (Tokens (list_tokens tid d)), d)) d"
| "admin_handle X now new_id rand c (IssueTokenReq team agent label) d =
     in_team c team (\<lambda>tid d. answering TokenIssued (issue_token X now new_id rand (AdminActor (ax_id c)) tid agent label d)) d"
| "admin_handle X now new_id rand c (RevokeTokenReq team i) d =
     in_team c team (\<lambda>tid d. answering (\<lambda>_. Revoked i) (revoke_token now (AdminActor (ax_id c)) (Some tid) i d)) d"
| "admin_handle X now new_id rand c ListCredentialsReq d = (Inr (Credentials (list_admins (ax_team_id c) d)), d)"
| "admin_handle X now new_id rand c (GrantCredentialReq team label) d =
     (case require_global c of Inl e \<Rightarrow> (Inl e, d)
      | Inr _ \<Rightarrow> (case grant_scope team d of Inl e \<Rightarrow> (Inl e, d)
         | Inr tid \<Rightarrow> answering CredentialGranted (grant_admin X now new_id rand (AdminActor (ax_id c)) tid label d)))"
| "admin_handle X now new_id rand c (RevokeCredentialReq i) d =
     answering (\<lambda>_. Revoked i) (revoke_admin now (AdminActor (ax_id c)) (ax_team_id c) i d)"

text \<open>A request end to end: the credential first, then its handler.\<close>

definition admin_request ::
    "ext \<Rightarrow> rounding \<Rightarrow> nat \<Rightarrow> time \<Rightarrow> uuid \<Rightarrow> string \<Rightarrow> headers \<Rightarrow> admin_req \<Rightarrow> admin_api_state \<Rightarrow> admin_answer api_res \<times> admin_api_state" where
  "admin_request X rnd inst now new_id rand h q st =
     (case require_admin X rnd inst now h st of
        (Inl e, st) \<Rightarrow> (Inl e, st)
      | (Inr c, st) \<Rightarrow> (case admin_handle X now new_id rand c q (ap_db st) of (r, d) \<Rightarrow> (r, st\<lparr>ap_db := d\<rparr>)))"

end
