(* ===== verification/Operator.thy ===== *)
theory Operator
  imports AdminApi
begin

text \<open>
  The mutating commands of \<^verbatim>\<open>src/src/admin.rs\<close>, which an operator runs beside the database: the operations
  of \<open>Admin\<close> in the name of \<open>Cli\<close>, with no credential. A command is its database work and whether it
  failed; what it prints is left out, and the texts it substitutes for a missing row stay short tags.
\<close>

definition unit_of :: "'a res \<times> adb \<Rightarrow> unit res \<times> adb" where
  "unit_of r = (case fst r of Inl e \<Rightarrow> Inl e | Inr _ \<Rightarrow> Inr (), snd r)"

definition with_team :: "string \<Rightarrow> (uuid \<Rightarrow> adb \<Rightarrow> unit res \<times> adb) \<Rightarrow> adb \<Rightarrow> unit res \<times> adb" where
  "with_team slug run d = (case team_id_by_slug slug d of Inl e \<Rightarrow> (Inl e, d) | Inr tid \<Rightarrow> run tid d)"

definition team_create :: "time \<Rightarrow> uuid \<Rightarrow> string \<Rightarrow> string option \<Rightarrow> adb \<Rightarrow> unit res \<times> adb" where
  "team_create now new_id slug name d = unit_of (create_team now new_id Cli slug name d)"

definition team_capability :: "time \<Rightarrow> string \<Rightarrow> bool \<Rightarrow> adb \<Rightarrow> unit res \<times> adb" where
  "team_capability now team conversations = with_team team (\<lambda>i. set_conversations now Cli i conversations)"

text \<open>\<open>d0\<close> is the state in which the queue is counted.\<close>

definition team_backend :: "time \<Rightarrow> string \<Rightarrow> string \<Rightarrow> adb \<Rightarrow> adb \<Rightarrow> unit res \<times> adb" where
  "team_backend now team backend d0 = with_team team (\<lambda>i. set_default_backend now Cli i backend d0)"

definition token_issue :: "ext \<Rightarrow> time \<Rightarrow> uuid \<Rightarrow> string \<Rightarrow> string \<Rightarrow> string \<Rightarrow> string option \<Rightarrow> adb \<Rightarrow> unit res \<times> adb" where
  "token_issue X now new_id rand team agent label =
     with_team team (\<lambda>tid d. unit_of (issue_token X now new_id rand Cli tid agent label d))"

text \<open>Two transactions: the agent stays when the token is refused.\<close>

definition agent_add ::
    "ext \<Rightarrow> time \<Rightarrow> uuid \<Rightarrow> uuid \<Rightarrow> string \<Rightarrow> string \<Rightarrow> string \<Rightarrow> string option \<Rightarrow> bool \<Rightarrow> adb \<Rightarrow> unit res \<times> adb" where
  "agent_add X now agent_id new_id rand team name display_name with_token = with_team team (\<lambda>tid d.
     case create_agent now agent_id Cli tid name display_name d of
       (Inl e, d') \<Rightarrow> (Inl e, d')
     | (Inr a, d') \<Rightarrow> if with_token then token_issue X now new_id rand team (an_name a) None d' else (Inr (), d'))"

definition agent_disable :: "time \<Rightarrow> string \<Rightarrow> string \<Rightarrow> adb \<Rightarrow> unit res \<times> adb" where
  "agent_disable now team name = with_team team (\<lambda>tid. disable_agent now Cli tid name)"

definition token_revoke :: "time \<Rightarrow> uuid \<Rightarrow> adb \<Rightarrow> unit res \<times> adb" where
  "token_revoke now i = revoke_token now Cli None i"

definition admin_bootstrap :: "ext \<Rightarrow> time \<Rightarrow> uuid \<Rightarrow> string \<Rightarrow> string option \<Rightarrow> adb \<Rightarrow> unit res \<times> adb" where
  "admin_bootstrap X now new_id rand label d = unit_of (grant_admin X now new_id rand Cli None label d)"

definition admin_credential_revoke :: "time \<Rightarrow> uuid \<Rightarrow> adb \<Rightarrow> unit res \<times> adb" where
  "admin_credential_revoke now i = revoke_admin now Cli None i"

datatype cli_req =
    TeamCreate time uuid string "string option"
  | TeamCapability time string bool
  | TeamBackend time string string adb
  | AgentAdd ext time uuid uuid string string string "string option" bool
  | AgentDisable time string string
  | TokenIssue ext time uuid string string string "string option"
  | TokenRevoke time uuid
  | AdminBootstrap ext time uuid string "string option"
  | CredentialRevoke time uuid

fun cli_run :: "cli_req \<Rightarrow> adb \<Rightarrow> unit res \<times> adb" where
  "cli_run (TeamCreate now i slug name) d = team_create now i slug name d"
| "cli_run (TeamCapability now team on) d = team_capability now team on d"
| "cli_run (TeamBackend now team backend d0) d = team_backend now team backend d0 d"
| "cli_run (AgentAdd X now a i rand team name display issue) d = agent_add X now a i rand team name display issue d"
| "cli_run (AgentDisable now team name) d = agent_disable now team name d"
| "cli_run (TokenIssue X now i rand team agent label) d = token_issue X now i rand team agent label d"
| "cli_run (TokenRevoke now i) d = token_revoke now i d"
| "cli_run (AdminBootstrap X now i rand label) d = admin_bootstrap X now i rand label d"
| "cli_run (CredentialRevoke now i) d = admin_credential_revoke now i d"

end
