(* ===== verification/AdminSteps.thy ===== *)
theory AdminSteps
  imports Operator ConvRuns
begin

text \<open>
  Administration as a small machine: \<open>admin_change\<close> lists what an operation may do to the accounts, each
  within the team its actor is scoped to, and \<open>admin_step\<close> adds the trail, one row by the actor in the
  same transaction. Every store operation, every request to \<^verbatim>\<open>/admin\<close> and every operator command
  refines it, so the properties are proved on its ten cases.
\<close>

section \<open>The machine\<close>

definition within_scope :: "uuid option \<Rightarrow> uuid \<Rightarrow> bool" where
  "within_scope sc t \<longleftrightarrow> sc = None \<or> sc = Some t"

lemma within_scope_simps [simp]: "within_scope None t" "within_scope (Some u) t \<longleftrightarrow> u = t"
  by (auto simp: within_scope_def)

inductive admin_change :: "uuid option \<Rightarrow> adb \<Rightarrow> adb \<Rightarrow> bool" for sc :: "uuid option" and d :: adb where
  team_made: "sc = None \<Longrightarrow>
    admin_change sc d (d\<lparr>ab_bus := (ab_bus d)\<lparr>cd_base := (ab_db d)\<lparr>d_teams := d_teams (ab_db d) @ [t]\<rparr>,
      cd_teams := cd_teams (ab_bus d) @ [ct]\<rparr>\<rparr>)"
| team_set: "sc = None \<Longrightarrow>
    admin_change sc d (d\<lparr>ab_bus := (ab_bus d)\<lparr>cd_teams := upd_where P f (cd_teams (ab_bus d))\<rparr>\<rparr>)"
| agent_made: "within_scope sc (ag_team_id a) \<Longrightarrow> \<forall>r \<in> set (d_agents (ab_db d)). ag_id r \<noteq> ag_id a \<Longrightarrow>
    admin_change sc d (on_db (\<lambda>b. b\<lparr>d_agents := d_agents b @ [a]\<rparr>) d)"
| agent_set: "\<forall>r. ag_id (f r) = ag_id r \<and> ag_team_id (f r) = ag_team_id r \<and> ag_name (f r) = ag_name r \<Longrightarrow>
    \<forall>r \<in> set (d_agents (ab_db d)). P r \<longrightarrow> within_scope sc (ag_team_id r) \<Longrightarrow>
    admin_change sc d (on_db (\<lambda>b. b\<lparr>d_agents := upd_where P f (d_agents b)\<rparr>) d)"
| token_made: "a \<in> set (d_agents (ab_db d)) \<Longrightarrow> tk_agent_id k = ag_id a \<Longrightarrow> within_scope sc (ag_team_id a) \<Longrightarrow>
    \<forall>r \<in> set (d_tokens (ab_db d)). tk_id r \<noteq> tk_id k \<Longrightarrow>
    active_tokens (ab_db d) (tk_agent_id k) < MAX_ACTIVE_TOKENS_PER_AGENT \<Longrightarrow>
    admin_change sc d (on_db (\<lambda>b. b\<lparr>d_tokens := d_tokens b @ [k]\<rparr>) d)"
| token_cut: "k \<in> set (d_tokens (ab_db d)) \<Longrightarrow> a \<in> set (d_agents (ab_db d)) \<Longrightarrow> tk_agent_id k = ag_id a \<Longrightarrow>
    within_scope sc (ag_team_id a) \<Longrightarrow>
    admin_change sc d (on_db (\<lambda>b. b\<lparr>d_tokens := upd_where (\<lambda>t. tk_id t = tk_id k) (\<lambda>t. t\<lparr>tk_revoked_at := Some now\<rparr>) (d_tokens b),
      d_sessions := upd_where (\<lambda>s. se_parent_token s = tk_id k \<and> se_revoked_at s = None)
        (\<lambda>s. s\<lparr>se_revoked_at := Some now\<rparr>) (d_sessions b)\<rparr>) d)"
| credential_made: "sc = None \<Longrightarrow> \<forall>r \<in> set (ab_admins d). ad_id r \<noteq> ad_id c \<and> ad_token_hash r \<noteq> ad_token_hash c \<Longrightarrow>
    (\<forall>t. ad_team_id c = Some t \<longrightarrow> t \<in> tm_id ` set (d_teams (ab_db d))) \<Longrightarrow>
    admin_change sc d (d\<lparr>ab_admins := ab_admins d @ [c]\<rparr>)"
| credential_cut: "sc = None \<or> ad_team_id c = sc \<Longrightarrow> c \<in> set (ab_admins d) \<Longrightarrow>
    admin_change sc d (d\<lparr>ab_admins := upd_where (\<lambda>r. ad_id r = ad_id c) (\<lambda>r. r\<lparr>ad_revoked_at := Some now\<rparr>) (ab_admins d)\<rparr>)"

definition by_actor :: "actor \<Rightarrow> admin_audit_row \<Rightarrow> bool" where
  "by_actor act w \<longleftrightarrow> (aw_source w, aw_admin_id w) = actor_columns act"

definition known_actor :: "actor \<Rightarrow> adb \<Rightarrow> bool" where
  "known_actor act d \<longleftrightarrow> (case snd (actor_columns act) of None \<Rightarrow> True | Some i \<Rightarrow> i \<in> ad_id ` set (ab_admins d))"

text \<open>Only a display name changes without a row: the agent was enabled before.\<close>

inductive admin_step :: "uuid option \<Rightarrow> actor \<Rightarrow> adb \<Rightarrow> adb \<Rightarrow> bool" for sc :: "uuid option" and act :: actor and d :: adb where
  nothing: "admin_step sc act d d"
| renamed: "\<forall>r \<in> set (d_agents (ab_db d)). P r \<longrightarrow> within_scope sc (ag_team_id r) \<and> f r = r\<lparr>ag_display_name := ag_display_name (f r)\<rparr> \<Longrightarrow>
    admin_step sc act d (on_db (\<lambda>b. b\<lparr>d_agents := upd_where P f (d_agents b)\<rparr>) d)"
| recorded: "admin_change sc d d' \<Longrightarrow> by_actor act w \<Longrightarrow> known_actor act d' \<Longrightarrow> admin_step sc act d (d'\<lparr>ab_audit := ab_audit d @ [w]\<rparr>)"

section \<open>Well-formed accounts\<close>

text \<open>
  Keys are unique, a token's agent and a credential's team exist, a window is of the agent its token names, and a revoked
  token leaves no window behind that is not revoked itself.
\<close>

definition swept :: "db \<Rightarrow> bool" where
  "swept b \<longleftrightarrow> (\<forall>s \<in> set (d_sessions b). \<exists>k \<in> set (d_tokens b). tk_id k = se_parent_token s \<and>
     tk_agent_id k = se_agent_id s \<and> (tk_revoked_at k \<noteq> None \<longrightarrow> se_revoked_at s \<noteq> None))"

definition admin_wf :: "adb \<Rightarrow> bool" where
  "admin_wf d \<longleftrightarrow> distinct (map ag_id (d_agents (ab_db d))) \<and> distinct (map tk_id (d_tokens (ab_db d))) \<and>
     distinct (map ad_id (ab_admins d)) \<and> tk_agent_id ` set (d_tokens (ab_db d)) \<subseteq> ag_id ` set (d_agents (ab_db d)) \<and>
     (\<forall>c \<in> set (ab_admins d). \<forall>t. ad_team_id c = Some t \<longrightarrow> t \<in> tm_id ` set (d_teams (ab_db d))) \<and>
     sessions_wf (ab_db d) \<and> swept (ab_db d)"

section \<open>Every operation refines the machine\<close>

lemma upd_where_cong: "(\<And>r. r \<in> set rows \<Longrightarrow> P r = Q r) \<Longrightarrow> upd_where P f rows = upd_where Q f rows"
  by (induction rows) auto

lemma change_audit: "admin_change sc d d' \<Longrightarrow> ab_audit d' = ab_audit d"
  by (cases rule: admin_change.cases) (auto simp: on_db_def)

lemma audited_step:
  assumes "admin_audit now act action tm subj d1 = Inr d'" and "admin_change sc d d1"
  shows "admin_step sc act d d'"
proof -
  obtain w where w: "by_actor act w" "d' = d1\<lparr>ab_audit := ab_audit d1 @ [w]\<rparr>" "known_actor act d1"
    using assms(1) by (force simp: admin_audit_def by_actor_def known_actor_def exists_row_def split: if_splits prod.splits option.splits)
  show ?thesis
    unfolding w(2) change_audit [OF assms(2)] by (rule admin_step.recorded [OF assms(2) w(1,3)])
qed

lemma transact_step:
  "(\<And>x d'. body d = Inr (x, d') \<Longrightarrow> admin_step sc act d d') \<Longrightarrow> admin_step sc act d (snd (transact body d))"
  by (rule transact_cases [of body d]) (auto intro: admin_step.nothing)

lemma snd_answer: "snd (case r of (Inl e, d) \<Rightarrow> (Inl e, d) | (Inr v, d) \<Rightarrow> (g v d, d)) = snd r"
  by (cases r; cases "fst r") auto

lemma create_team_step: "admin_step None act d (snd (create_team now i act slug name d))"
proof (cases "bindE (check_name slug) (\<lambda>slug. bindE (check_display name) (\<lambda>name. Inr (slug, unwrap_or slug name)))")
  case (Inl e)
  then show ?thesis by (simp add: create_team_def admin_step.nothing)
next
  case (Inr v)
  obtain sl nm where v: "v = (sl, nm)" by (cases v)
  show ?thesis
    unfolding create_team_def Inr v sum.case prod.case snd_answer
    by (rule transact_step) (auto simp: bindE_eq_Inr Let_def split: if_splits
        intro: admin_step.nothing audited_step admin_change.team_made)
qed

lemma set_conversations_step: "admin_step None act d (snd (set_conversations now act t on d))"
  unfolding set_conversations_def
  by (rule transact_step) (auto simp: bindE_eq_Inr Let_def split: if_splits
      intro: admin_step.nothing audited_step admin_change.team_set)

lemma set_default_backend_step: "admin_step None act d (snd (set_default_backend now act t b d0 d))"
proof -
  have "admin_step None act d (snd (transact (\<lambda>d.
        let P = (\<lambda>t'. ct_id t' = t \<and> ct_default_backend t' \<noteq> b) in
        if exists_row P (cd_teams (ab_bus d))
        then bindE (admin_audit now act ''team.backend'' (Some t) (Some t)
               (d\<lparr>ab_bus := (ab_bus d)\<lparr>cd_teams := upd_where P (\<lambda>t. t\<lparr>ct_default_backend := b\<rparr>) (cd_teams (ab_bus d))\<rparr>\<rparr>))
               (\<lambda>d. Inr ((), d))
        else Inr ((), d)) d))"
    by (rule transact_step) (auto simp: bindE_eq_Inr Let_def split: if_splits
        intro: admin_step.nothing audited_step admin_change.team_set)
  then show ?thesis by (simp add: set_default_backend_def admin_step.nothing del: set_simps)
qed

lemma same_agent: "admin_wf d \<Longrightarrow> a \<in> set (d_agents (ab_db d)) \<Longrightarrow> b \<in> set (d_agents (ab_db d)) \<Longrightarrow> ag_id a = ag_id b \<Longrightarrow> a = b"
  by (auto simp: admin_wf_def dest: distinct_map_inj)

lemma same_token: "admin_wf d \<Longrightarrow> a \<in> set (d_tokens (ab_db d)) \<Longrightarrow> b \<in> set (d_tokens (ab_db d)) \<Longrightarrow> tk_id a = tk_id b \<Longrightarrow> a = b"
  by (auto simp: admin_wf_def dest: distinct_map_inj)

lemma same_credential: "admin_wf d \<Longrightarrow> a \<in> set (ab_admins d) \<Longrightarrow> b \<in> set (ab_admins d) \<Longrightarrow> ad_id a = ad_id b \<Longrightarrow> a = b"
  by (auto simp: admin_wf_def dest: distinct_map_inj)

lemma create_agent_tx_step:
  assumes "admin_wf d" and "within_scope sc t" and "create_agent_tx now i act t name display d = Inr (j, d')"
  shows "admin_step sc act d d'"
proof (cases "find (agent_named t name) (d_agents (ab_db d))")
  case None
  with assms(2,3) show ?thesis
    by (auto simp: create_agent_tx_def bindE_eq_Inr exists_row_def split: if_splits
        intro!: audited_step [OF _ admin_change.agent_made])
next
  case (Some a)
  let ?f = "\<lambda>r. r\<lparr>ag_display_name := (case display of None \<Rightarrow> ag_display_name r | Some n \<Rightarrow> Some n), ag_disabled_at := None\<rparr>"
  note a = find_SomeD [OF Some]
  have row: "r = a" if "r \<in> set (d_agents (ab_db d))" "ag_id r = ag_id a" for r
    using same_agent [OF assms(1) that(1)] a that(2) by blast
  show ?thesis
  proof (cases "ag_disabled_at a = None")
    case True
    have "?f a = a\<lparr>ag_display_name := ag_display_name (?f a)\<rparr>" using True by (cases a) simp
    with row a assms(2) have "admin_step sc act d (on_db (\<lambda>b. b\<lparr>d_agents := upd_where (\<lambda>r. ag_id r = ag_id a) ?f (d_agents b)\<rparr>) d)"
      by (intro admin_step.renamed) (auto simp: agent_named_def)
    moreover have "d' = on_db (\<lambda>b. b\<lparr>d_agents := upd_where (\<lambda>r. ag_id r = ag_id a) ?f (d_agents b)\<rparr>) d"
      using assms(3) Some True by (auto simp: create_agent_tx_def)
    ultimately show ?thesis by (simp only:)
  next
    case False
    have "admin_change sc d (on_db (\<lambda>b. b\<lparr>d_agents := upd_where (\<lambda>r. ag_id r = ag_id a) ?f (d_agents b)\<rparr>) d)"
      using row a assms(2) by (intro admin_change.agent_set) (auto simp: agent_named_def)
    with assms(3) Some False show ?thesis
      by (auto simp: create_agent_tx_def bindE_eq_Inr intro: audited_step)
  qed
qed

lemma create_agent_step:
  assumes "admin_wf d" and "within_scope sc t"
  shows "admin_step sc act d (snd (create_agent now i act t name display d))"
proof -
  have "admin_step sc act d (snd (transact (create_agent_tx now i act t n disp) d))" for n disp
    by (rule transact_step) (rule create_agent_tx_step [OF assms])
  then show ?thesis
    unfolding create_agent_def by (auto simp: snd_answer admin_step.nothing split: sum.split)
qed

lemma disable_agent_step:
  assumes "within_scope sc t"
  shows "admin_step sc act d (snd (disable_agent now act t name d))"
  unfolding disable_agent_def
proof (rule transact_step)
  fix x d'
  let ?P = "\<lambda>a. agent_named t (to_lowercase (trim name)) a \<and> ag_disabled_at a = None"
  have set: "admin_change sc d (on_db (\<lambda>b. b\<lparr>d_agents := upd_where ?P (\<lambda>r. r\<lparr>ag_disabled_at := Some now\<rparr>) (d_agents b)\<rparr>) d)"
    using assms by (intro admin_change.agent_set) (auto simp: agent_named_def)
  assume "(let name = to_lowercase (trim name); P = (\<lambda>a. agent_named t name a \<and> ag_disabled_at a = None) in
     case find P (d_agents (ab_db d)) of
       Some a \<Rightarrow> bindE (admin_audit now act ''agent.disable'' (Some t) (Some (ag_id a))
           (on_db (\<lambda>b. b\<lparr>d_agents := upd_where P (\<lambda>r. r\<lparr>ag_disabled_at := Some now\<rparr>) (d_agents b)\<rparr>) d)) (\<lambda>d. Inr ((), d))
     | None \<Rightarrow> if exists_row (agent_named t name) (d_agents (ab_db d)) then Inr ((), d)
         else Inl (NotFound ''no agent of that name in this team'')) = Inr (x, d')"
  then show "admin_step sc act d d'"
    using set by (auto simp: Let_def bindE_eq_Inr split: option.splits if_splits intro: admin_step.nothing audited_step)
qed

lemma issue_token_step:
  assumes "within_scope sc t"
  shows "admin_step sc act d (snd (issue_token X now i rand act t agent label d))"
proof -
  have "admin_step sc act d d'" if tx: "issue_token_tx X now i rand act t name l d = Inr (x, d')" for name l x d'
  proof -
    from tx obtain a where a: "find (agent_named t name) (d_agents (ab_db d)) = Some a"
      by (auto simp: issue_token_tx_def split: option.splits)
    from find_SomeD [OF a] tx a assms show ?thesis
      by (auto simp: issue_token_tx_def bindE_eq_Inr Let_def exists_row_def agent_named_def split: option.splits if_splits
          intro!: audited_step [OF _ admin_change.token_made [where a = a]])
  qed
  then show ?thesis by (auto simp: issue_token_def split: sum.split intro!: admin_step.nothing transact_step)
qed

lemma find_upd_rows:
  "find P rows = Some k \<Longrightarrow> (\<And>r. r \<in> set rows \<Longrightarrow> P r \<Longrightarrow> key r = key k) \<Longrightarrow> (\<And>r. r \<in> set rows \<Longrightarrow> key r = key k \<Longrightarrow> r = k) \<Longrightarrow>
   upd_where P f rows = upd_where (\<lambda>r. key r = key k) f rows"
  using find_SomeD [of P rows k] by (intro upd_where_cong) metis

lemma revoke_token_step:
  assumes "admin_wf d"
  shows "admin_step sc act d (snd (revoke_token now act sc i d))"
  unfolding revoke_token_def
proof (rule transact_step)
  fix x d'
  let ?P = "\<lambda>t. token_in_scope (ab_db d) sc i t \<and> tk_revoked_at t = None"
  let ?f = "\<lambda>r. r\<lparr>tk_revoked_at := Some now\<rparr>"
  assume tx: "(let P = ?P in case find P (d_tokens (ab_db d)) of
       Some t \<Rightarrow>
         let d1 = on_db (\<lambda>b. b\<lparr>d_tokens := upd_where P ?f (d_tokens b),
                d_sessions := upd_where (\<lambda>s. se_parent_token s = i \<and> se_revoked_at s = None)
                  (\<lambda>s. s\<lparr>se_revoked_at := Some now\<rparr>) (d_sessions b)\<rparr>) d in
         bindE (admin_audit now act ''token.revoke'' (map_option ag_team_id (agent_by_id (ab_db d) (tk_agent_id t))) (Some i) d1)
           (\<lambda>d. Inr ((), d))
     | None \<Rightarrow> if exists_row (token_in_scope (ab_db d) sc i) (d_tokens (ab_db d)) then Inr ((), d)
         else Inl (NotFound ''no token with that id'')) = Inr (x, d')"
  show "admin_step sc act d d'"
  proof (cases "find ?P (d_tokens (ab_db d))")
    case None
    with tx show ?thesis by (auto simp: Let_def split: if_splits intro: admin_step.nothing)
  next
    case (Some k)
    note k = find_SomeD [OF Some]
    then have ki: "tk_id k = i" by (simp add: token_in_scope_def)
    from k obtain a where a: "agent_by_id (ab_db d) (tk_agent_id k) = Some a" "within_scope sc (ag_team_id a)"
      by (auto simp: token_in_scope_def within_scope_def split: option.splits)
    then have a': "a \<in> set (d_agents (ab_db d))" "tk_agent_id k = ag_id a"
      by (auto simp: agent_by_id_def dest: find_SomeD)
    have "upd_where ?P ?f (d_tokens (ab_db d)) = upd_where (\<lambda>t. tk_id t = tk_id k) ?f (d_tokens (ab_db d))"
      using k same_token [OF assms] ki by (intro find_upd_rows [OF Some]) (auto simp: token_in_scope_def)
    then have eq: "on_db (\<lambda>b. b\<lparr>d_tokens := upd_where ?P ?f (d_tokens b),
                d_sessions := upd_where (\<lambda>s. se_parent_token s = i \<and> se_revoked_at s = None)
                  (\<lambda>s. s\<lparr>se_revoked_at := Some now\<rparr>) (d_sessions b)\<rparr>) d =
       on_db (\<lambda>b. b\<lparr>d_tokens := upd_where (\<lambda>t. tk_id t = tk_id k) ?f (d_tokens b),
                d_sessions := upd_where (\<lambda>s. se_parent_token s = tk_id k \<and> se_revoked_at s = None)
                  (\<lambda>s. s\<lparr>se_revoked_at := Some now\<rparr>) (d_sessions b)\<rparr>) d"
      by (simp add: on_db_def ki)
    have "admin_change sc d (on_db (\<lambda>b. b\<lparr>d_tokens := upd_where (\<lambda>t. tk_id t = tk_id k) ?f (d_tokens b),
                d_sessions := upd_where (\<lambda>s. se_parent_token s = tk_id k \<and> se_revoked_at s = None)
                  (\<lambda>s. s\<lparr>se_revoked_at := Some now\<rparr>) (d_sessions b)\<rparr>) d)"
      using k a a' by (intro admin_change.token_cut [of k d a]) auto
    with tx Some eq show ?thesis by (auto simp: Let_def bindE_eq_Inr intro: audited_step)
  qed
qed

lemma grant_admin_step: "admin_step None act d (snd (grant_admin X now i rand act t l d))"
proof (cases "bindE (check_label l) (\<lambda>label.
           bindE (traverse_opt (\<lambda>t. ok_or (team_slug_of (ab_db d) t) (NotFound ''no such team'')) t) (\<lambda>slug. Inr (label, slug)))")
  case (Inl e)
  then show ?thesis by (simp add: grant_admin_def admin_step.nothing)
next
  case (Inr v)
  obtain label slug where v: "v = (label, slug)" by (cases v)
  have team: "\<forall>u. t = Some u \<longrightarrow> u \<in> tm_id ` set (d_teams (ab_db d))"
    using Inr by (auto simp: bindE_eq_Inr traverse_opt_def ok_or_eq_Inr team_slug_of_def dest!: find_SomeD)
  show ?thesis
    unfolding grant_admin_def Inr v sum.case prod.case Let_def
    using team by (auto simp: bindE_eq_Inr exists_row_def split: if_splits
        intro!: transact_step audited_step [OF _ admin_change.credential_made])
qed

lemma revoke_admin_step:
  assumes "admin_wf d"
  shows "admin_step sc act d (snd (revoke_admin now act sc i d))"
  unfolding revoke_admin_def
proof (rule transact_step)
  fix x d'
  let ?P = "\<lambda>c. admin_in_scope sc i c \<and> ad_revoked_at c = None"
  let ?f = "\<lambda>c. c\<lparr>ad_revoked_at := Some now\<rparr>"
  assume tx: "(let P = ?P in case find P (ab_admins d) of
       Some c \<Rightarrow> bindE (admin_audit now act ''admin.revoke'' (ad_team_id c) (Some i)
           (d\<lparr>ab_admins := upd_where P ?f (ab_admins d)\<rparr>)) (\<lambda>d. Inr ((), d))
     | None \<Rightarrow> if exists_row (admin_in_scope sc i) (ab_admins d) then Inr ((), d)
         else Inl (NotFound ''no administrative credential with that id'')) = Inr (x, d')"
  show "admin_step sc act d d'"
  proof (cases "find ?P (ab_admins d)")
    case None
    with tx show ?thesis by (auto simp: Let_def split: if_splits intro: admin_step.nothing)
  next
    case (Some c)
    note c = find_SomeD [OF Some]
    have eq: "upd_where ?P ?f (ab_admins d) = upd_where (\<lambda>r. ad_id r = ad_id c) ?f (ab_admins d)"
      using c same_credential [OF assms] by (intro find_upd_rows [OF Some]) (auto simp: admin_in_scope_def)
    have "admin_change sc d (d\<lparr>ab_admins := upd_where (\<lambda>r. ad_id r = ad_id c) ?f (ab_admins d)\<rparr>)"
      using c by (intro admin_change.credential_cut) (auto simp: admin_in_scope_def)
    with tx Some eq show ?thesis by (auto simp: Let_def bindE_eq_Inr intro: audited_step)
  qed
qed

text \<open>A credential acts within its team, or everywhere.\<close>

definition may_act :: "admin_ctx \<Rightarrow> bool" where
  "may_act c \<longleftrightarrow> (ax_team_id c \<noteq> None \<longrightarrow> ax_team_slug c \<noteq> None)"

lemma in_team_step:
  assumes "may_act c" and "\<And>t. within_scope (ax_team_id c) t \<Longrightarrow> admin_step sc act d (snd (run t d))"
  shows "admin_step sc act d (snd (in_team c slug run d))"
proof (cases "scoped_team c slug d")
  case (Inl e)
  then show ?thesis by (simp add: in_team_def admin_step.nothing)
next
  case (Inr t)
  with assms(1) have "within_scope (ax_team_id c) t"
    by (auto simp: scoped_team_def may_act_def Let_def split: option.splits if_splits)
  with Inr assms(2) show ?thesis by (simp add: in_team_def)
qed

lemma answering_state [simp]: "snd (answering f r) = snd r"
  by (simp add: answering_def)

lemma change_everywhere: "admin_change sc d d' \<Longrightarrow> admin_change None d d'"
  by (induction rule: admin_change.induct) (rule admin_change.intros; simp)+

lemma step_everywhere: "admin_step sc act d d' \<Longrightarrow> admin_step None act d d'"
  by (induction rule: admin_step.induct) (auto intro: admin_step.intros change_everywhere)

lemma revoke_in_team:
  assumes "admin_wf d" and "within_scope sc t"
  shows "admin_step sc act d (snd (revoke_token now act (Some t) i d))"
proof (cases sc)
  case None
  have "admin_step (Some t) act d (snd (revoke_token now act (Some t) i d))" by (rule revoke_token_step [OF assms(1)])
  then show ?thesis unfolding None by (rule step_everywhere)
next
  case (Some u)
  with assms revoke_token_step [OF assms(1), of sc act now i] show ?thesis by simp
qed

lemma admin_handle_step:
  assumes "admin_wf d" and "may_act c"
  shows "admin_step (ax_team_id c) (AdminActor (ax_id c)) d (snd (admin_handle X now i rand c q d))"
proof (cases q)
  case (CreateTeamReq slug name)
  then show ?thesis
    using create_team_step by (auto simp: require_global_def is_global_def admin_step.nothing)
next
  case (GrantCredentialReq team label)
  then show ?thesis
    using grant_admin_step by (auto simp: require_global_def is_global_def admin_step.nothing split: sum.split)
qed (auto simp: admin_step.nothing assms split: option.split
      intro!: in_team_step create_agent_step issue_token_step revoke_in_team revoke_admin_step)

end
