(* ===== verification/Routing.thy ===== *)
theory Routing
  imports Outbox
begin

text \<open>
  \<^verbatim>\<open>src/src/store/routing.rs\<close>: which backend a conversation's bodies live on. The process keeps one
  connection per team, opened on first use; opening one (\<^verbatim>\<open>JetStreamBackend::connect\<close>) and asking
  whether the broker answers are calls to the network and arguments here. The handle of a connection is
  a type parameter: the outbox uses it as a backend, the inbox as a source of references.
\<close>

datatype 'h any_backend = PostgresHandle | JetStreamHandle 'h

record 'h backends_state =
  bs_nats :: "string option"
  bs_connected :: "(uuid \<times> 'h) list"

definition postgres_only :: "'h backends_state" where
  "postgres_only = \<lparr>bs_nats = None, bs_connected = []\<rparr>"

definition with_jetstream :: "string \<Rightarrow> 'h backends_state" where
  "with_jetstream config = \<lparr>bs_nats = Some config, bs_connected = []\<rparr>"

definition jetstream_configured :: "'h backends_state \<Rightarrow> bool" where
  "jetstream_configured b \<longleftrightarrow> bs_nats b \<noteq> None"

text \<open>\<^verbatim>\<open>named\<close>: the cache of connections is the only state it writes.\<close>

definition named ::
    "(string \<Rightarrow> uuid \<Rightarrow> 'h res) \<Rightarrow> string \<Rightarrow> uuid \<Rightarrow> 'h backends_state \<Rightarrow> 'h any_backend res \<times> 'h backends_state" where
  "named connect name team b =
     (if name = ''postgres'' then (Inr PostgresHandle, b)
      else if name = ''jetstream'' then
        (case map_of (bs_connected b) team of
           Some existing \<Rightarrow> (Inr (JetStreamHandle existing), b)
         | None \<Rightarrow> (case bs_nats b of
             None \<Rightarrow> (Inl (Conflict ''routed to JetStream, and this server was started without a broker''), b)
           | Some config \<Rightarrow> (case connect config team of
               Inl e \<Rightarrow> (Inl e, b)
             | Inr h \<Rightarrow> (Inr (JetStreamHandle h), b\<lparr>bs_connected := (team, h) # bs_connected b\<rparr>))))
      else (Inl (Conflict ''a backend this build does not know how to read''), b))"

definition for_conversation ::
    "(string \<Rightarrow> uuid \<Rightarrow> 'h res) \<Rightarrow> uuid \<Rightarrow> cdb \<Rightarrow> 'h backends_state \<Rightarrow> 'h any_backend res \<times> 'h backends_state" where
  "for_conversation connect conversation d b = (case conversation_at d conversation of
      None \<Rightarrow> (Inl (NotFound ''no such conversation''), b)
    | Some c \<Rightarrow> named connect (cv_backend c) (cv_team_id c) b)"

definition default_backend_of :: "uuid \<Rightarrow> cdb \<Rightarrow> string res" where
  "default_backend_of team d = ok_or (map_option ct_default_backend (find (\<lambda>t. ct_id t = team) (cd_teams d))) (Db ''no row'')"

definition for_team ::
    "(string \<Rightarrow> uuid \<Rightarrow> 'h res) \<Rightarrow> uuid \<Rightarrow> cdb \<Rightarrow> 'h backends_state \<Rightarrow> 'h any_backend res \<times> 'h backends_state" where
  "for_team connect team d b = (case default_backend_of team d of
      Inl e \<Rightarrow> (Inl e, b)
    | Inr name \<Rightarrow> named connect name team b)"

definition broker_reachable :: "(string \<Rightarrow> bool) \<Rightarrow> 'h backends_state \<Rightarrow> bool option" where
  "broker_reachable reachable b = map_option reachable (bs_nats b)"

definition routed_teams :: "cdb \<Rightarrow> uuid list" where
  "routed_teams d = map ct_id (filter (\<lambda>t. ct_default_backend t \<noteq> ''postgres'' \<or>
     exists_row (\<lambda>c. cv_team_id c = ct_id t \<and> cv_backend c \<noteq> ''postgres'') (cd_conversations d)) (cd_teams d))"

section \<open>A route is never guessed\<close>

lemma named_postgres_iff: "fst (named connect name team b) = Inr PostgresHandle \<longleftrightarrow> name = ''postgres''"
  by (auto simp: named_def split: option.splits sum.splits)

lemma named_jetstream: "fst (named connect name team b) = Inr (JetStreamHandle h) \<Longrightarrow> name = ''jetstream''"
  by (auto simp: named_def split: option.splits sum.splits if_splits)

lemma named_remembers:
  "fst (named connect name team b) = Inr (JetStreamHandle h) \<Longrightarrow> map_of (bs_connected (snd (named connect name team b))) team = Some h"
  by (auto simp: named_def split: option.splits sum.splits if_splits)

lemma named_keeps: "map_of (bs_connected b) t = Some h \<Longrightarrow> map_of (bs_connected (snd (named connect name team b))) t = Some h"
  by (auto simp: named_def split: option.splits sum.splits)

lemma named_config [simp]: "bs_nats (snd (named connect name team b)) = bs_nats b"
  by (auto simp: named_def split: option.splits sum.splits)

text \<open>One call of the registry: how the network answered, and what was asked for.\<close>

type_synonym 'h route_call = "(string \<Rightarrow> uuid \<Rightarrow> 'h res) \<times> string \<times> uuid"

definition route_exec :: "'h route_call \<Rightarrow> 'h backends_state \<Rightarrow> 'h backends_state" where
  "route_exec q b = snd (named (fst q) (fst (snd q)) (snd (snd q)) b)"

interpretation connections: kept_invariant route_exec "\<lambda>b. map_of (bs_connected b) t = Some h \<and> bs_nats b = n"
  by unfold_locales (simp add: route_exec_def named_keeps)

lemma connection_is_kept:
  assumes "fst (named connect ''jetstream'' team b) = Inr (JetStreamHandle h)"
  shows "fst (named connect' ''jetstream'' team (runs route_exec qs (snd (named connect ''jetstream'' team b)))) = Inr (JetStreamHandle h)"
proof -
  let ?b = "snd (named connect ''jetstream'' team b)"
  have "map_of (bs_connected (runs route_exec qs ?b)) team = Some h"
    using connections.invar_runs [where s = ?b and t = team and h = h and n = "bs_nats b" and qs = qs] named_remembers [OF assms] by simp
  then show ?thesis by (simp add: named_def)
qed

text \<open>A broker thread is never read from Postgres, whatever the network answers: without a broker, and
  when none answers, the caller gets an error; a Postgres thread never opens a connection.\<close>

lemma no_silent_fallback:
  assumes "conversation_at d i = Some c"
  shows "cv_backend c \<noteq> ''postgres'' \<Longrightarrow> fst (for_conversation connect i d b) \<noteq> Inr PostgresHandle"
    and "cv_backend c = ''jetstream'' \<Longrightarrow> bs_nats b = None \<Longrightarrow> bs_connected b = [] \<Longrightarrow> isl (fst (for_conversation connect i d b))"
    and "cv_backend c = ''postgres'' \<Longrightarrow> for_conversation connect i d b = (Inr PostgresHandle, b)"
  using assms named_postgres_iff [of connect "cv_backend c" "cv_team_id c" b]
  by (auto simp: for_conversation_def named_def split: option.splits)

text \<open>What \<^verbatim>\<open>for_team\<close> answers, given how names resolve at that moment.\<close>

definition route :: "(string \<Rightarrow> uuid \<Rightarrow> 'h any_backend res) \<Rightarrow> uuid \<Rightarrow> cdb \<Rightarrow> 'h any_backend res" where
  "route Rs team d = bindE (default_backend_of team d) (\<lambda>name. Rs name team)"

lemma route_for_team: "route (\<lambda>name t. fst (named connect name t b)) team d = fst (for_team connect team d b)"
  by (simp add: route_def for_team_def split: sum.split)

end
