(* ===== verification/Inbox.thy ===== *)
theory Inbox
  imports ConvMessages Routing
begin

text \<open>
  \<^verbatim>\<open>src/src/store/inbox.rs\<close>: a window collects references to the messages it is owed, and says
  separately that it holds them durably.

  What the broker does is outside the database: the references a fetch pulls and the state of a
  consumer are functions of the handle. An acknowledgement is a message to the broker that no later
  step waits for, so the acknowledgements a call sends are a list beside its answer, in order; an
  empty subject is not sent (\<^verbatim>\<open>ack_reference\<close>). Notes to the model are reduced to whether the broker
  could be read. \<open>fresh\<close> names the ids the inserts of one call draw.
\<close>

definition MAX_BATCH :: int where "MAX_BATCH = 50"
definition DEFAULT_BATCH :: int where "DEFAULT_BATCH = 20"
definition IN_FLIGHT_SECS :: int where "IN_FLIGHT_SECS = 300"

record inbox_ref =
  ir_payload :: string
  ir_ack_subject :: string
  ir_stream_seq :: int
  ir_deliveries :: int

record inbox_status =
  is_pending :: int
  is_awaiting_ack :: int
  is_present :: bool

record inbox_broker =
  ib_fetch_references :: "string \<Rightarrow> int \<Rightarrow> inbox_ref list res"
  ib_inbox_status :: "string \<Rightarrow> inbox_status res"

type_synonym routes = "string \<Rightarrow> uuid \<Rightarrow> inbox_broker any_backend res"

record inbox_reference =
  xr_delivery_id :: uuid
  xr_message_id :: uuid
  xr_conversation_id :: uuid
  xr_seq :: int
  xr_from :: string
  xr_from_address :: string
  xr_created_at :: time
  xr_redelivered :: bool
  xr_source :: string
  xr_kind :: string

datatype inbox_note = BrokerUnreadable | FromTheBusRecords

record inbox_batch =
  xb_references :: "inbox_reference list"
  xb_from_broker :: int
  xb_more :: bool
  xb_note :: "inbox_note option"

definition caller_key :: "ext \<Rightarrow> auth_ctx \<Rightarrow> string" where
  "caller_key X auth = recipient_key X (au_agent_id auth) (au_session auth)"

section \<open>Publishing the queued references\<close>

definition event_due :: "time \<Rightarrow> uuid \<Rightarrow> inbox_event_row \<Rightarrow> bool" where
  "event_due now team e \<longleftrightarrow> ie_team_id e = team \<and> ie_state e = EvPending \<and> ie_next_attempt_at e \<le> now"

definition settle_event :: "time \<Rightarrow> inbox_event_row \<Rightarrow> published \<Rightarrow> inbox_event_row \<Rightarrow> inbox_event_row" where
  "settle_event now selected outcome e = (case outcome of
      Confirmed _ \<Rightarrow> e\<lparr>ie_state := EvPublished\<rparr>
    | Retryable why \<Rightarrow> e\<lparr>ie_attempts := ie_attempts e + 1,
        ie_state := (if ie_attempts selected + 1 \<ge> MAX_ATTEMPTS then EvFailed else EvPending),
        ie_next_attempt_at := now + secs (2 ^ nat (min (ie_attempts selected) 6)), ie_last_error := Some why\<rparr>
    | Fatal why \<Rightarrow> e\<lparr>ie_state := EvFailed, ie_last_error := Some why\<rparr>)"

fun publish_events :: "time \<Rightarrow> (inbox_event_row \<Rightarrow> published) \<Rightarrow> inbox_event_row list \<Rightarrow> cdb \<Rightarrow> nat \<times> cdb" where
  "publish_events now publish_reference [] d = (0, d)"
| "publish_events now publish_reference (e # es) d =
     (let outcome = publish_reference e;
          d1 = d\<lparr>cd_events := upd_where (\<lambda>r. ie_id r = ie_id e) (settle_event now e outcome) (cd_events d)\<rparr>;
          (n, d2) = publish_events now publish_reference es d1 in
      ((case outcome of Confirmed _ \<Rightarrow> Suc n | _ \<Rightarrow> n), d2))"

definition publish_pending ::
    "time \<Rightarrow> (inbox_event_row \<Rightarrow> published) \<Rightarrow> uuid \<Rightarrow> int \<Rightarrow> cdb \<Rightarrow> cdb \<Rightarrow> nat \<times> cdb" where
  "publish_pending now publish_reference team limit d0 d =
     publish_events now publish_reference
       (take (nat limit) (sort_key ie_created_at (filter (event_due now team) (cd_events d0)))) d"

section \<open>Handing out\<close>

text \<open>The partial unique index: one unconfirmed row per recipient, message and notification.\<close>

definition open_delivery :: "string \<Rightarrow> uuid \<Rightarrow> string \<Rightarrow> delivery_row \<Rightarrow> bool" where
  "open_delivery key message dedup r \<longleftrightarrow> dl_recipient_key r = key \<and> dl_message_id r = message \<and>
     dl_event_dedup r = dedup \<and> dl_confirmed_at r = None"

definition epoch_of :: "delivery_row \<Rightarrow> int" where
  "epoch_of r = unwrap_or 0 (dl_epoch r)"

text \<open>\<^verbatim>\<open>INSERT .. ON CONFLICT DO UPDATE .. WHERE .. RETURNING id\<close>; \<open>merge\<close> is the \<^verbatim>\<open>SET\<close> list.\<close>

definition upsert_delivery ::
    "delivery_row \<Rightarrow> (delivery_row \<Rightarrow> delivery_row) \<Rightarrow> cdb \<Rightarrow> bus_error + (uuid option \<times> cdb)" where
  "upsert_delivery new merge d =
     (let conflict = open_delivery (dl_recipient_key new) (dl_message_id new) (dl_event_dedup new) in
      case find conflict (cd_deliveries d) of
        None \<Rightarrow>
          if exists_row (\<lambda>r. dl_id r = dl_id new) (cd_deliveries d) then Inl (Db ''duplicate key'')
          else Inr (Some (dl_id new), d\<lparr>cd_deliveries := cd_deliveries d @ [new]\<rparr>)
      | Some r \<Rightarrow>
          if epoch_of new \<ge> epoch_of r
          then Inr (Some (dl_id r), d\<lparr>cd_deliveries := upd_where conflict merge (cd_deliveries d)\<rparr>)
          else Inr (None, d))"

definition new_delivery :: "time \<Rightarrow> uuid \<Rightarrow> auth_ctx \<Rightarrow> string \<Rightarrow> uuid \<Rightarrow> uuid option \<Rightarrow> string \<Rightarrow> delivery_row" where
  "new_delivery now i auth key message membership dedup =
     \<lparr>dl_id = i, dl_team_id = au_team_id auth, dl_recipient_key = key, dl_session_id = au_session_id auth,
      dl_epoch = au_session_epoch auth, dl_message_id = message, dl_membership_id = membership,
      dl_ack_subject = [], dl_stream_seq = None, dl_event_dedup = dedup, dl_handed_at = now, dl_confirmed_at = None\<rparr>"

definition rehand :: "time \<Rightarrow> auth_ctx \<Rightarrow> delivery_row \<Rightarrow> delivery_row" where
  "rehand now auth r = r\<lparr>dl_handed_at := now, dl_session_id := au_session_id auth, dl_epoch := au_session_epoch auth\<rparr>"

definition json_get :: "string \<Rightarrow> json \<Rightarrow> json option" where
  "json_get key v = (case v of JObj kvs \<Rightarrow> map_of kvs key | _ \<Rightarrow> None)"

definition json_str :: "json \<Rightarrow> string option" where
  "json_str v = (case v of JStr s \<Rightarrow> Some s | _ \<Rightarrow> None)"

definition delivery_id_for :: "(nat \<Rightarrow> uuid) \<Rightarrow> cdb \<Rightarrow> uuid" where
  "delivery_id_for fresh d = fresh (length (cd_deliveries d))"

text \<open>The seat through which the caller is a recipient of a message.\<close>

definition recipient_seat :: "auth_ctx \<Rightarrow> uuid \<Rightarrow> cdb \<Rightarrow> uuid option" where
  "recipient_seat auth message d = fetch_optional (List.map_filter (\<lambda>r.
     (case find (\<lambda>s. mb_id s = rp_membership_id r) (cd_seats d) of
        None \<Rightarrow> None
      | Some s \<Rightarrow> if rp_message_id r = message \<and> mb_agent_id s = au_agent_id auth \<and> mb_session s = au_session auth \<and> mb_state s = Active
                  then Some (rp_membership_id r) else None)) (cd_recipients d))"

definition reference_of :: "uuid \<Rightarrow> conv_message_row \<Rightarrow> string \<Rightarrow> bool \<Rightarrow> string \<Rightarrow> string \<Rightarrow> inbox_reference" where
  "reference_of i m sender redelivered source kind =
     \<lparr>xr_delivery_id = i, xr_message_id = cm_id m, xr_conversation_id = cm_conversation_id m, xr_seq = cm_seq m,
      xr_from = sender, xr_from_address = address_of sender (cm_sender_session m), xr_created_at = cm_created_at m,
      xr_redelivered = redelivered, xr_source = source, xr_kind = kind\<rparr>"

definition record_broker_reference ::
    "ext \<Rightarrow> time \<Rightarrow> (nat \<Rightarrow> uuid) \<Rightarrow> auth_ctx \<Rightarrow> string \<Rightarrow> inbox_ref \<Rightarrow> cdb \<Rightarrow> bus_error + (inbox_reference option \<times> cdb)" where
  "record_broker_reference X now fresh auth key r d =
     bindE (ok_or (x_json_parse X (ir_payload r)) (Invalid ''a reference this build cannot read'')) (\<lambda>payload.
     bindE (ok_or (Option.bind (Option.bind (json_get ''message_id'' payload) json_str) (x_uuid_parse X))
              (Invalid ''a reference without a message id'')) (\<lambda>message.
     let dedup = unwrap_or [] (Option.bind (json_get ''dedup'' payload) json_str) in
     if count_rows (\<lambda>l. dl_recipient_key l = key \<and> dl_message_id l = message \<and> dl_event_dedup l = dedup \<and> dl_confirmed_at l \<noteq> None)
          (cd_deliveries d) > 0
     then Inr (None, d)
     else case fetch_optional (with_sender d (filter (\<lambda>m. cm_id m = message \<and> cm_deleted_at m = None) (cd_messages d))) of
       None \<Rightarrow> Inr (None, d)
     | Some (m, sender) \<Rightarrow>
         bindE (ok_or (conversation_at d (cm_conversation_id m)) (Db ''no row'')) (\<lambda>c.
         if \<not> open_to d c (au_agent_id auth) then Inr (None, d)
         else
           let membership = recipient_seat auth message d in
           if membership = None \<and> dedup = [] then Inr (None, d)
           else bindE (upsert_delivery
               ((new_delivery now (delivery_id_for fresh d) auth key message membership dedup)
                  \<lparr>dl_ack_subject := ir_ack_subject r, dl_stream_seq := Some (ir_stream_seq r)\<rparr>)
               (\<lambda>l. (rehand now auth l)\<lparr>dl_ack_subject := ir_ack_subject r, dl_stream_seq := Some (ir_stream_seq r)\<rparr>) d) (\<lambda>(delivery, d').
             Inr (map_option (\<lambda>i. reference_of i m sender (ir_deliveries r > 1) ''broker''
                    (unwrap_or ''message'' (Option.bind (json_get ''kind'' payload) json_str))) delivery, d')))))"

text \<open>The references of one pull: what is handed over, and the subjects acknowledged at once.\<close>

fun record_references ::
    "ext \<Rightarrow> time \<Rightarrow> (nat \<Rightarrow> uuid) \<Rightarrow> auth_ctx \<Rightarrow> string \<Rightarrow> inbox_ref list \<Rightarrow> cdb \<Rightarrow>
     (bus_error + (inbox_reference list \<times> cdb)) \<times> string list" where
  "record_references X now fresh auth key [] d = (Inr ([], d), [])"
| "record_references X now fresh auth key (r # rs) d = (case record_broker_reference X now fresh auth key r d of
      Inl e \<Rightarrow> (Inl e, [])
    | Inr (handed, d1) \<Rightarrow>
        (case record_references X now fresh auth key rs d1 of (rest, acks) \<Rightarrow>
           (bindE rest (\<lambda>(refs, d2). Inr ((case handed of None \<Rightarrow> refs | Some x \<Rightarrow> x # refs), d2)),
            (case handed of None \<Rightarrow> filter (\<lambda>s. s \<noteq> []) [ir_ack_subject r] | Some _ \<Rightarrow> []) @ acks)))"

definition hand_out_message ::
    "time \<Rightarrow> (nat \<Rightarrow> uuid) \<Rightarrow> auth_ctx \<Rightarrow> string \<Rightarrow> uuid \<Rightarrow> uuid option \<Rightarrow> string \<Rightarrow> uuid \<Rightarrow> cdb \<Rightarrow> bus_error + (uuid option \<times> cdb)" where
  "hand_out_message now fresh auth key message membership dedup conversation d = (case conversation_at d conversation of
      None \<Rightarrow> Inr (None, d)
    | Some c \<Rightarrow>
        if \<not> open_to d c (au_agent_id auth) then Inr (None, d)
        else upsert_delivery (new_delivery now (delivery_id_for fresh d) auth key message membership dedup) (rehand now auth) d)"

definition recently_handed :: "time \<Rightarrow> delivery_row \<Rightarrow> bool" where
  "recently_handed now l \<longleftrightarrow> dl_handed_at l > now - secs IN_FLIGHT_SECS"

text \<open>The joins of the two reconciliations: the row with its message, thread and sender.\<close>

definition thread_of_message :: "cdb \<Rightarrow> uuid \<Rightarrow> (conv_message_row \<times> conversation_row \<times> string) option" where
  "thread_of_message d message = Option.bind (message_with_thread d message) (\<lambda>(m, c).
     map_option (\<lambda>sender. (m, c, sender)) (agent_name_of (cd_base d) (cm_sender_agent m)))"

definition owed_seat :: "auth_ctx \<Rightarrow> cdb \<Rightarrow> receipt_row \<Rightarrow> bool" where
  "owed_seat auth d r \<longleftrightarrow> (case find (\<lambda>s. mb_id s = rr_membership_id r) (cd_seats d) of
      None \<Rightarrow> False
    | Some s \<Rightarrow> mb_agent_id s = au_agent_id auth \<and> mb_session s = au_session auth \<and> mb_state s = Active) \<and> rr_delivered_at r = None"

definition in_flight :: "time \<Rightarrow> string \<Rightarrow> uuid \<Rightarrow> cdb \<Rightarrow> bool" where
  "in_flight now key message d \<longleftrightarrow> exists_row (\<lambda>l. dl_recipient_key l = key \<and> dl_message_id l = message \<and>
     dl_confirmed_at l = None \<and> recently_handed now l) (cd_deliveries d)"

definition owed_message :: "auth_ctx \<Rightarrow> cdb \<Rightarrow> receipt_row \<Rightarrow> (uuid \<times> conv_message_row \<times> string) option" where
  "owed_message auth d r = (case thread_of_message d (rr_message_id r) of
      None \<Rightarrow> None
    | Some (m, c, sender) \<Rightarrow>
        if owed_seat auth d r \<and> open_to d c (au_agent_id auth) \<and> cm_deleted_at m = None \<and> cm_publication_state m = Stored
        then Some (rr_membership_id r, m, sender) else None)"

definition owed_messages :: "time \<Rightarrow> auth_ctx \<Rightarrow> string \<Rightarrow> cdb \<Rightarrow> (uuid \<times> conv_message_row \<times> string) list" where
  "owed_messages now auth key d = filter (\<lambda>(membership, m, sender). \<not> in_flight now key (cm_id m) d)
     (List.map_filter (owed_message auth d) (cd_receipts d))"

fun hand_out_messages ::
    "time \<Rightarrow> (nat \<Rightarrow> uuid) \<Rightarrow> auth_ctx \<Rightarrow> string \<Rightarrow> (uuid \<times> conv_message_row \<times> string) list \<Rightarrow> cdb \<Rightarrow>
     bus_error + (inbox_reference list \<times> cdb)" where
  "hand_out_messages now fresh auth key [] d = Inr ([], d)"
| "hand_out_messages now fresh auth key ((membership, m, sender) # rows) d =
     bindE (hand_out_message now fresh auth key (cm_id m) (Some membership) [] (cm_conversation_id m) d) (\<lambda>(delivery, d1).
     bindE (hand_out_messages now fresh auth key rows d1) (\<lambda>(refs, d2).
       Inr ((case delivery of None \<Rightarrow> refs | Some i \<Rightarrow> reference_of i m sender False ''bus'' ''message'' # refs), d2)))"

definition reconcile_from_postgres ::
    "time \<Rightarrow> (nat \<Rightarrow> uuid) \<Rightarrow> auth_ctx \<Rightarrow> string \<Rightarrow> int \<Rightarrow> cdb \<Rightarrow> bus_error + (inbox_reference list \<times> cdb)" where
  "reconcile_from_postgres now fresh auth key limit d = hand_out_messages now fresh auth key
     (take (nat limit) (sort_key (\<lambda>(membership, m, sender). cm_created_at m) (owed_messages now auth key d))) d"

definition owed_receipt :: "time \<Rightarrow> auth_ctx \<Rightarrow> string \<Rightarrow> cdb \<Rightarrow> inbox_event_row \<Rightarrow> (inbox_event_row \<times> conv_message_row \<times> string) option" where
  "owed_receipt now auth key d e = (case thread_of_message d (ie_message_id e) of
      None \<Rightarrow> None
    | Some (m, c, sender) \<Rightarrow>
        if ie_recipient_key e = key \<and> ie_kind e = KReceipt \<and> ie_state e = EvPublished \<and> cm_deleted_at m = None \<and>
           open_to d c (au_agent_id auth) \<and>
           \<not> exists_row (\<lambda>l. dl_recipient_key l = key \<and> dl_message_id l = ie_message_id e \<and> dl_event_dedup l = ie_dedup e \<and>
                (dl_confirmed_at l \<noteq> None \<or> recently_handed now l)) (cd_deliveries d)
        then Some (e, m, sender) else None)"

fun hand_out_receipts ::
    "time \<Rightarrow> (nat \<Rightarrow> uuid) \<Rightarrow> auth_ctx \<Rightarrow> string \<Rightarrow> (inbox_event_row \<times> conv_message_row \<times> string) list \<Rightarrow> cdb \<Rightarrow>
     bus_error + (inbox_reference list \<times> cdb)" where
  "hand_out_receipts now fresh auth key [] d = Inr ([], d)"
| "hand_out_receipts now fresh auth key ((e, m, sender) # rows) d =
     bindE (hand_out_message now fresh auth key (ie_message_id e) None (ie_dedup e) (cm_conversation_id m) d) (\<lambda>(delivery, d1).
     bindE (hand_out_receipts now fresh auth key rows d1) (\<lambda>(refs, d2).
       Inr ((case delivery of None \<Rightarrow> refs | Some i \<Rightarrow> reference_of i m sender False ''bus'' ''receipt'' # refs), d2)))"

definition reconcile_receipt_events ::
    "time \<Rightarrow> (nat \<Rightarrow> uuid) \<Rightarrow> auth_ctx \<Rightarrow> string \<Rightarrow> int \<Rightarrow> cdb \<Rightarrow> bus_error + (inbox_reference list \<times> cdb)" where
  "reconcile_receipt_events now fresh auth key limit d = hand_out_receipts now fresh auth key
     (take (nat limit) (sort_key (\<lambda>(e, m, sender). ie_created_at e) (List.map_filter (owed_receipt now auth key d) (cd_events d)))) d"

text \<open>What a pull from the broker came to: the references or why it could not be read.\<close>

definition pull_references :: "routes \<Rightarrow> auth_ctx \<Rightarrow> string \<Rightarrow> int \<Rightarrow> cdb \<Rightarrow> inbox_ref list \<times> inbox_note option" where
  "pull_references Rs auth key limit d = (case route Rs (au_team_id auth) d of
      Inr (JetStreamHandle h) \<Rightarrow>
        (case ib_fetch_references h key limit of Inr refs \<Rightarrow> (refs, None) | Inl e \<Rightarrow> ([], Some BrokerUnreadable))
    | Inr PostgresHandle \<Rightarrow> ([], Some FromTheBusRecords)
    | Inl e \<Rightarrow> ([], Some BrokerUnreadable))"

text \<open>The two top-ups, each only while the batch has room.\<close>

definition top_up ::
    "(int \<Rightarrow> cdb \<Rightarrow> bus_error + (inbox_reference list \<times> cdb)) \<Rightarrow> int \<Rightarrow> inbox_reference list \<times> cdb \<Rightarrow> bus_error + (inbox_reference list \<times> cdb)" where
  "top_up source limit refs_d = (case refs_d of (refs, d) \<Rightarrow>
     if int (length refs) < limit
     then bindE (source (limit - int (length refs)) d) (\<lambda>(more_refs, d'). Inr (refs @ more_refs, d'))
     else Inr (refs, d))"

definition fetch_tx ::
    "ext \<Rightarrow> routes \<Rightarrow> time \<Rightarrow> (nat \<Rightarrow> uuid) \<Rightarrow> auth_ctx \<Rightarrow> int \<Rightarrow> cdb \<Rightarrow> (bus_error + (inbox_batch \<times> cdb)) \<times> string list" where
  "fetch_tx X Rs now fresh auth limit d =
     (let key = caller_key X auth in
      case pull_references Rs auth key limit d of (pulled, note) \<Rightarrow>
      (case record_references X now fresh auth key pulled d of (recorded, acks) \<Rightarrow>
        (bindE recorded (\<lambda>(refs, d1).
           bindE (top_up (reconcile_from_postgres now fresh auth key) limit (refs, d1)) (\<lambda>r2.
           bindE (top_up (reconcile_receipt_events now fresh auth key) limit r2) (\<lambda>(references, d3).
             Inr (\<lparr>xb_references = references, xb_from_broker = int (length refs),
                   xb_more = (int (length references) \<ge> limit), xb_note = note\<rparr>, d3)))), acks)))"

text \<open>Checks, then one transaction that opens with the session guard.\<close>

definition fetch ::
    "ext \<Rightarrow> routes \<Rightarrow> time \<Rightarrow> (nat \<Rightarrow> uuid) \<Rightarrow> auth_ctx \<Rightarrow> int option \<Rightarrow> cdb \<Rightarrow> cdb \<Rightarrow> inbox_batch res \<times> string list \<times> cdb" where
  "fetch X Rs now fresh auth limit d0 d =
     (case bindE (require_capability auth d0) (\<lambda>_. bindE (require_window auth (cd_base d0)) (\<lambda>_. guard now auth (cd_base d))) of
        Inl e \<Rightarrow> (Inl e, [], d)
      | Inr _ \<Rightarrow>
          (case fetch_tx X Rs now fresh auth (clamp 1 MAX_BATCH (unwrap_or DEFAULT_BATCH limit)) d of
             (Inl e, acks) \<Rightarrow> (Inl e, acks, d)
           | (Inr (batch, d'), acks) \<Rightarrow> (Inr batch, acks, d')))"

section \<open>Confirming\<close>

record confirmed_ids =
  cf_confirmed :: "uuid list"
  cf_already_confirmed :: "uuid list"

definition own_delivery :: "auth_ctx \<Rightarrow> string \<Rightarrow> uuid list \<Rightarrow> delivery_row \<Rightarrow> bool" where
  "own_delivery auth key ids l \<longleftrightarrow> dl_id l \<in> set ids \<and> dl_recipient_key l = key \<and> dl_team_id l = au_team_id auth"

definition confirmable :: "auth_ctx \<Rightarrow> string \<Rightarrow> uuid list \<Rightarrow> delivery_row \<Rightarrow> bool" where
  "confirmable auth key ids l \<longleftrightarrow> own_delivery auth key ids l \<and> dl_confirmed_at l = None \<and>
     (dl_epoch l = None \<or> au_session_epoch auth = None \<or> dl_epoch l = au_session_epoch auth) \<and>
     (dl_session_id l = None \<or> au_session_id auth \<noteq> None)"

definition confirm_tx :: "ext \<Rightarrow> time \<Rightarrow> auth_ctx \<Rightarrow> uuid list \<Rightarrow> cdb \<Rightarrow> (confirmed_ids \<times> string list) \<times> cdb" where
  "confirm_tx X now auth ids d =
     (let key = caller_key X auth;
          rows = filter (confirmable auth key ids) (cd_deliveries d);
          d1 = d\<lparr>cd_deliveries := upd_where (confirmable auth key ids) (\<lambda>l. l\<lparr>dl_confirmed_at := Some now\<rparr>) (cd_deliveries d)\<rparr>;
          confirmed = map dl_id rows;
          already = filter (\<lambda>i. i \<notin> set confirmed)
            (map dl_id (filter (\<lambda>l. own_delivery auth key ids l \<and> dl_confirmed_at l \<noteq> None) (cd_deliveries d1)));
          answer = (\<lparr>cf_confirmed = confirmed, cf_already_confirmed = already\<rparr>, map dl_ack_subject rows) in
      if rows = [] then (answer, d1)
      else (answer, d1\<lparr>cd_receipts := upd_where
              (\<lambda>r. exists_row (\<lambda>l. dl_id l \<in> set confirmed \<and> dl_membership_id l = Some (rr_membership_id r) \<and>
                      dl_message_id l = rr_message_id r) (cd_deliveries d1))
              (\<lambda>r. r\<lparr>rr_delivered_at := Some (unwrap_or now (rr_delivered_at r))\<rparr>) (cd_receipts d1)\<rparr>))"

definition broker_acks :: "routes \<Rightarrow> auth_ctx \<Rightarrow> string list \<Rightarrow> string list" where
  "broker_acks Rs auth subjects =
     (case (list_ex (\<lambda>s. s \<noteq> []) subjects, Rs ''jetstream'' (au_team_id auth)) of
        (True, Inr (JetStreamHandle h)) \<Rightarrow> filter (\<lambda>s. s \<noteq> []) subjects
      | _ \<Rightarrow> [])"

definition parse_delivery_ids :: "ext \<Rightarrow> string list \<Rightarrow> uuid list res" where
  "parse_delivery_ids X delivery_ids =
     traverse (\<lambda>s. ok_or (x_uuid_parse X (trim s)) (Invalid ''delivery_id must be an id the bus returned'')) delivery_ids"

definition confirm ::
    "ext \<Rightarrow> routes \<Rightarrow> time \<Rightarrow> auth_ctx \<Rightarrow> string list \<Rightarrow> cdb \<Rightarrow> cdb \<Rightarrow> confirmed_ids res \<times> string list \<times> cdb" where
  "confirm X Rs now auth delivery_ids d0 d =
     (case bindE (require_capability auth d0) (\<lambda>_. bindE (require_window auth (cd_base d0)) (\<lambda>_.
           if delivery_ids = [] then Inl (Invalid ''nothing to confirm'')
           else bindE (parse_delivery_ids X delivery_ids) (\<lambda>ids. bindE (guard now auth (cd_base d)) (\<lambda>_. Inr ids)))) of
        Inl e \<Rightarrow> (Inl e, [], d)
      | Inr ids \<Rightarrow> (case confirm_tx X now auth ids d of ((answer, subjects), d') \<Rightarrow>
          (Inr answer, broker_acks Rs auth subjects, d')))"

section \<open>The state of an inbox\<close>

record inbox_state =
  xs_address :: string
  xs_undelivered :: nat
  xs_handed_out_unconfirmed :: nat
  xs_broker_pending :: "int option"
  xs_broker_awaiting_ack :: "int option"
  xs_broker_consumer_present :: "bool option"

definition undelivered :: "auth_ctx \<Rightarrow> cdb \<Rightarrow> receipt_row \<Rightarrow> bool" where
  "undelivered auth d r \<longleftrightarrow> owed_seat auth d r \<and> (case message_with_thread d (rr_message_id r) of
      None \<Rightarrow> False
    | Some (m, c) \<Rightarrow> cm_deleted_at m = None \<and> open_to d c (au_agent_id auth))"

definition inbox_state_of :: "ext \<Rightarrow> routes \<Rightarrow> auth_ctx \<Rightarrow> cdb \<Rightarrow> inbox_state res" where
  "inbox_state_of X Rs auth d =
     bindE (require_capability auth d) (\<lambda>_. bindE (require_window auth (cd_base d)) (\<lambda>_.
       let key = caller_key X auth;
           broker = (case route Rs (au_team_id auth) d of
              Inr (JetStreamHandle h) \<Rightarrow> (case ib_inbox_status h key of Inr st \<Rightarrow> Some st | Inl _ \<Rightarrow> None)
            | _ \<Rightarrow> None) in
       Inr \<lparr>xs_address = address_of (au_agent_name auth) (au_session auth),
            xs_undelivered = count_rows (undelivered auth d) (cd_receipts d),
            xs_handed_out_unconfirmed = count_rows (\<lambda>l. dl_recipient_key l = key \<and> dl_confirmed_at l = None) (cd_deliveries d),
            xs_broker_pending = map_option is_pending broker,
            xs_broker_awaiting_ack = map_option is_awaiting_ack broker,
            xs_broker_consumer_present = map_option is_present broker\<rparr>))"

end
