(* ===== verification/InboxRuns.thy ===== *)
theory InboxRuns
  imports Inbox Seats Reading
begin

text \<open>
  The inbox beside the conversations it reports on. A fetch or a confirmation is one more step of the
  machine of \<open>Threads\<close>: it changes the table of hand-outs, and a confirmation the receipts. What
  a hand-out row keeps, and that a confirmed one has its receipt written, holds over every run of
  clients, workers, fetches, confirmations and reference publishers.
\<close>

section \<open>Requests\<close>

datatype inbox_req =
    ThreadReq conv_req
  | FetchReq ext routes time "nat \<Rightarrow> uuid" auth_ctx "int option" cdb
  | ConfirmReq ext routes time auth_ctx "string list" cdb
  | PublishReq time "inbox_event_row \<Rightarrow> published" uuid int cdb

fun inbox_exec :: "inbox_req \<Rightarrow> cdb \<Rightarrow> cdb" where
  "inbox_exec (ThreadReq q) d = conv_exec q d"
| "inbox_exec (FetchReq X Rs now fresh auth limit d0) d = snd (snd (fetch X Rs now fresh auth limit d0 d))"
| "inbox_exec (ConfirmReq X Rs now auth delivery_ids d0) d = snd (snd (confirm X Rs now auth delivery_ids d0 d))"
| "inbox_exec (PublishReq now publish_reference team limit d0) d = snd (publish_pending now publish_reference team limit d0 d)"

section \<open>What stays of a hand-out\<close>

definition delivery_kept :: "delivery_row \<Rightarrow> delivery_row \<Rightarrow> bool" where
  "delivery_kept l l' \<longleftrightarrow> dl_id l' = dl_id l \<and> dl_team_id l' = dl_team_id l \<and> dl_recipient_key l' = dl_recipient_key l \<and>
     dl_message_id l' = dl_message_id l \<and> dl_membership_id l' = dl_membership_id l \<and> dl_event_dedup l' = dl_event_dedup l \<and>
     seen_once (dl_confirmed_at l) (dl_confirmed_at l')"

definition in_hand :: "time \<Rightarrow> auth_ctx \<Rightarrow> delivery_row \<Rightarrow> bool" where
  "in_hand now auth l \<longleftrightarrow> dl_handed_at l = now \<and> dl_session_id l = au_session_id auth \<and> dl_epoch l = au_session_epoch auth \<and>
     dl_confirmed_at l = None"

definition rehanded :: "time \<Rightarrow> auth_ctx \<Rightarrow> delivery_row \<Rightarrow> delivery_row \<Rightarrow> bool" where
  "rehanded now auth l l' \<longleftrightarrow> l' = l \<or> delivery_kept l l' \<and> in_hand now auth l' \<and> dl_confirmed_at l = None"

definition has_message :: "cdb \<Rightarrow> uuid \<Rightarrow> bool" where
  "has_message d i \<longleftrightarrow> list_ex (\<lambda>m. cm_id m = i) (cd_messages d)"

definition fresh_row :: "time \<Rightarrow> auth_ctx \<Rightarrow> string \<Rightarrow> cdb \<Rightarrow> delivery_row \<Rightarrow> bool" where
  "fresh_row now auth key d l \<longleftrightarrow> in_hand now auth l \<and> dl_recipient_key l = key \<and> dl_team_id l = au_team_id auth \<and>
     has_message d (dl_message_id l)"

text \<open>What handing out does to the database: some open rows are handed again, new ones are added.\<close>

definition hand_step :: "time \<Rightarrow> auth_ctx \<Rightarrow> string \<Rightarrow> cdb \<Rightarrow> cdb \<Rightarrow> bool" where
  "hand_step now auth key d d' \<longleftrightarrow> (\<exists>old new. d' = d\<lparr>cd_deliveries := old @ new\<rparr> \<and>
     list_all2 (rehanded now auth) (cd_deliveries d) old \<and>
     (\<forall>l \<in> set new. fresh_row now auth key d l) \<and> (distinct (map dl_id (cd_deliveries d)) \<longrightarrow> distinct (map dl_id (old @ new))))"

lemma kept_delivery_refl [simp]: "delivery_kept l l" "rehanded now auth l l"
  by (simp_all add: delivery_kept_def rehanded_def seen_once_def)

lemma delivery_kept_trans: "delivery_kept a b \<Longrightarrow> delivery_kept b c \<Longrightarrow> delivery_kept a c"
  by (auto simp: delivery_kept_def seen_once_def)

lemma rehanded_trans: "rehanded now auth a b \<Longrightarrow> rehanded now auth b c \<Longrightarrow> rehanded now auth a c"
  by (auto simp: rehanded_def in_hand_def intro: delivery_kept_trans)

lemma hand_step_refl [simp]: "hand_step now auth key d d"
  unfolding hand_step_def by (rule exI [of _ "cd_deliveries d"], rule exI [of _ "[]"]) (simp add: list_all2_refl)

lemma list_all2_split:
  assumes "list_all2 R (xs @ ys) zs"
  obtains us vs where "zs = us @ vs" "list_all2 R xs us" "list_all2 R ys vs"
  using assms by (auto simp: list_all2_append1)

lemma rehanded_new: "rehanded now auth l l' \<Longrightarrow> fresh_row now auth key d l \<Longrightarrow> fresh_row now auth key d l'"
  by (auto simp: rehanded_def delivery_kept_def fresh_row_def)

lemma hand_step_trans:
  assumes "hand_step now auth key a b" and "hand_step now auth key b c"
  shows "hand_step now auth key a c"
proof -
  obtain o1 n1 where 1: "b = a\<lparr>cd_deliveries := o1 @ n1\<rparr>" "list_all2 (rehanded now auth) (cd_deliveries a) o1"
    "\<forall>l \<in> set n1. fresh_row now auth key a l" "distinct (map dl_id (cd_deliveries a)) \<Longrightarrow> distinct (map dl_id (o1 @ n1))"
    using assms(1) unfolding hand_step_def by blast
  obtain o2 n2 where 2: "c = b\<lparr>cd_deliveries := o2 @ n2\<rparr>" "list_all2 (rehanded now auth) (cd_deliveries b) o2"
    "\<forall>l \<in> set n2. fresh_row now auth key b l" "distinct (map dl_id (cd_deliveries b)) \<Longrightarrow> distinct (map dl_id (o2 @ n2))"
    using assms(2) unfolding hand_step_def by blast
  have "list_all2 (rehanded now auth) (o1 @ n1) o2" using 2(2) by (simp add: 1(1))
  then obtain us vs where 3: "o2 = us @ vs" "list_all2 (rehanded now auth) o1 us" "list_all2 (rehanded now auth) n1 vs"
    by (rule list_all2_split)
  have "\<forall>l \<in> set vs. fresh_row now auth key a l"
  proof
    fix l assume "l \<in> set vs"
    then obtain l0 where "l0 \<in> set n1" "rehanded now auth l0 l" using list_all2_right [OF 3(3)] by blast
    then show "fresh_row now auth key a l" using 1(3) rehanded_new by blast
  qed
  moreover have "\<forall>l \<in> set n2. fresh_row now auth key a l" using 2(3) by (simp add: 1(1) fresh_row_def has_message_def)
  moreover have "list_all2 (rehanded now auth) (cd_deliveries a) us"
    using list_all2_trans [of "rehanded now auth" "rehanded now auth" "rehanded now auth", OF rehanded_trans 1(2) 3(2)] .
  moreover have "c = a\<lparr>cd_deliveries := us @ (vs @ n2)\<rparr>" by (simp add: 1(1) 2(1) 3(1))
  moreover have "distinct (map dl_id (cd_deliveries a)) \<longrightarrow> distinct (map dl_id (us @ (vs @ n2)))"
    using 1(4) 2(4) by (simp add: 1(1) 3(1))
  ultimately have "c = a\<lparr>cd_deliveries := us @ (vs @ n2)\<rparr> \<and> list_all2 (rehanded now auth) (cd_deliveries a) us \<and>
      (\<forall>l \<in> set (vs @ n2). fresh_row now auth key a l) \<and> (distinct (map dl_id (cd_deliveries a)) \<longrightarrow> distinct (map dl_id (us @ (vs @ n2))))"
    by (simp only: set_append ball_Un simp_thms)
  then show ?thesis unfolding hand_step_def by blast
qed

lemma upsert_cases:
  assumes "upsert_delivery new merge d = Inr (r, d')"
  obtains (inserted) "r = Some (dl_id new)" "d' = d\<lparr>cd_deliveries := cd_deliveries d @ [new]\<rparr>"
      "\<forall>l \<in> set (cd_deliveries d). dl_id l \<noteq> dl_id new"
      "\<forall>l \<in> set (cd_deliveries d). \<not> open_delivery (dl_recipient_key new) (dl_message_id new) (dl_event_dedup new) l"
    | (again) l where "r = Some (dl_id l)" "l \<in> set (cd_deliveries d)"
      "open_delivery (dl_recipient_key new) (dl_message_id new) (dl_event_dedup new) l"
      "d' = d\<lparr>cd_deliveries := upd_where (open_delivery (dl_recipient_key new) (dl_message_id new) (dl_event_dedup new)) merge (cd_deliveries d)\<rparr>"
    | (newer) l where "r = None" "d' = d" "l \<in> set (cd_deliveries d)" "epoch_of new < epoch_of l"
      "open_delivery (dl_recipient_key new) (dl_message_id new) (dl_event_dedup new) l"
proof (cases "find (open_delivery (dl_recipient_key new) (dl_message_id new) (dl_event_dedup new)) (cd_deliveries d)")
  case None
  note r = assms [unfolded upsert_delivery_def Let_def None option.case]
  have "\<not> exists_row (\<lambda>l. dl_id l = dl_id new) (cd_deliveries d)" using r by (auto split: if_splits)
  then show ?thesis using r None by (intro inserted) (auto simp: find_None_set exists_row_def)
next
  case (Some l)
  note r = assms [unfolded upsert_delivery_def Let_def Some option.case]
  show ?thesis
  proof (cases "epoch_of new \<ge> epoch_of l")
    case True
    then show ?thesis using r find_SomeD [OF Some] by (intro again [of l]) auto
  next
    case False
    then show ?thesis using r find_SomeD [OF Some] by (intro newer [of l]) auto
  qed
qed

lemma new_delivery_in_hand [simp]:
  "in_hand now auth (new_delivery now i auth key message membership dedup)"
  "dl_recipient_key (new_delivery now i auth key message membership dedup) = key"
  "dl_team_id (new_delivery now i auth key message membership dedup) = au_team_id auth"
  "dl_message_id (new_delivery now i auth key message membership dedup) = message"
  "dl_event_dedup (new_delivery now i auth key message membership dedup) = dedup"
  "dl_membership_id (new_delivery now i auth key message membership dedup) = membership"
  "epoch_of (new_delivery now i auth key message membership dedup) = unwrap_or 0 (au_session_epoch auth)"
  by (simp_all add: new_delivery_def in_hand_def epoch_of_def)

lemma rehand_in_hand: "dl_confirmed_at l = None \<Longrightarrow> in_hand now auth (rehand now auth l)"
  by (simp add: rehand_def in_hand_def)

lemma rehand_rehanded: "dl_confirmed_at l = None \<Longrightarrow> rehanded now auth l (rehand now auth l)"
  by (auto simp: rehanded_def rehand_def in_hand_def delivery_kept_def seen_once_def)

text \<open>What one upsert hands to the caller: the row it names is in hand, and it refuses only for a newer epoch.\<close>

definition hands :: "time \<Rightarrow> auth_ctx \<Rightarrow> string \<Rightarrow> uuid \<Rightarrow> string \<Rightarrow> cdb \<Rightarrow> uuid option \<Rightarrow> cdb \<Rightarrow> bool" where
  "hands now auth key message dedup d r d' \<longleftrightarrow> hand_step now auth key d d' \<and>
     (\<forall>i. r = Some i \<longrightarrow> (\<exists>l \<in> set (cd_deliveries d'). dl_id l = i \<and> dl_recipient_key l = key \<and> dl_message_id l = message \<and>
        dl_event_dedup l = dedup \<and> in_hand now auth l))"

lemma upsert_hands:
  assumes up: "upsert_delivery new merge d = Inr (r, d')"
    and new: "fresh_row now auth key d new" "dl_message_id new = message" "dl_event_dedup new = dedup"
    and merge: "\<And>l. dl_confirmed_at l = None \<Longrightarrow> rehanded now auth l (merge l) \<and> in_hand now auth (merge l)"
  shows "hands now auth key message dedup d r d'"
  using up
proof (cases rule: upsert_cases)
  case inserted
  have "hand_step now auth key d d'"
    unfolding hand_step_def inserted(2) by (rule exI [of _ "cd_deliveries d"], rule exI [of _ "[new]"]) (use inserted(3) in \<open>auto simp: list_all2_refl new\<close>)
  then show ?thesis using inserted(1,2) new by (auto simp: hands_def fresh_row_def)
next
  case (again l)
  let ?P = "open_delivery (dl_recipient_key new) (dl_message_id new) (dl_event_dedup new)"
  have "list_all2 (rehanded now auth) (cd_deliveries d) (upd_where ?P merge (cd_deliveries d))"
    by (rule list_all2_upd_where) (auto simp: open_delivery_def merge)
  moreover from this have ids: "map dl_id (upd_where ?P merge (cd_deliveries d)) = map dl_id (cd_deliveries d)"
    by (rule list_all2_map) (auto simp: rehanded_def delivery_kept_def)
  ultimately have "hand_step now auth key d d'"
    unfolding hand_step_def again(4) by (intro exI [of _ "upd_where ?P merge (cd_deliveries d)"] exI [of _ "[]"]) (simp add: ids)
  moreover have "merge l \<in> set (cd_deliveries d')" using upd_where_hit [OF again(2), of ?P merge] again(3,4) by simp
  moreover have "rehanded now auth l (merge l)" "in_hand now auth (merge l)" using merge again(3) by (auto simp: open_delivery_def)
  ultimately show ?thesis using again(1,3) new by (auto simp: hands_def fresh_row_def rehanded_def delivery_kept_def open_delivery_def)
next
  case (newer l)
  then show ?thesis by (simp add: hands_def)
qed

lemma hand_out_cases:
  assumes "hand_out_message now fresh auth key message membership dedup conversation d = Inr (r, d')"
  obtains (closed) "r = None" "d' = d" "\<forall>c. conversation_at d conversation = Some c \<longrightarrow> \<not> open_to d c (au_agent_id auth)" |
    (upserted) "upsert_delivery (new_delivery now (delivery_id_for fresh d) auth key message membership dedup) (rehand now auth) d = Inr (r, d')"
proof (cases "\<exists>c. conversation_at d conversation = Some c \<and> open_to d c (au_agent_id auth)")
  case True
  then show ?thesis using assms by (intro upserted) (auto simp: hand_out_message_def)
next
  case False
  then have "hand_out_message now fresh auth key message membership dedup conversation d = Inr (None, d)"
    by (auto simp: hand_out_message_def split: option.split)
  then show ?thesis using assms False by (intro closed) auto
qed

lemma hand_out_hands:
  assumes "hand_out_message now fresh auth key message membership dedup conversation d = Inr (r, d')" and "has_message d message"
  shows "hands now auth key message dedup d r d'"
  using assms(1)
proof (cases rule: hand_out_cases)
  case closed
  then show ?thesis by (simp add: hands_def)
next
  case upserted
  have "fresh_row now auth key d (new_delivery now (delivery_id_for fresh d) auth key message membership dedup)"
    using assms(2) by (simp add: fresh_row_def)
  with upserted show ?thesis by (rule upsert_hands) (simp_all add: rehand_rehanded rehand_in_hand)
qed

section \<open>What a caller may be told\<close>

definition entitled :: "auth_ctx \<Rightarrow> uuid \<Rightarrow> cdb \<Rightarrow> bool" where
  "entitled auth message d \<longleftrightarrow> list_ex (\<lambda>s. mb_agent_id s = au_agent_id auth \<and> mb_session s = au_session auth \<and> mb_state s = Active \<and>
     (list_ex (\<lambda>r. rp_message_id r = message \<and> rp_membership_id r = mb_id s) (cd_recipients d) \<or>
      list_ex (\<lambda>r. rr_message_id r = message \<and> rr_membership_id r = mb_id s) (cd_receipts d))) (cd_seats d)"

definition may_know :: "auth_ctx \<Rightarrow> uuid \<Rightarrow> string \<Rightarrow> cdb \<Rightarrow> bool" where
  "may_know auth message dedup d \<longleftrightarrow> list_ex (\<lambda>m. cm_id m = message \<and> cm_deleted_at m = None \<and>
     (case conversation_at d (cm_conversation_id m) of None \<Rightarrow> False | Some c \<Rightarrow> open_to d c (au_agent_id auth))) (cd_messages d) \<and>
     (dedup = [] \<longrightarrow> entitled auth message d)"

definition handed_ref :: "time \<Rightarrow> auth_ctx \<Rightarrow> string \<Rightarrow> cdb \<Rightarrow> cdb \<Rightarrow> inbox_reference \<Rightarrow> bool" where
  "handed_ref now auth key d d' x \<longleftrightarrow> list_ex (\<lambda>l. dl_id l = xr_delivery_id x \<and> dl_message_id l = xr_message_id x \<and>
     dl_recipient_key l = key \<and> in_hand now auth l \<and> may_know auth (dl_message_id l) (dl_event_dedup l) d) (cd_deliveries d')"

lemma frame_deliveries [simp]:
  "conversation_at (d\<lparr>cd_deliveries := ls\<rparr>) i = conversation_at d i"
  "open_to (d\<lparr>cd_deliveries := ls\<rparr>) c a = open_to d c a"
  "entitled auth message (d\<lparr>cd_deliveries := ls\<rparr>) = entitled auth message d"
  "may_know auth message dedup (d\<lparr>cd_deliveries := ls\<rparr>) = may_know auth message dedup d"
  "message_with_thread (d\<lparr>cd_deliveries := ls\<rparr>) message = message_with_thread d message"
  "thread_of_message (d\<lparr>cd_deliveries := ls\<rparr>) message = thread_of_message d message"
  "owed_seat auth (d\<lparr>cd_deliveries := ls\<rparr>) r = owed_seat auth d r"
  "owed_message auth (d\<lparr>cd_deliveries := ls\<rparr>) r = owed_message auth d r"
  "handed_ref now auth key (d\<lparr>cd_deliveries := ls\<rparr>) d' x = handed_ref now auth key d d' x"
proof -
  show 1: "conversation_at (d\<lparr>cd_deliveries := ls\<rparr>) i = conversation_at d i" for i by (simp add: conversation_at_def)
  show 2: "open_to (d\<lparr>cd_deliveries := ls\<rparr>) c a = open_to d c a" for c a
    by (simp add: open_to_def project_granted_def granted_def split: option.split)
  show 3: "entitled auth message (d\<lparr>cd_deliveries := ls\<rparr>) = entitled auth message d" for message by (simp add: entitled_def)
  show 4: "may_know auth message dedup (d\<lparr>cd_deliveries := ls\<rparr>) = may_know auth message dedup d" for message dedup
    by (simp add: may_know_def 1 2 3 cong: option.case_cong)
  show 5: "message_with_thread (d\<lparr>cd_deliveries := ls\<rparr>) message = message_with_thread d message" for message by (simp add: message_with_thread_def 1)
  show 6: "thread_of_message (d\<lparr>cd_deliveries := ls\<rparr>) message = thread_of_message d message" for message by (simp add: thread_of_message_def 5)
  show 7: "owed_seat auth (d\<lparr>cd_deliveries := ls\<rparr>) r = owed_seat auth d r" by (simp add: owed_seat_def)
  show "owed_message auth (d\<lparr>cd_deliveries := ls\<rparr>) r = owed_message auth d r" by (simp add: owed_message_def 2 6 7 cong: option.case_cong prod.case_cong)
  show "handed_ref now auth key (d\<lparr>cd_deliveries := ls\<rparr>) d' x = handed_ref now auth key d d' x" by (simp add: handed_ref_def 4)
qed

lemma hand_step_frame:
  assumes "hand_step now auth key d d'"
  obtains ls where "d' = d\<lparr>cd_deliveries := ls\<rparr>"
  using assms by (auto simp: hand_step_def)

lemma handed_ref_keeps: "hand_step now auth key d1 d2 \<Longrightarrow> handed_ref now auth key d d1 x \<Longrightarrow> handed_ref now auth key d d2 x"
proof -
  assume step: "hand_step now auth key d1 d2" and "handed_ref now auth key d d1 x"
  then obtain l where l: "l \<in> set (cd_deliveries d1)" "dl_id l = xr_delivery_id x" "dl_message_id l = xr_message_id x"
    "dl_recipient_key l = key" "in_hand now auth l" "may_know auth (dl_message_id l) (dl_event_dedup l) d" by (auto simp: handed_ref_def list_ex_iff)
  obtain old new where "d2 = d1\<lparr>cd_deliveries := old @ new\<rparr>" "list_all2 (rehanded now auth) (cd_deliveries d1) old"
    using step unfolding hand_step_def by blast
  then obtain l' where "l' \<in> set (cd_deliveries d2)" "rehanded now auth l l'" using list_all2_left [OF _ l(1)] by fastforce
  with l show ?thesis by (auto simp: handed_ref_def list_ex_iff rehanded_def delivery_kept_def intro!: bexI [of _ l'])
qed

lemma hands_ref:
  "hands now auth key (xr_message_id x) dedup d (Some (xr_delivery_id x)) d' \<Longrightarrow> may_know auth (xr_message_id x) dedup d \<Longrightarrow>
   handed_ref now auth key d d' x"
  by (fastforce simp: hands_def handed_ref_def list_ex_iff)

text \<open>A batch of references: every one of them is in the caller's hand.\<close>

definition hands_all :: "time \<Rightarrow> auth_ctx \<Rightarrow> string \<Rightarrow> cdb \<Rightarrow> inbox_reference list \<Rightarrow> cdb \<Rightarrow> bool" where
  "hands_all now auth key d refs d' \<longleftrightarrow> hand_step now auth key d d' \<and> (\<forall>x \<in> set refs. handed_ref now auth key d d' x)"

lemma hands_all_refl [simp]: "hands_all now auth key d [] d"
  by (simp add: hands_all_def)

lemma hands_all_app:
  assumes "hands_all now auth key d refs d1" and "hands_all now auth key d1 refs' d2"
  shows "hands_all now auth key d (refs @ refs') d2"
proof -
  obtain ls where ls: "d1 = d\<lparr>cd_deliveries := ls\<rparr>" using assms(1) hand_step_frame unfolding hands_all_def by blast
  show ?thesis
    using assms hand_step_trans [of now auth key d d1 d2] handed_ref_keeps [of now auth key d1 d2 d]
    by (auto simp: hands_all_def ls)
qed

lemma in_map_filter: "y \<in> set (List.map_filter f xs) \<longleftrightarrow> (\<exists>x \<in> set xs. f x = Some y)"
  by (force simp: List.map_filter_def)

lemma fetch_optional_in: "fetch_optional xs = Some x \<Longrightarrow> x \<in> set xs"
  by (auto simp: fetch_optional_def split: list.splits)

lemma entitledI:
  assumes "s \<in> set (cd_seats d)" "mb_agent_id s = au_agent_id auth" "mb_session s = au_session auth" "mb_state s = Active"
    and "(\<exists>r \<in> set (cd_recipients d). rp_message_id r = message \<and> rp_membership_id r = mb_id s) \<or>
      (\<exists>r \<in> set (cd_receipts d). rr_message_id r = message \<and> rr_membership_id r = mb_id s)"
  shows "entitled auth message d"
  unfolding entitled_def list_ex_iff using assms by blast

lemma entitled_recipient:
  assumes "recipient_seat auth message d = Some i"
  shows "entitled auth message d"
proof -
  obtain r s where r: "r \<in> set (cd_recipients d)" "rp_message_id r = message" "find (\<lambda>s. mb_id s = rp_membership_id r) (cd_seats d) = Some s"
    "mb_agent_id s = au_agent_id auth" "mb_session s = au_session auth" "mb_state s = Active"
    using fetch_optional_in [OF assms [unfolded recipient_seat_def]] by (auto simp: in_map_filter split: option.splits if_splits)
  then show ?thesis using find_SomeD [OF r(3)] by (intro entitledI [of s]) auto
qed

lemma record_broker_hands:
  assumes "record_broker_reference X now fresh auth key r d = Inr (x, d')"
  shows "hands_all now auth key d (case x of None \<Rightarrow> [] | Some ref \<Rightarrow> [ref]) d'"
proof -
  from assms consider "x = None" "d' = d" | payload message dedup m sender c delivery where
      "fetch_optional (with_sender d (filter (\<lambda>m. cm_id m = message \<and> cm_deleted_at m = None) (cd_messages d))) = Some (m, sender)"
      "conversation_at d (cm_conversation_id m) = Some c" "open_to d c (au_agent_id auth)"
      "recipient_seat auth message d \<noteq> None \<or> dedup \<noteq> []"
      "upsert_delivery ((new_delivery now (delivery_id_for fresh d) auth key message (recipient_seat auth message d) dedup)
          \<lparr>dl_ack_subject := ir_ack_subject r, dl_stream_seq := Some (ir_stream_seq r)\<rparr>)
        (\<lambda>l. (rehand now auth l)\<lparr>dl_ack_subject := ir_ack_subject r, dl_stream_seq := Some (ir_stream_seq r)\<rparr>) d = Inr (delivery, d')"
      "x = map_option (\<lambda>i. reference_of i m sender (ir_deliveries r > 1) ''broker''
         (unwrap_or ''message'' (Option.bind (json_get ''kind'' payload) json_str))) delivery"
    unfolding record_broker_reference_def Let_def
    by (auto simp: bindE_eq_Inr ok_or_eq_Inr split: if_splits option.splits) blast+
  then show ?thesis
  proof cases
    case 1
    then show ?thesis by simp
  next
    case (2 payload message dedup m sender c delivery)
    have m: "m \<in> set (cd_messages d)" "cm_id m = message" "cm_deleted_at m = None"
      using with_sender_fst [OF fetch_optional_in [OF 2(1)]] by auto
    then have know: "may_know auth message dedup d"
      using 2(2-4) entitled_recipient by (auto simp: may_know_def list_ex_iff intro!: bexI [of _ m])
    have h: "hands now auth key message dedup d delivery d'"
      by (rule upsert_hands [OF 2(5)]) (use m in \<open>auto simp: fresh_row_def has_message_def list_ex_iff new_delivery_def in_hand_def rehand_def rehanded_def delivery_kept_def seen_once_def\<close>)
    show ?thesis
    proof (cases delivery)
      case None
      with h 2(6) show ?thesis by (simp add: hands_all_def hands_def)
    next
      case (Some i)
      have "handed_ref now auth key d d' (reference_of i m sender (ir_deliveries r > 1) ''broker'' kind)" for kind
        using h know by (intro hands_ref [where dedup = dedup]) (simp_all add: reference_of_def Some m)
      with h 2(6) Some show ?thesis by (simp add: hands_all_def hands_def)
    qed
  qed
qed

lemma record_references_hands:
  "fst (record_references X now fresh auth key rs d) = Inr (refs, d') \<Longrightarrow> hands_all now auth key d refs d'"
proof (induction rs arbitrary: d refs)
  case Nil
  then show ?case by simp
next
  case (Cons r rs)
  obtain handed d1 refs1 where r: "record_broker_reference X now fresh auth key r d = Inr (handed, d1)"
    and rest: "fst (record_references X now fresh auth key rs d1) = Inr (refs1, d')"
    and refs: "refs = (case handed of None \<Rightarrow> [] | Some x \<Rightarrow> [x]) @ refs1"
    using Cons.prems by (auto simp: bindE_eq_Inr split: sum.splits prod.splits option.splits)
  show ?case unfolding refs using record_broker_hands [OF r] Cons.IH [OF rest] by (rule hands_all_app)
qed

lemma thread_of_message_rows:
  assumes "thread_of_message d message = Some (m, c, sender)"
  shows "m \<in> set (cd_messages d)" "cm_id m = message" "conversation_at d (cm_conversation_id m) = Some c"
  using assms by (auto simp: thread_of_message_def message_with_thread_def bind_eq_Some_conv dest!: find_SomeD split: prod.splits)

lemma owed_message_knows:
  assumes "owed_message auth d r = Some (s, m, sender)" and "r \<in> set (cd_receipts d)"
  shows "may_know auth (cm_id m) [] d" "m \<in> set (cd_messages d)" "s = rr_membership_id r" "cm_id m = rr_message_id r"
    "\<exists>c. conversation_at d (cm_conversation_id m) = Some c \<and> open_to d c (au_agent_id auth)"
proof -
  obtain c where t: "thread_of_message d (rr_message_id r) = Some (m, c, sender)" and own: "owed_seat auth d r"
    and c: "open_to d c (au_agent_id auth)" "cm_deleted_at m = None" "s = rr_membership_id r"
    using assms(1) by (auto simp: owed_message_def split: option.splits if_splits)
  note m = thread_of_message_rows [OF t]
  obtain st where st: "find (\<lambda>s. mb_id s = rr_membership_id r) (cd_seats d) = Some st"
    "mb_agent_id st = au_agent_id auth" "mb_session st = au_session auth" "mb_state st = Active"
    using own by (auto simp: owed_seat_def split: option.splits)
  then have "entitled auth (cm_id m) d" using find_SomeD [OF st(1)] assms(2) m(2) by (intro entitledI [of st]) auto
  with m c show "may_know auth (cm_id m) [] d" by (auto simp: may_know_def list_ex_iff intro!: bexI [of _ m])
  from m c show "m \<in> set (cd_messages d)" "s = rr_membership_id r" "cm_id m = rr_message_id r"
    "\<exists>c. conversation_at d (cm_conversation_id m) = Some c \<and> open_to d c (au_agent_id auth)" by auto
qed

lemma owed_receipt_knows:
  assumes "owed_receipt now auth key d e = Some (e', m, sender)" and "ie_kind e = KReceipt \<Longrightarrow> ie_dedup e \<noteq> []"
  shows "e' = e" "may_know auth (ie_message_id e) (ie_dedup e) d" "cm_id m = ie_message_id e" "ie_recipient_key e = key"
proof -
  obtain c where t: "thread_of_message d (ie_message_id e) = Some (m, c, sender)"
    and c: "open_to d c (au_agent_id auth)" "cm_deleted_at m = None" "ie_kind e = KReceipt" "e' = e" "ie_recipient_key e = key"
    using assms(1) by (auto simp: owed_receipt_def split: option.splits if_splits)
  note m = thread_of_message_rows [OF t]
  from c show "e' = e" "ie_recipient_key e = key" by simp_all
  from m show "cm_id m = ie_message_id e" by simp
  from m c assms(2) show "may_know auth (ie_message_id e) (ie_dedup e) d"
    by (auto simp: may_know_def list_ex_iff intro!: bexI [of _ m])
qed

lemma hand_out_ref:
  assumes one: "hand_out_message now fresh auth key message membership dedup conversation d = Inr (delivery, d1)"
    and "may_know auth message dedup d" and "cm_id m = message"
  obtains ls where "d1 = d\<lparr>cd_deliveries := ls\<rparr>"
    "hands_all now auth key d (case delivery of None \<Rightarrow> [] | Some i \<Rightarrow> [reference_of i m sender redelivered source kind]) d1"
proof -
  have h: "hands now auth key message dedup d delivery d1"
    by (rule hand_out_hands [OF one]) (use assms(2) in \<open>auto simp: may_know_def has_message_def list_ex_iff\<close>)
  then obtain ls where ls: "d1 = d\<lparr>cd_deliveries := ls\<rparr>" using hand_step_frame unfolding hands_def by blast
  have "hands_all now auth key d (case delivery of None \<Rightarrow> [] | Some i \<Rightarrow> [reference_of i m sender redelivered source kind]) d1"
  proof (cases delivery)
    case None
    with h show ?thesis by (simp add: hands_all_def hands_def)
  next
    case (Some i)
    have "handed_ref now auth key d d1 (reference_of i m sender redelivered source kind)"
      using h assms(2,3) by (intro hands_ref [where dedup = dedup]) (simp_all add: reference_of_def Some)
    with h Some show ?thesis by (simp add: hands_all_def hands_def)
  qed
  with ls that show thesis by blast
qed

lemma hand_out_messages_hands:
  assumes "hand_out_messages now fresh auth key rows d = Inr (refs, d')"
    and "\<forall>(s, m, sender) \<in> set rows. may_know auth (cm_id m) [] d"
  shows "hands_all now auth key d refs d'"
  using assms
proof (induction rows arbitrary: d refs)
  case Nil
  then show ?case by simp
next
  case (Cons row rows)
  obtain s m sender where row: "row = (s, m, sender)" by (cases row)
  obtain delivery d1 refs1 where
    one: "hand_out_message now fresh auth key (cm_id m) (Some s) [] (cm_conversation_id m) d = Inr (delivery, d1)"
    and rest: "hand_out_messages now fresh auth key rows d1 = Inr (refs1, d')"
    and refs: "refs = (case delivery of None \<Rightarrow> [] | Some i \<Rightarrow> [reference_of i m sender False ''bus'' ''message'']) @ refs1"
    using Cons.prems(1) by (auto simp: row bindE_eq_Inr split: option.splits)
  obtain ls where ls: "d1 = d\<lparr>cd_deliveries := ls\<rparr>"
    "hands_all now auth key d (case delivery of None \<Rightarrow> [] | Some i \<Rightarrow> [reference_of i m sender False ''bus'' ''message'']) d1"
    using Cons.prems(2) row by (auto intro: hand_out_ref [OF one, of m])
  show ?case unfolding refs using ls(2) Cons.IH [OF rest] Cons.prems(2) by (intro hands_all_app) (auto simp: ls(1))
qed

lemma hand_out_receipts_hands:
  assumes "hand_out_receipts now fresh auth key rows d = Inr (refs, d')"
    and "\<forall>(e, m, sender) \<in> set rows. may_know auth (ie_message_id e) (ie_dedup e) d \<and> cm_id m = ie_message_id e"
  shows "hands_all now auth key d refs d'"
  using assms
proof (induction rows arbitrary: d refs)
  case Nil
  then show ?case by simp
next
  case (Cons row rows)
  obtain e m sender where row: "row = (e, m, sender)" by (cases row)
  obtain delivery d1 refs1 where
    one: "hand_out_message now fresh auth key (ie_message_id e) None (ie_dedup e) (cm_conversation_id m) d = Inr (delivery, d1)"
    and rest: "hand_out_receipts now fresh auth key rows d1 = Inr (refs1, d')"
    and refs: "refs = (case delivery of None \<Rightarrow> [] | Some i \<Rightarrow> [reference_of i m sender False ''bus'' ''receipt'']) @ refs1"
    using Cons.prems(1) by (auto simp: row bindE_eq_Inr split: option.splits)
  obtain ls where ls: "d1 = d\<lparr>cd_deliveries := ls\<rparr>"
    "hands_all now auth key d (case delivery of None \<Rightarrow> [] | Some i \<Rightarrow> [reference_of i m sender False ''bus'' ''receipt'']) d1"
    using Cons.prems(2) row by (auto intro: hand_out_ref [OF one, of m])
  show ?case unfolding refs using ls(2) Cons.IH [OF rest] Cons.prems(2) by (intro hands_all_app) (auto simp: ls(1))
qed

text \<open>A receipt notification always says which observation it is about.\<close>

definition receipts_named :: "cdb \<Rightarrow> bool" where
  "receipts_named d \<longleftrightarrow> list_all (\<lambda>e. ie_kind e = KReceipt \<longrightarrow> ie_dedup e \<noteq> []) (cd_events d)"

lemma reconcile_hands:
  "reconcile_from_postgres now fresh auth key limit d = Inr (refs, d') \<Longrightarrow> hands_all now auth key d refs d'"
  "reconcile_receipt_events now fresh auth key limit d = Inr (refs, d') \<Longrightarrow> receipts_named d \<Longrightarrow> hands_all now auth key d refs d'"
proof -
  assume "reconcile_from_postgres now fresh auth key limit d = Inr (refs, d')"
  then show "hands_all now auth key d refs d'" unfolding reconcile_from_postgres_def
    by (rule hand_out_messages_hands)
      (auto simp: owed_messages_def in_map_filter dest!: in_set_takeD dest: owed_message_knows(1))
next
  assume "reconcile_receipt_events now fresh auth key limit d = Inr (refs, d')" and n: "receipts_named d"
  then have "hand_out_receipts now fresh auth key (take (nat limit) (sort_key (\<lambda>(e, m, sender). ie_created_at e)
      (List.map_filter (owed_receipt now auth key d) (cd_events d)))) d = Inr (refs, d')" by (simp add: reconcile_receipt_events_def)
  then show "hands_all now auth key d refs d'"
  proof (rule hand_out_receipts_hands, clarify)
    fix e m sender
    assume "(e, m, sender) \<in> set (take (nat limit) (sort_key (\<lambda>(e, m, sender). ie_created_at e) (List.map_filter (owed_receipt now auth key d) (cd_events d))))"
    then obtain e0 where "e0 \<in> set (cd_events d)" "owed_receipt now auth key d e0 = Some (e, m, sender)"
      by (auto simp: in_map_filter dest!: in_set_takeD)
    then show "may_know auth (ie_message_id e) (ie_dedup e) d \<and> cm_id m = ie_message_id e"
      using owed_receipt_knows [of now auth key d e0 e m sender] n by (auto simp: receipts_named_def list_all_iff)
  qed
qed

lemma top_up_hands:
  assumes "top_up source limit (refs, d1) = Inr (refs', d2)" and "hands_all now auth key d refs d1"
    and "\<And>n more. source n d1 = Inr (more, d2) \<Longrightarrow> hands_all now auth key d1 more d2"
  shows "hands_all now auth key d refs' d2"
  using assms by (auto simp: top_up_def bindE_eq_Inr intro: hands_all_app split: if_splits)

lemma fetch_tx_hands:
  assumes "fst (fetch_tx X Rs now fresh auth limit d) = Inr (batch, d')" and "receipts_named d"
  shows "hands_all now auth (caller_key X auth) d (xb_references batch) d'"
proof -
  let ?key = "caller_key X auth"
  obtain pulled nt where pull: "pull_references Rs auth ?key limit d = (pulled, nt)" by force
  obtain refs d1 refs2 d2 where
    r1: "fst (record_references X now fresh auth ?key pulled d) = Inr (refs, d1)"
    and r2: "top_up (reconcile_from_postgres now fresh auth ?key) limit (refs, d1) = Inr (refs2, d2)"
    and r3: "top_up (reconcile_receipt_events now fresh auth ?key) limit (refs2, d2) = Inr (xb_references batch, d')"
    using assms(1) unfolding fetch_tx_def Let_def pull
    by (auto simp: bindE_eq_Inr split: prod.splits)
  have 1: "hands_all now auth ?key d refs d1" by (rule record_references_hands [OF r1])
  have 2: "hands_all now auth ?key d refs2 d2" by (rule top_up_hands [OF r2 1 reconcile_hands(1)])
  then have "receipts_named d2" using assms(2) by (auto simp: hands_all_def receipts_named_def elim: hand_step_frame)
  then show ?thesis by (intro top_up_hands [OF r3 2] reconcile_hands(2))
qed

lemma fetch_Inr:
  assumes "fetch X Rs now fresh auth limit d0 d = (Inr batch, acks, d')"
  shows "require_window auth (cd_base d0) = Inr ()" "guard now auth (cd_base d) = Inr ()"
    "fetch_tx X Rs now fresh auth (clamp 1 MAX_BATCH (unwrap_or DEFAULT_BATCH limit)) d = (Inr (batch, d'), acks)"
  using assms by (auto simp: fetch_def bindE_eq_Inr split: sum.splits prod.splits)

lemma fetch_hands:
  "fetch X Rs now fresh auth limit d0 d = (Inr batch, acks, d') \<Longrightarrow> receipts_named d \<Longrightarrow>
   hands_all now auth (caller_key X auth) d (xb_references batch) d'"
  by (rule fetch_tx_hands [where Rs = Rs and fresh = fresh and limit = "clamp 1 MAX_BATCH (unwrap_or DEFAULT_BATCH limit)"])
    (auto dest: fetch_Inr(3))

end
