(* ===== verification/InboxHistory.thy ===== *)
theory InboxHistory
  imports InboxRuns
begin

text \<open>
  The inbox over every run: hand-outs name messages that exist, a confirmed hand-out has its receipt
  written and stays confirmed, and what the bus hands to a window is what that window may be told.
\<close>

section \<open>What the rest of the subsystem leaves alone\<close>

abbreviation inbox_same :: "cdb \<Rightarrow> cdb \<Rightarrow> bool" where
  "inbox_same d d' \<equiv> cd_deliveries d' = cd_deliveries d \<and> cd_events d' = cd_events d"

definition inbox_kept :: "cdb \<Rightarrow> cdb \<Rightarrow> bool" where
  "inbox_kept d d' \<longleftrightarrow> cd_deliveries d' = cd_deliveries d \<and> (receipts_named d \<longrightarrow> receipts_named d')"

lemma inbox_same_kept: "inbox_same d d' \<Longrightarrow> inbox_kept d d'"
  by (simp add: inbox_kept_def receipts_named_def)

lemma inbox_kept_refl [simp]: "inbox_kept d d"
  by (simp add: inbox_kept_def)

lemmas inbox_keep = keep_after_checks [where R = inbox_same] keep_readback [where R = inbox_same]
  keep_conv_guarded [where R = inbox_same] keep_transact [where R = inbox_same]

lemma conv_audit_inbox [simp]:
  "cd_deliveries (conv_audit now auth i act s d) = cd_deliveries d" "cd_events (conv_audit now auth i act s d) = cd_events d"
  by (simp_all add: conv_audit_def)

lemma insert_seat_inbox: "insert_seat m d = Inr d' \<Longrightarrow> inbox_same d d'"
  by (auto simp: insert_seat_def split: if_splits)

lemma put_seat_inbox: "put_seat new upd d = Inr d' \<Longrightarrow> inbox_same d d'"
  by (auto simp: put_seat_def Let_def dest: insert_seat_inbox split: if_splits)

lemma invite_all_inbox: "invite_all now fresh k auth i guests d = Inr d' \<Longrightarrow> inbox_same d d'"
proof (induction guests arbitrary: k d)
  case (Cons a guests)
  obtain agent session where a: "a = (agent, session)" by force
  from Cons.prems obtain d1 where "inbox_same d d1"
    "invite_all now fresh (Suc k) auth i guests (conv_audit now auth (Some i) ''member.invite'' (Some agent) d1) = Inr d'"
    by (auto simp: a bindE_eq_Inr dest: insert_seat_inbox split: if_splits)
  then show ?case using Cons.IH by fastforce
qed simp

lemma insert_events_named:
  "insert_events es d = Inr d' \<Longrightarrow> (\<And>e. e \<in> set es \<Longrightarrow> ie_kind e = KReceipt \<Longrightarrow> ie_dedup e \<noteq> []) \<Longrightarrow> inbox_kept d d'"
proof (induction es arbitrary: d)
  case (Cons e es)
  show ?case
  proof (cases "exists_row (same_event e) (cd_events d)")
    case True
    then show ?thesis using Cons by simp
  next
    case False
    then have "insert_events es (d\<lparr>cd_events := cd_events d @ [e]\<rparr>) = Inr d'" using Cons.prems(1) by (simp split: if_splits)
    then have "inbox_kept (d\<lparr>cd_events := cd_events d @ [e]\<rparr>) d'" using Cons.IH Cons.prems(2) by simp
    then show ?thesis using Cons.prems(2) by (simp add: inbox_kept_def receipts_named_def)
  qed
qed simp

lemma references_inbox:
  "enqueue_message_references X now fresh i d = Inr d' \<Longrightarrow> inbox_kept d d'"
  "enqueue_receipt_reference X now new_id i mb obs d = Inr d' \<Longrightarrow> inbox_kept d d'"
  unfolding enqueue_message_references_def enqueue_receipt_reference_def
  by (auto simp del: insert_events.simps simp: new_event_def split: option.splits if_splits elim!: insert_events_named)

lemma inbox_kept_upd [simp]:
  "inbox_kept (d\<lparr>cd_messages := ms\<rparr>) d' = inbox_kept d d'" "inbox_kept (d\<lparr>cd_outbox := os\<rparr>) d' = inbox_kept d d'"
  "inbox_kept (d\<lparr>cd_receipts := rs\<rparr>) d' = inbox_kept d d'" "inbox_kept (conv_audit now auth i act s d) d' = inbox_kept d d'"
  by (simp_all add: inbox_kept_def receipts_named_def)

lemma settle_inbox: "settle X now fresh l outcome d = Inr (x, d') \<Longrightarrow> inbox_kept d d'"
  by (cases outcome)
    (auto simp: settle_def mark_failed_def Let_def bindE_eq_Inr split: if_splits dest!: references_inbox(1) intro: inbox_same_kept)

lemma send_inbox: "send_tx X now new_id key auth i input body metadata d = Inr (x, d') \<Longrightarrow> inbox_same d d'"
  by (erule send_tx_cases) (auto simp: store_message_def enqueue_def Let_def bindE_eq_Inr split: if_splits)

lemma only_tombstones_inbox: "only_tombstones d d' \<Longrightarrow> inbox_same d d'"
  by (auto simp: only_tombstones_def)

lemma recover_inbox: "inbox_same d (snd (recover_history Bs now auth i after_seq limit d0 d))"
proof -
  define r where "r = transact (recover_tx now auth i (unwrap_or 0 after_seq) (clamp 1 MAX_PAGE (unwrap_or DEFAULT_PAGE limit))) d"
  have "inbox_same d (snd r)"
    unfolding r_def by (rule keep_transact [where R = inbox_same]) (auto dest: recover_tx_same)
  moreover have "inbox_same e (snd (show_page Bs now (au_team_id auth) (\<lambda>_. None) rows e))" for rows e
    by (rule only_tombstones_inbox [OF show_page_only])
  ultimately show ?thesis
    unfolding recover_history_def snd_case_sum Let_def r_def [symmetric]
    by (auto simp: case_prod_beta' split: sum.split)
qed

lemma seat_requests_inbox:
  "inbox_same d (snd (create_conversation X now i fresh auth input d0 d))"
  "inbox_same d (snd (invite now new_id auth i address role from_start d0 d))"
  "inbox_same d (snd (join now auth i d0 d))"
  "inbox_same d (snd (leave now auth i d0 d))"
  "inbox_same d (snd (remove_member now auth i address d0 d))"
  "inbox_same d (snd (transfer_membership now new_id auth i to d0 d))"
proof -
  show "inbox_same d (snd (create_conversation X now i fresh auth input d0 d))"
    unfolding create_conversation_def split_beta
    by (intro inbox_keep) (auto simp: create_conversation_tx_def bindE_eq_Inr dest!: insert_seat_inbox invite_all_inbox split: if_splits)
  show "inbox_same d (snd (invite now new_id auth i address role from_start d0 d))"
    unfolding invite_def split_beta by (intro inbox_keep) (auto dest!: put_seat_inbox elim!: invite_tx_put)
  show "inbox_same d (snd (join now auth i d0 d))"
    unfolding join_def by (intro inbox_keep) (auto simp: Let_def supersede_predecessor_def dest!: after_open split: option.splits)
  show "inbox_same d (snd (leave now auth i d0 d))"
    unfolding leave_def Let_def by (intro inbox_keep) (auto split: if_splits)
  show "inbox_same d (snd (remove_member now auth i address d0 d))"
    unfolding remove_member_def split_beta
    by (intro inbox_keep) (auto simp: remove_tx_def Let_def bindE_eq_Inr split: option.splits if_splits)
  show "inbox_same d (snd (transfer_membership now new_id auth i to d0 d))"
    unfolding transfer_membership_def split_beta by (intro inbox_keep) (auto dest!: put_seat_inbox elim!: transfer_tx_put)
qed

lemma ack_inbox: "inbox_kept d (snd (conv_ack X now new_id auth message_id resolved remark d0 d))"
  unfolding conv_ack_def split_beta
  by (intro keep_after_checks [where R = inbox_kept] keep_readback [where R = inbox_kept] keep_conv_guarded [where R = inbox_kept])
    (auto simp: Let_def bindE_eq_Inr split: if_splits dest!: after_open references_inbox(2))

lemma conv_exec_inbox: "inbox_kept d (conv_exec q d)"
proof (cases q)
  case (CreateProjectReq now new_id auth name d0)
  show ?thesis unfolding CreateProjectReq conv_exec.simps create_project_def
    by (intro inbox_same_kept inbox_keep) (auto simp: add_grant_def split: option.splits if_splits)
next
  case (ProjectAccessReq X now auth project agent grant d0)
  show ?thesis unfolding ProjectAccessReq conv_exec.simps set_project_access_def split_beta
    by (intro inbox_same_kept inbox_keep) (auto simp: add_grant_def split: if_splits)
next
  case (ArchiveReq now auth i d0)
  show ?thesis unfolding ArchiveReq conv_exec.simps archive_conversation_def
    by (intro inbox_same_kept inbox_keep) (auto dest!: after_open)
next
  case (SendReq X now new_id key auth i input d0)
  show ?thesis unfolding SendReq conv_exec.simps send_def split_beta
    by (intro inbox_same_kept inbox_keep) (auto dest: send_inbox)
next
  case (AckReq X now new_id auth message_id resolved remark d0)
  then show ?thesis by (simp add: ack_inbox)
next
  case (ReadReq Bs now auth i after_seq limit d0)
  then show ?thesis using only_tombstones_inbox [OF conv_read_only [of d Bs now auth i after_seq limit d0]] by (simp add: inbox_same_kept)
next
  case (GetReq Bs now auth message_id)
  then show ?thesis using only_tombstones_inbox [OF get_message_only [of d Bs now auth message_id]] by (simp add: inbox_same_kept)
next
  case (RecoverReq Bs now auth i after_seq limit d0)
  then show ?thesis by (simp add: inbox_same_kept recover_inbox)
next
  case (SettleReq X now fresh l outcome)
  show ?thesis unfolding SettleReq conv_exec.simps
    by (rule keep_transact [where R = inbox_kept]) (auto dest: settle_inbox)
next
  case (SetPublicationReq i outbox)
  show ?thesis unfolding SetPublicationReq conv_exec.simps
    by (intro inbox_same_kept inbox_keep) (auto simp: set_publication_def split: if_splits)
qed (auto simp: seat_requests_inbox pg_publish_def Let_def forget_uncertain_def release_published_bodies_def clear_bodies_def
    lease_next_def lease_one_def release_slot_def unlease_def mark_uncertain_def intro!: inbox_same_kept split: option.split)

section \<open>The invariant\<close>

definition receipt_written :: "cdb \<Rightarrow> delivery_row \<Rightarrow> bool" where
  "receipt_written d l \<longleftrightarrow> list_all (\<lambda>r. dl_membership_id l = Some (rr_membership_id r) \<and> dl_message_id l = rr_message_id r \<longrightarrow>
     rr_delivered_at r \<noteq> None) (cd_receipts d)"

definition deliveries_wf :: "cdb \<Rightarrow> bool" where
  "deliveries_wf d \<longleftrightarrow> distinct (map dl_id (cd_deliveries d)) \<and> receipts_named d \<and>
     list_all (\<lambda>l. has_message d (dl_message_id l) \<and> (dl_confirmed_at l \<noteq> None \<longrightarrow> receipt_written d l)) (cd_deliveries d)"

lemma receipt_written_grows:
  assumes "list_all2 receipt_grows (cd_receipts d) (cd_receipts d')" and "receipt_written d l"
  shows "receipt_written d' l"
proof -
  have "rr_delivered_at r' \<noteq> None" if r': "r' \<in> set (cd_receipts d')" "dl_membership_id l = Some (rr_membership_id r')" "dl_message_id l = rr_message_id r'" for r'
  proof -
    obtain r where "r \<in> set (cd_receipts d)" "receipt_grows r r'" using list_all2_right [OF assms(1) r'(1)] by blast
    with assms(2) r' show ?thesis by (auto simp: receipt_written_def list_all_iff kept_rows)
  qed
  then show ?thesis by (auto simp: receipt_written_def list_all_iff)
qed

lemma has_message_map: "has_message d i \<longleftrightarrow> i \<in> set (map cm_id (cd_messages d))"
  by (auto simp: has_message_def list_ex_iff)

lemma has_message_step: "thread_step d d' \<Longrightarrow> has_message d i \<Longrightarrow> has_message d' i"
proof (induction rule: thread_step.induct)
  case (kept d' d)
  then have "map cm_id (cd_messages d') = map cm_id (cd_messages d)" by (intro list_all2_map [OF kept(2)]) (simp add: kept_rows)
  with kept show ?case by (simp add: has_message_map)
qed (auto simp: has_message_map same_tables_def image_upd_where_same)

lemma receipt_written_step:
  assumes "thread_step d d'" and "has_message d (dl_message_id l)" and "receipt_written d l"
  shows "receipt_written d' l"
  using assms
proof (cases rule: thread_step.cases)
  case (posted m c rs st sl)
  then have "cm_id m \<noteq> dl_message_id l" using assms(2) by (auto simp: has_message_def list_ex_iff find_None_set)
  with posted assms(3) show ?thesis by (auto simp: receipt_written_def list_all_iff new_receipt_def)
next
  case (opened c)
  then show ?thesis using assms(3) by (simp add: same_tables_def receipt_written_def)
next
  case (gave_up now sl f)
  then show ?thesis using assms(3) by (simp add: receipt_written_def)
qed (use assms(3) in \<open>auto intro: receipt_written_grows\<close>)

lemma deliveries_wf_thread:
  assumes "deliveries_wf d" and "thread_step d d'" and "inbox_kept d d'"
  shows "deliveries_wf d'"
  using assms has_message_step [OF assms(2)] receipt_written_step [OF assms(2)]
  by (auto simp: deliveries_wf_def inbox_kept_def list_all_iff)

lemma deliveries_wf_hand:
  assumes wf: "deliveries_wf d" and "hand_step now auth key d d'"
  shows "deliveries_wf d'"
proof -
  obtain old new where h: "d' = d\<lparr>cd_deliveries := old @ new\<rparr>" "list_all2 (rehanded now auth) (cd_deliveries d) old"
    "\<forall>l \<in> set new. fresh_row now auth key d l" "distinct (map dl_id (cd_deliveries d)) \<Longrightarrow> distinct (map dl_id (old @ new))"
    using assms(2) unfolding hand_step_def by blast
  have frame: "has_message d' i = has_message d i" "receipt_written d' l = receipt_written d l" "receipts_named d' = receipts_named d" for i l
    by (simp_all add: h(1) has_message_def receipt_written_def receipts_named_def)
  have "has_message d (dl_message_id l) \<and> (dl_confirmed_at l \<noteq> None \<longrightarrow> receipt_written d l)" if l: "l \<in> set old" for l
  proof -
    obtain l0 where l0: "l0 \<in> set (cd_deliveries d)" "rehanded now auth l0 l" using list_all2_right [OF h(2) l] by blast
    with wf show ?thesis by (auto simp: deliveries_wf_def list_all_iff rehanded_def delivery_kept_def in_hand_def)
  qed
  moreover have "has_message d (dl_message_id l) \<and> dl_confirmed_at l = None" if "l \<in> set new" for l
    using h(3) that by (auto simp: fresh_row_def in_hand_def)
  moreover have "distinct (map dl_id (cd_deliveries d'))" using h(4) wf by (simp add: h(1) deliveries_wf_def)
  ultimately show ?thesis using wf unfolding deliveries_wf_def frame by (auto simp: h(1) list_all_iff)
qed

text \<open>What a confirmation writes.\<close>

lemma confirm_tx_writes:
  assumes "confirm_tx X now auth ids d = ((answer, subjects), d')"
  shows "cd_deliveries d' = upd_where (confirmable auth (caller_key X auth) ids) (\<lambda>l. l\<lparr>dl_confirmed_at := Some now\<rparr>) (cd_deliveries d)"
    and "cf_confirmed answer = map dl_id (filter (confirmable auth (caller_key X auth) ids) (cd_deliveries d))"
    and "subjects = map dl_ack_subject (filter (confirmable auth (caller_key X auth) ids) (cd_deliveries d))"
    and "cd_receipts d' = upd_where (\<lambda>r. exists_row (\<lambda>l. dl_id l \<in> set (cf_confirmed answer) \<and> dl_membership_id l = Some (rr_membership_id r) \<and>
            dl_message_id l = rr_message_id r) (cd_deliveries d')) (\<lambda>r. r\<lparr>rr_delivered_at := Some (unwrap_or now (rr_delivered_at r))\<rparr>) (cd_receipts d)"
    and "cd_messages d' = cd_messages d" "cd_events d' = cd_events d" "cd_conversations d' = cd_conversations d"
      "cd_recipients d' = cd_recipients d" "cd_outbox d' = cd_outbox d"
  using assms by (auto simp: confirm_tx_def Let_def exists_row_def upd_where_none split: if_splits)

lemma confirm_Inr:
  assumes "confirm X Rs now auth delivery_ids d0 d = (Inr answer, acks, d')"
  obtains ids subjects where "parse_delivery_ids X delivery_ids = Inr ids" "guard now auth (cd_base d) = Inr ()"
    "confirm_tx X now auth ids d = ((answer, subjects), d')" "acks = broker_acks Rs auth subjects"
  using assms by (auto simp: confirm_def bindE_eq_Inr split: sum.splits prod.splits if_splits)

lemma confirm_tx_receipts: "confirm_tx X now auth ids d = ((answer, subjects), d') \<Longrightarrow> list_all2 receipt_grows (cd_receipts d) (cd_receipts d')"
  unfolding confirm_tx_writes(4)
  by (rule list_all2_upd_where) (auto simp: kept_rows unwrap_or_def split: option.split)

lemma confirmed_row_written:
  assumes "confirm_tx X now auth ids d = ((answer, subjects), d')" and "l \<in> set (cd_deliveries d')" and "dl_id l \<in> set (cf_confirmed answer)"
  shows "receipt_written d' l"
  using assms(2,3) unfolding receipt_written_def list_all_iff
  by (subst confirm_tx_writes(4) [OF assms(1)]) (auto simp: set_upd_where exists_row_def)

lemma deliveries_wf_confirm:
  assumes wf: "deliveries_wf d" and c: "confirm_tx X now auth ids d = ((answer, subjects), d')"
  shows "deliveries_wf d'"
proof -
  note w = confirm_tx_writes [OF c]
  have frame: "has_message d' i = has_message d i" "receipts_named d' = receipts_named d" for i
    using w(5,6) by (auto simp: has_message_def receipts_named_def)
  have ids: "map dl_id (cd_deliveries d') = map dl_id (cd_deliveries d)" unfolding w(1) by (rule map_upd_where_same) simp
  have "has_message d (dl_message_id l) \<and> (dl_confirmed_at l \<noteq> None \<longrightarrow> receipt_written d' l)" if l: "l \<in> set (cd_deliveries d')" for l
  proof (cases "dl_id l \<in> set (cf_confirmed answer)")
    case True
    then show ?thesis using confirmed_row_written [OF c l] l wf unfolding w(1) by (auto simp: set_upd_where deliveries_wf_def list_all_iff)
  next
    case False
    then have "l \<in> set (cd_deliveries d)" using l unfolding w(1,2) by (auto simp: set_upd_where split: if_splits)
    then show ?thesis using wf receipt_written_grows [OF confirm_tx_receipts [OF c]] by (auto simp: deliveries_wf_def list_all_iff)
  qed
  then show ?thesis using wf unfolding deliveries_wf_def frame ids by (auto simp: list_all_iff)
qed

section \<open>Every request keeps it\<close>

lemma publish_events_rows:
  "\<exists>rows. snd (publish_events now pub es d) = d\<lparr>cd_events := rows\<rparr> \<and>
     map (\<lambda>e. (ie_kind e, ie_dedup e)) rows = map (\<lambda>e. (ie_kind e, ie_dedup e)) (cd_events d)"
proof (induction es arbitrary: d)
  case Nil
  then show ?case by (intro exI [of _ "cd_events d"]) simp
next
  case (Cons e es)
  let ?rows = "upd_where (\<lambda>r. ie_id r = ie_id e) (settle_event now e (pub e)) (cd_events d)"
  obtain rows where "snd (publish_events now pub es (d\<lparr>cd_events := ?rows\<rparr>)) = d\<lparr>cd_events := rows\<rparr>"
    "map (\<lambda>e. (ie_kind e, ie_dedup e)) rows = map (\<lambda>e. (ie_kind e, ie_dedup e)) ?rows" using Cons [of "d\<lparr>cd_events := ?rows\<rparr>"] by auto
  moreover have "map (\<lambda>e. (ie_kind e, ie_dedup e)) ?rows = map (\<lambda>e. (ie_kind e, ie_dedup e)) (cd_events d)"
    by (rule map_upd_where_same) (simp add: settle_event_def split: published.split)
  ultimately show ?case by (auto simp: Let_def case_prod_beta')
qed

lemma publish_kept:
  "thread_step d (snd (publish_pending now pub team limit d0 d)) \<and> inbox_kept d (snd (publish_pending now pub team limit d0 d))"
proof -
  obtain rows where rows: "snd (publish_pending now pub team limit d0 d) = d\<lparr>cd_events := rows\<rparr>"
    and m: "map (\<lambda>e. (ie_kind e, ie_dedup e)) rows = map (\<lambda>e. (ie_kind e, ie_dedup e)) (cd_events d)"
    using publish_events_rows unfolding publish_pending_def by blast
  have named: "receipts_named d' = list_all (\<lambda>(k, t). k = KReceipt \<longrightarrow> t \<noteq> []) (map (\<lambda>e. (ie_kind e, ie_dedup e)) (cd_events d'))" for d'
    by (simp add: receipts_named_def list_all_iff)
  have "receipts_named (d\<lparr>cd_events := rows\<rparr>) = receipts_named d" unfolding named by (simp add: m)
  then show ?thesis by (auto simp: rows inbox_kept_def same_tables_def intro!: thread_step_same)
qed

lemma fetch_kept:
  assumes "deliveries_wf d"
  shows "thread_step d (snd (snd (fetch X Rs now fresh auth limit d0 d))) \<and> deliveries_wf (snd (snd (fetch X Rs now fresh auth limit d0 d)))"
proof -
  obtain r acks d' where f: "fetch X Rs now fresh auth limit d0 d = (r, acks, d')" by (cases "fetch X Rs now fresh auth limit d0 d")
  show ?thesis
  proof (cases r)
    case (Inl e)
    then have "d' = d" using f by (auto simp: fetch_def split: sum.splits prod.splits)
    with f assms show ?thesis by simp
  next
    case (Inr batch)
    then have h: "hand_step now auth (caller_key X auth) d d'"
      using fetch_hands [of X Rs now fresh auth limit d0 d batch acks d'] f assms by (simp add: hands_all_def deliveries_wf_def)
    then have "thread_step d d'" by (auto intro!: thread_step_same simp: same_tables_def elim: hand_step_frame)
    with deliveries_wf_hand [OF assms h] f show ?thesis by simp
  qed
qed

lemma confirm_kept:
  assumes "deliveries_wf d"
  shows "thread_step d (snd (snd (confirm X Rs now auth ids d0 d))) \<and> deliveries_wf (snd (snd (confirm X Rs now auth ids d0 d)))"
proof -
  obtain r acks d' where f: "confirm X Rs now auth ids d0 d = (r, acks, d')" by (cases "confirm X Rs now auth ids d0 d")
  show ?thesis
  proof (cases r)
    case (Inl e)
    then have "d' = d" using f by (auto simp: confirm_def split: sum.splits prod.splits)
    with f assms show ?thesis by simp
  next
    case (Inr answer)
    then obtain uids subjects where c: "confirm_tx X now auth uids d = ((answer, subjects), d')" using f by (auto elim: confirm_Inr)
    have "thread_step d d'" using confirm_tx_receipts [OF c] confirm_tx_writes(5-) [OF c] by (intro kept) auto
    with deliveries_wf_confirm [OF assms c] f show ?thesis by simp
  qed
qed

text \<open>Every request of the inbox is a step of the threads, and keeps the hand-outs well-formed.\<close>

lemma inbox_exec_step: "deliveries_wf d \<Longrightarrow> thread_step d (inbox_exec q d) \<and> deliveries_wf (inbox_exec q d)"
  by (cases q) (simp_all add: conv_exec_step conv_exec_inbox fetch_kept confirm_kept publish_kept deliveries_wf_thread)

interpretation deliveries: kept_invariant inbox_exec deliveries_wf
  by unfold_locales (simp add: inbox_exec_step)

text \<open>A hand-out is never deleted, and a confirmation never taken back.\<close>

lemma delivery_persists:
  assumes wf: "deliveries_wf d" and l: "l \<in> set (cd_deliveries d)"
  shows "\<exists>l' \<in> set (cd_deliveries (inbox_exec q d)). delivery_kept l l'"
proof (cases q)
  case (ThreadReq c)
  then show ?thesis using l conv_exec_inbox [of d c] by (auto simp: inbox_kept_def intro!: bexI [of _ l])
next
  case (PublishReq now pub team limit d0)
  then show ?thesis using l publish_kept [of d now pub team limit d0] by (auto simp: inbox_kept_def intro!: bexI [of _ l])
next
  case (FetchReq X Rs now fresh auth limit d0)
  obtain r acks d' where f: "fetch X Rs now fresh auth limit d0 d = (r, acks, d')" by (cases "fetch X Rs now fresh auth limit d0 d")
  show ?thesis
  proof (cases r)
    case (Inl e)
    then have "d' = d" using f by (auto simp: fetch_def split: sum.splits prod.splits)
    with f l FetchReq show ?thesis by (auto intro!: bexI [of _ l])
  next
    case (Inr batch)
    then have "hand_step now auth (caller_key X auth) d d'"
      using fetch_hands [of X Rs now fresh auth limit d0 d batch acks d'] f wf by (simp add: hands_all_def deliveries_wf_def)
    then obtain old new where h: "d' = d\<lparr>cd_deliveries := old @ new\<rparr>" "list_all2 (rehanded now auth) (cd_deliveries d) old"
      unfolding hand_step_def by blast
    obtain l' where "l' \<in> set old" "rehanded now auth l l'" using list_all2_left [OF h(2) l] by blast
    then show ?thesis using f h(1) FetchReq by (auto simp: rehanded_def intro!: bexI [of _ l'])
  qed
next
  case (ConfirmReq X Rs now auth ids d0)
  obtain r acks d' where f: "confirm X Rs now auth ids d0 d = (r, acks, d')" by (cases "confirm X Rs now auth ids d0 d")
  show ?thesis
  proof (cases r)
    case (Inl e)
    then have "d' = d" using f by (auto simp: confirm_def split: sum.splits prod.splits)
    with f l ConfirmReq show ?thesis by (auto intro!: bexI [of _ l])
  next
    case (Inr answer)
    then obtain uids subjects where c: "confirm_tx X now auth uids d = ((answer, subjects), d')" using f by (auto elim: confirm_Inr)
    have "list_all2 delivery_kept (cd_deliveries d) (cd_deliveries d')" unfolding confirm_tx_writes(1) [OF c]
      by (rule list_all2_upd_where) (auto simp: delivery_kept_def seen_once_def confirmable_def)
    then show ?thesis using list_all2_left [OF _ l] f ConfirmReq by fastforce
  qed
qed

lemma delivery_persists_runs:
  assumes "deliveries_wf d" and "l \<in> set (cd_deliveries d)"
  shows "\<exists>l' \<in> set (cd_deliveries (runs inbox_exec qs d)). delivery_kept l l'"
  using assms
proof (induction qs arbitrary: d l)
  case Nil
  then show ?case by (auto intro!: bexI [of _ l])
next
  case (Cons q qs)
  obtain l1 where l1: "l1 \<in> set (cd_deliveries (inbox_exec q d))" "delivery_kept l l1" using delivery_persists [OF Cons.prems, of q] by blast
  then obtain l' where "l' \<in> set (cd_deliveries (runs inbox_exec qs (inbox_exec q d)))" "delivery_kept l1 l'"
    using Cons.IH [OF _ l1(1)] inbox_exec_step [OF Cons.prems(1), of q] by blast
  with l1(2) show ?case by (auto intro: delivery_kept_trans)
qed

section \<open>A short batch misses nothing\<close>

definition newest :: "auth_ctx \<Rightarrow> string \<Rightarrow> cdb \<Rightarrow> bool" where
  "newest auth key d \<longleftrightarrow> list_all (\<lambda>l. dl_recipient_key l = key \<and> dl_confirmed_at l = None \<longrightarrow>
     epoch_of l \<le> unwrap_or 0 (au_session_epoch auth)) (cd_deliveries d)"

lemma in_hand_recent: "in_hand now auth l \<Longrightarrow> recently_handed now l \<and> epoch_of l = unwrap_or 0 (au_session_epoch auth)"
  by (simp add: in_hand_def recently_handed_def epoch_of_def IN_FLIGHT_SECS_def secs_def)

lemma in_flight_in_hand:
  "l \<in> set (cd_deliveries d) \<Longrightarrow> in_hand now auth l \<Longrightarrow> dl_recipient_key l = key \<Longrightarrow> dl_message_id l = message \<Longrightarrow> in_flight now key message d"
  using in_hand_recent [of now auth l] by (auto simp: in_flight_def exists_row_def in_hand_def)

lemma newest_hand:
  assumes "hand_step now auth key d d'" and "newest auth key d"
  shows "newest auth key d'"
proof -
  obtain old new where h: "d' = d\<lparr>cd_deliveries := old @ new\<rparr>" "list_all2 (rehanded now auth) (cd_deliveries d) old"
    "\<forall>l \<in> set new. fresh_row now auth key d l" using assms(1) unfolding hand_step_def by blast
  have "dl_recipient_key l = key \<and> dl_confirmed_at l = None \<longrightarrow> epoch_of l \<le> unwrap_or 0 (au_session_epoch auth)" if l: "l \<in> set old" for l
  proof -
    obtain l0 where "l0 \<in> set (cd_deliveries d)" "rehanded now auth l0 l" using list_all2_right [OF h(2) l] by blast
    then show ?thesis
    proof (cases "l = l0")
      case True
      with \<open>l0 \<in> set (cd_deliveries d)\<close> assms(2) show ?thesis by (simp add: newest_def list_all_iff)
    next
      case False
      with \<open>rehanded now auth l0 l\<close> have "in_hand now auth l" by (simp add: rehanded_def)
      then show ?thesis using in_hand_recent by fastforce
    qed
  qed
  moreover have "epoch_of l = unwrap_or 0 (au_session_epoch auth)" if "l \<in> set new" for l
    using h(3) that in_hand_recent [of now auth l] by (simp add: fresh_row_def)
  ultimately show ?thesis by (auto simp: newest_def list_all_iff h(1))
qed

lemma in_flight_hand:
  assumes "hand_step now auth key d d'" and "in_flight now k message d"
  shows "in_flight now k message d'"
proof -
  obtain l where l: "l \<in> set (cd_deliveries d)" "dl_recipient_key l = k" "dl_message_id l = message" "dl_confirmed_at l = None" "recently_handed now l"
    using assms(2) by (auto simp: in_flight_def exists_row_def)
  obtain old new where h: "d' = d\<lparr>cd_deliveries := old @ new\<rparr>" "list_all2 (rehanded now auth) (cd_deliveries d) old"
    using assms(1) unfolding hand_step_def by blast
  obtain l' where l': "l' \<in> set old" "rehanded now auth l l'" using list_all2_left [OF h(2) l(1)] by blast
  then have in_d': "l' \<in> set (cd_deliveries d')" by (simp add: h(1))
  show ?thesis
  proof (cases "l' = l")
    case True
    with l in_d' show ?thesis by (auto simp: in_flight_def exists_row_def)
  next
    case False
    with l'(2) l show ?thesis by (intro in_flight_in_hand [OF in_d']) (auto simp: rehanded_def delivery_kept_def)
  qed
qed

lemma hand_out_in_flight:
  assumes one: "hand_out_message now fresh auth key message membership dedup conversation d = Inr (delivery, d1)"
    and "newest auth key d" and "conversation_at d conversation = Some c" and "open_to d c (au_agent_id auth)" and "has_message d message"
  shows "delivery \<noteq> None" and "in_flight now key message d1"
proof -
  show r: "delivery \<noteq> None" using one
  proof (cases rule: hand_out_cases)
    case closed
    then show ?thesis using assms(3,4) by simp
  next
    case upserted
    then show ?thesis using assms(2) by (cases rule: upsert_cases) (auto simp: newest_def list_all_iff open_delivery_def)
  qed
  then show "in_flight now key message d1" using hand_out_hands [OF one assms(5)]
    by (auto simp: hands_def intro: in_flight_in_hand)
qed

lemma hand_out_messages_all:
  assumes "hand_out_messages now fresh auth key rows d = Inr (refs, d')" and "newest auth key d"
    and "\<forall>(s, m, sender) \<in> set rows. may_know auth (cm_id m) [] d \<and> m \<in> set (cd_messages d) \<and>
      (\<exists>c. conversation_at d (cm_conversation_id m) = Some c \<and> open_to d c (au_agent_id auth))"
  shows "length refs = length rows \<and> (\<forall>(s, m, sender) \<in> set rows. in_flight now key (cm_id m) d')"
  using assms
proof (induction rows arbitrary: d refs)
  case Nil
  then show ?case by simp
next
  case (Cons row rows)
  obtain s m sender where row: "row = (s, m, sender)" by (cases row)
  obtain delivery d1 refs1 where
    one: "hand_out_message now fresh auth key (cm_id m) (Some s) [] (cm_conversation_id m) d = Inr (delivery, d1)"
    and rest: "hand_out_messages now fresh auth key rows d1 = Inr (refs1, d')"
    and refs: "refs = (case delivery of None \<Rightarrow> [] | Some i \<Rightarrow> [reference_of i m sender False ''bus'' ''message'']) @ refs1"
    using Cons.prems(1) by (auto simp: row bindE_eq_Inr split: option.splits)
  obtain c where c: "conversation_at d (cm_conversation_id m) = Some c" "open_to d c (au_agent_id auth)" "has_message d (cm_id m)"
    "may_know auth (cm_id m) [] d" using Cons.prems(3) by (auto simp: row has_message_def list_ex_iff)
  note now_held = hand_out_in_flight [OF one Cons.prems(2) c(1-3)]
  have h: "hand_step now auth key d d1" using hand_out_hands [OF one c(3)] by (simp add: hands_def)
  then obtain ls where ls: "d1 = d\<lparr>cd_deliveries := ls\<rparr>" by (rule hand_step_frame)
  have IH: "length refs1 = length rows \<and> (\<forall>(s, m, sender) \<in> set rows. in_flight now key (cm_id m) d')"
    using Cons.IH [OF rest newest_hand [OF h Cons.prems(2)]] Cons.prems(3) by (auto simp: ls)
  have "hand_step now auth key d1 d'"
    using hand_out_messages_hands [OF rest] Cons.prems(3) by (fastforce simp: ls hands_all_def)
  then have "in_flight now key (cm_id m) d'" using now_held(2) by (rule in_flight_hand)
  with IH now_held(1) show ?case by (auto simp: refs row)
qed

lemma top_up_short:
  assumes t: "top_up source limit (refs, d) = Inr (refs', d')" and lim: "int (length refs') < limit"
  obtains further where "source (limit - int (length refs)) d = Inr (further, d')" "refs' = refs @ further"
proof (cases "int (length refs) < limit")
  case True
  with t have "bindE (source (limit - int (length refs)) d) (\<lambda>(further, d'). Inr (refs @ further, d')) = Inr (refs', d')"
    by (simp add: top_up_def)
  then show thesis using that by (auto simp: bindE_eq_Inr)
next
  case False
  with t lim show thesis by (simp add: top_up_def)
qed

lemma take_all_short: "length (take n xs) < n \<Longrightarrow> take n xs = xs"
  by simp

lemma fetch_tx_complete:
  assumes f: "fst (fetch_tx X Rs now fresh auth limit d) = Inr (batch, d')" and short: "\<not> xb_more batch"
    and n: "newest auth (caller_key X auth) d" and named: "receipts_named d"
    and r: "r \<in> set (cd_receipts d)" and owed: "owed_message auth d r = Some (s, m, sender)"
  shows "in_flight now (caller_key X auth) (cm_id m) d'"
proof -
  let ?key = "caller_key X auth"
  obtain pulled nt where pull: "pull_references Rs auth ?key limit d = (pulled, nt)" by force
  obtain refs d1 refs2 d2 where
    r1: "fst (record_references X now fresh auth ?key pulled d) = Inr (refs, d1)"
    and r2: "top_up (reconcile_from_postgres now fresh auth ?key) limit (refs, d1) = Inr (refs2, d2)"
    and r3: "top_up (reconcile_receipt_events now fresh auth ?key) limit (refs2, d2) = Inr (xb_references batch, d')"
    and more: "xb_more batch \<longleftrightarrow> int (length (xb_references batch)) \<ge> limit"
    using f unfolding fetch_tx_def Let_def pull by (auto simp: bindE_eq_Inr split: prod.splits)
  have lim: "int (length (xb_references batch)) < limit" using more short by simp
  obtain more3 where m3: "reconcile_receipt_events now fresh auth ?key (limit - int (length refs2)) d2 = Inr (more3, d')"
    "xb_references batch = refs2 @ more3" using r3 lim by (rule top_up_short)
  have lim2: "int (length refs2) < limit" using lim m3(2) by simp
  obtain more2 where m2: "reconcile_from_postgres now fresh auth ?key (limit - int (length refs)) d1 = Inr (more2, d2)" "refs2 = refs @ more2"
    using r2 lim2 by (rule top_up_short)
  have h1: "hand_step now auth ?key d d1" using record_references_hands [OF r1] by (simp add: hands_all_def)
  then obtain ls where ls: "d1 = d\<lparr>cd_deliveries := ls\<rparr>" by (rule hand_step_frame)
  have h2: "hand_step now auth ?key d1 d2" using reconcile_hands(1) [OF m2(1)] by (simp add: hands_all_def)
  then obtain ls2 where ls2: "d2 = d1\<lparr>cd_deliveries := ls2\<rparr>" by (rule hand_step_frame)
  have "receipts_named d2" using named by (simp add: ls ls2 receipts_named_def)
  then have h3: "hand_step now auth ?key d2 d'" using reconcile_hands(2) [OF m3(1)] by (simp add: hands_all_def)
  define rows where "rows = take (nat (limit - int (length refs))) (sort_key (\<lambda>(membership, m, sender). cm_created_at m) (owed_messages now auth ?key d1))"
  have know: "may_know auth (cm_id m') [] d1 \<and> m' \<in> set (cd_messages d1) \<and>
      (\<exists>c. conversation_at d1 (cm_conversation_id m') = Some c \<and> open_to d1 c (au_agent_id auth))" if "(s', m', a') \<in> set rows" for s' m' a'
  proof -
    have "(s', m', a') \<in> set (owed_messages now auth ?key d1)" using in_set_takeD [OF that [unfolded rows_def]] by simp
    then obtain r' where "r' \<in> set (cd_receipts d1)" "owed_message auth d1 r' = Some (s', m', a')"
      unfolding owed_messages_def by (auto simp: in_map_filter)
    then show ?thesis using owed_message_knows(1,2,5) [of auth d1 r'] by metis
  qed
  have all: "length more2 = length rows \<and> (\<forall>(s, m, sender) \<in> set rows. in_flight now ?key (cm_id m) d2)"
    by (rule hand_out_messages_all [OF m2(1) [unfolded reconcile_from_postgres_def rows_def [symmetric]] newest_hand [OF h1 n]])
      (use know in blast)
  have "length rows < nat (limit - int (length refs))" using all lim2 m2(2) by simp
  then have rows: "set rows = set (owed_messages now auth ?key d1)" unfolding rows_def by (metis set_sort take_all_short)
  have "in_flight now ?key (cm_id m) d2"
  proof (cases "in_flight now ?key (cm_id m) d1")
    case True
    with h2 show ?thesis by (rule in_flight_hand)
  next
    case False
    then have "(s, m, sender) \<in> set (owed_messages now auth ?key d1)"
      using r owed by (auto simp: owed_messages_def in_map_filter ls)
    with all rows show ?thesis by blast
  qed
  with h3 show ?thesis by (rule in_flight_hand)
qed

section \<open>Properties\<close>

definition inbox_ext :: ext where
  "inbox_ext = demo_ext\<lparr>x_uuid_parse := (\<lambda>s. Some (length s))\<rparr>"

definition no_broker :: routes where
  "no_broker name team = (if name = ''postgres'' then Inr PostgresHandle else Inl (Conflict ''no broker''))"

definition demo_inbox :: cdb where
  "demo_inbox = runs conv_exec demo_chat (demo_thread ''postgres'')"

definition demo_fetch :: inbox_req where
  "demo_fetch = FetchReq inbox_ext no_broker 20 (\<lambda>k. k + 3) bo None (start_cdb ''postgres'')"

definition demo_confirm :: inbox_req where
  "demo_confirm = ConfirmReq inbox_ext no_broker 21 bo [''000''] (start_cdb ''postgres'')"

lemma demo_inbox_wf: "deliveries_wf demo_inbox"
  by code_simp

lemma demo_hand_out:
  "map_sum id (\<lambda>b. (map xr_message_id (xb_references b), xb_more b))
     (fst (fetch inbox_ext no_broker 20 (\<lambda>k. k + 3) bo None (start_cdb ''postgres'') demo_inbox)) = Inr ([40], False)"
  by code_simp

lemma demo_fetched:
  obtains batch acks d' where "fetch inbox_ext no_broker 20 (\<lambda>k. k + 3) bo None (start_cdb ''postgres'') demo_inbox = (Inr batch, acks, d')"
    "map xr_message_id (xb_references batch) = [40]" "\<not> xb_more batch" "inbox_exec demo_fetch demo_inbox = d'"
proof -
  let ?f = "fetch inbox_ext no_broker 20 (\<lambda>k. k + 3) bo None (start_cdb ''postgres'') demo_inbox"
  obtain batch acks d' where "?f = (Inr batch, acks, d')" using demo_hand_out by (cases ?f; cases "fst ?f") auto
  then show thesis using that demo_hand_out by (simp add: demo_fetch_def)
qed

text \<open>C9: handing out marks nothing and shows nothing that may not be known. Every reference a fetch
  returns, whether the broker or the bus's own records supplied it, is an unconfirmed row in the hand of
  the calling window at its own epoch; it names a message that is not deleted, in a thread open to
  the caller at that moment, which was addressed to an active seat of the caller unless it is the news of
  a receipt. No receipt changes.\<close>

theorem inbox_hands_out_only_what_it_may:
  assumes "deliveries_wf d" and "fetch X Rs now fresh auth limit d0 d = (Inr batch, acks, d')"
  shows "guard now auth (cd_base d) = Inr () \<and> cd_receipts d' = cd_receipts d \<and>
    (\<forall>x \<in> set (xb_references batch). \<exists>l \<in> set (cd_deliveries d'). dl_id l = xr_delivery_id x \<and> dl_message_id l = xr_message_id x \<and>
      dl_recipient_key l = caller_key X auth \<and> in_hand now auth l \<and> may_know auth (xr_message_id x) (dl_event_dedup l) d)"
proof -
  have h: "hands_all now auth (caller_key X auth) d (xb_references batch) d'"
    using fetch_hands [OF assms(2)] assms(1) by (simp add: deliveries_wf_def)
  then have "cd_receipts d' = cd_receipts d" by (auto simp: hands_all_def elim: hand_step_frame)
  moreover have "\<forall>x \<in> set (xb_references batch). \<exists>l \<in> set (cd_deliveries d'). dl_id l = xr_delivery_id x \<and> dl_message_id l = xr_message_id x \<and>
      dl_recipient_key l = caller_key X auth \<and> in_hand now auth l \<and> may_know auth (xr_message_id x) (dl_event_dedup l) d"
  proof
    fix x assume "x \<in> set (xb_references batch)"
    with h have "handed_ref now auth (caller_key X auth) d d' x" by (simp add: hands_all_def)
    then obtain l where "l \<in> set (cd_deliveries d')" "dl_id l = xr_delivery_id x" "dl_message_id l = xr_message_id x"
      "dl_recipient_key l = caller_key X auth" "in_hand now auth l" "may_know auth (dl_message_id l) (dl_event_dedup l) d"
      by (auto simp: handed_ref_def list_ex_iff)
    then show "\<exists>l \<in> set (cd_deliveries d'). dl_id l = xr_delivery_id x \<and> dl_message_id l = xr_message_id x \<and>
      dl_recipient_key l = caller_key X auth \<and> in_hand now auth l \<and> may_know auth (xr_message_id x) (dl_event_dedup l) d"
      by (intro bexI [of _ l]) simp_all
  qed
  ultimately show ?thesis using fetch_Inr(2) [OF assms(2)] by blast
qed

theorem inbox_hands_out_only_what_it_may_witness:
  "list_ex (\<lambda>l. dl_message_id l = 40 \<and> may_know bo 40 (dl_event_dedup l) demo_inbox) (cd_deliveries (inbox_exec demo_fetch demo_inbox))"
proof -
  obtain batch acks d' where f: "fetch inbox_ext no_broker 20 (\<lambda>k. k + 3) bo None (start_cdb ''postgres'') demo_inbox = (Inr batch, acks, d')"
    and b: "map xr_message_id (xb_references batch) = [40]" "inbox_exec demo_fetch demo_inbox = d'" by (rule demo_fetched)
  then obtain x where x: "x \<in> set (xb_references batch)" "xr_message_id x = 40" by (auto simp: Cons_eq_map_conv)
  have "\<exists>l \<in> set (cd_deliveries d'). dl_message_id l = 40 \<and> may_know bo 40 (dl_event_dedup l) demo_inbox"
    using inbox_hands_out_only_what_it_may [OF demo_inbox_wf f] x by fastforce
  then show ?thesis by (simp add: list_ex_iff b(2))
qed

text \<open>C10: a batch that is not full has missed nothing. When the newest connection of a window is told
  that there is no more, every stored, undeleted message its seat is owed and may be told about is in a hand-out
  to that window made within the last five minutes, whatever the broker answered, lost or repeated.\<close>

theorem inbox_misses_nothing:
  assumes "deliveries_wf d" and "newest auth (caller_key X auth) d"
    and "fetch X Rs now fresh auth limit d0 d = (Inr batch, acks, d')" and "\<not> xb_more batch"
    and "r \<in> set (cd_receipts d)" and "owed_message auth d r = Some (s, m, sender)"
  shows "in_flight now (caller_key X auth) (cm_id m) d'"
  using assms(1) fetch_Inr(3) [OF assms(3)]
  by (intro fetch_tx_complete [where Rs = Rs and fresh = fresh and limit = "clamp 1 MAX_BATCH (unwrap_or DEFAULT_BATCH limit)", OF _ assms(4,2) _ assms(5,6)])
    (simp_all add: deliveries_wf_def)

theorem inbox_misses_nothing_witness:
  "in_flight 20 (caller_key inbox_ext bo) 40 (inbox_exec demo_fetch demo_inbox) \<and> \<not> in_flight 20 (caller_key inbox_ext bo) 40 demo_inbox"
proof -
  obtain batch acks d' where f: "fetch inbox_ext no_broker 20 (\<lambda>k. k + 3) bo None (start_cdb ''postgres'') demo_inbox = (Inr batch, acks, d')"
    and b: "\<not> xb_more batch" "inbox_exec demo_fetch demo_inbox = d'" by (rule demo_fetched)
  note b(1)
  moreover have "list_ex (\<lambda>r. map_option (\<lambda>(s, m, a). cm_id m) (owed_message bo demo_inbox r) = Some 40) (cd_receipts demo_inbox)" by code_simp
  then obtain r s m a where "r \<in> set (cd_receipts demo_inbox)" "owed_message bo demo_inbox r = Some (s, m, a)" "cm_id m = 40"
    by (auto simp: list_ex_iff)
  moreover have "newest bo (caller_key inbox_ext bo) demo_inbox" by code_simp
  ultimately have "in_flight 20 (caller_key inbox_ext bo) 40 d'"
    using inbox_misses_nothing [OF demo_inbox_wf _ f, of r s m a] by simp
  moreover have "\<not> in_flight 20 (caller_key inbox_ext bo) 40 demo_inbox" by code_simp
  ultimately show ?thesis by (simp add: b(2))
qed

text \<open>C11: delivered means confirmed, once and for all. When a window is told that a hand-out is
  confirmed, the receipt it carried has been written in the same transaction and only then is the
  broker acknowledged; in every later state, after any run of clients, workers, fetches and
  confirmations, the hand-out is still confirmed and its receipt still written, and no confirmation
  reports it as newly confirmed again.\<close>

theorem a_confirmation_is_final:
  assumes "deliveries_wf d" and "confirm X Rs now auth ids d0 d = (Inr answer, acks, d')" and "i \<in> set (cf_confirmed answer)"
  shows "(\<forall>a \<in> set acks. \<exists>l \<in> set (cd_deliveries d'). dl_ack_subject l = a \<and> dl_confirmed_at l \<noteq> None \<and> receipt_written d' l) \<and>
    (\<exists>l \<in> set (cd_deliveries (runs inbox_exec qs d')). dl_id l = i \<and> dl_recipient_key l = caller_key X auth \<and>
       dl_confirmed_at l \<noteq> None \<and> receipt_written (runs inbox_exec qs d') l) \<and>
    (case confirm X2 Rs2 now2 auth2 ids2 d02 (runs inbox_exec qs d') of
       (Inr answer2, acks2, d2) \<Rightarrow> i \<notin> set (cf_confirmed answer2) | _ \<Rightarrow> True)"
proof -
  obtain uids subjects where c: "confirm_tx X now auth uids d = ((answer, subjects), d')" and acks: "acks = broker_acks Rs auth subjects"
    using assms(2) by (rule confirm_Inr)
  note w = confirm_tx_writes [OF c]
  have wf': "deliveries_wf d'" by (rule deliveries_wf_confirm [OF assms(1) c])
  have row: "\<exists>l' \<in> set (cd_deliveries d'). dl_id l' = dl_id l \<and> dl_ack_subject l' = dl_ack_subject l \<and> dl_recipient_key l' = caller_key X auth \<and>
      dl_confirmed_at l' \<noteq> None \<and> receipt_written d' l'"
    if l: "l \<in> set (filter (confirmable auth (caller_key X auth) uids) (cd_deliveries d))" for l
  proof -
    have in': "l\<lparr>dl_confirmed_at := Some now\<rparr> \<in> set (cd_deliveries d')" unfolding w(1) using l by (intro upd_where_hit) auto
    moreover have "dl_id l \<in> set (cf_confirmed answer)" unfolding w(2) using l by auto
    ultimately have "receipt_written d' (l\<lparr>dl_confirmed_at := Some now\<rparr>)" using confirmed_row_written [OF c, of "l\<lparr>dl_confirmed_at := Some now\<rparr>"] by simp
    with in' l show ?thesis by (intro bexI [OF _ in']) (simp_all add: confirmable_def own_delivery_def)
  qed
  have "\<forall>a \<in> set acks. \<exists>l \<in> set (cd_deliveries d'). dl_ack_subject l = a \<and> dl_confirmed_at l \<noteq> None \<and> receipt_written d' l"
    using row by (fastforce simp: acks w(3) broker_acks_def split: if_splits bool.splits sum.splits any_backend.splits)
  moreover obtain l where l: "l \<in> set (cd_deliveries d')" "dl_id l = i" "dl_recipient_key l = caller_key X auth" "dl_confirmed_at l \<noteq> None"
    using row assms(3) unfolding w(2) by fastforce
  obtain l2 where l2: "l2 \<in> set (cd_deliveries (runs inbox_exec qs d'))" "delivery_kept l l2"
    using delivery_persists_runs [OF wf' l(1)] by blast
  have wf2: "deliveries_wf (runs inbox_exec qs d')" by (rule deliveries.invar_runs [OF wf'])
  have c2: "dl_id l2 = i" "dl_recipient_key l2 = caller_key X auth" "dl_confirmed_at l2 \<noteq> None"
    using l2(2) l by (auto simp: delivery_kept_def seen_once_def)
  moreover have "receipt_written (runs inbox_exec qs d') l2" using wf2 l2(1) c2(3) by (auto simp: deliveries_wf_def list_all_iff)
  moreover have "i \<notin> set (cf_confirmed answer2)" if again: "confirm X2 Rs2 now2 auth2 ids2 d02 (runs inbox_exec qs d') = (Inr answer2, acks2, d2)" for answer2 acks2 d2
  proof -
    obtain uids2 subjects2 where "confirm_tx X2 now2 auth2 uids2 (runs inbox_exec qs d') = ((answer2, subjects2), d2)"
      using again by (rule confirm_Inr)
    note w2 = confirm_tx_writes(2) [OF this]
    show ?thesis
    proof
      assume "i \<in> set (cf_confirmed answer2)"
      then obtain l3 where "l3 \<in> set (cd_deliveries (runs inbox_exec qs d'))" "dl_id l3 = i" "dl_confirmed_at l3 = None"
        unfolding w2 by (auto simp: confirmable_def)
      then show False using wf2 l2(1) c2 distinct_map_inj [of dl_id "cd_deliveries (runs inbox_exec qs d')" l2 l3] by (auto simp: deliveries_wf_def)
    qed
  qed
  ultimately show ?thesis using l2(1) by (auto split: prod.split sum.split)
qed

theorem a_confirmation_is_final_witness:
  "list_ex (\<lambda>l. dl_id l = 3 \<and> dl_confirmed_at l \<noteq> None) (cd_deliveries (runs inbox_exec [demo_fetch, demo_confirm, ThreadReq (LeaveReq 30 bo 7 demo_inbox)] demo_inbox))"
proof -
  let ?d = "inbox_exec demo_fetch demo_inbox"
  let ?c = "confirm inbox_ext no_broker 21 bo [''000''] (start_cdb ''postgres'') ?d"
  have "map_sum id cf_confirmed (fst ?c) = Inr [3]" by code_simp
  then obtain answer acks d' where c: "?c = (Inr answer, acks, d')" and i: "3 \<in> set (cf_confirmed answer)" by (cases ?c; cases "fst ?c") auto
  have "deliveries_wf ?d" using inbox_exec_step [OF demo_inbox_wf] by blast
  note final = a_confirmation_is_final [OF this c i, of "[ThreadReq (LeaveReq 30 bo 7 demo_inbox)]", THEN conjunct2, THEN conjunct1]
  have "inbox_exec demo_confirm ?d = d'" using c by (simp add: demo_confirm_def)
  with final show ?thesis by (simp add: list_ex_iff) blast
qed

end
