(* ===== verification/Presence.thy ===== *)
theory Presence
  imports ConvSchema Contracts Demo
begin

text \<open>
  \<^verbatim>\<open>src/src/store/presence.rs\<close>: what a window says about itself, and what its teammates are shown.
  A heartbeat is one upsert under the session guard and a tidying \<^verbatim>\<open>DELETE\<close> after the commit whose
  failure is ignored (\<open>tidied\<close> says whether it ran). Labels are normalised by \<open>normalize_label\<close>, which
  conversations use too; \<open>labels_of\<close> is with messaging.
\<close>

definition ATTENTION_FRESH_SECS :: int where "ATTENTION_FRESH_SECS = 600"
definition DEFAULT_WAKE_TTL_SECS :: int where "DEFAULT_WAKE_TTL_SECS = 3600"
definition MAX_WAKE_TTL_SECS :: int where "MAX_WAKE_TTL_SECS = 86400"
definition DEFAULT_TTL_SECS :: int where "DEFAULT_TTL_SECS = 600"
definition MAX_TTL_SECS :: int where "MAX_TTL_SECS = 86400"
definition MAX_PRESENCE_FIELD_BYTES :: int where "MAX_PRESENCE_FIELD_BYTES = 256"

section \<open>What the stored observations say\<close>

record session_attention =
  sa_state :: string
  sa_observed_at :: "time option"
  sa_last_tool_at :: "time option"
  sa_last_inbox_read_at :: "time option"
  sa_wake :: string
  sa_wake_until :: "time option"
  sa_last_wake :: "string option"
  sa_last_wake_at :: "time option"

text \<open>The attention columns of a row; a left join without a row reads them all as null.\<close>

record raw_attention =
  ra_attention :: "string option"
  ra_attention_at :: "time option"
  ra_last_tool_at :: "time option"
  ra_last_inbox_read_at :: "time option"
  ra_wake :: "string option"
  ra_wake_until :: "time option"
  ra_wake_result :: "string option"
  ra_wake_result_at :: "time option"

definition raw_of :: "presence_row \<Rightarrow> raw_attention" where
  "raw_of p = \<lparr>ra_attention = pr_attention p, ra_attention_at = pr_attention_at p, ra_last_tool_at = pr_last_tool_at p,
     ra_last_inbox_read_at = pr_last_inbox_read_at p, ra_wake = pr_wake p, ra_wake_until = pr_wake_until p,
     ra_wake_result = pr_wake_result p, ra_wake_result_at = pr_wake_result_at p\<rparr>"

definition no_attention :: raw_attention where
  "no_attention = \<lparr>ra_attention = None, ra_attention_at = None, ra_last_tool_at = None, ra_last_inbox_read_at = None,
     ra_wake = None, ra_wake_until = None, ra_wake_result = None, ra_wake_result_at = None\<rparr>"

text \<open>\<^verbatim>\<open>num_seconds()\<close> truncates towards zero.\<close>

definition num_seconds :: "int \<Rightarrow> int" where
  "num_seconds x = (if x \<ge> 0 then x div 1000000 else - ((- x) div 1000000))"

definition attention_of :: "time \<Rightarrow> raw_attention \<Rightarrow> bool \<Rightarrow> session_attention" where
  "attention_of now raw online =
     (let fresh = (case ra_attention_at raw of None \<Rightarrow> False | Some t \<Rightarrow> num_seconds (now - t) \<le> ATTENTION_FRESH_SECS);
          state = (case ra_attention raw of
              Some s \<Rightarrow> if s = ''idle'' then ''idle''
                else if s \<in> set [''attending'', ''waiting''] \<and> online \<and> fresh then s else ''unknown''
            | None \<Rightarrow> ''unknown'');
          wake = (case (ra_wake raw, ra_wake_until raw) of
              (Some w, Some until) \<Rightarrow> if online \<and> until > now then (w, Some until) else (''unknown'', None)
            | _ \<Rightarrow> (''unknown'', None)) in
      \<lparr>sa_state = state,
       sa_observed_at = (if state = ''unknown'' \<and> ra_attention raw = None then None else ra_attention_at raw),
       sa_last_tool_at = ra_last_tool_at raw, sa_last_inbox_read_at = ra_last_inbox_read_at raw,
       sa_wake = fst wake, sa_wake_until = snd wake, sa_last_wake = ra_wake_result raw, sa_last_wake_at = ra_wake_result_at raw\<rparr>)"

definition row_online :: "time \<Rightarrow> presence_row \<Rightarrow> bool" where
  "row_online now p \<longleftrightarrow> pr_expires_at p > now"

record recipient_window =
  rw_address :: string
  rw_online :: bool
  rw_attention :: session_attention

record recipient_state =
  rst_routing :: string
  rst_windows :: "recipient_window list"

definition recipient_state :: "time \<Rightarrow> auth_ctx \<Rightarrow> uuid \<Rightarrow> string \<Rightarrow> string option \<Rightarrow> db \<Rightarrow> recipient_state" where
  "recipient_state now auth agent_id agent_name session d =
     (let rows = take 20 (sort_key (\<lambda>p. (\<not> row_online now p, - pr_updated_at p)) (filter (\<lambda>p. pr_agent_id p = agent_id \<and>
            (case session of None \<Rightarrow> True | Some s \<Rightarrow> pr_session p = s) \<and>
            \<not> (pr_agent_id p = au_agent_id auth \<and> pr_session p = au_session auth)) (d_presence d))) in
      \<lparr>rst_routing = (if session \<noteq> None then ''exact'' else ''agent''),
       rst_windows = map (\<lambda>p. \<lparr>rw_address = address_of agent_name (pr_session p), rw_online = row_online now p,
         rw_attention = attention_of now (raw_of p) (row_online now p)\<rparr>) rows\<rparr>)"

definition normalize_attention :: "string \<Rightarrow> string res" where
  "normalize_attention raw = (let v = to_lowercase (trim raw) in
     if v \<in> set [[], ''attending'', ''waiting'', ''idle''] then Inr v
     else Inl (Invalid ''attention must be attending, waiting or idle''))"

section \<open>Heartbeats\<close>

record heartbeat_input =
  hb_status :: "string option"
  hb_repo :: "string option"
  hb_branch :: "string option"
  hb_activity :: "string option"
  hb_project :: "string option"
  hb_role :: "string option"
  hb_ttl_seconds :: "int option"
  hb_attention :: "string option"
  hb_tool_activity :: bool
  hb_wake :: "string option"
  hb_attention_observed_ms_ago :: "int option"
  hb_wake_token :: "string option"
  hb_wake_ttl_seconds :: "int option"
  hb_wake_result :: "string option"
  hb_refresh_only :: bool

text \<open>The validated parameters of the statement.\<close>

record heartbeat_args =
  ha_status :: string
  ha_ttl :: int
  ha_repo :: "string option"
  ha_branch :: "string option"
  ha_activity :: "string option"
  ha_project :: "string option"
  ha_role :: "string option"
  ha_attention :: "string option"
  ha_tool :: bool
  ha_wake :: "string option"
  ha_ago :: int
  ha_token :: "string option"
  ha_wake_ttl :: int
  ha_wake_result :: "string option"
  ha_refresh :: bool

definition check_wake_result :: "string option \<Rightarrow> string option res" where
  "check_wake_result v = (case map_option (\<lambda>v. to_lowercase (trim v)) v of
      None \<Rightarrow> Inr None
    | Some v \<Rightarrow> if v \<in> set [''requested'', ''confirmed'', ''failed''] then Inr (Some v)
        else Inl (Invalid ''wake_result must be requested, confirmed or failed''))"

definition heartbeat_checks :: "heartbeat_input \<Rightarrow> heartbeat_args res" where
  "heartbeat_checks input =
     (let status = (case hb_status input of None \<Rightarrow> ''active'' | Some s \<Rightarrow> to_lowercase (trim s)) in
      if status \<notin> set [''active'', ''idle'', ''busy'', ''blocked''] then Inl (Invalid ''status must be active, idle, busy or blocked'')
      else
        bindE (traverse_opt (\<lambda>v. check_text v MAX_PRESENCE_FIELD_BYTES) (hb_repo input)) (\<lambda>repo.
        bindE (traverse_opt (\<lambda>v. check_text v MAX_PRESENCE_FIELD_BYTES) (hb_branch input)) (\<lambda>branch.
        bindE (traverse_opt (\<lambda>v. check_text v MAX_PRESENCE_FIELD_BYTES) (hb_activity input)) (\<lambda>activity.
        bindE (traverse_opt normalize_label (hb_project input)) (\<lambda>project.
        bindE (traverse_opt normalize_label (hb_role input)) (\<lambda>role.
        bindE (traverse_opt normalize_attention (hb_attention input)) (\<lambda>attention.
        bindE (traverse_opt normalize_label (hb_wake input)) (\<lambda>wake.
        if (case hb_wake_token input of None \<Rightarrow> False | Some t \<Rightarrow> length t > 128)
        then Inl (Invalid ''wake_token is at most 128 bytes'')
        else bindE (check_wake_result (hb_wake_result input)) (\<lambda>wake_result.
          Inr \<lparr>ha_status = status, ha_ttl = clamp 30 MAX_TTL_SECS (unwrap_or DEFAULT_TTL_SECS (hb_ttl_seconds input)),
               ha_repo = repo, ha_branch = branch, ha_activity = activity, ha_project = project, ha_role = role,
               ha_attention = attention, ha_tool = hb_tool_activity input, ha_wake = wake,
               ha_ago = (case hb_attention_observed_ms_ago input of None \<Rightarrow> 0 | Some ms \<Rightarrow> clamp 0 86400000 ms),
               ha_token = hb_wake_token input,
               ha_wake_ttl = clamp 30 MAX_WAKE_TTL_SECS (unwrap_or DEFAULT_WAKE_TTL_SECS (hb_wake_ttl_seconds input)),
               ha_wake_result = wake_result, ha_refresh = hb_refresh_only input\<rparr>)))))))))"

definition nullif_empty :: "string option \<Rightarrow> string option" where
  "nullif_empty v = (if v = Some [] then None else v)"

text \<open>The instant an observation was made, on the bus's clock.\<close>

definition observed :: "time \<Rightarrow> heartbeat_args \<Rightarrow> time" where
  "observed now a = now - ha_ago a * 1000"

definition first_beat :: "time \<Rightarrow> auth_ctx \<Rightarrow> heartbeat_args \<Rightarrow> presence_row" where
  "first_beat now auth a = \<lparr>pr_agent_id = au_agent_id auth, pr_session = au_session auth, pr_status = ha_status a,
     pr_repo = ha_repo a, pr_branch = ha_branch a, pr_activity = nullif_empty (ha_activity a),
     pr_project = nullif_empty (ha_project a), pr_role = nullif_empty (ha_role a),
     pr_updated_at = now, pr_expires_at = now + secs (ha_ttl a),
     pr_attention = nullif_empty (ha_attention a),
     pr_attention_at = (if nullif_empty (ha_attention a) = None then None else Some (observed now a)),
     pr_last_tool_at = (if ha_tool a then Some (observed now a) else None), pr_last_inbox_read_at = None,
     pr_wake = nullif_empty (ha_wake a),
     pr_wake_until = (if nullif_empty (ha_wake a) = None then None else Some (now + secs (ha_wake_ttl a))),
     pr_wake_token = (if nullif_empty (ha_wake a) = None then None else ha_token a),
     pr_wake_result = ha_wake_result a, pr_wake_result_at = (if ha_wake_result a = None then None else Some now)\<rparr>"

definition coalesce :: "'a option \<Rightarrow> 'a option \<Rightarrow> 'a option" where
  "coalesce x y = (case x of None \<Rightarrow> y | Some v \<Rightarrow> Some v)"

text \<open>An empty text clears, nothing keeps, anything else replaces.\<close>

definition set_or_clear :: "string option \<Rightarrow> string option \<Rightarrow> string option" where
  "set_or_clear new old = (if new = Some [] then None else coalesce (nullif_empty new) old)"

definition stale_observation :: "time \<Rightarrow> heartbeat_args \<Rightarrow> presence_row \<Rightarrow> bool" where
  "stale_observation now a p \<longleftrightarrow> (case pr_attention_at p of None \<Rightarrow> False | Some t \<Rightarrow> observed now a < t)"

definition others_wake :: "heartbeat_args \<Rightarrow> presence_row \<Rightarrow> bool" where
  "others_wake a p \<longleftrightarrow> ha_wake a = Some [] \<and> ha_token a \<noteq> None \<and> pr_wake_token p \<noteq> ha_token a"

text \<open>\<^verbatim>\<open>GREATEST\<close> ignores nulls.\<close>

definition greatest :: "time option \<Rightarrow> time \<Rightarrow> time option" where
  "greatest x t = Some (case x of None \<Rightarrow> t | Some s \<Rightarrow> max s t)"

definition beat :: "time \<Rightarrow> heartbeat_args \<Rightarrow> presence_row \<Rightarrow> presence_row" where
  "beat now a p = p\<lparr>
     pr_status := (if ha_refresh a then pr_status p else ha_status a),
     pr_repo := coalesce (ha_repo a) (pr_repo p), pr_branch := coalesce (ha_branch a) (pr_branch p),
     pr_activity := set_or_clear (ha_activity a) (pr_activity p),
     pr_project := set_or_clear (ha_project a) (pr_project p), pr_role := set_or_clear (ha_role a) (pr_role p),
     pr_attention := (if ha_attention a = None \<or> stale_observation now a p then pr_attention p else nullif_empty (ha_attention a)),
     pr_attention_at := (if ha_attention a = None \<or> stale_observation now a p then pr_attention_at p
       else if ha_attention a = Some [] then None else Some (observed now a)),
     pr_last_tool_at := (if ha_tool a then greatest (pr_last_tool_at p) (observed now a) else pr_last_tool_at p),
     pr_wake := (if ha_wake a = None \<or> others_wake a p then pr_wake p else nullif_empty (ha_wake a)),
     pr_wake_until := (if ha_wake a = None \<or> others_wake a p then pr_wake_until p
       else if ha_wake a = Some [] then None else Some (now + secs (ha_wake_ttl a))),
     pr_wake_token := (if ha_wake a = None \<or> others_wake a p then pr_wake_token p
       else if ha_wake a = Some [] then None else ha_token a),
     pr_wake_result := coalesce (ha_wake_result a) (pr_wake_result p),
     pr_wake_result_at := (if ha_wake_result a = None then pr_wake_result_at p else Some now),
     pr_updated_at := now, pr_expires_at := now + secs (ha_ttl a)\<rparr>"

definition presence_is :: "uuid \<Rightarrow> string \<Rightarrow> presence_row \<Rightarrow> bool" where
  "presence_is agent session p \<longleftrightarrow> pr_agent_id p = agent \<and> pr_session p = session"

definition HOUR :: int where "HOUR = 3600"

definition long_dead :: "time \<Rightarrow> presence_row \<Rightarrow> bool" where
  "long_dead now p \<longleftrightarrow> pr_expires_at p < now - secs HOUR"

record agent_session =
  as_session :: "string option"
  as_status :: string
  as_repo :: "string option"
  as_branch :: "string option"
  as_activity :: "string option"
  as_project :: "string option"
  as_role :: "string option"
  as_last_seen :: "time option"
  as_online :: bool
  as_attention :: session_attention

record agent_info =
  ai_name :: string
  ai_display_name :: "string option"
  ai_lead :: agent_session
  ai_online :: bool
  ai_sessions :: "agent_session list"

definition heartbeat_tx :: "time \<Rightarrow> auth_ctx \<Rightarrow> heartbeat_args \<Rightarrow> agent_info tx" where
  "heartbeat_tx now auth a d =
     (let mine = presence_is (au_agent_id auth) (au_session auth);
          rows = (if exists_row mine (d_presence d) then upd_where mine (beat now a) (d_presence d)
                  else d_presence d @ [first_beat now auth a]) in
      case (find (\<lambda>r. ag_id r = au_agent_id auth) (d_agents d), find mine rows) of
        (Some agent, Some p) \<Rightarrow>
          let online = row_online now p in
          Inr (\<lparr>ai_name = ag_name agent, ai_display_name = ag_display_name agent,
                ai_lead = \<lparr>as_session = session_label auth, as_status = pr_status p, as_repo = pr_repo p, as_branch = pr_branch p,
                  as_activity = pr_activity p, as_project = pr_project p, as_role = pr_role p,
                  as_last_seen = Some (pr_updated_at p), as_online = online, as_attention = attention_of now (raw_of p) online\<rparr>,
                ai_online = online, ai_sessions = []\<rparr>, d\<lparr>d_presence := rows\<rparr>)
      | _ \<Rightarrow> Inl (Db ''foreign key''))"

definition sweep_own :: "time \<Rightarrow> auth_ctx \<Rightarrow> db \<Rightarrow> db" where
  "sweep_own now auth d = d\<lparr>d_presence := del_where (\<lambda>p. pr_agent_id p = au_agent_id auth \<and> pr_session p \<noteq> au_session auth \<and>
     long_dead now p) (d_presence d)\<rparr>"

definition heartbeat :: "time \<Rightarrow> auth_ctx \<Rightarrow> heartbeat_input \<Rightarrow> bool \<Rightarrow> db \<Rightarrow> agent_info res \<times> db" where
  "heartbeat now auth input tidied d = (case heartbeat_checks input of
      Inl e \<Rightarrow> (Inl e, d)
    | Inr a \<Rightarrow> (case guarded now auth (heartbeat_tx now auth a) d of
        (Inl e, d') \<Rightarrow> (Inl e, d')
      | (Inr info, d') \<Rightarrow> (Inr info, if tidied then sweep_own now auth d' else d')))"

definition sweep_expired_shared_rows :: "time \<Rightarrow> db \<Rightarrow> nat \<times> db" where
  "sweep_expired_shared_rows now d =
     (let dead = (\<lambda>p. pr_session p = [] \<and> long_dead now p) in
      (count_rows dead (d_presence d), d\<lparr>d_presence := del_where dead (d_presence d)\<rparr>))"

section \<open>Listings\<close>

text \<open>A row of the join; without a presence row its columns are null.\<close>

definition join_presence :: "db \<Rightarrow> agent_row \<Rightarrow> presence_row option list" where
  "join_presence d a = (let ps = filter (\<lambda>p. pr_agent_id p = ag_id a) (d_presence d) in if ps = [] then [None] else map Some ps)"

definition online_opt :: "time \<Rightarrow> presence_row option \<Rightarrow> bool" where
  "online_opt now p = (case p of None \<Rightarrow> False | Some p \<Rightarrow> row_online now p)"

definition entry_of_row :: "time \<Rightarrow> presence_row option \<Rightarrow> agent_session" where
  "entry_of_row now p = (let online = online_opt now p in
     \<lparr>as_session = opt_filter (\<lambda>s. s \<noteq> []) (map_option pr_session p),
      as_status = (if online then unwrap_or ''active'' (map_option pr_status p) else ''offline''),
      as_repo = Option.bind p pr_repo, as_branch = Option.bind p pr_branch, as_activity = Option.bind p pr_activity,
      as_project = Option.bind p pr_project, as_role = Option.bind p pr_role, as_last_seen = map_option pr_updated_at p,
      as_online = online, as_attention = attention_of now (case p of None \<Rightarrow> no_attention | Some p \<Rightarrow> raw_of p) online\<rparr>)"

text \<open>\<^verbatim>\<open>NULLS LAST\<close> on a descending column: a row without a date comes after all others.\<close>

definition presence_order :: "time \<Rightarrow> string \<times> presence_row option \<Rightarrow> string \<times> bool \<times> bool \<times> bool \<times> int" where
  "presence_order now row = (case row of (name, p) \<Rightarrow>
     (name, \<not> online_opt now p, unwrap_or [] (map_option pr_session p) = [], p = None, - unwrap_or 0 (map_option pr_updated_at p)))"

definition agent_rows :: "time \<Rightarrow> auth_ctx \<Rightarrow> bool \<Rightarrow> db \<Rightarrow> (agent_row \<times> presence_row option) list" where
  "agent_rows now auth online_only d =
     sort_key (\<lambda>(a, p). presence_order now (ag_name a, p)) (filter (\<lambda>(a, p). \<not> online_only \<or> online_opt now p)
       (concat (map (\<lambda>a. map (Pair a) (join_presence d a))
         (filter (\<lambda>a. ag_team_id a = au_team_id auth \<and> ag_disabled_at a = None) (d_agents d)))))"

text \<open>The pass that folds rows under their agent: \<^verbatim>\<open>agents.last_mut()\<close> is the head of the accumulator.\<close>

definition fold_row :: "time \<Rightarrow> agent_row \<times> presence_row option \<Rightarrow> agent_info list \<Rightarrow> agent_info list" where
  "fold_row now row agents = (case row of (a, p) \<Rightarrow>
     let entry = entry_of_row now p;
         new = \<lparr>ai_name = ag_name a, ai_display_name = ag_display_name a, ai_lead = entry, ai_online = as_online entry,
                ai_sessions = [entry]\<rparr> in
     case agents of
       agent # rest \<Rightarrow> if ai_name agent = ag_name a
         then agent\<lparr>ai_online := ai_online agent \<or> as_online entry, ai_sessions := ai_sessions agent @ [entry]\<rparr> # rest
         else new # agents
     | [] \<Rightarrow> [new])"

definition hide_single :: "agent_info \<Rightarrow> agent_info" where
  "hide_single a = (if length (ai_sessions a) < 2 then a\<lparr>ai_sessions := []\<rparr> else a)"

record agent_list =
  al_agents :: "agent_info list"
  al_online_count :: nat

definition list_agents :: "time \<Rightarrow> auth_ctx \<Rightarrow> bool \<Rightarrow> db \<Rightarrow> agent_list" where
  "list_agents now auth online_only d =
     (let agents = map hide_single (rev (fold (fold_row now) (agent_rows now auth online_only d) [])) in
      \<lparr>al_agents = sort_key (\<lambda>a. (\<not> ai_online a, ai_name a)) agents, al_online_count = count_rows ai_online agents\<rparr>)"

definition MAX_SESSIONS :: int where "MAX_SESSIONS = 1000"
definition DEFAULT_SESSIONS :: int where "DEFAULT_SESSIONS = 200"

record session_filter =
  sf_project :: "string option"
  sf_role :: "string option"
  sf_online_only :: bool
  sf_limit :: "int option"

record session_entry =
  sn_address :: string
  sn_exact :: bool
  sn_agent :: string
  sn_view :: agent_session

record session_list =
  sl_sessions :: "session_entry list"
  sl_count :: nat
  sl_limit :: int

definition session_entry_of :: "time \<Rightarrow> string \<Rightarrow> presence_row \<Rightarrow> session_entry" where
  "session_entry_of now agent p = \<lparr>sn_address = address_of agent (pr_session p), sn_exact = (pr_session p \<noteq> []), sn_agent = agent,
     sn_view = entry_of_row now (Some p)\<rparr>"

definition list_sessions :: "time \<Rightarrow> auth_ctx \<Rightarrow> session_filter \<Rightarrow> db \<Rightarrow> session_list res" where
  "list_sessions now auth f d =
     bindE (traverse_opt normalize_label (sf_project f)) (\<lambda>project.
     bindE (traverse_opt normalize_label (sf_role f)) (\<lambda>role.
       let project = opt_filter (\<lambda>s. s \<noteq> []) project; role = opt_filter (\<lambda>s. s \<noteq> []) role;
           limit = clamp 1 MAX_SESSIONS (unwrap_or DEFAULT_SESSIONS (sf_limit f));
           rows = take (nat limit) (sort_key (\<lambda>(name, p). (\<not> row_online now p, - pr_updated_at p, name, pr_session p))
             (List.map_filter (\<lambda>p.
               (case find (\<lambda>a. ag_id a = pr_agent_id p) (d_agents d) of
                  None \<Rightarrow> None
                | Some a \<Rightarrow>
                    if ag_team_id a = au_team_id auth \<and> ag_disabled_at a = None \<and>
                       (project = None \<or> pr_project p = project) \<and> (role = None \<or> pr_role p = role) \<and>
                       (sf_online_only f \<longrightarrow> row_online now p)
                    then Some (ag_name a, p) else None)) (d_presence d))) in
       Inr \<lparr>sl_sessions = map (\<lambda>(name, p). session_entry_of now name p) rows, sl_count = length rows, sl_limit = limit\<rparr>))"

end
