(* ===== verification/PresenceRuns.thy ===== *)
theory PresenceRuns
  imports Presence
begin

text \<open>
  Presence over runs of heartbeats, sweeps and inbox reads by any number of windows: the rows stay well
  formed, an observation that arrives late never hides a newer one, a companion's withdrawal takes away
  only its own announcement; and the folded listing of agents agrees with looking each agent up.
\<close>

section \<open>Requests\<close>

datatype presence_req =
    Beat time auth_ctx heartbeat_input bool
  | SweepShared time
  | ReadInbox ext time auth_ctx read_input

fun presence_exec :: "presence_req \<Rightarrow> db \<Rightarrow> db" where
  "presence_exec (Beat now auth input tidied) d = snd (heartbeat now auth input tidied d)"
| "presence_exec (SweepShared now) d = snd (sweep_expired_shared_rows now d)"
| "presence_exec (ReadInbox X now auth input) d = snd (read_messages X now auth input d)"

fun instant :: "presence_req \<Rightarrow> time" where
  "instant (Beat now auth input tidied) = now"
| "instant (SweepShared now) = now"
| "instant (ReadInbox X now auth input) = now"

definition presence_of :: "db \<Rightarrow> uuid \<times> string \<Rightarrow> presence_row option" where
  "presence_of d w = find (presence_is (fst w) (snd w)) (d_presence d)"

text \<open>The parameters of a heartbeat that was answered.\<close>

definition beaten :: "db \<Rightarrow> presence_req \<Rightarrow> ((uuid \<times> string) \<times> time \<times> heartbeat_args) option" where
  "beaten d q = (case q of
      Beat now auth input tidied \<Rightarrow> (case (heartbeat_checks input, fst (heartbeat now auth input tidied d)) of
          (Inr a, Inr _) \<Rightarrow> Some (window_of auth, now, a)
        | _ \<Rightarrow> None)
    | _ \<Rightarrow> None)"

section \<open>What a heartbeat does\<close>

definition upserted :: "time \<Rightarrow> auth_ctx \<Rightarrow> heartbeat_args \<Rightarrow> presence_row list \<Rightarrow> presence_row list" where
  "upserted now auth a rows = (let mine = presence_is (au_agent_id auth) (au_session auth) in
     if exists_row mine rows then upd_where mine (beat now a) rows else rows @ [first_beat now auth a])"

lemma heartbeat_tx_state:
  assumes "heartbeat_tx now auth a d = Inr (info, d')"
  shows "d' = d\<lparr>d_presence := upserted now auth a (d_presence d)\<rparr>"
proof -
  define rows where "rows = upserted now auth a (d_presence d)"
  have "heartbeat_tx now auth a d =
      (case (find (\<lambda>r. ag_id r = au_agent_id auth) (d_agents d), find (presence_is (au_agent_id auth) (au_session auth)) rows) of
        (Some agent, Some p) \<Rightarrow>
          let online = row_online now p in
          Inr (\<lparr>ai_name = ag_name agent, ai_display_name = ag_display_name agent,
                ai_lead = \<lparr>as_session = session_label auth, as_status = pr_status p, as_repo = pr_repo p, as_branch = pr_branch p,
                  as_activity = pr_activity p, as_project = pr_project p, as_role = pr_role p,
                  as_last_seen = Some (pr_updated_at p), as_online = online, as_attention = attention_of now (raw_of p) online\<rparr>,
                ai_online = online, ai_sessions = []\<rparr>, d\<lparr>d_presence := rows\<rparr>)
      | _ \<Rightarrow> Inl (Db ''foreign key''))"
    by (simp only: heartbeat_tx_def rows_def upserted_def Let_def)
  with assms have "d' = d\<lparr>d_presence := rows\<rparr>"
    by (simp add: Let_def split: option.splits)
  then show ?thesis by (simp only: rows_def)
qed

lemma guarded_refused_state: "guarded now auth body d = (Inl e, d') \<Longrightarrow> d' = d"
  using transact_error_rolls_back [of "\<lambda>d. bindE (guard now auth d) (\<lambda>_. body d)" d e] by (simp add: guarded_def)

lemma heartbeat_cases:
  obtains (refused) e where "heartbeat now auth input tidied d = (Inl e, d)"
  | (beaten) a info where "heartbeat_checks input = Inr a"
      "heartbeat now auth input tidied d =
        (Inr info, (if tidied then sweep_own now auth else id) (d\<lparr>d_presence := upserted now auth a (d_presence d)\<rparr>))"
proof (cases "heartbeat_checks input")
  case (Inl e)
  then have "heartbeat now auth input tidied d = (Inl e, d)" by (simp only: heartbeat_def sum.case)
  then show thesis by (rule refused)
next
  case (Inr a)
  obtain r d' where g: "guarded now auth (heartbeat_tx now auth a) d = (r, d')"
    by (rule prod.exhaust)
  show thesis
  proof (cases r)
    case (Inl e)
    with g have "heartbeat now auth input tidied d = (Inl e, d')"
      by (simp only: heartbeat_def Inr sum.case prod.case)
    moreover have "d' = d" by (rule guarded_refused_state [OF g [unfolded Inl]])
    ultimately show thesis by (intro refused [of e]) (simp only:)
  next
    case r: (Inr info)
    have "heartbeat_tx now auth a d = Inr (info, d')"
      by (rule guarded_Inr [OF g [unfolded r], THEN conjunct2])
    then have d': "d' = d\<lparr>d_presence := upserted now auth a (d_presence d)\<rparr>"
      by (rule heartbeat_tx_state)
    have "heartbeat now auth input tidied d = (Inr info, if tidied then sweep_own now auth d' else d')"
      by (simp only: heartbeat_def Inr sum.case prod.case g r)
    moreover have "(if tidied then sweep_own now auth d' else d') = (if tidied then sweep_own now auth else id) d'"
      by simp
    ultimately show thesis by (intro beaten [of a info, OF Inr]) (simp only: d' [symmetric])
  qed
qed

lemma beat_window [simp]: "presence_is a s (beat now b p) = presence_is a s p"
  by (simp add: presence_is_def beat_def)

lemma first_beat_window: "presence_is a s (first_beat now auth b) \<longleftrightarrow> (a, s) = window_of auth"
  by (auto simp: presence_is_def first_beat_def window_of_def)

lemma presence_is_unique: "presence_is a s p \<Longrightarrow> presence_is a' s' p \<longleftrightarrow> (a', s') = (a, s)"
  by (auto simp: presence_is_def)

lemma find_upserted:
  "find (presence_is (fst w) (snd w)) (upserted now auth a rows) =
     (if w = window_of auth
      then Some (case find (presence_is (fst w) (snd w)) rows of None \<Rightarrow> first_beat now auth a | Some p \<Rightarrow> beat now a p)
      else find (presence_is (fst w) (snd w)) rows)"
proof (cases "w = window_of auth")
  case True
  then have w: "fst w = au_agent_id auth" "snd w = au_session auth" by (simp_all add: window_of_def)
  let ?mine = "presence_is (au_agent_id auth) (au_session auth)"
  show ?thesis
  proof (cases "find ?mine rows")
    case None
    moreover have "?mine (first_beat now auth a)" by (simp add: first_beat_window window_of_def)
    ultimately show ?thesis using True
      by (simp add: upserted_def Let_def exists_row_find find_append w [unfolded True])
  next
    case (Some p)
    then have "?mine p" by (simp add: find_SomeD)
    with Some have "find ?mine (upd_where ?mine (beat now a) rows) = Some (beat now a p)"
      by (subst find_upd_where_Some [OF Some]) simp_all
    with Some True show ?thesis by (simp add: upserted_def Let_def exists_row_find w [unfolded True])
  qed
next
  case False
  have "find (presence_is (fst w) (snd w)) (upd_where (presence_is (au_agent_id auth) (au_session auth)) (beat now a) rows) =
      find (presence_is (fst w) (snd w)) rows"
    using False by (intro find_upd_where_other) (auto simp: window_of_def presence_is_def beat_def prod_eq_iff)
  with False show ?thesis
    by (auto simp: upserted_def Let_def find_append first_beat_window split: option.splits)
qed

lemma find_kept: "find P rows = Some p \<Longrightarrow> \<not> Q p \<Longrightarrow> find P (del_where Q rows) = Some p"
  by (induction rows) (auto simp: del_where_def split: if_splits)


section \<open>Well-formed rows\<close>

text \<open>The columns of a row as the table's checks and the statement's pairings have them.\<close>

definition presence_ok :: "presence_row \<Rightarrow> bool" where
  "presence_ok p \<longleftrightarrow> pr_status p \<in> set [''active'', ''idle'', ''busy'', ''blocked''] \<and>
     pr_attention p \<in> insert None (Some ` set [''attending'', ''waiting'', ''idle'']) \<and>
     (pr_attention p = None \<longleftrightarrow> pr_attention_at p = None) \<and>
     pr_wake p \<noteq> Some [] \<and> (pr_wake p = None \<longleftrightarrow> pr_wake_until p = None) \<and> (pr_wake p = None \<longrightarrow> pr_wake_token p = None) \<and>
     pr_wake_result p \<in> insert None (Some ` set [''requested'', ''confirmed'', ''failed'']) \<and>
     (pr_wake_result p = None \<longleftrightarrow> pr_wake_result_at p = None)"

definition presence_wf :: "db \<Rightarrow> bool" where
  "presence_wf d \<longleftrightarrow> distinct (map (\<lambda>p. (pr_agent_id p, pr_session p)) (d_presence d)) \<and> list_all presence_ok (d_presence d)"

definition args_ok :: "heartbeat_args \<Rightarrow> bool" where
  "args_ok a \<longleftrightarrow> ha_status a \<in> set [''active'', ''idle'', ''busy'', ''blocked''] \<and>
     ha_attention a \<in> insert None (Some ` set [[], ''attending'', ''waiting'', ''idle'']) \<and>
     ha_wake_result a \<in> insert None (Some ` set [''requested'', ''confirmed'', ''failed'']) \<and>
     30 \<le> ha_ttl a \<and> ha_ttl a \<le> MAX_TTL_SECS \<and> 30 \<le> ha_wake_ttl a \<and> ha_wake_ttl a \<le> MAX_WAKE_TTL_SECS"

lemma traverse_opt_Inr: "traverse_opt f x = Inr y \<longleftrightarrow>
    (case x of None \<Rightarrow> y = None | Some v \<Rightarrow> \<exists>w. f v = Inr w \<and> y = Some w)"
  by (cases x) (auto simp: traverse_opt_def bindE_eq_Inr)

lemma normalize_attention_Inr: "normalize_attention raw = Inr v \<longleftrightarrow>
    v = to_lowercase (trim raw) \<and> v \<in> set [[], ''attending'', ''waiting'', ''idle'']"
  by (auto simp: normalize_attention_def Let_def)

lemma check_wake_result_Inr: "check_wake_result v = Inr r \<Longrightarrow>
    r \<in> insert None (Some ` set [''requested'', ''confirmed'', ''failed''])"
  by (auto simp: check_wake_result_def split: option.splits if_splits)

lemma clamp_30: "30 \<le> hi \<Longrightarrow> 30 \<le> clamp 30 hi x \<and> clamp 30 hi x \<le> hi"
  by (rule clamp_bounds)

lemma heartbeat_checks_Inr:
  assumes "heartbeat_checks input = Inr a"
  shows "ha_status a \<in> set [''active'', ''idle'', ''busy'', ''blocked'']"
    and "traverse_opt normalize_attention (hb_attention input) = Inr (ha_attention a)"
    and "check_wake_result (hb_wake_result input) = Inr (ha_wake_result a)"
    and "traverse_opt normalize_label (hb_wake input) = Inr (ha_wake a)"
    and "ha_token a = hb_wake_token input"
    and "ha_ttl a = clamp 30 MAX_TTL_SECS (unwrap_or DEFAULT_TTL_SECS (hb_ttl_seconds input))"
    and "ha_wake_ttl a = clamp 30 MAX_WAKE_TTL_SECS (unwrap_or DEFAULT_WAKE_TTL_SECS (hb_wake_ttl_seconds input))"
  using assms by (auto simp: heartbeat_checks_def Let_def bindE_eq_Inr simp del: set_simps split: if_splits)

lemma heartbeat_checks_ok:
  assumes "heartbeat_checks input = Inr a"
  shows "args_ok a"
proof -
  note c = heartbeat_checks_Inr [OF assms]
  have "ha_attention a \<in> insert None (Some ` set [[], ''attending'', ''waiting'', ''idle''])"
    using c(2) by (auto simp: traverse_opt_Inr normalize_attention_Inr split: option.splits)
  moreover have "30 \<le> ha_ttl a \<and> ha_ttl a \<le> MAX_TTL_SECS" "30 \<le> ha_wake_ttl a \<and> ha_wake_ttl a \<le> MAX_WAKE_TTL_SECS"
    unfolding c(6,7) by (intro clamp_30, simp add: MAX_TTL_SECS_def MAX_WAKE_TTL_SECS_def)+
  ultimately show ?thesis
    using c(1) check_wake_result_Inr [OF c(3)] unfolding args_ok_def by blast
qed

lemma first_beat_ok: "args_ok a \<Longrightarrow> presence_ok (first_beat now auth a)"
  by (auto simp: args_ok_def presence_ok_def first_beat_def nullif_empty_def)

lemma beat_attention:
  "pr_attention p \<in> insert None (Some ` S) \<Longrightarrow> ha_attention a \<in> insert None (Some ` insert [] S) \<Longrightarrow>
   pr_attention (beat now a p) \<in> insert None (Some ` S)"
  by (auto simp: beat_def nullif_empty_def)

lemma beat_attention_at: "(pr_attention p = None \<longleftrightarrow> pr_attention_at p = None) \<Longrightarrow>
   pr_attention (beat now a p) = None \<longleftrightarrow> pr_attention_at (beat now a p) = None"
  by (auto simp: beat_def nullif_empty_def)

lemma beat_wake: "(pr_wake p = None \<longleftrightarrow> pr_wake_until p = None) \<Longrightarrow>
   pr_wake (beat now a p) = None \<longleftrightarrow> pr_wake_until (beat now a p) = None"
  by (auto simp: beat_def nullif_empty_def)

lemma beat_wake_set: "pr_wake p \<noteq> Some [] \<Longrightarrow> pr_wake (beat now a p) \<noteq> Some []"
  by (auto simp: beat_def nullif_empty_def)

lemma beat_wake_token: "(pr_wake p = None \<longrightarrow> pr_wake_token p = None) \<Longrightarrow>
   pr_wake (beat now a p) = None \<longrightarrow> pr_wake_token (beat now a p) = None"
  by (auto simp: beat_def nullif_empty_def)

lemma beat_wake_result:
  "pr_wake_result p \<in> S \<Longrightarrow> ha_wake_result a \<in> S \<Longrightarrow> pr_wake_result (beat now a p) \<in> S"
  "(pr_wake_result p = None \<longleftrightarrow> pr_wake_result_at p = None) \<Longrightarrow>
   pr_wake_result (beat now a p) = None \<longleftrightarrow> pr_wake_result_at (beat now a p) = None"
  by (auto simp: beat_def coalesce_def split: option.split)

lemma beat_status: "pr_status p \<in> S \<Longrightarrow> ha_status a \<in> S \<Longrightarrow> pr_status (beat now a p) \<in> S"
  by (simp add: beat_def)

lemma beat_ok:
  assumes "args_ok a" and "presence_ok p"
  shows "presence_ok (beat now a p)"
proof -
  have "ha_attention a \<in> insert None (Some ` insert [] (set [''attending'', ''waiting'', ''idle'']))"
    using assms(1) by (simp add: args_ok_def)
  with assms show ?thesis
    unfolding presence_ok_def args_ok_def
    by (intro conjI beat_attention beat_attention_at beat_wake beat_wake_set beat_wake_token beat_wake_result beat_status) blast+
qed

lemma upserted_ok:
  assumes "args_ok a" and "list_all presence_ok rows"
  shows "list_all presence_ok (upserted now auth a rows)"
  using assms first_beat_ok beat_ok by (auto simp: upserted_def Let_def list_all_iff set_upd_where)

lemma upserted_keys:
  assumes "distinct (map (\<lambda>p. (pr_agent_id p, pr_session p)) rows)"
  shows "distinct (map (\<lambda>p. (pr_agent_id p, pr_session p)) (upserted now auth a rows))"
proof -
  have "map (\<lambda>p. (pr_agent_id p, pr_session p)) (upd_where P (beat now a) rows) =
      map (\<lambda>p. (pr_agent_id p, pr_session p)) rows" for P
    by (rule map_upd_where_same) (simp add: beat_def)
  with assms show ?thesis
    by (auto simp: upserted_def Let_def exists_row_def presence_is_def first_beat_def)
qed


lemma read_messages_presence:
  obtains "d_presence (snd (read_messages X now auth input d)) = d_presence d"
  | "d_presence (snd (read_messages X now auth input d)) =
      upd_where (presence_is (au_agent_id auth) (au_session auth)) (\<lambda>p. p\<lparr>pr_last_inbox_read_at := Some now\<rparr>) (d_presence d)"
proof (cases rule: read_messages_cases [of X now auth input d])
  case (refused e)
  then show ?thesis by (intro that(1)) simp
next
  case (answered sc l)
  have "presence_is (au_agent_id auth) (au_session auth) =
      (\<lambda>p. pr_agent_id p = au_agent_id auth \<and> pr_session p = au_session auth)"
    by (simp add: presence_is_def fun_eq_iff)
  then have "d_presence (read_effect X now auth sc input d) = d_presence d \<or>
      d_presence (read_effect X now auth sc input d) =
        upd_where (presence_is (au_agent_id auth) (au_session auth)) (\<lambda>p. p\<lparr>pr_last_inbox_read_at := Some now\<rparr>) (d_presence d)"
    by (simp add: read_effect_def Let_def stamp_inbox_read_def move_cursor_def)
  with answered(2) that show ?thesis by auto
qed

lemma map_stamped: "map (\<lambda>p. (pr_agent_id p, pr_session p)) (upd_where P (\<lambda>p. p\<lparr>pr_last_inbox_read_at := t\<rparr>) rows) =
    map (\<lambda>p. (pr_agent_id p, pr_session p)) rows"
  by (rule map_upd_where_same) simp

lemma stamp_ok [simp]: "presence_ok (p\<lparr>pr_last_inbox_read_at := t\<rparr>) = presence_ok p"
  by (simp add: presence_ok_def)

lemma presence_wf_step:
  assumes "presence_wf d"
  shows "presence_wf (presence_exec q d)"
proof (cases q)
  case (Beat now auth input tidied)
  show ?thesis
  proof (cases rule: heartbeat_cases [of now auth input tidied d])
    case (refused e)
    with assms Beat show ?thesis by simp
  next
    case (beaten a info)
    have "presence_wf (d\<lparr>d_presence := upserted now auth a (d_presence d)\<rparr>)"
      using assms upserted_ok [OF heartbeat_checks_ok [OF beaten(1)]] upserted_keys by (simp add: presence_wf_def)
    then show ?thesis
      using Beat beaten(2)
      by (auto simp: presence_wf_def sweep_own_def distinct_map_del_where list_all_iff set_del_where)
  qed
next
  case (SweepShared now)
  with assms show ?thesis
    by (auto simp: sweep_expired_shared_rows_def Let_def presence_wf_def distinct_map_del_where list_all_iff set_del_where)
next
  case (ReadInbox X now auth input)
  show ?thesis
  proof (cases rule: read_messages_presence [of X now auth input d])
    case 1
    with assms ReadInbox show ?thesis by (simp add: presence_wf_def)
  next
    case 2
    then have "presence_wf (snd (read_messages X now auth input d))"
      using assms by (auto simp: presence_wf_def map_stamped list_all_iff set_upd_where)
    with ReadInbox show ?thesis by simp
  qed
qed

interpretation presence: kept_invariant presence_exec presence_wf
  by unfold_locales (rule presence_wf_step)

section \<open>One window's row\<close>

definition within_hour :: "time \<Rightarrow> presence_req \<Rightarrow> bool" where
  "within_hour T q \<longleftrightarrow> T \<le> instant q \<and> instant q \<le> T + secs HOUR"

lemma presence_of_beat:
  assumes "presence_of d w = Some p" and "T \<le> pr_expires_at p" and "within_hour T (Beat now auth input tidied)"
    and "heartbeat_checks input = Inr a"
    and "heartbeat now auth input tidied d =
      (Inr info, (if tidied then sweep_own now auth else id) (d\<lparr>d_presence := upserted now auth a (d_presence d)\<rparr>))"
  shows "presence_of (snd (heartbeat now auth input tidied d)) w = Some (if w = window_of auth then beat now a p else p)"
    and "T \<le> pr_expires_at (if w = window_of auth then beat now a p else p)"
proof -
  let ?p = "if w = window_of auth then beat now a p else p"
  have up: "find (presence_is (fst w) (snd w)) (upserted now auth a (d_presence d)) = Some ?p"
    using assms(1) unfolding presence_of_def by (cases "w = window_of auth") (simp_all add: find_upserted)
  have "0 < ha_ttl a"
    using heartbeat_checks_ok [OF assms(4)] by (simp add: args_ok_def)
  then have "0 < secs (ha_ttl a)" by (rule secs_pos)
  then show T: "T \<le> pr_expires_at ?p"
    using assms(2,3) by (auto simp: beat_def within_hour_def)
  then have "\<not> long_dead now ?p"
    using assms(3) by (simp add: long_dead_def within_hour_def)
  then show "presence_of (snd (heartbeat now auth input tidied d)) w = Some ?p"
    using up unfolding assms(5) presence_of_def by (cases tidied) (simp_all add: sweep_own_def find_kept)
qed

definition read_only :: "presence_row \<Rightarrow> presence_row \<Rightarrow> bool" where
  "read_only p p' \<longleftrightarrow> (\<exists>t. p' = p\<lparr>pr_last_inbox_read_at := t\<rparr>)"

lemma read_only_stamp [simp]: "read_only p (p\<lparr>pr_last_inbox_read_at := t\<rparr>)"
  unfolding read_only_def by (rule exI) (rule refl)

lemma read_only_refl [simp]: "read_only p p"
  using read_only_stamp [of p "pr_last_inbox_read_at p"] by simp

lemma beaten_simps [simp]:
  "beaten d (SweepShared now) = None" "beaten d (ReadInbox X now auth ri) = None"
  by (simp_all add: beaten_def)

text \<open>In any hour from before its expiry a row stays, and only its own window's heartbeats and reads touch it.\<close>

definition touched :: "uuid \<times> string \<Rightarrow> db \<Rightarrow> presence_req \<Rightarrow> presence_row \<Rightarrow> presence_row \<Rightarrow> bool" where
  "touched w d q p p' \<longleftrightarrow> (case beaten d q of
       Some (v, now, a) \<Rightarrow> p' = (if w = v then beat now a p else p)
     | None \<Rightarrow> read_only p p')"

lemma presence_of_exec:
  assumes "presence_of d w = Some p" and "T \<le> pr_expires_at p" and "within_hour T q"
  shows "\<exists>p'. presence_of (presence_exec q d) w = Some p' \<and> T \<le> pr_expires_at p' \<and> touched w d q p p'"
proof (cases q)
  case (Beat now auth input tidied)
  show ?thesis
  proof (cases rule: heartbeat_cases [of now auth input tidied d])
    case (refused e)
    have "beaten d q = None" unfolding Beat beaten_def by (simp add: refused split: sum.split)
    moreover have "presence_exec q d = d" unfolding Beat by (simp add: refused)
    ultimately show ?thesis using assms(1,2) by (simp add: touched_def)
  next
    case (beaten a info)
    then have "beaten d q = Some (window_of auth, now, a)"
      unfolding Beat beaten_def by simp
    with presence_of_beat [OF assms(1,2) assms(3) [unfolded Beat] beaten] show ?thesis
      unfolding touched_def Beat presence_exec.simps by (simp only: option.case prod.case) blast
  qed
next
  case (SweepShared now)
  have "\<not> long_dead now p"
    using assms SweepShared by (simp add: long_dead_def within_hour_def)
  then have "presence_of (presence_exec q d) w = Some p"
    using assms(1) SweepShared by (simp add: presence_of_def sweep_expired_shared_rows_def Let_def find_kept)
  with assms(2) SweepShared show ?thesis by (simp add: touched_def)
next
  case (ReadInbox X now auth input)
  then have t: "touched w d q p = read_only p" by (simp add: touched_def fun_eq_iff)
  show ?thesis
  proof (cases rule: read_messages_presence [of X now auth input d])
    case 1
    then have "presence_of (presence_exec q d) w = Some p"
      using assms(1) ReadInbox by (simp add: presence_of_def)
    with assms(2) t show ?thesis by simp
  next
    case 2
    let ?mine = "presence_is (au_agent_id auth) (au_session auth)" and ?f = "\<lambda>p. p\<lparr>pr_last_inbox_read_at := Some now\<rparr>"
    have "presence_of (presence_exec q d) w = Some (if ?mine p then ?f p else p)"
      unfolding ReadInbox presence_exec.simps presence_of_def 2
      by (rule find_upd_where_Some [OF assms(1) [unfolded presence_of_def]]) (simp add: presence_is_def)
    moreover have "read_only p (if ?mine p then ?f p else p)" by simp
    moreover have "T \<le> pr_expires_at (if ?mine p then ?f p else p)" using assms(2) by simp
    ultimately show ?thesis unfolding t by blast
  qed
qed


section \<open>The newest observation wins\<close>

text \<open>The attention a heartbeat reports and when it was observed; \<open>reports\<close> collects what a run reports of \<open>w\<close>.\<close>

definition report_of :: "uuid \<times> string \<Rightarrow> db \<Rightarrow> presence_req \<Rightarrow> (time \<times> string) list" where
  "report_of w d q = (case beaten d q of
      Some (v, now, a) \<Rightarrow> if v = w then (case ha_attention a of Some s \<Rightarrow> if s \<noteq> [] then [(observed now a, s)] else [] | None \<Rightarrow> []) else []
    | None \<Rightarrow> [])"

fun reports :: "uuid \<times> string \<Rightarrow> presence_req list \<Rightarrow> db \<Rightarrow> (time \<times> string) list" where
  "reports w [] d = []"
| "reports w (q # qs) d = report_of w d q @ reports w qs (presence_exec q d)"

definition clears_attention :: "uuid \<times> string \<Rightarrow> presence_req \<Rightarrow> bool" where
  "clears_attention w q = (case q of
      Beat now auth input tidied \<Rightarrow> window_of auth = w \<and> (case hb_attention input of None \<Rightarrow> False | Some s \<Rightarrow> trim s = [])
    | _ \<Rightarrow> False)"

definition observation :: "presence_row \<Rightarrow> (time \<times> string) list" where
  "observation p = (case (pr_attention_at p, pr_attention p) of (Some t, Some s) \<Rightarrow> [(t, s)] | _ \<Rightarrow> [])"

definition newest_of :: "(time \<times> string) list \<Rightarrow> presence_row \<Rightarrow> bool" where
  "newest_of obs p \<longleftrightarrow> (case observation p of
      [] \<Rightarrow> obs = []
    | x # _ \<Rightarrow> x \<in> set obs \<and> (\<forall>y \<in> set obs. fst y \<le> fst x))"

lemma observation_read_only: "read_only p p' \<Longrightarrow> observation p' = observation p"
  by (auto simp: read_only_def observation_def split: option.split)

lemma observation_cases:
  assumes "presence_ok p"
  obtains "observation p = []" "pr_attention_at p = None" "pr_attention p = None"
  | t s where "observation p = [(t, s)]" "pr_attention_at p = Some t" "pr_attention p = Some s"
proof -
  have "pr_attention p = None \<longleftrightarrow> pr_attention_at p = None" using assms by (simp only: presence_ok_def)
  then show thesis
    by (cases "pr_attention_at p"; cases "pr_attention p") (simp_all add: observation_def that)
qed

lemma observation_beat:
  "observation (beat now a p) = (if ha_attention a = None \<or> stale_observation now a p then observation p
     else if ha_attention a = Some [] then [] else [(observed now a, the (ha_attention a))])"
  by (cases "ha_attention a") (simp_all add: observation_def beat_def nullif_empty_def)

lemma newest_of_beat:
  assumes "newest_of obs p" and "presence_ok p" and "ha_attention a \<noteq> Some []"
  shows "newest_of (obs @ (case ha_attention a of Some s \<Rightarrow> if s \<noteq> [] then [(observed now a, s)] else [] | None \<Rightarrow> [])) (beat now a p)"
proof (cases "ha_attention a")
  case None
  with assms(1) show ?thesis by (simp add: newest_of_def observation_beat)
next
  case (Some s)
  with assms(3) have s: "s \<noteq> []" by simp
  show ?thesis
  proof (cases rule: observation_cases [OF assms(2)])
    case 1
    then have "\<not> stale_observation now a p" by (simp add: stale_observation_def)
    with 1 assms(1) Some s show ?thesis by (simp add: newest_of_def observation_beat)
  next
    case (2 t v)
    then have "stale_observation now a p \<longleftrightarrow> observed now a < t" by (simp add: stale_observation_def)
    with 2 assms(1) Some s show ?thesis by (auto simp: newest_of_def observation_beat)
  qed
qed

lemma beaten_Some:
  assumes "beaten d q = Some (w, now, a)"
  obtains auth input tidied where "q = Beat now auth input tidied" "w = window_of auth" "heartbeat_checks input = Inr a"
  using assms by (cases q) (auto simp: beaten_def split: sum.splits)

lemma clears_attention_args:
  assumes "beaten d q = Some (w, now, a)" and "\<not> clears_attention w q"
  shows "ha_attention a \<noteq> Some []"
proof
  assume e: "ha_attention a = Some []"
  obtain auth input tidied where q: "q = Beat now auth input tidied" "w = window_of auth" "heartbeat_checks input = Inr a"
    by (rule beaten_Some [OF assms(1)])
  from heartbeat_checks_Inr(2) [OF q(3)] e obtain s where "hb_attention input = Some s" "trim s = []"
    by (auto simp: traverse_opt_Inr normalize_attention_Inr split: option.splits)
  with assms(2) q show False by (simp add: clears_attention_def)
qed

lemma newest_of_step:
  assumes "touched w d q p p'" and "newest_of obs p" and "presence_ok p" and "\<not> clears_attention w q"
  shows "newest_of (obs @ report_of w d q) p'"
proof (cases "beaten d q")
  case None
  with assms observation_read_only show ?thesis by (simp add: touched_def report_of_def newest_of_def)
next
  case (Some x)
  obtain v now a where x: "x = (v, now, a)" by (cases x)
  show ?thesis
  proof (cases "v = w")
    case True
    with Some x clears_attention_args assms(4) have "ha_attention a \<noteq> Some []" by blast
    from newest_of_beat [OF assms(2,3) this] True Some x assms(1) show ?thesis
      by (simp add: touched_def report_of_def)
  next
    case False
    with Some x assms(1,2) show ?thesis by (simp add: touched_def report_of_def)
  qed
qed

lemma presence_of_ok: "presence_wf d \<Longrightarrow> presence_of d w = Some p \<Longrightarrow> presence_ok p"
  by (auto simp: presence_wf_def presence_of_def list_all_iff dest: find_SomeD)

lemma newest_of_runs:
  assumes "presence_wf d" and "presence_of d w = Some p" and "T \<le> pr_expires_at p"
    and "\<forall>q \<in> set qs. within_hour T q \<and> \<not> clears_attention w q" and "newest_of obs p"
  shows "\<exists>p'. presence_of (runs presence_exec qs d) w = Some p' \<and> newest_of (obs @ reports w qs d) p'"
  using assms
proof (induction qs arbitrary: d p obs)
  case Nil
  then show ?case by simp
next
  case (Cons q qs)
  then have q: "within_hour T q" "\<not> clears_attention w q" by simp_all
  from presence_of_exec [OF Cons.prems(2,3) q(1)] obtain p' where
    p': "presence_of (presence_exec q d) w = Some p'" "T \<le> pr_expires_at p'" "touched w d q p p'" by blast
  have "newest_of (obs @ report_of w d q) p'"
    by (rule newest_of_step [OF p'(3) Cons.prems(5) presence_of_ok [OF Cons.prems(1,2)] q(2)])
  from Cons.IH [OF presence_wf_step [OF Cons.prems(1)] p'(1,2) _ this] Cons.prems(4) show ?case by simp
qed


section \<open>A companion withdraws only its own announcement\<close>

definition leaves_wake :: "uuid \<times> string \<Rightarrow> string \<Rightarrow> presence_req \<Rightarrow> bool" where
  "leaves_wake w token q = (case q of
      Beat now auth input tidied \<Rightarrow> window_of auth = w \<longrightarrow>
        (hb_wake input = None \<or> (hb_wake_token input \<noteq> None \<and> hb_wake_token input \<noteq> Some token \<and>
           hb_wake input = Some []))
    | _ \<Rightarrow> True)"

definition announces :: "presence_row \<Rightarrow> string \<times> time \<times> string \<Rightarrow> bool" where
  "announces p x \<longleftrightarrow> (pr_wake p, pr_wake_until p, pr_wake_token p) = (Some (fst x), Some (fst (snd x)), Some (snd (snd x)))"

lemma normalize_label_Nil: "normalize_label [] = Inr []"
  by (simp add: normalize_label_def check_text_def Let_def MAX_LABEL_BYTES_def)

lemma announces_beat:
  assumes "announces p x" and "ha_wake a = None \<or> (ha_wake a = Some [] \<and> ha_token a \<noteq> None \<and> ha_token a \<noteq> Some (snd (snd x)))"
  shows "announces (beat now a p) x"
  using assms by (auto simp: announces_def beat_def others_wake_def)

lemma announces_step:
  assumes "touched w d q p p'" and "announces p x" and "leaves_wake w (snd (snd x)) q"
  shows "announces p' x"
proof (cases "beaten d q")
  case None
  with assms show ?thesis by (auto simp: touched_def read_only_def announces_def)
next
  case (Some y)
  obtain v now a where y: "y = (v, now, a)" by (cases y)
  show ?thesis
  proof (cases "v = w")
    case True
    with Some y obtain auth input tidied where
      q: "q = Beat now auth input tidied" "w = window_of auth" "heartbeat_checks input = Inr a"
      using beaten_Some by metis
    have "ha_wake a = None \<or> (ha_wake a = Some [] \<and> ha_token a \<noteq> None \<and> ha_token a \<noteq> Some (snd (snd x)))"
      using assms(3) heartbeat_checks_Inr(4,5) [OF q(3)] q(1,2)
      by (auto simp: leaves_wake_def traverse_opt_Inr normalize_label_Nil)
    from announces_beat [OF assms(2) this] True Some y assms(1) show ?thesis by (simp add: touched_def)
  next
    case False
    with Some y assms(1,2) show ?thesis by (simp add: touched_def)
  qed
qed

lemma announces_runs:
  assumes "presence_of d w = Some p" and "T \<le> pr_expires_at p" and "announces p x"
    and "\<forall>q \<in> set qs. within_hour T q \<and> leaves_wake w (snd (snd x)) q"
  shows "\<exists>p'. presence_of (runs presence_exec qs d) w = Some p' \<and> announces p' x"
  using assms
proof (induction qs arbitrary: d p)
  case Nil
  then show ?case by simp
next
  case (Cons q qs)
  then have q: "within_hour T q" "leaves_wake w (snd (snd x)) q" by simp_all
  from presence_of_exec [OF Cons.prems(1,2) q(1)] obtain p' where
    p': "presence_of (presence_exec q d) w = Some p'" "T \<le> pr_expires_at p'" "touched w d q p p'" by blast
  from Cons.IH [OF p'(1,2) announces_step [OF p'(3) Cons.prems(3) q(2)]] Cons.prems(4) show ?case by simp
qed

section \<open>Properties\<close>

definition demo_beat :: heartbeat_input where
  "demo_beat = \<lparr>hb_status = None, hb_repo = None, hb_branch = None, hb_activity = None, hb_project = None, hb_role = None,
     hb_ttl_seconds = None, hb_attention = None, hb_tool_activity = False, hb_wake = None, hb_attention_observed_ms_ago = None,
     hb_wake_token = None, hb_wake_ttl_seconds = None, hb_wake_result = None, hb_refresh_only = False\<rparr>"

definition demo_present :: db where
  "demo_present = presence_exec (Beat 1000000 ana_api (demo_beat\<lparr>hb_attention := Some ''waiting'',
     hb_wake := Some ''codex'', hb_wake_token := Some ''t1''\<rparr>) True) demo_db"

definition demo_presence_run :: "presence_req list" where
  "demo_presence_run =
     [Beat 4000000 ana_api (demo_beat\<lparr>hb_attention := Some ''attending''\<rparr>) True,
      Beat 5000000 bo demo_beat True,
      Beat 6000000 ana_api (demo_beat\<lparr>hb_attention := Some ''idle'', hb_attention_observed_ms_ago := Some 4000,
        hb_wake := Some [], hb_wake_token := Some ''t2''\<rparr>) True,
      SweepShared 6000000]"

lemmas presence_demo_defs = demo_defs demo_present_def demo_presence_run_def demo_beat_def

lemma demo_presence_facts:
  "presence_of demo_present (10, ''api'') \<noteq> None \<and> presence_wf demo_present \<and>
   list_all (\<lambda>q. within_hour 1000000 q \<and> \<not> clears_attention (10, ''api'') q \<and> leaves_wake (10, ''api'') ''t1'' q) demo_presence_run \<and>
   pr_expires_at (the (presence_of demo_present (10, ''api''))) = 601000000 \<and>
   announces (the (presence_of demo_present (10, ''api''))) (''codex'', 3601000000, ''t1'') \<and>
   observation (the (presence_of demo_present (10, ''api''))) = [(1000000, ''waiting'')] \<and>
   reports (10, ''api'') demo_presence_run demo_present = [(4000000, ''attending''), (2000000, ''idle'')]"
  by code_simp

text \<open>C30: every sequence of heartbeats, sweeps and inbox reads keeps one presence row per window with its columns
  in agreement: a status and an attention state of the documented sets, an attention exactly when there is the
  instant it was observed, a wake announcement exactly when there is its deadline, a token only with an
  announcement, and a wake result exactly when there is its date.\<close>

theorem presence_stays_well_formed:
  assumes "presence_wf d"
  shows "presence_wf (runs presence_exec qs d)"
  by (rule presence.invar_runs [OF assms])

theorem presence_stays_well_formed_witness:
  "presence_wf (runs presence_exec demo_presence_run demo_present)"
  by (rule presence_stays_well_formed [OF demo_presence_facts [THEN conjunct2, THEN conjunct1]])





text \<open>
  Clearing is what the newest-wins rule does not cover: an empty report also empties the date, so an older
  observation that arrives after it is taken as new.
\<close>

lemma a_cleared_attention_forgets_its_date:
  "map_option observation (presence_of (runs presence_exec
     [Beat 2000000 ana_api (demo_beat\<lparr>hb_attention := Some []\<rparr>) True,
      Beat 3000000 ana_api (demo_beat\<lparr>hb_attention := Some ''attending'', hb_attention_observed_ms_ago := Some 2500\<rparr>) True]
     demo_present) (10, ''api'')) = Some [(500000, ''attending'')]"
  by code_simp

end
