(* ===== verification/Bus.thy ===== *)
theory Bus
  imports InboxHistory PresenceRuns TaskPages Locks Notes Attachments Delivery
begin

text \<open>
  The whole bus as one machine: the requests of every component on one state, in any order. What the
  components promise one by one is put together here: a connection whose window was taken over is
  fenced off from every write that acts as the window, whatever component it goes to and whatever
  everybody else does.
\<close>

section \<open>Requests\<close>

datatype bus_req =
    WindowQ session_req
  | LockQ lock_req
  | TaskQ task_req
  | NoteQ note_req
  | AttachQ attach_req
  | MessageQ msg_req
  | PresenceQ presence_req
  | InboxQ inbox_req

text \<open>
  \<open>ElsewhereReq\<close> of the conversations' machine stood for the rest of the bus; here the rest is there
  itself, and the placeholder does nothing.
\<close>

fun bus_exec :: "bus_req \<Rightarrow> cdb \<Rightarrow> cdb" where
  "bus_exec (WindowQ q) d = d\<lparr>cd_base := session_exec q (cd_base d)\<rparr>"
| "bus_exec (LockQ q) d = d\<lparr>cd_base := lock_exec q (cd_base d)\<rparr>"
| "bus_exec (TaskQ q) d = d\<lparr>cd_base := task_exec q (cd_base d)\<rparr>"
| "bus_exec (NoteQ q) d = d\<lparr>cd_base := note_exec q (cd_base d)\<rparr>"
| "bus_exec (AttachQ q) d = d\<lparr>cd_base := attach_exec q (cd_base d)\<rparr>"
| "bus_exec (MessageQ q) d = d\<lparr>cd_base := msg_exec q (cd_base d)\<rparr>"
| "bus_exec (PresenceQ q) d = d\<lparr>cd_base := presence_exec q (cd_base d)\<rparr>"
| "bus_exec (InboxQ (ThreadReq (ElsewhereReq f))) d = d"
| "bus_exec (InboxQ q) d = inbox_exec q d"

section \<open>Only session operations touch the window table, and none the accounts\<close>

definition same_accounts :: "db \<Rightarrow> db \<Rightarrow> bool" where
  "same_accounts d d' \<longleftrightarrow> d_sessions d' = d_sessions d \<and> d_teams d' = d_teams d \<and> d_agents d' = d_agents d \<and> d_tokens d' = d_tokens d"

lemma same_accounts_refl [simp]: "same_accounts d d"
  by (simp add: same_accounts_def)

lemma same_accounts_transact:
  "(\<And>x d'. body d = Inr (x, d') \<Longrightarrow> same_accounts d d') \<Longrightarrow> same_accounts d (snd (transact body d))"
  by (rule keep_transact) simp_all

lemma same_accounts_guarded:
  "(\<And>x d'. body d = Inr (x, d') \<Longrightarrow> same_accounts d d') \<Longrightarrow> same_accounts d (snd (guarded now auth body d))"
  by (simp add: guarded_state same_accounts_transact)

lemma lock_same_accounts: "same_accounts d (lock_exec q d)"
proof (cases q)
  case (AcquireReq now auth name ttl purpose)
  have "same_accounts d (snd (lock_upsert now auth n purpose t d))" for n t
    by (simp add: lock_upsert_def same_accounts_def split: option.split)
  then show ?thesis
    unfolding AcquireReq lock_exec.simps acquire_lock_def split_beta Let_def
    by (auto simp: prod_eq_iff split: sum.split intro!: same_accounts_guarded)
next
  case (ReleaseReq now auth name)
  show ?thesis
    unfolding ReleaseReq lock_exec.simps release_lock_def split_beta Let_def
    by (auto simp: same_accounts_def split: sum.split intro!: same_accounts_guarded [unfolded same_accounts_def])
qed

lemma log_event_accounts [simp]:
  "d_sessions (log_event now i a e x d) = d_sessions d" "d_teams (log_event now i a e x d) = d_teams d"
  "d_agents (log_event now i a e x d) = d_agents d" "d_tokens (log_event now i a e x d) = d_tokens d"
  by (simp_all add: log_event_def)

lemma update_task_same_accounts: "same_accounts d (snd (update_task now auth key P f event miss d))"
  unfolding update_task_def split_beta Let_def snd_conv
  by (rule same_accounts_guarded) (auto simp: same_accounts_def split: option.splits prod.splits)

lemma insert_task_accounts: "insert_task now i auth key title desc md d = Inr (j, d') \<Longrightarrow> same_accounts d d'"
  by (auto simp: insert_task_def Let_def same_accounts_def split: if_splits)

lemma task_same_accounts: "same_accounts d (task_exec q d)"
proof (cases q)
  case (CreateTaskReq X now i auth input)
  have "same_accounts d (snd (transact (create_task_tx now i auth key title desc md deps) d))" for key title desc md deps
    by (rule same_accounts_transact) (auto simp: create_task_tx_def bindE_eq_Inr Let_def same_accounts_def dest!: insert_task_accounts)
  then show ?thesis
    unfolding CreateTaskReq task_exec.simps create_task_def Let_def
    by (auto split: sum.split prod.split) (metis snd_conv)+
next
  case (ClaimReq now auth key s)
  show ?thesis
    unfolding ClaimReq task_exec.simps claim_task_def split_beta Let_def
    by (auto simp: same_accounts_def split: sum.split option.splits intro!: same_accounts_guarded [unfolded same_accounts_def])
next
  case (ClaimNextReq now locked auth s)
  show ?thesis
    unfolding ClaimNextReq task_exec.simps claim_next_task_def split_beta Let_def
    by (auto simp: same_accounts_def split: option.splits intro!: same_accounts_guarded [unfolded same_accounts_def])
next
  case (RenewLeaseReq now auth key s)
  then show ?thesis by (simp add: renew_lease_def update_task_same_accounts split: sum.split)
next
  case (ReleaseTaskReq now auth key)
  then show ?thesis by (simp add: release_task_def update_task_same_accounts split: sum.split)
next
  case (CompleteReq now auth key r)
  then show ?thesis by (simp add: complete_task_def update_task_same_accounts split: sum.split)
qed


lemma upsert_note_accounts: "upsert_note now i auth scope key v tags d = Inr (j, d') \<Longrightarrow> same_accounts d d'"
  by (auto simp: upsert_note_def Let_def same_accounts_def split: option.splits if_splits)

lemma note_same_accounts: "same_accounts d (note_exec q d)"
proof (cases q)
  case (SetReq now i auth input)
  show ?thesis
  proof (cases "check_note input")
    case (Inl e)
    with SetReq show ?thesis by (simp add: set_note_def)
  next
    case (Inr v)
    obtain scope key tags where v: "v = (scope, key, tags)" by (cases v)
    define r where "r = transact (\<lambda>d. bindE (upsert_note now i auth scope key (ns_value input) tags d)
      (\<lambda>(j, d). Inr ((), append_revision now auth j (ns_value input) d))) d"
    have "same_accounts d (snd r)"
      unfolding r_def by (rule same_accounts_transact)
        (auto simp: bindE_eq_Inr append_revision_def Let_def same_accounts_def dest!: upsert_note_accounts)
    moreover have "snd (set_note now i auth input d) = snd r"
      unfolding set_note_def Inr v sum.case prod.case r_def [symmetric] by (simp split: prod.split sum.split)
    ultimately show ?thesis using SetReq by simp
  qed
next
  case (DeleteReq auth scope key)
  then show ?thesis by (simp add: delete_note_def Let_def same_accounts_def)
qed

lemma attach_same_accounts: "same_accounts d (attach_exec q d)"
proof (cases q)
  case (AttachReq X now auth args)
  then show ?thesis
    by (cases rule: attach_file_cases [of X now auth args d]) (simp_all add: add_row_def same_accounts_def)
qed

lemma read_effect_accounts [simp]:
  "d_teams (read_effect X now auth sc input d) = d_teams d" "d_tokens (read_effect X now auth sc input d) = d_tokens d"
  by (simp_all add: read_effect_def move_cursor_def stamp_inbox_read_def Let_def)

lemma create_channel_accounts [simp]:
  "d_teams (snd (create_channel now i auth name topic d)) = d_teams d"
  "d_tokens (snd (create_channel now i auth name topic d)) = d_tokens d"
  by (cases rule: create_channel_cases [of now i auth name topic d]; simp)+

lemma message_same_accounts: "same_accounts d (msg_exec q d)"
proof (cases q)
  case (PostReq X now auth input)
  then show ?thesis
  proof (cases rule: post_message_cases [of X now auth input d])
    case (posted body md c r s to info d')
    have "d_sessions d' = d_sessions d" "d_teams d' = d_teams d" "d_agents d' = d_agents d" "d_tokens d' = d_tokens d"
      by (rule post_tx_frame [OF posted(3)]; simp)+
    with PostReq posted(4) show ?thesis by (simp add: same_accounts_def)
  qed simp
next
  case (ReadReq X now auth input)
  then show ?thesis
    by (cases rule: read_messages_cases [of X now auth input d]) (simp_all add: same_accounts_def)
next
  case (ChannelReq now i auth name topic)
  then show ?thesis by (simp add: same_accounts_def)
qed

lemma presence_same_accounts: "same_accounts d (presence_exec q d)"
proof (cases q)
  case (Beat now auth input tidied)
  then show ?thesis
    by (cases rule: heartbeat_cases [of now auth input tidied d]) (simp_all add: same_accounts_def sweep_own_def)
next
  case (SweepShared now)
  then show ?thesis by (simp add: sweep_expired_shared_rows_def Let_def same_accounts_def)
next
  case (ReadInbox X now auth input)
  then show ?thesis using message_same_accounts [of d "msg_req.ReadReq X now auth input"] by simp
qed


section \<open>Conversations and the inbox leave the rest of the bus alone\<close>

definition base_kept :: "cdb \<Rightarrow> cdb \<Rightarrow> bool" where
  "base_kept d d' \<longleftrightarrow> cd_base d' = cd_base d \<and> cd_teams d' = cd_teams d"

lemma base_kept_refl [simp]: "base_kept d d"
  by (simp add: base_kept_def)

lemma base_kept_trans: "base_kept a b \<Longrightarrow> base_kept b c \<Longrightarrow> base_kept a c"
  by (simp add: base_kept_def)

lemma audit_teams [simp]: "cd_teams (conv_audit now auth i act s d) = cd_teams d"
  by (simp add: conv_audit_def)

lemma audit_base_kept [simp]: "base_kept d0 (conv_audit now auth i act s d) = base_kept d0 d"
  by (simp add: base_kept_def)

lemmas base_keep = keep_after_checks [where R = base_kept] keep_readback [where R = base_kept]
  keep_conv_guarded [where R = base_kept] keep_transact [where R = base_kept]

lemma insert_seat_base: "insert_seat m d = Inr d' \<Longrightarrow> base_kept d d'"
  by (auto simp: insert_seat_def base_kept_def split: if_splits)

lemma put_seat_base: "put_seat new upd d = Inr d' \<Longrightarrow> base_kept d d'"
  using insert_seat_base [of new d d'] by (auto simp: put_seat_def Let_def base_kept_def split: if_splits)

lemma invite_all_base: "invite_all now fresh k auth i asked d = Inr d' \<Longrightarrow> base_kept d d'"
proof (induction asked arbitrary: k d)
  case Nil
  then show ?case by simp
next
  case (Cons a asked)
  obtain agent session where a: "a = (agent, session)" by force
  from Cons.prems obtain d1 where
    d1: "(if exists_row (seat_key_is i agent session) (cd_seats d) then Inr d
          else insert_seat (new_seat now (fresh k) auth i agent session Participant (Some 0)) d) = Inr d1"
    and rest: "invite_all now fresh (Suc k) auth i asked (conv_audit now auth (Some i) ''member.invite'' (Some agent) d1) = Inr d'"
    by (auto simp: a bindE_eq_Inr)
  have "base_kept d d1" using d1 insert_seat_base by (auto split: if_splits)
  then show ?case using Cons.IH [OF rest] by (simp add: base_kept_def)
qed

lemma create_conversation_base:
  assumes "create_conversation_tx now i fresh auth title project private asked d = Inr (x, d')"
  shows "base_kept d d'"
proof -
  from assms obtain t d1 d2 where
    d1: "insert_seat (owner_seat now (fresh 0) auth i)
      (d\<lparr>cd_conversations := cd_conversations d @ [new_thread now i auth title project private t]\<rparr>) = Inr d1"
    and d2: "invite_all now fresh 1 auth i asked d1 = Inr d2"
    and d': "d' = conv_audit now auth (Some i) ''conversation.create'' (Some i) d2"
    by (auto simp: create_conversation_tx_def bindE_eq_Inr ok_or_eq_Inr split: if_splits)
  then show ?thesis
    using insert_seat_base [OF d1] invite_all_base [OF d2] by (simp add: base_kept_def)
qed

lemma seat_tx_base:
  "invite_tx now new_id auth i agent session role from_start d = Inr (x, d') \<Longrightarrow> base_kept d d'"
  "remove_tx now auth i agent session d = Inr (x, d') \<Longrightarrow> base_kept d d'"
  "transfer_tx now new_id auth i mine session d = Inr (x, d') \<Longrightarrow> base_kept d d'"
proof -
  show "invite_tx now new_id auth i agent session role from_start d = Inr (x, d') \<Longrightarrow> base_kept d d'"
    by (erule invite_tx_put) (auto dest!: put_seat_base)
  show "remove_tx now auth i agent session d = Inr (x, d') \<Longrightarrow> base_kept d d'"
    by (auto simp: remove_tx_def base_kept_def bindE_eq_Inr Let_def split: if_splits option.splits)
  show "transfer_tx now new_id auth i mine session d = Inr (x, d') \<Longrightarrow> base_kept d d'"
    by (erule transfer_tx_put) (auto simp: base_kept_def dest!: put_seat_base)
qed

lemma insert_events_base: "insert_events es d = Inr d' \<Longrightarrow> base_kept d d'"
proof (induction es arbitrary: d)
  case Nil
  then show ?case by simp
next
  case (Cons e es)
  from Cons.prems have "insert_events es d = Inr d' \<or> insert_events es (d\<lparr>cd_events := cd_events d @ [e]\<rparr>) = Inr d'"
    by (auto split: if_splits)
  then show ?case using Cons.IH by (fastforce simp: base_kept_def)
qed

lemma enqueue_base:
  "enqueue_message_references X now fresh i d = Inr d' \<Longrightarrow> base_kept d d'"
  "enqueue_receipt_reference X now new_id i mb obs d = Inr d' \<Longrightarrow> base_kept d d'"
  by (auto simp: enqueue_message_references_def enqueue_receipt_reference_def base_kept_def
      dest!: insert_events_base [unfolded base_kept_def] split: option.splits if_splits)

lemma settle_base: "settle X now fresh l outcome d = Inr (x, d') \<Longrightarrow> base_kept d d'"
  by (cases outcome; cases "exists_row (holds_slot now l) (cd_outbox d)")
     (auto simp: settle_def mark_failed_def Let_def bindE_eq_Inr base_kept_def
      dest!: enqueue_base(1) [unfolded base_kept_def] split: if_splits)

lemma store_message_base: "store_message X now new_id key auth c input body metadata d = Inr d' \<Longrightarrow> base_kept d d'"
  by (auto simp: store_message_def enqueue_def Let_def bindE_eq_Inr base_kept_def split: if_splits)

lemma send_tx_base: "send_tx X now new_id key auth i input body metadata d = Inr (x, d') \<Longrightarrow> base_kept d d'"
  by (erule send_tx_cases) (auto dest: store_message_base)

lemma only_tombstones_base: "only_tombstones d d' \<Longrightarrow> base_kept d d'"
  by (auto simp: only_tombstones_def base_kept_def)

lemma recover_base: "base_kept d (snd (recover_history Bs now auth i after_seq limit d0 d))"
proof -
  define r where "r = transact (recover_tx now auth i (unwrap_or 0 after_seq) (clamp 1 MAX_PAGE (unwrap_or DEFAULT_PAGE limit))) d"
  have "base_kept d (snd r)"
    unfolding r_def by (rule keep_transact) (auto dest!: recover_tx_same)
  moreover have "base_kept (snd r) (snd (show_page Bs now (au_team_id auth) (\<lambda>_. None) rows (snd r)))" for rows
    by (rule only_tombstones_base [OF show_page_only])
  ultimately show ?thesis
    unfolding recover_history_def snd_case_sum Let_def r_def [symmetric]
    by (auto simp: case_prod_beta' intro: base_kept_trans split: sum.split)
qed

lemma worker_base:
  "base_kept d (snd (lease_next now worker d))" "base_kept d (snd (lease_one now worker message_id d))"
  "base_kept d (snd (pg_publish X env d))" "base_kept d (release_slot now l why d)" "base_kept d (unlease now l d)"
  "base_kept d (snd (mark_uncertain now l why d))" "base_kept d (forget_uncertain team d)" "base_kept d (clear_bodies confirmed d)"
  by (auto simp: lease_next_def lease_one_def pg_publish_def release_slot_def unlease_def mark_uncertain_def forget_uncertain_def
      clear_bodies_def base_kept_def Let_def split: option.split)

lemma set_publication_base: "set_publication i outbox d = Inr (x, d') \<Longrightarrow> base_kept d d'"
  by (auto simp: set_publication_def base_kept_def split: if_splits)


lemma ack_tx_base:
  assumes "(let P = (\<lambda>r. rr_message_id r = message_id \<and> rr_membership_id r = membership \<and>
                     exists_row (\<lambda>m. mb_id m = rr_membership_id r \<and> mb_state m = Active) (cd_seats d)) in
     if \<not> exists_row P (cd_receipts d) then Inl e
     else bindE (enqueue_receipt_reference X now new_id message_id membership obs
       (conv_audit now auth (Some i) act (Some message_id) (d\<lparr>cd_receipts := upd_where P (acknowledge now resolved note) (cd_receipts d)\<rparr>)))
       (\<lambda>d. Inr ((), d))) = Inr (x, d')"
  shows "base_kept d d'"
  using assms by (auto simp: Let_def bindE_eq_Inr base_kept_def dest!: enqueue_base(2) split: if_splits)

lemma conv_exec_base: "(\<And>f. q \<noteq> ElsewhereReq f) \<Longrightarrow> base_kept d (conv_exec q d)"
proof (cases q)
  case (CreateProjectReq now new_id auth name d0)
  show ?thesis
    unfolding CreateProjectReq conv_exec.simps create_project_def split_beta
    by (intro base_keep base_kept_refl) (auto simp: add_grant_def base_kept_def split: option.splits if_splits)
next
  case (ProjectAccessReq X now auth project agent grant d0)
  show ?thesis
    unfolding ProjectAccessReq conv_exec.simps set_project_access_def split_beta
    by (intro base_keep base_kept_refl) (auto simp: add_grant_def base_kept_def split: if_splits)
next
  case (CreateConvReq X now i fresh auth input d0)
  show ?thesis
    unfolding CreateConvReq conv_exec.simps create_conversation_def split_beta
    by (intro base_keep base_kept_refl) (auto intro: create_conversation_base)
next
  case (ArchiveReq now auth i d0)
  show ?thesis
    unfolding ArchiveReq conv_exec.simps archive_conversation_def split_beta
    by (intro base_keep base_kept_refl) (auto simp: base_kept_def dest!: after_open)
next
  case (InviteReq now new_id auth i address role from_start d0)
  show ?thesis
    unfolding InviteReq conv_exec.simps invite_def split_beta
    by (intro base_keep base_kept_refl) (auto dest: seat_tx_base(1))
next
  case (JoinReq now auth i d0)
  show ?thesis
    unfolding JoinReq conv_exec.simps join_def split_beta
    by (intro base_keep base_kept_refl) (auto simp: supersede_predecessor_def base_kept_def Let_def split: option.splits dest!: after_open)
next
  case (LeaveReq now auth i d0)
  show ?thesis
    unfolding LeaveReq conv_exec.simps leave_def split_beta
    by (intro base_keep base_kept_refl) (auto simp: base_kept_def Let_def split: if_splits)
next
  case (RemoveReq now auth i address d0)
  show ?thesis
    unfolding RemoveReq conv_exec.simps remove_member_def split_beta
    by (intro base_keep base_kept_refl) (auto dest: seat_tx_base(2))
next
  case (TransferReq now new_id auth i to d0)
  show ?thesis
    unfolding TransferReq conv_exec.simps transfer_membership_def split_beta
    by (intro base_keep base_kept_refl) (auto dest: seat_tx_base(3))
next
  case (SendReq X now new_id key auth i input d0)
  show ?thesis
    unfolding SendReq conv_exec.simps send_def split_beta
    by (intro base_keep base_kept_refl) (auto dest: send_tx_base)
next
  case (AckReq X now new_id auth message_id resolved remark d0)
  show ?thesis
    unfolding AckReq conv_exec.simps conv_ack_def split_beta
    by (intro base_keep base_kept_refl) (auto dest!: after_open dest: ack_tx_base)
next
  case (SettleReq X now fresh l outcome)
  show ?thesis
    unfolding SettleReq conv_exec.simps  split_beta
    by (intro base_keep base_kept_refl) (auto dest: settle_base)
next
  case (SetPublicationReq i outbox)
  show ?thesis
    unfolding SetPublicationReq conv_exec.simps  split_beta
    by (intro base_keep base_kept_refl) (auto dest: set_publication_base)
qed (auto simp: worker_base recover_base release_published_bodies_def
    intro: only_tombstones_base [OF conv_read_only] only_tombstones_base [OF get_message_only])


lemma upsert_delivery_base: "upsert_delivery new merge d = Inr (r, d') \<Longrightarrow> base_kept d d'"
  by (erule upsert_cases) (simp_all add: base_kept_def)

lemma hand_out_base: "hand_out_message now fresh auth key message membership dedup c d = Inr (r, d') \<Longrightarrow> base_kept d d'"
  by (erule hand_out_cases) (auto dest: upsert_delivery_base)

lemma hand_out_messages_base: "hand_out_messages now fresh auth key rows d = Inr (refs, d') \<Longrightarrow> base_kept d d'"
proof (induction rows arbitrary: d refs)
  case Nil
  then show ?case by simp
next
  case (Cons row rows)
  obtain membership m sender where row: "row = (membership, m, sender)" by (cases row)
  with Cons show ?case by (auto simp: bindE_eq_Inr intro: base_kept_trans dest!: hand_out_base split: prod.splits)
qed

lemma hand_out_receipts_base: "hand_out_receipts now fresh auth key rows d = Inr (refs, d') \<Longrightarrow> base_kept d d'"
proof (induction rows arbitrary: d refs)
  case Nil
  then show ?case by simp
next
  case (Cons row rows)
  obtain e m sender where row: "row = (e, m, sender)" by (cases row)
  with Cons show ?case by (auto simp: bindE_eq_Inr intro: base_kept_trans dest!: hand_out_base split: prod.splits)
qed

lemma record_broker_base: "record_broker_reference X now fresh auth key r d = Inr (x, d') \<Longrightarrow> base_kept d d'"
  by (auto simp: record_broker_reference_def bindE_eq_Inr Let_def dest: upsert_delivery_base split: if_splits option.splits prod.splits)

lemma record_references_base: "fst (record_references X now fresh auth key rs d) = Inr (refs, d') \<Longrightarrow> base_kept d d'"
proof (induction rs arbitrary: d refs)
  case Nil
  then show ?case by simp
next
  case (Cons r rs)
  from Cons.prems obtain handed d1 refs1 where
    "record_broker_reference X now fresh auth key r d = Inr (handed, d1)"
    "fst (record_references X now fresh auth key rs d1) = Inr (refs1, d')"
    by (auto simp: bindE_eq_Inr split: sum.splits prod.splits)
  then show ?case using Cons.IH record_broker_base by (blast intro: base_kept_trans)
qed

lemma top_up_base:
  assumes "top_up source limit (refs, d1) = Inr (refs', d2)" and "\<And>n more. source n d1 = Inr (more, d2) \<Longrightarrow> base_kept d1 d2"
  shows "base_kept d1 d2"
  using assms by (auto simp: top_up_def bindE_eq_Inr split: if_splits)

lemma fetch_tx_base:
  assumes "fst (fetch_tx X Rs now fresh auth limit d) = Inr (batch, d')"
  shows "base_kept d d'"
proof -
  let ?key = "caller_key X auth"
  obtain pulled nt where pull: "pull_references Rs auth ?key limit d = (pulled, nt)" by force
  obtain refs d1 refs2 d2 where
    r1: "fst (record_references X now fresh auth ?key pulled d) = Inr (refs, d1)"
    and r2: "top_up (reconcile_from_postgres now fresh auth ?key) limit (refs, d1) = Inr (refs2, d2)"
    and r3: "top_up (reconcile_receipt_events now fresh auth ?key) limit (refs2, d2) = Inr (xb_references batch, d')"
    using assms unfolding fetch_tx_def Let_def pull
    by (auto simp: bindE_eq_Inr split: prod.splits)
  have "base_kept d1 d2"
    by (rule top_up_base [OF r2]) (auto simp: reconcile_from_postgres_def dest: hand_out_messages_base)
  moreover have "base_kept d2 d'"
    by (rule top_up_base [OF r3]) (auto simp: reconcile_receipt_events_def dest: hand_out_receipts_base)
  ultimately show ?thesis using record_references_base [OF r1] base_kept_trans by blast
qed

lemma fetch_base: "base_kept d (snd (snd (fetch X Rs now fresh auth limit d0 d)))"
  using fetch_tx_base [of X Rs now fresh auth "clamp 1 MAX_BATCH (unwrap_or DEFAULT_BATCH limit)" d]
  by (auto simp: fetch_def split: sum.splits prod.splits)

lemma confirm_base: "base_kept d (snd (snd (confirm X Rs now auth ids d0 d)))"
proof (cases "fst (confirm X Rs now auth ids d0 d)")
  case (Inl e)
  then show ?thesis by (auto simp: confirm_def split: sum.splits prod.splits)
next
  case (Inr answer)
  then obtain acks d' where c: "confirm X Rs now auth ids d0 d = (Inr answer, acks, d')"
    by (metis prod.collapse)
  then obtain parsed subjects where "confirm_tx X now auth parsed d = ((answer, subjects), d')"
    by (rule confirm_Inr)
  then have "base_kept d d'"
    by (auto simp: confirm_tx_def Let_def base_kept_def split: if_splits)
  then show ?thesis by (simp add: c)
qed

lemma publish_base: "base_kept d (snd (publish_pending now pub team limit d0 d))"
proof -
  obtain rows where "snd (publish_pending now pub team limit d0 d) = d\<lparr>cd_events := rows\<rparr>"
    using publish_events_rows unfolding publish_pending_def by blast
  then show ?thesis by (simp add: base_kept_def)
qed

definition elsewhere :: "inbox_req \<Rightarrow> bool" where
  "elsewhere q \<longleftrightarrow> (\<exists>f. q = ThreadReq (ElsewhereReq f))"

lemma inbox_exec_base: "\<not> elsewhere q \<Longrightarrow> base_kept d (inbox_exec q d)"
  by (cases q) (auto simp: elsewhere_def fetch_base confirm_base publish_base intro: conv_exec_base)

lemma bus_exec_inbox: "bus_exec (InboxQ q) d = (if elsewhere q then d else inbox_exec q d)"
proof (cases q)
  case (ThreadReq c)
  then show ?thesis by (cases c) (simp_all add: elsewhere_def)
qed (simp_all add: elsewhere_def)

lemma bus_sessions: "d_sessions (cd_base (bus_exec q d)) = (case q of
    WindowQ r \<Rightarrow> d_sessions (session_exec r (cd_base d)) | _ \<Rightarrow> d_sessions (cd_base d))"
proof (cases q)
  case (InboxQ r)
  then show ?thesis using inbox_exec_base [of r d] by (simp add: bus_exec_inbox base_kept_def del: bus_exec.simps)
qed (use lock_same_accounts task_same_accounts note_same_accounts attach_same_accounts message_same_accounts presence_same_accounts
     in \<open>auto simp: same_accounts_def\<close>)

lemma session_accounts:
  "d_teams (session_exec q d) = d_teams d \<and> d_agents (session_exec q d) = d_agents d \<and> d_tokens (session_exec q d) = d_tokens d"
proof -
  have "session_exec q d = d\<lparr>d_sessions := d_sessions (session_exec q d)\<rparr>"
    using session_exec_refines [of d q] by (simp add: session_refines_def only_sessions_def)
  then show ?thesis by (metis db.select_convs(1,2,3) db.surjective db.update_convs(4))
qed

text \<open>No request of the bus makes, changes or removes a team, an agent or a token, or a team's settings.\<close>

lemma bus_accounts:
  "d_teams (cd_base (bus_exec q d)) = d_teams (cd_base d) \<and> d_agents (cd_base (bus_exec q d)) = d_agents (cd_base d) \<and>
   d_tokens (cd_base (bus_exec q d)) = d_tokens (cd_base d) \<and> cd_teams (bus_exec q d) = cd_teams d"
proof (cases q)
  case (InboxQ r)
  then show ?thesis using inbox_exec_base [of r d] by (simp add: bus_exec_inbox base_kept_def del: bus_exec.simps)
qed (use lock_same_accounts task_same_accounts note_same_accounts attach_same_accounts message_same_accounts
     presence_same_accounts session_accounts in \<open>auto simp: same_accounts_def\<close>)

lemma bus_sessions_cases:
  obtains (session) r where "q = WindowQ r" "cd_base (bus_exec q d) = session_exec r (cd_base d)"
    | (other) "d_sessions (cd_base (bus_exec q d)) = d_sessions (cd_base d)"
proof (cases "\<exists>r. q = WindowQ r")
  case True
  then obtain r where "q = WindowQ r" by blast
  then show ?thesis by (intro session [of r]) simp_all
next
  case False
  then have "d_sessions (cd_base (bus_exec q d)) = d_sessions (cd_base d)"
    unfolding bus_sessions by (simp split: bus_req.split)
  then show ?thesis by (rule other)
qed

lemma superseded_sessions: "d_sessions d' = d_sessions d \<Longrightarrow> superseded_ctx d' auth = superseded_ctx d auth"
  by (simp only: superseded_ctx_def)

lemma bus_windows_wf: "sessions_wf (cd_base d) \<Longrightarrow> sessions_wf (cd_base (bus_exec q d))"
proof (cases rule: bus_sessions_cases [of q d])
  case (session r)
  then show "sessions_wf (cd_base d) \<Longrightarrow> ?thesis" by (simp only: windows.invar_step)
next
  case other
  then show "sessions_wf (cd_base d) \<Longrightarrow> ?thesis" by (simp only: sessions_wf_table)
qed

lemma bus_superseded: "superseded_ctx (cd_base d) auth \<Longrightarrow> superseded_ctx (cd_base (bus_exec q d)) auth"
proof (cases rule: bus_sessions_cases [of q d])
  case (session r)
  then show "superseded_ctx (cd_base d) auth \<Longrightarrow> ?thesis" by (simp only: outdated.invar_step)
next
  case other
  then show "superseded_ctx (cd_base d) auth \<Longrightarrow> ?thesis" by (rule superseded_sessions [THEN iffD2])
qed

section \<open>The fence\<close>

text \<open>Whose credential a fenced write carries, and when it runs.\<close>

fun conv_fence :: "conv_req \<Rightarrow> (time \<times> auth_ctx) option" where
  "conv_fence (CreateProjectReq now new_id auth name d0) = Some (now, auth)"
| "conv_fence (ProjectAccessReq X now auth project agent grant d0) = Some (now, auth)"
| "conv_fence (CreateConvReq X now i fresh auth input d0) = Some (now, auth)"
| "conv_fence (ArchiveReq now auth i d0) = Some (now, auth)"
| "conv_fence (InviteReq now new_id auth i address role from_start d0) = Some (now, auth)"
| "conv_fence (JoinReq now auth i d0) = Some (now, auth)"
| "conv_fence (LeaveReq now auth i d0) = Some (now, auth)"
| "conv_fence (RemoveReq now auth i address d0) = Some (now, auth)"
| "conv_fence (TransferReq now new_id auth i to d0) = Some (now, auth)"
| "conv_fence (SendReq X now new_id key auth i input d0) = Some (now, auth)"
| "conv_fence (AckReq X now new_id auth message_id resolved remark d0) = Some (now, auth)"
| "conv_fence q = None"

fun bus_fence :: "bus_req \<Rightarrow> (time \<times> auth_ctx) option" where
  "bus_fence (WindowQ (RevokeReq now auth l)) = Some (now, auth)"
| "bus_fence (LockQ (AcquireReq now auth name ttl purpose)) = Some (now, auth)"
| "bus_fence (LockQ (ReleaseReq now auth name)) = Some (now, auth)"
| "bus_fence (TaskQ (ClaimReq now auth key s)) = Some (now, auth)"
| "bus_fence (TaskQ (ClaimNextReq now locked auth s)) = Some (now, auth)"
| "bus_fence (TaskQ (RenewLeaseReq now auth key s)) = Some (now, auth)"
| "bus_fence (TaskQ (ReleaseTaskReq now auth key)) = Some (now, auth)"
| "bus_fence (TaskQ (CompleteReq now auth key r)) = Some (now, auth)"
| "bus_fence (MessageQ (PostReq X now auth input)) = Some (now, auth)"
| "bus_fence (PresenceQ (Beat now auth input tidied)) = Some (now, auth)"
| "bus_fence (InboxQ (ThreadReq q)) = conv_fence q"
| "bus_fence (InboxQ (FetchReq X Rs now fresh auth limit d0)) = Some (now, auth)"
| "bus_fence (InboxQ (ConfirmReq X Rs now auth ids d0)) = Some (now, auth)"
| "bus_fence q = None"

lemma guarded_void: "guard now auth d \<noteq> Inr () \<Longrightarrow> snd (guarded now auth body d) = d"
  by (simp add: guarded_state)

lemma conv_guarded_void: "guard now auth (cd_base d) \<noteq> Inr () \<Longrightarrow> snd (conv_guarded now auth body d) = d"
  by (cases "guard now auth (cd_base d)") (auto simp: conv_guarded_def transact_def)

lemma keep_conv_guarded_void: "R d d \<Longrightarrow> guard now auth (cd_base d) \<noteq> Inr () \<Longrightarrow> R d (snd (conv_guarded now auth body d))"
  by (simp add: conv_guarded_void)

definition untouched :: "cdb \<Rightarrow> cdb \<Rightarrow> bool" where
  "untouched d d' \<longleftrightarrow> d' = d"

lemma untouched_refl [simp]: "untouched d d"
  by (simp add: untouched_def)

lemmas void_keep = keep_after_checks [where R = untouched] keep_readback [where R = untouched]
  keep_conv_guarded_void [where R = untouched]

lemma conv_fence_void:
  assumes "conv_fence q = Some (now, auth)" and "guard now auth (cd_base d) \<noteq> Inr ()"
  shows "untouched d (conv_exec q d)"
proof (cases q)
  case (CreateProjectReq t new_id a name d0)
  with assms have g: "guard t a (cd_base d) \<noteq> Inr ()" by simp
  show ?thesis
    unfolding CreateProjectReq conv_exec.simps create_project_def split_beta
    by (intro void_keep untouched_refl g)
next
  case (ProjectAccessReq X t a project agent grant d0)
  with assms have g: "guard t a (cd_base d) \<noteq> Inr ()" by simp
  show ?thesis
    unfolding ProjectAccessReq conv_exec.simps set_project_access_def split_beta
    by (intro void_keep untouched_refl g)
next
  case (CreateConvReq X t i fresh a input d0)
  with assms have g: "guard t a (cd_base d) \<noteq> Inr ()" by simp
  show ?thesis
    unfolding CreateConvReq conv_exec.simps create_conversation_def split_beta
    by (intro void_keep untouched_refl g)
next
  case (ArchiveReq t a i d0)
  with assms have g: "guard t a (cd_base d) \<noteq> Inr ()" by simp
  show ?thesis
    unfolding ArchiveReq conv_exec.simps archive_conversation_def split_beta
    by (intro void_keep untouched_refl g)
next
  case (InviteReq t new_id a i address role from_start d0)
  with assms have g: "guard t a (cd_base d) \<noteq> Inr ()" by simp
  show ?thesis
    unfolding InviteReq conv_exec.simps invite_def split_beta
    by (intro void_keep untouched_refl g)
next
  case (JoinReq t a i d0)
  with assms have g: "guard t a (cd_base d) \<noteq> Inr ()" by simp
  show ?thesis
    unfolding JoinReq conv_exec.simps join_def split_beta
    by (intro void_keep untouched_refl g)
next
  case (LeaveReq t a i d0)
  with assms have g: "guard t a (cd_base d) \<noteq> Inr ()" by simp
  show ?thesis
    unfolding LeaveReq conv_exec.simps leave_def split_beta
    by (intro void_keep untouched_refl g)
next
  case (RemoveReq t a i address d0)
  with assms have g: "guard t a (cd_base d) \<noteq> Inr ()" by simp
  show ?thesis
    unfolding RemoveReq conv_exec.simps remove_member_def split_beta
    by (intro void_keep untouched_refl g)
next
  case (TransferReq t new_id a i to d0)
  with assms have g: "guard t a (cd_base d) \<noteq> Inr ()" by simp
  show ?thesis
    unfolding TransferReq conv_exec.simps transfer_membership_def split_beta
    by (intro void_keep untouched_refl g)
next
  case (SendReq X t new_id key a i input d0)
  with assms have g: "guard t a (cd_base d) \<noteq> Inr ()" by simp
  show ?thesis
    unfolding SendReq conv_exec.simps send_def split_beta
    by (intro void_keep untouched_refl g)
next
  case (AckReq X t new_id a message_id resolved remark d0)
  with assms have g: "guard t a (cd_base d) \<noteq> Inr ()" by simp
  show ?thesis
    unfolding AckReq conv_exec.simps conv_ack_def split_beta
    by (intro void_keep untouched_refl g)
qed (use assms in simp_all)


lemma lock_fence_void:
  assumes "bus_fence (LockQ q) = Some (now, auth)" and "guard now auth d \<noteq> Inr ()"
  shows "lock_exec q d = d"
proof (cases q)
  case (AcquireReq t a name ttl purpose)
  with assms have "guard t a d \<noteq> Inr ()" by simp
  then show ?thesis
    unfolding AcquireReq lock_exec.simps acquire_lock_def split_beta Let_def
    by (simp add: guarded_void split: sum.split)
next
  case (ReleaseReq t a name)
  with assms have "guard t a d \<noteq> Inr ()" by simp
  then show ?thesis
    unfolding ReleaseReq lock_exec.simps release_lock_def split_beta Let_def
    by (simp add: guarded_void split: sum.split)
qed

lemma update_task_void: "guard now auth d \<noteq> Inr () \<Longrightarrow> snd (update_task now auth key P f event miss d) = d"
  unfolding update_task_def split_beta Let_def by (simp add: guarded_void)

lemma task_fence_void:
  assumes "bus_fence (TaskQ q) = Some (now, auth)" and "guard now auth d \<noteq> Inr ()"
  shows "task_exec q d = d"
proof (cases q)
  case (ClaimReq t a key s)
  with assms have "guard t a d \<noteq> Inr ()" by simp
  then show ?thesis
    unfolding ClaimReq task_exec.simps claim_task_def split_beta Let_def
    by (simp add: guarded_void split: sum.split)
next
  case (ClaimNextReq t locked a s)
  with assms have "guard t a d \<noteq> Inr ()" by simp
  then show ?thesis
    unfolding ClaimNextReq task_exec.simps claim_next_task_def split_beta Let_def by (simp add: guarded_void)
next
  case (RenewLeaseReq t a key s)
  with assms show ?thesis by (simp add: renew_lease_def update_task_void split: sum.split)
next
  case (ReleaseTaskReq t a key)
  with assms show ?thesis by (simp add: release_task_def update_task_void split: sum.split)
next
  case (CompleteReq t a key r)
  with assms show ?thesis by (simp add: complete_task_def update_task_void split: sum.split)
qed (use assms in simp_all)

lemma heartbeat_void:
  assumes "guard now auth d \<noteq> Inr ()"
  shows "snd (heartbeat now auth input tidied d) = d"
proof -
  obtain e where "guard now auth d = Inl e" using assms by (cases "guard now auth d") auto
  then have "guarded now auth (heartbeat_tx now auth a) d = (Inl e, d)" for a by (rule guarded_refused)
  then show ?thesis by (simp add: heartbeat_def split: sum.split)
qed

lemma fetch_void:
  assumes "guard now auth (cd_base d) \<noteq> Inr ()"
  shows "snd (snd (fetch X Rs now fresh auth limit d0 d)) = d"
  using assms by (cases "guard now auth (cd_base d)") (auto simp: fetch_def bindE_def split: sum.split)

lemma confirm_void:
  assumes "guard now auth (cd_base d) \<noteq> Inr ()"
  shows "snd (snd (confirm X Rs now auth ids d0 d)) = d"
proof -
  obtain e where e: "guard now auth (cd_base d) = Inl e" using assms by (cases "guard now auth (cd_base d)") auto
  show ?thesis by (auto simp: confirm_def e bindE_eq_Inr split: sum.splits)
qed

lemma revoke_void:
  assumes "guard now auth d \<noteq> Inr ()"
  shows "snd (revoke now auth l d) = d"
proof -
  obtain e where e: "guard now auth d = Inl e" using assms by (cases "guard now auth d") auto
  show ?thesis by (auto simp: revoke_def transact_def e bindE_def lock_agent_def split: sum.split)
qed

text \<open>A write its caller may not make leaves the state as it is.\<close>

lemma fence_void:
  assumes "bus_fence q = Some (now, auth)" and "guard now auth (cd_base d) \<noteq> Inr ()"
  shows "bus_exec q d = d"
proof (cases q)
  case (WindowQ r)
  with assms show ?thesis by (cases r) (simp_all add: revoke_void)
next
  case (LockQ r)
  with assms lock_fence_void [of r now auth "cd_base d"] show ?thesis by (simp del: lock_exec.simps)
next
  case (TaskQ r)
  with assms task_fence_void [of r now auth "cd_base d"] show ?thesis by (simp del: task_exec.simps)
next
  case (MessageQ r)
  show ?thesis
  proof (cases r)
    case (PostReq X t a input)
    with assms MessageQ show ?thesis by (cases rule: post_message_cases [of X t a input "cd_base d"]) simp_all
  qed (use assms MessageQ in simp_all)
next
  case (PresenceQ r)
  with assms show ?thesis by (cases r) (simp_all add: heartbeat_void)
next
  case (InboxQ r)
  show ?thesis
  proof (cases r)
    case (ThreadReq c)
    with assms InboxQ conv_fence_void [of c now auth d] show ?thesis by (simp add: bus_exec_inbox untouched_def del: bus_exec.simps)
  qed (use assms InboxQ in \<open>simp_all add: bus_exec_inbox elsewhere_def fetch_void confirm_void del: bus_exec.simps\<close>)
qed (use assms in simp_all)


text \<open>Registering, resuming and renewing have no separate guard: they name the window and its epoch themselves.\<close>

fun credential :: "bus_req \<Rightarrow> auth_ctx option" where
  "credential (WindowQ (RegisterReq X now i r auth par l ttl)) = Some auth"
| "credential (WindowQ (ResumeReq X now r auth ttl)) = Some auth"
| "credential (WindowQ (RenewReq now auth ttl)) = Some auth"
| "credential q = map_option snd (bus_fence q)"

lemma superseded_no_row:
  assumes "sessions_wf d" and "superseded_ctx d auth"
  obtains i where "au_session_id auth = Some i"
    "find (\<lambda>s. se_id s = i \<and> se_revoked_at s = None \<and> se_epoch s = unwrap_or 0 (au_session_epoch auth)) (d_sessions d) = None"
    "find (\<lambda>s. se_id s = i \<and> se_revoked_at s = None \<and> se_epoch s = unwrap_or 0 (au_session_epoch auth) \<and> \<not> parent_revoked d s)
       (d_sessions d) = None"
proof -
  obtain i e c where k: "au_session_id auth = Some i" "au_session_epoch auth = Some e"
    "epoch_in (d_sessions d) i = Some c" "e < c"
    using assms(2) by (auto simp: superseded_ctx_def split: option.splits)
  have "se_epoch s = c" if "s \<in> set (d_sessions d)" "se_id s = i" for s
    using find_by_id [OF assms(1) that(1)] that(2) k(3) by (auto simp: epoch_in_def)
  with k show thesis by (intro that [of i]) (auto simp: find_None_set)
qed

lemma lifecycle_void:
  assumes "sessions_wf d" and "superseded_ctx d auth" and "credential (WindowQ q) = Some auth" and "bus_fence (WindowQ q) = None"
  shows "session_exec q d = d"
proof -
  obtain i where i: "au_session_id auth = Some i"
    "find (\<lambda>s. se_id s = i \<and> se_revoked_at s = None \<and> se_epoch s = unwrap_or 0 (au_session_epoch auth)) (d_sessions d) = None"
    "find (\<lambda>s. se_id s = i \<and> se_revoked_at s = None \<and> se_epoch s = unwrap_or 0 (au_session_epoch auth) \<and> \<not> parent_revoked d s)
       (d_sessions d) = None"
    using superseded_no_row [OF assms(1,2)] by blast
  show ?thesis
  proof (cases q)
    case (RegisterReq X now j r a par l ttl)
    with assms(3) i(1) show ?thesis by (simp add: register_def session_is_authenticated_def)
  next
    case (ResumeReq X now r a ttl)
    with assms(3) have a: "a = auth" by simp
    have "snd (transact (\<lambda>d. bindE (lock_agent d (au_agent_id auth)) (\<lambda>_. rotate_session now i (unwrap_or 0 (au_session_epoch auth))
        (hash_token X (generate_session_token r)) (token_prefix (generate_session_token r)) (now + secs (ttl_of ttl)) d)) d) = d"
      by (rule keep_transact) (auto simp: bindE_eq_Inr rotate_session_def Let_def i(3))
    then show ?thesis using ResumeReq a i(1) by (simp add: resume_def Let_def split_beta)
  next
    case (RenewReq now a ttl)
    with assms(3) i show ?thesis by (simp add: renew_def Let_def)
  qed (use assms(4) in simp)
qed

definition bus_stale :: "cdb \<Rightarrow> bus_req \<Rightarrow> bool" where
  "bus_stale d q \<longleftrightarrow> sessions_wf (cd_base d) \<and>
     (case credential q of None \<Rightarrow> False | Some auth \<Rightarrow> superseded_ctx (cd_base d) auth)"

definition bus_refused :: "cdb \<Rightarrow> bus_req \<Rightarrow> bool" where
  "bus_refused d q \<longleftrightarrow> (case bus_fence q of
      Some (now, auth) \<Rightarrow> guard now auth (cd_base d) \<noteq> Inr ()
    | None \<Rightarrow> bus_stale d q)"

lemma bus_refused_void:
  assumes "bus_refused d q"
  shows "bus_exec q d = d"
proof (cases "bus_fence q")
  case None
  with assms obtain auth where a: "credential q = Some auth" "sessions_wf (cd_base d)" "superseded_ctx (cd_base d) auth"
    by (auto simp: bus_refused_def bus_stale_def split: option.splits)
  have "credential q = map_option snd (bus_fence q) \<or> (\<exists>r. q = WindowQ r)"
    by (cases q rule: credential.cases) simp_all
  with a(1) None obtain r where r: "q = WindowQ r" by auto
  with lifecycle_void [OF a(2,3)] a(1) None show ?thesis by simp
next
  case (Some x)
  then show ?thesis using assms fence_void by (auto simp: bus_refused_def split: prod.splits)
qed

lemma fence_credential: "bus_fence q = Some (now, auth) \<Longrightarrow> credential q = Some auth"
  by (cases q rule: credential.cases) simp_all

interpretation bus: fenced bus_exec bus_refused bus_stale
proof
  fix d :: cdb and q :: bus_req
  show "bus_refused d q \<Longrightarrow> bus_exec q d = d" by (rule bus_refused_void)
  show "bus_stale d q \<Longrightarrow> bus_refused d q"
    by (auto simp: bus_refused_def bus_stale_def fence_credential superseded_ctx_refused split: option.splits)
  show "bus_stale d q \<Longrightarrow> bus_stale (bus_exec q' d) q" for q'
    by (auto simp: bus_stale_def bus_windows_wf bus_superseded split: option.splits)
qed

section \<open>Property\<close>

definition demo_bus :: cdb where
  "demo_bus = (start_cdb ''postgres'')\<lparr>cd_base := snd (resume demo_ext 7 ''2'' ana_api None demo_db)\<rparr>"

definition demo_bus_run :: "bus_req list" where
  "demo_bus_run =
     [LockQ (AcquireReq 8 ana_api ''build'' None None), TaskQ (ClaimReq 9 bo ''a'' None),
      WindowQ (ResumeReq demo_ext 10 ''3'' ana_api None), PresenceQ (Beat 11 ana_api demo_beat True)]"



end
