(* ===== verification/AdminRuns.thy ===== *)
theory AdminRuns
  imports AdminSteps Bus
begin

text \<open>
  Administration beside a running bus: requests to \<^verbatim>\<open>/admin\<close>, operator commands, agents signing in
  and every request of the bus, interleaved in any order, on one state.
\<close>

section \<open>The service\<close>

datatype service_req =
    AdminQ ext rounding nat time uuid string headers admin_req
  | CliQ cli_req
  | SignInQ ext time string
  | BusQ bus_req

fun service_exec :: "service_req \<Rightarrow> admin_api_state \<Rightarrow> admin_api_state" where
  "service_exec (AdminQ X rnd inst now i rand h q) st = snd (admin_request X rnd inst now i rand h q st)"
| "service_exec (CliQ c) st = st\<lparr>ap_db := snd (cli_run c (ap_db st))\<rparr>"
| "service_exec (SignInQ X now raw) st = st\<lparr>ap_db := on_db (\<lambda>b. snd (resolve_token X now raw b)) (ap_db st)\<rparr>"
| "service_exec (BusQ q) st = st\<lparr>ap_db := (ap_db st)\<lparr>ab_bus := bus_exec q (ab_bus (ap_db st))\<rparr>\<rparr>"

text \<open>What a request comes to: steps of the administration's machine, stamps of use, and bus requests.\<close>

inductive service_step :: "adb \<Rightarrow> adb \<Rightarrow> bool" for d :: adb where
  administered: "admin_step sc act d d' \<Longrightarrow> service_step d d'"
| token_used: "\<forall>k. f k = k\<lparr>tk_last_used_at := tk_last_used_at (f k)\<rparr> \<Longrightarrow>
    service_step d (on_db (\<lambda>b. b\<lparr>d_tokens := upd_where P f (d_tokens b)\<rparr>) d)"
| session_used: "\<forall>s. f s = s\<lparr>se_last_used_at := se_last_used_at (f s)\<rparr> \<Longrightarrow>
    service_step d (on_db (\<lambda>b. b\<lparr>d_sessions := upd_where P f (d_sessions b)\<rparr>) d)"
| credential_used: "\<forall>c. f c = c\<lparr>ad_last_used_at := ad_last_used_at (f c)\<rparr> \<Longrightarrow>
    service_step d (d\<lparr>ab_admins := upd_where P f (ab_admins d)\<rparr>)"
| served: "service_step d (d\<lparr>ab_bus := bus_exec q (ab_bus d)\<rparr>)"

abbreviation service_path :: "adb \<Rightarrow> adb \<Rightarrow> bool" where
  "service_path \<equiv> rtranclp service_step"

section \<open>The accounts stay well-formed\<close>

lemma sessions_wf_cong: "d_sessions b' = d_sessions b \<Longrightarrow> sessions_wf b' = sessions_wf b"
  by (simp add: sessions_wf_table)

lemma sessions_wf_touched:
  assumes "\<forall>r. se_id (f r) = se_id r \<and> se_agent_id (f r) = se_agent_id r \<and> se_label (f r) = se_label r \<and>
      se_epoch (f r) = se_epoch r \<and> se_token_hash (f r) = se_token_hash r"
    and "sessions_wf b" and "d_sessions b' = upd_where P f (d_sessions b)"
  shows "sessions_wf b'"
  using window_step_wf [OF window_step.touched [OF assms(1), of "d_sessions b" P]] assms(2,3) by (simp add: sessions_wf_table)

lemma on_db_simps [simp]:
  "ab_admins (on_db f d) = ab_admins d" "ab_audit (on_db f d) = ab_audit d" "ab_db (on_db f d) = f (ab_db d)"
  "cd_teams (ab_bus (on_db f d)) = cd_teams (ab_bus d)"
  by (simp_all add: on_db_def)

lemma change_wf:
  assumes "admin_change sc d d'" and "admin_wf d"
  shows "admin_wf d'"
  using assms(1)
proof (cases rule: admin_change.cases)
  case (token_cut k a now)
  have old: "sessions_wf (ab_db d)" using assms(2) by (simp add: admin_wf_def)
  have "sessions_wf (ab_db d')"
    by (rule sessions_wf_touched [OF _ old, where P = "\<lambda>s. se_parent_token s = tk_id k \<and> se_revoked_at s = None"
        and f = "\<lambda>s. s\<lparr>se_revoked_at := Some now\<rparr>"]) (simp_all add: token_cut(1))
  moreover have "swept (ab_db d')"
    unfolding swept_def
  proof
    fix s' assume "s' \<in> set (d_sessions (ab_db d'))"
    then obtain s where s: "s \<in> set (d_sessions (ab_db d))"
        "s' = (if se_parent_token s = tk_id k \<and> se_revoked_at s = None then s\<lparr>se_revoked_at := Some now\<rparr> else s)"
      unfolding token_cut(1) by (auto simp: tbl)
    with assms(2) obtain t where t: "t \<in> set (d_tokens (ab_db d))" "tk_id t = se_parent_token s" "tk_agent_id t = se_agent_id s"
        "tk_revoked_at t \<noteq> None \<longrightarrow> se_revoked_at s \<noteq> None"
      by (auto simp: admin_wf_def swept_def)
    let ?t = "if tk_id t = tk_id k then t\<lparr>tk_revoked_at := Some now\<rparr> else t"
    have "?t \<in> set (d_tokens (ab_db d'))" using t(1) unfolding token_cut(1) by (auto simp: tbl)
    moreover have "tk_id ?t = se_parent_token s' \<and> tk_agent_id ?t = se_agent_id s' \<and> (tk_revoked_at ?t \<noteq> None \<longrightarrow> se_revoked_at s' \<noteq> None)"
      using s(2) t by auto
    ultimately show "\<exists>t' \<in> set (d_tokens (ab_db d')). tk_id t' = se_parent_token s' \<and>
        tk_agent_id t' = se_agent_id s' \<and> (tk_revoked_at t' \<noteq> None \<longrightarrow> se_revoked_at s' \<noteq> None)" by blast
  qed
  ultimately show ?thesis
    using assms(2) unfolding token_cut(1) by (simp add: admin_wf_def map_upd_where_same image_upd_where_same)
next
  case (agent_made a)
  with assms(2) show ?thesis by (simp add: admin_wf_def swept_def sessions_wf_table) (auto simp: image_iff)
next
  case (agent_set f P)
  with assms(2) show ?thesis by (simp add: admin_wf_def swept_def sessions_wf_table map_upd_where_same image_upd_where_same)
next
  case (token_made a k)
  with assms(2) show ?thesis by (simp add: admin_wf_def swept_def sessions_wf_table) (auto simp: image_iff)
next
  case (credential_made c)
  with assms(2) show ?thesis by (simp add: admin_wf_def swept_def sessions_wf_table) (auto simp: image_iff)
next
  case (credential_cut c now)
  with assms(2) show ?thesis
    by (simp add: admin_wf_def swept_def sessions_wf_table map_upd_where_same image_upd_where_same) (auto simp: set_upd_where)
next
  case team_made
  with assms(2) show ?thesis by (simp add: admin_wf_def swept_def sessions_wf_table)
next
  case team_set
  with assms(2) show ?thesis by (simp add: admin_wf_def)
qed

lemma step_wf:
  assumes "admin_step sc act d d'" and "admin_wf d"
  shows "admin_wf d'"
  using assms(1)
proof (cases rule: admin_step.cases)
  case nothing
  with assms(2) show ?thesis by simp
next
  case (renamed P f)
  have "map ag_id (upd_where P f (d_agents (ab_db d))) = map ag_id (d_agents (ab_db d))"
    using renamed(2) by (intro map_upd_where_set) (metis agent_row.select_convs(1) agent_row.surjective agent_row.update_convs(4))
  moreover from this have "ag_id ` set (upd_where P f (d_agents (ab_db d))) = ag_id ` set (d_agents (ab_db d))"
    by (metis list.set_map)
  ultimately show ?thesis using assms(2) renamed by (simp add: admin_wf_def swept_def sessions_wf_table)
next
  case (recorded d1 w)
  then have "admin_wf d1" using change_wf assms(2) by blast
  with recorded show ?thesis by (simp add: admin_wf_def)
qed

lemma swept_upd:
  assumes "swept b" and "\<And>s. s \<in> set (d_sessions b) \<Longrightarrow> P s \<Longrightarrow>
      se_parent_token (f s) = se_parent_token s \<and> se_agent_id (f s) = se_agent_id s \<and>
      (se_revoked_at s \<noteq> None \<longrightarrow> se_revoked_at (f s) \<noteq> None)"
  shows "swept (b\<lparr>d_sessions := upd_where P f (d_sessions b)\<rparr>)"
  unfolding swept_def
proof
  fix s' assume "s' \<in> set (d_sessions (b\<lparr>d_sessions := upd_where P f (d_sessions b)\<rparr>))"
  then obtain s where s: "s \<in> set (d_sessions b)" "s' = (if P s then f s else s)" by (auto simp: tbl)
  with assms(1) obtain k where "k \<in> set (d_tokens b)" "tk_id k = se_parent_token s" "tk_agent_id k = se_agent_id s"
      "tk_revoked_at k \<noteq> None \<longrightarrow> se_revoked_at s \<noteq> None" by (auto simp: swept_def)
  with s assms(2) [OF s(1)] show "\<exists>k \<in> set (d_tokens (b\<lparr>d_sessions := upd_where P f (d_sessions b)\<rparr>)).
      tk_id k = se_parent_token s' \<and> tk_agent_id k = se_agent_id s' \<and> (tk_revoked_at k \<noteq> None \<longrightarrow> se_revoked_at s' \<noteq> None)"
    by (intro bexI [where x = k]) auto
qed

lemma swept_tokens:
  assumes "swept b" and "d_sessions b' = d_sessions b"
    and "\<And>k. k \<in> set (d_tokens b) \<Longrightarrow> \<exists>k' \<in> set (d_tokens b'). tk_id k' = tk_id k \<and> tk_agent_id k' = tk_agent_id k \<and> tk_revoked_at k' = tk_revoked_at k"
  shows "swept b'"
  unfolding swept_def
proof
  fix s assume "s \<in> set (d_sessions b')"
  with assms(1,2) obtain k where "k \<in> set (d_tokens b)" "tk_id k = se_parent_token s" "tk_agent_id k = se_agent_id s"
      "tk_revoked_at k \<noteq> None \<longrightarrow> se_revoked_at s \<noteq> None" by (auto simp: swept_def)
  with assms(3) [of k] show "\<exists>k \<in> set (d_tokens b'). tk_id k = se_parent_token s \<and> tk_agent_id k = se_agent_id s \<and>
      (tk_revoked_at k \<noteq> None \<longrightarrow> se_revoked_at s \<noteq> None)" by auto
qed

lemma upsert_session_swept:
  assumes "upsert_session now i h p a par l e b = Inr (x, b')" and "swept b" and "parent_live b par a"
  shows "swept b'"
proof -
  from assms(3) obtain k where k: "k \<in> set (d_tokens b)" "tk_id k = par" "tk_agent_id k = a" "tk_revoked_at k = None"
    by (auto simp: parent_live_def split: option.splits dest: find_SomeD)
  show ?thesis
  proof (cases "find (\<lambda>s. se_agent_id s = a \<and> se_label s = l) (d_sessions b)")
    case None
    with assms(1) obtain r where r: "b' = b\<lparr>d_sessions := d_sessions b @ [r]\<rparr>" "se_parent_token r = par" "se_agent_id r = a"
      by (auto simp: upsert_session_def split: if_splits)
    have "\<exists>t \<in> set (d_tokens b). tk_id t = par \<and> tk_agent_id t = a \<and> (tk_revoked_at t \<noteq> None \<longrightarrow> se_revoked_at r \<noteq> None)"
      using k by blast
    with assms(2) show ?thesis by (simp add: swept_def r)
  next
    case (Some s)
    let ?P = "\<lambda>r. se_agent_id r = a \<and> se_label r = l"
    let ?f = "\<lambda>r. r\<lparr>se_parent_token := par, se_token_hash := h, se_prefix := p, se_epoch := se_epoch r + 1, se_expires_at := e,
      se_revoked_at := None, se_last_used_at := None\<rparr>"
    have "swept (b\<lparr>d_sessions := upd_where ?P ?f (d_sessions b)\<rparr>)"
      unfolding swept_def
    proof
      fix s' assume "s' \<in> set (d_sessions (b\<lparr>d_sessions := upd_where ?P ?f (d_sessions b)\<rparr>))"
      then obtain r where r: "r \<in> set (d_sessions b)" "s' = (if ?P r then ?f r else r)" by (auto simp: tbl)
      show "\<exists>t \<in> set (d_tokens (b\<lparr>d_sessions := upd_where ?P ?f (d_sessions b)\<rparr>)). tk_id t = se_parent_token s' \<and>
          tk_agent_id t = se_agent_id s' \<and> (tk_revoked_at t \<noteq> None \<longrightarrow> se_revoked_at s' \<noteq> None)"
      proof (cases "?P r")
        case True
        with r k show ?thesis by (intro bexI [where x = k]) auto
      next
        case False
        with r assms(2) show ?thesis by (auto simp: swept_def)
      qed
    qed
    with assms(1,2) Some show ?thesis by (auto simp: upsert_session_def split: if_splits)
  qed
qed

lemma transact_swept: "(\<And>x b'. body b = Inr (x, b') \<Longrightarrow> swept b') \<Longrightarrow> swept b \<Longrightarrow> swept (snd (transact body b))"
  by (rule transact_cases [of body b]) auto

lemma session_swept: "swept b \<Longrightarrow> swept (session_exec q b)"
proof (cases q)
  case (RegisterReq X now i r auth par l ttl)
  assume "swept b"
  then have "swept (snd (transact (\<lambda>d. bindE (lock_agent d a) (\<lambda>_. if \<not> parent_live d par a then Inl (Unauthenticated m)
      else upsert_session now i h p a par w e d)) b))" for a m h p w e
    by (intro transact_swept) (auto simp: bindE_eq_Inr split: if_splits intro: upsert_session_swept)
  with RegisterReq \<open>swept b\<close> show ?thesis
    by (auto simp: register_def Let_def split_beta split: sum.split)
next
  case (ResumeReq X now r auth ttl)
  assume sw: "swept b"
  then have "swept (snd (transact (\<lambda>d. bindE (lock_agent d a) (\<lambda>_. rotate_session now i e h p x d)) b))" for a i e h p x
    by (intro transact_swept)
      (auto simp: bindE_eq_Inr rotate_session_def Let_def split: option.splits if_splits intro!: swept_upd)
  with ResumeReq sw show ?thesis by (auto simp: resume_def Let_def split_beta split: option.split)
next
  case (RenewReq now auth ttl)
  assume "swept b"
  with RenewReq show ?thesis by (auto simp: renew_def Let_def split: option.split intro!: swept_upd)
next
  case (RevokeReq now auth l)
  assume sw: "swept b"
  with RevokeReq show ?thesis
    by (auto simp: revoke_def Let_def bindE_eq_Inr split: sum.split if_splits intro!: transact_swept swept_upd)
qed

lemma bus_swept: "swept (cd_base d) \<Longrightarrow> swept (cd_base (bus_exec q d))"
proof (cases rule: bus_sessions_cases [of q d])
  case (session r)
  then show "swept (cd_base d) \<Longrightarrow> ?thesis" by (simp only: session_swept)
next
  case other
  then show "swept (cd_base d) \<Longrightarrow> ?thesis" using bus_accounts [of q d] by (simp add: swept_def)
qed

lemma service_step_wf:
  assumes "service_step d d'" and "admin_wf d"
  shows "admin_wf d'"
  using assms(1)
proof (cases rule: service_step.cases)
  case (administered sc act)
  then show ?thesis using step_wf assms(2) by blast
next
  case (token_used f P)
  have f: "tk_id (f k) = tk_id k" "tk_agent_id (f k) = tk_agent_id k" "tk_revoked_at (f k) = tk_revoked_at k" for k
    by (subst token_used(2) [rule_format], simp)+
  have "swept (ab_db d')"
  proof (rule swept_tokens [of "ab_db d"])
    fix k assume "k \<in> set (d_tokens (ab_db d))"
    then have "(if P k then f k else k) \<in> set (d_tokens (ab_db d'))"
      by (cases "P k") (simp_all add: token_used(1) upd_where_hit upd_where_other)
    then show "\<exists>k' \<in> set (d_tokens (ab_db d')). tk_id k' = tk_id k \<and> tk_agent_id k' = tk_agent_id k \<and> tk_revoked_at k' = tk_revoked_at k"
      by (rule bexI [rotated]) (simp add: f)
  qed (use assms(2) in \<open>simp_all add: admin_wf_def token_used(1)\<close>)
  with assms(2) f show ?thesis unfolding token_used(1) by (simp add: admin_wf_def sessions_wf_table map_upd_where_same image_upd_where_same)
next
  case (session_used f P)
  have f: "se_id (f s) = se_id s" "se_agent_id (f s) = se_agent_id s" "se_label (f s) = se_label s" "se_epoch (f s) = se_epoch s"
      "se_token_hash (f s) = se_token_hash s" "se_parent_token (f s) = se_parent_token s" "se_revoked_at (f s) = se_revoked_at s" for s
    by (subst session_used(2) [rule_format], simp)+
  have "swept (ab_db d')"
    using assms(2) unfolding session_used(1) by (simp add: admin_wf_def swept_upd f)
  moreover have "sessions_wf (ab_db d')"
    by (rule sessions_wf_touched [of f "ab_db d" _ P]) (use assms(2) in \<open>simp_all add: f session_used(1) admin_wf_def\<close>)
  ultimately show ?thesis using assms(2) unfolding session_used(1) by (simp add: admin_wf_def)
next
  case (credential_used f P)
  have f: "ad_id (f c) = ad_id c" "ad_team_id (f c) = ad_team_id c" for c
    by (subst credential_used(2) [rule_format], simp)+
  with assms(2) show ?thesis
    unfolding credential_used(1) by (simp add: admin_wf_def map_upd_where_same image_upd_where_same) (auto simp: set_upd_where)
next
  case (served q)
  then show ?thesis
    using assms(2) bus_accounts [of q "ab_bus d"] bus_swept [of "ab_bus d" q] bus_windows_wf [of "ab_bus d" q] by (simp add: admin_wf_def)
qed

lemma path_wf: "service_path d d' \<Longrightarrow> admin_wf d \<Longrightarrow> admin_wf d'"
  by (induction rule: rtranclp_induct) (auto intro: service_step_wf)

section \<open>Every request is a path of the machine\<close>

lemma on_db_same: "f (ab_db d) = g (ab_db d) \<Longrightarrow> on_db f d = on_db g d"
  by (simp add: on_db_def)

lemma on_db_id: "on_db (\<lambda>b. b) d = d"
  by (simp add: on_db_def)

lemma resolve_token_cases:
  obtains (same) "snd (resolve_token X now raw b) = b"
    | (token) P where "snd (resolve_token X now raw b) = b\<lparr>d_tokens := upd_where P (\<lambda>k. k\<lparr>tk_last_used_at := Some now\<rparr>) (d_tokens b)\<rparr>"
    | (window) P where "snd (resolve_token X now raw b) = b\<lparr>d_sessions := upd_where P (\<lambda>s. s\<lparr>se_last_used_at := Some now\<rparr>) (d_sessions b)\<rparr>"
proof -
  let ?b = "snd (resolve_token X now raw b)"
  let ?win = "\<exists>P. ?b = b\<lparr>d_sessions := upd_where P (\<lambda>s. s\<lparr>se_last_used_at := Some now\<rparr>) (d_sessions b)\<rparr>"
  let ?tok = "\<exists>P. ?b = b\<lparr>d_tokens := upd_where P (\<lambda>k. k\<lparr>tk_last_used_at := Some now\<rparr>) (d_tokens b)\<rparr>"
  have "?b = b \<or> ?tok \<or> ?win"
  proof (cases "starts_with SESSION_TOKEN_PREFIX raw")
    case True
    then have "?b = snd (resolve_session_token X now raw b)" by (simp add: resolve_token_def)
    then have "?b = b \<or> ?win"
      unfolding resolve_session_token_def by (simp split: option.split if_split) blast
    then show ?thesis by blast
  next
    case False
    then have "?b = b \<or> ?tok" unfolding resolve_token_def by (simp split: option.split if_split) blast
    then show ?thesis by blast
  qed
  then show ?thesis using same token window by blast
qed

lemma sign_in_path: "service_path d (on_db (\<lambda>b. snd (resolve_token X now raw b)) d)"
proof (cases rule: resolve_token_cases [of X now raw "ab_db d"])
  case same
  then have "on_db (\<lambda>b. snd (resolve_token X now raw b)) d = on_db (\<lambda>b. b) d" by (rule on_db_same)
  then show ?thesis by (simp add: on_db_id)
next
  case (token P)
  then have "on_db (\<lambda>b. snd (resolve_token X now raw b)) d =
      on_db (\<lambda>b. b\<lparr>d_tokens := upd_where P (\<lambda>k. k\<lparr>tk_last_used_at := Some now\<rparr>) (d_tokens b)\<rparr>) d" by (rule on_db_same)
  then show ?thesis by (simp add: r_into_rtranclp service_step.token_used)
next
  case (window P)
  then have "on_db (\<lambda>b. snd (resolve_token X now raw b)) d =
      on_db (\<lambda>b. b\<lparr>d_sessions := upd_where P (\<lambda>k. k\<lparr>se_last_used_at := Some now\<rparr>) (d_sessions b)\<rparr>) d" by (rule on_db_same)
  then show ?thesis by (simp add: r_into_rtranclp service_step.session_used)
qed

text \<open>What the middleware does: nothing to the database, or it finds an active credential and stamps it.\<close>

definition stamped :: "time \<Rightarrow> admin_token_row \<Rightarrow> adb \<Rightarrow> adb" where
  "stamped now c d = d\<lparr>ab_admins := upd_where (\<lambda>r. ad_id r = ad_id c) (\<lambda>r. r\<lparr>ad_last_used_at := Some now\<rparr>) (ab_admins d)\<rparr>"

lemma require_admin_cases:
  obtains (refused) e lm where "require_admin X rnd inst now h st = (Inl e, st\<lparr>ap_limiter := lm\<rparr>)"
    | (admitted) raw c lm where "bearer_of X h = Inr raw" "starts_with ADMIN_TOKEN_PREFIX (trim raw)" "c \<in> set (ab_admins (ap_db st))"
        "ad_token_hash c = hash_token X (trim raw)" "ad_revoked_at c = None"
        "require_admin X rnd inst now h st = (Inr \<lparr>ax_id = ad_id c, ax_team_id = ad_team_id c,
            ax_team_slug = Option.bind (ad_team_id c) (team_slug_of (ab_db (ap_db st)))\<rparr>,
          st\<lparr>ap_limiter := lm, ap_db := stamped now c (ap_db st)\<rparr>)"
proof -
  let ?r = "require_admin X rnd inst now h st"
  have "(\<exists>e lm. ?r = (Inl e, st\<lparr>ap_limiter := lm\<rparr>)) \<or>
    (\<exists>raw c lm. bearer_of X h = Inr raw \<and> starts_with ADMIN_TOKEN_PREFIX (trim raw) \<and> c \<in> set (ab_admins (ap_db st)) \<and>
        ad_token_hash c = hash_token X (trim raw) \<and> ad_revoked_at c = None \<and>
        ?r = (Inr \<lparr>ax_id = ad_id c, ax_team_id = ad_team_id c,
            ax_team_slug = Option.bind (ad_team_id c) (team_slug_of (ab_db (ap_db st)))\<rparr>,
          st\<lparr>ap_limiter := lm, ap_db := stamped now c (ap_db st)\<rparr>))"
  proof (cases "bearer_of X h")
    case (Inl e)
    then have "?r = (Inl (AUnauthorized ''missing bearer credential''), st\<lparr>ap_limiter := ap_limiter st\<rparr>)" by (simp add: require_admin_def)
    then show ?thesis by blast
  next
    case (Inr raw)
    show ?thesis
    proof (cases "starts_with TOKEN_PREFIX raw \<or> \<not> starts_with ADMIN_TOKEN_PREFIX raw")
      case True
      then have "\<exists>e. ?r = (Inl e, st\<lparr>ap_limiter := ap_limiter st\<rparr>)" using Inr by (auto simp: require_admin_def)
      then show ?thesis by blast
    next
      case prefix: False
      obtain v lm where lm: "charge_limiter rnd inst (hex_of (hash_token X raw)) (ap_limiter st) = (v, lm)" by (rule prod.exhaust)
      show ?thesis
      proof (cases v)
        case (Inl e)
        with Inr prefix lm have "\<exists>e. ?r = (Inl e, st\<lparr>ap_limiter := lm\<rparr>)" by (auto simp: require_admin_def)
        then show ?thesis by blast
      next
        case admitted: (Inr u)
        show ?thesis
        proof (cases "find (\<lambda>c. ad_token_hash c = hash_token X (trim raw) \<and> ad_revoked_at c = None) (ab_admins (ap_db st))")
          case None
          with Inr prefix lm admitted have "\<exists>e. ?r = (Inl e, st\<lparr>ap_limiter := lm\<rparr>)"
            by (auto simp: require_admin_def resolve_admin_def Let_def)
          then show ?thesis by blast
        next
          case (Some c)
          show ?thesis
          proof (cases "starts_with ADMIN_TOKEN_PREFIX (trim raw)")
            case False
            with Inr prefix lm admitted have "\<exists>e. ?r = (Inl e, st\<lparr>ap_limiter := lm\<rparr>)"
              by (auto simp: require_admin_def resolve_admin_def Let_def)
            then show ?thesis by blast
          next
            case True
            with Inr prefix lm admitted Some find_SomeD [OF Some] show ?thesis
              by (intro disjI2 exI [of _ raw] exI [of _ c] exI [of _ lm])
                (simp add: require_admin_def resolve_admin_def Let_def stamped_def)
          qed
        qed
      qed
    qed
  qed
  then show ?thesis using refused admitted by blast
qed

lemma resolved_may_act:
  assumes "admin_wf d" and "c \<in> set (ab_admins d)"
  shows "may_act \<lparr>ax_id = i, ax_team_id = ad_team_id c, ax_team_slug = Option.bind (ad_team_id c) (team_slug_of (ab_db d))\<rparr>"
proof (cases "ad_team_id c")
  case None
  then show ?thesis by (simp add: may_act_def)
next
  case (Some t)
  with assms have "t \<in> tm_id ` set (d_teams (ab_db d))" by (simp add: admin_wf_def)
  then have "find (\<lambda>r. tm_id r = t) (d_teams (ab_db d)) \<noteq> None" by (auto simp: find_None_set)
  with Some show ?thesis by (simp add: may_act_def team_slug_of_def)
qed

lemma stamped_step: "service_step d (stamped now c d)"
  unfolding stamped_def by (rule service_step.credential_used) simp

lemma admin_request_path:
  assumes "admin_wf (ap_db st)"
  shows "service_path (ap_db st) (ap_db (snd (admin_request X rnd inst now i rand h q st)))"
proof (cases rule: require_admin_cases [of X rnd inst now h st])
  case (refused e lm)
  then show ?thesis by (simp add: admin_request_def)
next
  case (admitted raw c lm)
  let ?c = "\<lparr>ax_id = ad_id c, ax_team_id = ad_team_id c, ax_team_slug = Option.bind (ad_team_id c) (team_slug_of (ab_db (ap_db st)))\<rparr>"
  let ?d = "stamped now c (ap_db st)"
  have "admin_step (ax_team_id ?c) (AdminActor (ax_id ?c)) ?d (snd (admin_handle X now i rand ?c q ?d))"
    using resolved_may_act [OF assms admitted(3)] service_step_wf [OF stamped_step assms] by (rule admin_handle_step [rotated])
  then have "service_path (ap_db st) (snd (admin_handle X now i rand ?c q ?d))"
    using stamped_step by (meson converse_rtranclp_into_rtranclp r_into_rtranclp service_step.administered)
  with admitted show ?thesis by (simp add: admin_request_def split_beta)
qed

lemma with_team_path:
  "(\<And>t. service_path d (snd (run t d))) \<Longrightarrow> service_path d (snd (with_team slug run d))"
  by (simp add: with_team_def split: sum.split)

lemma admin_step_path: "admin_step sc act d d' \<Longrightarrow> service_path d d'"
  by (blast intro: service_step.administered)

lemma unit_of_state [simp]: "snd (unit_of r) = snd r"
  by (simp add: unit_of_def)

lemma token_issue_path: "service_path d (snd (token_issue X now i rand team agent label d))"
  unfolding token_issue_def
  by (rule with_team_path) (simp add: admin_step_path [OF issue_token_step [where sc = None]])

lemma agent_add_path:
  assumes "admin_wf d"
  shows "service_path d (snd (agent_add X now a i rand team name display issue d))"
  unfolding agent_add_def
proof (rule with_team_path)
  fix t
  have made: "service_path d (snd (create_agent now a Cli t name display d))"
    using assms by (intro admin_step_path [OF create_agent_step [where sc = None]]) simp_all
  obtain r d1 where r: "create_agent now a Cli t name display d = (r, d1)" by (rule prod.exhaust)
  with made token_issue_path [of d1 X now i rand team] show "service_path d (snd (case create_agent now a Cli t name display d of
       (Inl e, d') \<Rightarrow> (Inl e, d')
     | (Inr a, d') \<Rightarrow> if issue then token_issue X now i rand team (an_name a) None d' else (Inr (), d')))"
    by (cases r) (auto intro: rtranclp_trans)
qed

lemma cli_path: "admin_wf d \<Longrightarrow> service_path d (snd (cli_run c d))"
proof (cases c)
  case (AgentAdd X now a i rand team name display issue)
  then show "admin_wf d \<Longrightarrow> ?thesis" by (simp add: agent_add_path)
next
  case (TokenIssue X now i rand team agent label)
  then show ?thesis by (simp add: token_issue_path)
qed (auto simp: team_create_def team_capability_def team_backend_def agent_disable_def token_revoke_def admin_bootstrap_def
    admin_credential_revoke_def intro!: with_team_path intro: admin_step_path create_team_step set_conversations_step
    set_default_backend_step disable_agent_step [OF within_scope_simps(1)] revoke_token_step grant_admin_step revoke_admin_step)

lemma exec_path: "admin_wf (ap_db st) \<Longrightarrow> service_path (ap_db st) (ap_db (service_exec q st))"
  by (cases q) (auto simp: admin_request_path cli_path sign_in_path intro: service_step.served)

interpretation accounts: kept_invariant service_exec "\<lambda>st. admin_wf (ap_db st)"
proof
  fix st :: admin_api_state and q :: service_req
  assume "admin_wf (ap_db st)"
  then show "admin_wf (ap_db (service_exec q st))" using path_wf exec_path by blast
qed

lemma runs_path: "admin_wf (ap_db st) \<Longrightarrow> service_path (ap_db st) (ap_db (runs service_exec qs st))"
proof (induction qs arbitrary: st)
  case (Cons q qs)
  then show ?case using exec_path accounts.invar_step by (metis rtranclp_trans runs.simps(2))
qed simp

end
