(* ===== verification/AdminHistory.thy ===== *)
theory AdminHistory
  imports AdminRuns
begin

text \<open>
  What holds of administration over whole histories of the service: the trail, the cap on tokens,
  and revocation.
\<close>

lemma list_ex_upd: "(\<And>r. Q (f r) = Q r) \<Longrightarrow> list_ex Q (upd_where P f rows) = list_ex Q rows"
  by (induction rows) auto

section \<open>A trail\<close>

text \<open>A service that keeps a trail: what is secured never changes without a row, and rows are only added.\<close>

locale on_the_record = kept_invariant exec invar
  for exec :: "'q \<Rightarrow> 's \<Rightarrow> 's"
    and invar :: "'s \<Rightarrow> bool" +
  fixes trail :: "'s \<Rightarrow> 'w list"
    and attributed :: "'s \<Rightarrow> 'w \<Rightarrow> bool"
    and secured :: "'s \<Rightarrow> 'v"
  assumes recorded_step: "invar s \<Longrightarrow> \<exists>ws. trail (exec q s) = trail s @ ws \<and> list_all (attributed (exec q s)) ws \<and>
      (secured (exec q s) \<noteq> secured s \<longrightarrow> ws \<noteq> [])"
    and attributed_step: "invar s \<Longrightarrow> attributed s w \<Longrightarrow> attributed (exec q s) w"
begin

lemma attributed_runs: "invar s \<Longrightarrow> attributed s w \<Longrightarrow> attributed (runs exec qs s) w"
  by (induction qs arbitrary: s) (auto intro: attributed_step invar_step)

lemma recorded_runs:
  "invar s \<Longrightarrow> \<exists>ws. trail (runs exec qs s) = trail s @ ws \<and> list_all (attributed (runs exec qs s)) ws \<and>
     (secured (runs exec qs s) \<noteq> secured s \<longrightarrow> ws \<noteq> [])"
proof (induction qs arbitrary: s)
  case (Cons q qs)
  obtain ws where ws: "trail (exec q s) = trail s @ ws" "list_all (attributed (exec q s)) ws"
      "secured (exec q s) \<noteq> secured s \<longrightarrow> ws \<noteq> []"
    using recorded_step [OF Cons.prems] by blast
  note inv = invar_step [OF Cons.prems, of q]
  obtain vs where vs: "trail (runs exec qs (exec q s)) = trail (exec q s) @ vs"
      "list_all (attributed (runs exec qs (exec q s))) vs" "secured (runs exec qs (exec q s)) \<noteq> secured (exec q s) \<longrightarrow> vs \<noteq> []"
    using Cons.IH [OF inv] by blast
  have "list_all (attributed (runs exec qs (exec q s))) ws"
    using ws(2) attributed_runs [OF inv] by (auto simp: list_all_iff)
  with ws vs show ?case by (intro exI [of _ "ws @ vs"]) auto
qed simp

end

text \<open>
  Secured is what decides who may do what: teams and their settings, agents and tokens and
  credentials, without display names and stamps of use.
\<close>

definition secured :: "adb \<Rightarrow> team_row list \<times> conv_team list \<times> agent_row list \<times> token_row list \<times> admin_token_row list" where
  "secured d = (d_teams (ab_db d), cd_teams (ab_bus d), map (\<lambda>a. a\<lparr>ag_display_name := None\<rparr>) (d_agents (ab_db d)),
     map (\<lambda>k. k\<lparr>tk_last_used_at := None\<rparr>) (d_tokens (ab_db d)), map (\<lambda>c. c\<lparr>ad_last_used_at := None\<rparr>) (ab_admins d))"

text \<open>A row names the operator's command line, or a credential that exists.\<close>

definition attributed :: "adb \<Rightarrow> admin_audit_row \<Rightarrow> bool" where
  "attributed d w \<longleftrightarrow> (aw_source w = ''cli'' \<and> aw_admin_id w = None) \<or>
     (aw_source w = ''http'' \<and> list_ex (\<lambda>c. aw_admin_id w = Some (ad_id c)) (ab_admins d))"

definition recorded_by :: "adb \<Rightarrow> adb \<Rightarrow> bool" where
  "recorded_by d d' \<longleftrightarrow> (\<exists>ws. ab_audit d' = ab_audit d @ ws \<and> list_all (attributed d') ws \<and> (secured d' \<noteq> secured d \<longrightarrow> ws \<noteq> [])) \<and>
     ad_id ` set (ab_admins d) \<subseteq> ad_id ` set (ab_admins d')"

lemma attributed_mono: "attributed d w \<Longrightarrow> ad_id ` set (ab_admins d) \<subseteq> ad_id ` set (ab_admins d') \<Longrightarrow> attributed d' w"
  by (fastforce simp: attributed_def list_ex_iff)

lemma by_actor_attributed: "by_actor act w \<Longrightarrow> known_actor act d \<Longrightarrow> attributed (d\<lparr>ab_audit := t\<rparr>) w"
  by (cases act) (auto simp: by_actor_def known_actor_def attributed_def actor_columns_def list_ex_iff)

lemma recorded_refl: "secured d' = secured d \<Longrightarrow> ab_audit d' = ab_audit d \<Longrightarrow> ad_id ` set (ab_admins d') = ad_id ` set (ab_admins d) \<Longrightarrow> recorded_by d d'"
  by (auto simp: recorded_by_def intro!: exI [of _ "[]"])

lemma recorded_trans:
  assumes "recorded_by a b" and "recorded_by b c"
  shows "recorded_by a c"
proof -
  obtain ws where ws: "ab_audit b = ab_audit a @ ws" "list_all (attributed b) ws" "secured b \<noteq> secured a \<longrightarrow> ws \<noteq> []"
      "ad_id ` set (ab_admins a) \<subseteq> ad_id ` set (ab_admins b)"
    using assms(1) by (auto simp: recorded_by_def)
  obtain vs where vs: "ab_audit c = ab_audit b @ vs" "list_all (attributed c) vs" "secured c \<noteq> secured b \<longrightarrow> vs \<noteq> []"
      "ad_id ` set (ab_admins b) \<subseteq> ad_id ` set (ab_admins c)"
    using assms(2) by (auto simp: recorded_by_def)
  have "list_all (attributed c) ws" using ws(2) vs(4) by (auto simp: list_all_iff intro: attributed_mono)
  with ws vs show ?thesis unfolding recorded_by_def by (intro conjI exI [of _ "ws @ vs"]) auto
qed

lemma change_credentials: "admin_change sc d d' \<Longrightarrow> ad_id ` set (ab_admins d) \<subseteq> ad_id ` set (ab_admins d')"
  by (erule admin_change.cases) (auto simp: image_upd_where_same)

lemma step_recorded:
  assumes "service_step d d'"
  shows "recorded_by d d'"
  using assms
proof (cases rule: service_step.cases)
  case (administered sc act)
  then show ?thesis
  proof (cases rule: admin_step.cases)
    case nothing
    then show ?thesis by (intro recorded_refl) simp_all
  next
    case (renamed P f)
    have "map (\<lambda>a. a\<lparr>ag_display_name := None\<rparr>) (upd_where P f (d_agents (ab_db d))) =
        map (\<lambda>a. a\<lparr>ag_display_name := None\<rparr>) (d_agents (ab_db d))"
    proof (rule map_upd_where_set)
      fix r assume "r \<in> set (d_agents (ab_db d))" "P r"
      with renamed(2) have "f r = r\<lparr>ag_display_name := ag_display_name (f r)\<rparr>" by blast
      then show "(f r)\<lparr>ag_display_name := None\<rparr> = r\<lparr>ag_display_name := None\<rparr>" by (metis agent_row.unfold_congs(4) agent_row.update_convs(4) agent_row.surjective)
    qed
    with renamed(1) show ?thesis by (intro recorded_refl) (simp_all add: secured_def)
  next
    case (recorded d1 w)
    show ?thesis
      unfolding recorded_by_def recorded(1)
      using by_actor_attributed [OF recorded(3,4)] change_credentials [OF recorded(2)] change_audit [OF recorded(2)]
      by (intro conjI exI [of _ "[w]"]) auto
  qed
next
  case (token_used f P)
  have "(f k)\<lparr>tk_last_used_at := None\<rparr> = k\<lparr>tk_last_used_at := None\<rparr>" for k by (subst token_used(2) [rule_format]) simp
  then have "map (\<lambda>k. k\<lparr>tk_last_used_at := None\<rparr>) (upd_where P f (d_tokens (ab_db d))) = map (\<lambda>k. k\<lparr>tk_last_used_at := None\<rparr>) (d_tokens (ab_db d))"
    by (rule map_upd_where_same)
  then show ?thesis unfolding token_used(1) by (intro recorded_refl) (simp_all add: secured_def)
next
  case (session_used f P)
  then show ?thesis by (intro recorded_refl) (simp_all add: secured_def)
next
  case (credential_used f P)
  have f: "(f c)\<lparr>ad_last_used_at := None\<rparr> = c\<lparr>ad_last_used_at := None\<rparr>" "ad_id (f c) = ad_id c" for c
    by (subst credential_used(2) [rule_format], simp)+
  from f(1) have "map (\<lambda>c. c\<lparr>ad_last_used_at := None\<rparr>) (upd_where P f (ab_admins d)) = map (\<lambda>c. c\<lparr>ad_last_used_at := None\<rparr>) (ab_admins d)"
    by (rule map_upd_where_same)
  with f(2) show ?thesis unfolding credential_used(1)
    by (intro recorded_refl) (simp_all add: secured_def image_upd_where_same)
next
  case (served q)
  then show ?thesis using bus_accounts [of q "ab_bus d"] by (intro recorded_refl) (simp_all add: secured_def)
qed

lemma path_recorded: "service_path d d' \<Longrightarrow> recorded_by d d'"
  by (induction rule: rtranclp_induct) (auto intro: recorded_refl recorded_trans step_recorded)

interpretation trail: on_the_record service_exec "\<lambda>st. admin_wf (ap_db st)" "\<lambda>st. ab_audit (ap_db st)"
  "\<lambda>st. attributed (ap_db st)" "\<lambda>st. secured (ap_db st)"
proof
  fix st :: admin_api_state and q w
  assume "admin_wf (ap_db st)"
  then have "recorded_by (ap_db st) (ap_db (service_exec q st))" by (intro path_recorded exec_path)
  then show "\<exists>ws. ab_audit (ap_db (service_exec q st)) = ab_audit (ap_db st) @ ws \<and> list_all (attributed (ap_db (service_exec q st))) ws \<and>
      (secured (ap_db (service_exec q st)) \<noteq> secured (ap_db st) \<longrightarrow> ws \<noteq> [])"
    and "attributed (ap_db st) w \<Longrightarrow> attributed (ap_db (service_exec q st)) w"
    by (auto simp: recorded_by_def intro: attributed_mono)
qed

section \<open>The cap on tokens\<close>

definition tokens_capped :: "db \<Rightarrow> bool" where
  "tokens_capped b \<longleftrightarrow> (\<forall>a. active_tokens b a \<le> MAX_ACTIVE_TOKENS_PER_AGENT)"

lemma count_upd_le: "(\<And>r. Q (f r) \<Longrightarrow> Q r) \<Longrightarrow> count_rows Q (upd_where P f rows) \<le> count_rows Q rows"
  by (induction rows) (auto simp: count_rows_def le_SucI)

lemma capped_cong: "d_tokens b' = d_tokens b \<Longrightarrow> tokens_capped b \<Longrightarrow> tokens_capped b'"
  by (simp add: tokens_capped_def active_tokens_def)

lemma capped_upd:
  assumes "\<And>k. tk_agent_id (f k) = tk_agent_id k" and "\<And>k. tk_revoked_at (f k) = None \<Longrightarrow> tk_revoked_at k = None"
    and "d_tokens b' = upd_where P f (d_tokens b)" and "tokens_capped b"
  shows "tokens_capped b'"
  unfolding tokens_capped_def
proof
  fix a
  have "active_tokens b' a \<le> active_tokens b a"
    unfolding active_tokens_def assms(3) by (rule count_upd_le) (use assms(1,2) in auto)
  also have "\<dots> \<le> MAX_ACTIVE_TOKENS_PER_AGENT" using assms(4) by (simp add: tokens_capped_def)
  finally show "active_tokens b' a \<le> MAX_ACTIVE_TOKENS_PER_AGENT" .
qed

lemma change_capped:
  assumes "admin_change sc d d'" and "tokens_capped (ab_db d)"
  shows "tokens_capped (ab_db d')"
  using assms(1)
proof (cases rule: admin_change.cases)
  case (token_made a k)
  then show ?thesis
    using assms(2) by (auto simp: tokens_capped_def active_tokens_def count_rows_def)
next
  case (token_cut k a now)
  show ?thesis by (rule capped_upd [OF _ _ _ assms(2)]) (simp_all add: token_cut(1))
qed (use assms(2) in \<open>simp_all add: capped_cong\<close>)

lemma step_capped:
  assumes "service_step d d'" and "tokens_capped (ab_db d)"
  shows "tokens_capped (ab_db d')"
  using assms(1)
proof (cases rule: service_step.cases)
  case (administered sc act)
  then show ?thesis
  proof (cases rule: admin_step.cases)
    case (recorded d1 w)
    then show ?thesis using change_capped assms(2) by simp
  qed (use assms(2) in \<open>simp_all add: capped_cong\<close>)
next
  case (token_used f P)
  have f: "tk_agent_id (f k) = tk_agent_id k" "tk_revoked_at (f k) = tk_revoked_at k" for k
    by (subst token_used(2) [rule_format], simp)+
  show ?thesis by (rule capped_upd [OF _ _ _ assms(2)]) (simp_all add: token_used(1) f)
next
  case (served q)
  then show ?thesis using assms(2) bus_accounts [of q "ab_bus d"] by (simp add: capped_cong)
qed (use assms(2) in \<open>simp_all add: capped_cong\<close>)

lemma path_capped: "service_path d d' \<Longrightarrow> tokens_capped (ab_db d) \<Longrightarrow> tokens_capped (ab_db d')"
  by (induction rule: rtranclp_induct) (auto intro: step_capped)

section \<open>Revocation\<close>

definition token_dead :: "uuid \<Rightarrow> db \<Rightarrow> bool" where
  "token_dead i b \<longleftrightarrow> (\<exists>k \<in> set (d_tokens b). tk_id k = i \<and> tk_revoked_at k \<noteq> None)"

lemma dead_upd:
  assumes "\<And>k. tk_id (f k) = tk_id k" and "\<And>k. tk_revoked_at k \<noteq> None \<Longrightarrow> tk_revoked_at (f k) \<noteq> None"
    and "d_tokens b' = upd_where P f (d_tokens b)" and "token_dead i b"
  shows "token_dead i b'"
proof -
  obtain k where k: "k \<in> set (d_tokens b)" "tk_id k = i" "tk_revoked_at k \<noteq> None" using assms(4) by (auto simp: token_dead_def)
  then have "(if P k then f k else k) \<in> set (d_tokens b')" by (cases "P k") (simp_all add: assms(3) upd_where_hit upd_where_other)
  moreover have "tk_id (if P k then f k else k) = i \<and> tk_revoked_at (if P k then f k else k) \<noteq> None" using k assms(1,2) by auto
  ultimately show ?thesis unfolding token_dead_def by blast
qed

lemma change_dead:
  assumes "admin_change sc d d'" and "token_dead i (ab_db d)"
  shows "token_dead i (ab_db d')"
  using assms(1)
proof (cases rule: admin_change.cases)
  case (token_cut k a now)
  show ?thesis by (rule dead_upd [OF _ _ _ assms(2)]) (simp_all add: token_cut(1))
qed (use assms(2) in \<open>auto simp: token_dead_def\<close>)

lemma step_dead:
  assumes "service_step d d'" and "token_dead i (ab_db d)"
  shows "token_dead i (ab_db d')"
  using assms(1)
proof (cases rule: service_step.cases)
  case (administered sc act)
  then show ?thesis
  proof (cases rule: admin_step.cases)
    case (recorded d1 w)
    then show ?thesis using change_dead assms(2) by simp
  qed (use assms(2) in \<open>simp_all add: token_dead_def\<close>)
next
  case (token_used f P)
  have f: "tk_id (f k) = tk_id k" "tk_revoked_at (f k) = tk_revoked_at k" for k
    by (subst token_used(2) [rule_format], simp)+
  show ?thesis by (rule dead_upd [OF _ _ _ assms(2)]) (simp_all add: token_used(1) f)
next
  case (served q)
  then show ?thesis using assms(2) bus_accounts [of q "ab_bus d"] by (simp add: token_dead_def)
qed (use assms(2) in \<open>simp_all add: token_dead_def\<close>)

lemma path_dead: "service_path d d' \<Longrightarrow> token_dead i (ab_db d) \<Longrightarrow> token_dead i (ab_db d')"
  by (induction rule: rtranclp_induct) (auto intro: step_dead)

lemma revoke_token_kills:
  assumes "fst (revoke_token now act sc i d) = Inr ()"
  shows "token_dead i (ab_db (snd (revoke_token now act sc i d)))"
proof -
  let ?P = "\<lambda>t. token_in_scope (ab_db d) sc i t \<and> tk_revoked_at t = None"
  show ?thesis
  proof (cases "find ?P (d_tokens (ab_db d))")
    case None
    with assms have "exists_row (token_in_scope (ab_db d) sc i) (d_tokens (ab_db d))"
      by (auto simp: revoke_token_def transact_def Let_def split: if_splits)
    then obtain r where r: "r \<in> set (d_tokens (ab_db d))" "token_in_scope (ab_db d) sc i r" by (auto simp: exists_row_def)
    with None have "tk_revoked_at r \<noteq> None" by (auto simp: find_None_set)
    moreover have "snd (revoke_token now act sc i d) = d" using None by (simp add: revoke_token_def transact_def Let_def)
    ultimately show ?thesis using r by (auto simp: token_dead_def token_in_scope_def)
  next
    case (Some k)
    note k = find_SomeD [OF Some]
    have "d_tokens (ab_db (snd (revoke_token now act sc i d))) = upd_where ?P (\<lambda>r. r\<lparr>tk_revoked_at := Some now\<rparr>) (d_tokens (ab_db d))"
      using assms Some by (auto simp: revoke_token_def transact_def Let_def admin_audit_def split: sum.splits prod.splits if_splits)
    moreover have "k\<lparr>tk_revoked_at := Some now\<rparr> \<in> set (upd_where ?P (\<lambda>r. r\<lparr>tk_revoked_at := Some now\<rparr>) (d_tokens (ab_db d)))"
      using k by (auto intro: upd_where_hit)
    ultimately show ?thesis
      using k unfolding token_dead_def by (intro bexI [where x = "k\<lparr>tk_revoked_at := Some now\<rparr>"]) (auto simp: token_in_scope_def)
  qed
qed

lemma dead_token_signs_nobody_in:
  assumes "admin_wf d" and "token_dead i (ab_db d)" and "fst (resolve_token X now raw (ab_db d)) = Inr ctx"
  shows "au_token_id ctx \<noteq> Some i \<and>
    (\<forall>s \<in> set (d_sessions (ab_db d)). au_session_id ctx = Some (se_id s) \<longrightarrow> se_parent_token s \<noteq> i)"
proof -
  obtain k where k: "k \<in> set (d_tokens (ab_db d))" "tk_id k = i" "tk_revoked_at k \<noteq> None" using assms(2) by (auto simp: token_dead_def)
  have live: "tk_id t \<noteq> i" if "t \<in> set (d_tokens (ab_db d))" "tk_revoked_at t = None" for t
    using same_token [OF assms(1) that(1) k(1)] that(2) k(2,3) by auto
  have ids: "s = s'" if "s \<in> set (d_sessions (ab_db d))" "s' \<in> set (d_sessions (ab_db d))" "se_id s = se_id s'" for s s'
    using assms(1) that distinct_map_inj [of se_id "d_sessions (ab_db d)"] by (auto simp: admin_wf_def sessions_wf_def)
  have "resolve_token X now raw (ab_db d) = (Inr ctx, snd (resolve_token X now raw (ab_db d)))" using assms(3) by (simp add: prod_eq_iff)
  from resolve_token_sound [OF this] show ?thesis
  proof (cases "au_session_id ctx")
    case None
    with resolve_token_sound [OF \<open>resolve_token X now raw (ab_db d) = _\<close>] obtain t where
      "t \<in> set (d_tokens (ab_db d))" "tk_revoked_at t = None" "au_token_id ctx = Some (tk_id t)" by (auto simp: live_token_def)
    with None live [of t] show ?thesis by simp
  next
    case (Some j)
    with resolve_token_sound [OF \<open>resolve_token X now raw (ab_db d) = _\<close>] obtain s t where
      "s \<in> set (d_sessions (ab_db d))" "t \<in> set (d_tokens (ab_db d))" "tk_id t = se_parent_token s" "tk_revoked_at t = None"
      "j = se_id s" "au_token_id ctx = None" by (auto simp: live_session_def)
    with Some live [of t] ids [of s] show ?thesis by auto
  qed
qed

lemma dead_token_writes_nothing:
  assumes "admin_wf d" and "token_dead i (ab_db d)" and "s \<in> set (d_sessions (ab_db d))" and "se_parent_token s = i"
    and "au_session_id auth = Some (se_id s)" and "au_session_epoch auth \<noteq> None"
  shows "guard now auth (ab_db d) \<noteq> Inr ()"
proof -
  obtain k where k: "k \<in> set (d_tokens (ab_db d))" "tk_id k = i" "tk_revoked_at k \<noteq> None" using assms(2) by (auto simp: token_dead_def)
  obtain t where t: "t \<in> set (d_tokens (ab_db d))" "tk_id t = i" "tk_revoked_at t \<noteq> None \<longrightarrow> se_revoked_at s \<noteq> None"
    using assms(1,3,4) by (auto simp: admin_wf_def swept_def)
  then have "se_revoked_at s \<noteq> None" using same_token [OF assms(1) t(1) k(1)] k by auto
  moreover have "session_by_id (ab_db d) (se_id s) = Some s"
    using assms(1,3) unfolding session_by_id_def by (intro find_by_id) (simp_all add: admin_wf_def)
  ultimately show ?thesis using assms(5,6) by (auto simp: guard_def split: option.splits)
qed

section \<open>A small installation\<close>

text \<open>Two teams, the second with one agent; a global administrator, and one of the first team.\<close>

definition demo_credential :: "uuid \<Rightarrow> uuid option \<Rightarrow> string \<Rightarrow> admin_token_row" where
  "demo_credential i team secret = \<lparr>ad_id = i, ad_team_id = team, ad_token_hash = secret, ad_prefix = secret, ad_label = None,
     ad_issued_by = None, ad_created_at = 0, ad_last_used_at = None, ad_revoked_at = None\<rparr>"

definition demo_accounts :: adb where
  "demo_accounts = \<lparr>ab_bus = (start_cdb ''postgres'')
      \<lparr>cd_base := demo_db
        \<lparr>d_teams := d_teams demo_db @ [\<lparr>tm_id = 2, tm_slug = ''ops'', tm_name = ''Ops'', tm_attachment_bytes_limit = None\<rparr>],
         d_agents := d_agents demo_db @ [\<lparr>ag_id = 20, ag_team_id = 2, ag_name = ''ana'', ag_display_name = None, ag_disabled_at = None\<rparr>],
         d_tokens := d_tokens demo_db @ [\<lparr>tk_id = 60, tk_agent_id = 20, tk_token_hash = ''acs_ops'', tk_prefix = ''acs_ops'',
            tk_label = None, tk_created_at = 0, tk_last_used_at = None, tk_revoked_at = None, tk_issued_by_admin = None\<rparr>]\<rparr>\<rparr>,
     ab_admins = [demo_credential 900 None ''acsa_root'', demo_credential 901 (Some 1) ''acsa_core''], ab_audit = []\<rparr>"

definition demo_service :: admin_api_state where
  "demo_service = \<lparr>ap_limiter = None, ap_db = demo_accounts\<rparr>"

definition bearing :: "string \<Rightarrow> headers" where
  "bearing secret = (\<lambda>n. if n = ''authorization'' then Some (''Bearer '' @ secret) else None)"

definition demo_request :: "uuid \<Rightarrow> string \<Rightarrow> admin_req \<Rightarrow> service_req" where
  "demo_request i secret q = AdminQ demo_ext exact 0 9 i ''x'' (bearing secret) q"

definition demo_service_run :: "service_req list" where
  "demo_service_run = [demo_request 70 ''acsa_core'' (IssueTokenReq ''core'' ''bo'' None),
     SignInQ demo_ext 9 ''acs_ana'', BusQ (LockQ (AcquireReq 9 ana_api ''build'' None None)),
     CliQ (TeamCapability 9 ''core'' False), demo_request 71 ''acsa_core'' (IssueTokenReq ''ops'' ''ana'' None)]"

lemma demo_accounts_wf: "admin_wf demo_accounts"
proof -
  have "sessions_wf (ab_db demo_accounts) = sessions_wf demo_db"
    by (rule sessions_wf_cong) (simp add: demo_accounts_def)
  moreover have "swept (ab_db demo_accounts)" by (simp add: swept_def demo_accounts_def demo_db_def demo_session_def empty_db_def)
  ultimately show ?thesis
    using demo_sessions_wf by (simp add: admin_wf_def demo_accounts_def demo_credential_def demo_db_def empty_db_def)
qed

lemma demo_service_wf: "admin_wf (ap_db demo_service)"
  by (simp add: demo_service_def demo_accounts_wf)

section \<open>Properties\<close>

text \<open>C17: nothing is done to the accounts off the record. Over any history of administrators, operators,
  agents and bus requests the trail only grows, each row names the operator's command line or a credential that
  exists, and when a team or its settings, an agent, a token or a credential was made, changed or
  removed, at least one row was written; nothing an agent does is among that.\<close>

theorem nothing_is_done_off_the_record:
  assumes "admin_wf (ap_db st)"
  shows "\<exists>ws. ab_audit (ap_db (runs service_exec qs st)) = ab_audit (ap_db st) @ ws \<and>
    list_all (attributed (ap_db (runs service_exec qs st))) ws \<and>
    (secured (ap_db (runs service_exec qs st)) \<noteq> secured (ap_db st) \<longrightarrow> ws \<noteq> [])"
  by (rule trail.recorded_runs [OF assms])

theorem nothing_is_done_off_the_record_witness:
  "\<exists>ws. ab_audit (ap_db (runs service_exec demo_service_run demo_service)) = [] @ ws \<and>
    list_all (attributed (ap_db (runs service_exec demo_service_run demo_service))) ws"
  using nothing_is_done_off_the_record [OF demo_service_wf, of demo_service_run]
  by (auto simp: demo_service_def demo_accounts_def)

text \<open>C25: an agent never holds more than a hundred active tokens, whatever administrators and operators issue
  and revoke, and in whatever order.\<close>

theorem tokens_stay_capped:
  assumes "admin_wf (ap_db st)" and "\<forall>a. active_tokens (ab_db (ap_db st)) a \<le> MAX_ACTIVE_TOKENS_PER_AGENT"
  shows "active_tokens (ab_db (ap_db (runs service_exec qs st))) a \<le> MAX_ACTIVE_TOKENS_PER_AGENT"
  using path_capped [OF runs_path [OF assms(1)]] assms(2) by (simp add: tokens_capped_def)

lemma demo_tokens_capped: "active_tokens (ab_db demo_accounts) a \<le> MAX_ACTIVE_TOKENS_PER_AGENT"
proof -
  have "active_tokens (ab_db demo_accounts) a \<le> length (d_tokens (ab_db demo_accounts))"
    unfolding active_tokens_def count_rows_def by (rule length_filter_le)
  also have "\<dots> \<le> MAX_ACTIVE_TOKENS_PER_AGENT" by (simp add: demo_accounts_def demo_db_def MAX_ACTIVE_TOKENS_PER_AGENT_def)
  finally show ?thesis .
qed

theorem tokens_stay_capped_witness:
  "active_tokens (ab_db (ap_db (runs service_exec demo_service_run demo_service))) 11 \<le> MAX_ACTIVE_TOKENS_PER_AGENT"
  by (rule tokens_stay_capped [OF demo_service_wf]) (simp add: demo_service_def demo_tokens_capped)



end
