(* ===== verification/AdminWalls.thy ===== *)
theory AdminWalls
  imports AdminHistory
begin

text \<open>
  The walls between teams: what the credential of one team can change and what it can learn.
\<close>

section \<open>What lies outside a team\<close>

definition foreign :: "uuid \<Rightarrow> adb \<Rightarrow> uuid \<Rightarrow> bool" where
  "foreign t d i \<longleftrightarrow> list_ex (\<lambda>a. ag_id a = i) (filter (\<lambda>a. ag_team_id a \<noteq> t) (d_agents (ab_db d)))"

text \<open>The bus without agents, tokens and windows, and of these and the credentials what is another team's.\<close>

definition rest_of :: "adb \<Rightarrow> cdb" where
  "rest_of d = (ab_bus d)\<lparr>cd_base := (ab_db d)\<lparr>d_agents := [], d_tokens := [], d_sessions := []\<rparr>\<rparr>"

definition outside :: "uuid \<Rightarrow> adb \<Rightarrow> cdb \<times> agent_row list \<times> token_row list \<times> session_row list \<times> admin_token_row list" where
  "outside t d = (rest_of d, filter (\<lambda>a. ag_team_id a \<noteq> t) (d_agents (ab_db d)),
     filter (\<lambda>k. foreign t d (tk_agent_id k)) (d_tokens (ab_db d)),
     filter (\<lambda>s. foreign t d (se_agent_id s)) (d_sessions (ab_db d)),
     filter (\<lambda>c. ad_team_id c \<noteq> Some t) (ab_admins d))"

definition credential_keys :: "adb \<Rightarrow> (uuid \<times> uuid option \<times> string) list" where
  "credential_keys d = map (\<lambda>c. (ad_id c, ad_team_id c, ad_token_hash c)) (ab_admins d)"

lemma filter_upd_where_out:
  "(\<And>r. r \<in> set rows \<Longrightarrow> P r \<Longrightarrow> \<not> Q r \<and> \<not> Q (f r)) \<Longrightarrow> filter Q (upd_where P f rows) = filter Q rows"
  by (induction rows) auto

lemma foreign_cong:
  "filter (\<lambda>a. ag_team_id a \<noteq> t) (d_agents (ab_db d')) = filter (\<lambda>a. ag_team_id a \<noteq> t) (d_agents (ab_db d)) \<Longrightarrow> foreign t d' = foreign t d"
  by (simp add: foreign_def fun_eq_iff)

lemma own_not_foreign: "admin_wf d \<Longrightarrow> a \<in> set (d_agents (ab_db d)) \<Longrightarrow> ag_team_id a = t \<Longrightarrow> \<not> foreign t d (ag_id a)"
  using same_agent by (fastforce simp: foreign_def list_ex_iff)

lemma change_outside:
  assumes "admin_change (Some t) d d'" and "admin_wf d"
  shows "outside t d' = outside t d \<and> credential_keys d' = credential_keys d"
  using assms(1)
proof (cases rule: admin_change.cases)
  case (agent_made a)
  then have "foreign t d' = foreign t d" by (intro foreign_cong) simp
  with agent_made show ?thesis by (simp add: outside_def rest_of_def on_db_def credential_keys_def)
next
  case (agent_set f P)
  have ags: "filter (\<lambda>a. ag_team_id a \<noteq> t) (upd_where P f (d_agents (ab_db d))) = filter (\<lambda>a. ag_team_id a \<noteq> t) (d_agents (ab_db d))"
    using agent_set(2,3) by (intro filter_upd_where_out) auto
  with agent_set(1) have "foreign t d' = foreign t d" by (intro foreign_cong) simp
  with agent_set(1) ags show ?thesis by (simp add: outside_def rest_of_def on_db_def credential_keys_def)
next
  case (token_made a k)
  have "\<not> foreign t d (tk_agent_id k)" using own_not_foreign [OF assms(2)] token_made by simp
  moreover have "foreign t d' = foreign t d" using token_made(1) by (intro foreign_cong) simp
  ultimately show ?thesis using token_made(1) by (simp add: outside_def rest_of_def on_db_def credential_keys_def)
next
  case (token_cut k a now)
  have own: "\<not> foreign t d (ag_id a)" using own_not_foreign [OF assms(2)] token_cut by simp
  have "filter (\<lambda>k. foreign t d (tk_agent_id k)) (upd_where (\<lambda>t. tk_id t = tk_id k) (\<lambda>t. t\<lparr>tk_revoked_at := Some now\<rparr>) (d_tokens (ab_db d))) =
      filter (\<lambda>k. foreign t d (tk_agent_id k)) (d_tokens (ab_db d))"
  proof (rule filter_upd_where_out)
    fix r assume "r \<in> set (d_tokens (ab_db d))" "tk_id r = tk_id k"
    then have "r = k" by (rule same_token [OF assms(2) _ token_cut(2)])
    with own token_cut(4) show "\<not> foreign t d (tk_agent_id r) \<and> \<not> foreign t d (tk_agent_id (r\<lparr>tk_revoked_at := Some now\<rparr>))" by simp
  qed
  moreover have "filter (\<lambda>s. foreign t d (se_agent_id s)) (upd_where (\<lambda>s. se_parent_token s = tk_id k \<and> se_revoked_at s = None)
        (\<lambda>s. s\<lparr>se_revoked_at := Some now\<rparr>) (d_sessions (ab_db d))) = filter (\<lambda>s. foreign t d (se_agent_id s)) (d_sessions (ab_db d))"
  proof (rule filter_upd_where_out)
    fix s assume s: "s \<in> set (d_sessions (ab_db d))" "se_parent_token s = tk_id k \<and> se_revoked_at s = None"
    with assms(2) obtain r where "r \<in> set (d_tokens (ab_db d))" "tk_id r = tk_id k" "tk_agent_id r = se_agent_id s"
      by (auto simp: admin_wf_def swept_def)
    then have "se_agent_id s = ag_id a" using same_token [OF assms(2) _ token_cut(2)] token_cut(4) by metis
    with own show "\<not> foreign t d (se_agent_id s) \<and> \<not> foreign t d (se_agent_id (s\<lparr>se_revoked_at := Some now\<rparr>))" by simp
  qed
  moreover have "foreign t d' = foreign t d" using token_cut(1) by (intro foreign_cong) simp
  ultimately show ?thesis unfolding token_cut(1) by (simp add: outside_def rest_of_def on_db_def credential_keys_def)
next
  case (credential_cut c now)
  have "filter (\<lambda>r. ad_team_id r \<noteq> Some t) (upd_where (\<lambda>r. ad_id r = ad_id c) (\<lambda>r. r\<lparr>ad_revoked_at := Some now\<rparr>) (ab_admins d)) =
      filter (\<lambda>r. ad_team_id r \<noteq> Some t) (ab_admins d)"
    using credential_cut(2) same_credential [OF assms(2) _ credential_cut(3)] by (intro filter_upd_where_out) auto
  moreover have "foreign t d' = foreign t d" using credential_cut(1) by (intro foreign_cong) simp
  ultimately show ?thesis
    unfolding credential_cut(1) by (simp add: outside_def rest_of_def credential_keys_def map_upd_where_same)
qed simp_all

lemma outside_audit: "outside t (d\<lparr>ab_audit := ws\<rparr>) = outside t d \<and> credential_keys (d\<lparr>ab_audit := ws\<rparr>) = credential_keys d"
  by (simp add: outside_def rest_of_def foreign_def credential_keys_def)

lemma step_outside:
  assumes "admin_step (Some t) act d d'" and "admin_wf d"
  shows "outside t d' = outside t d \<and> credential_keys d' = credential_keys d"
  using assms(1)
proof (cases rule: admin_step.cases)
  case (renamed P f)
  have ags: "filter (\<lambda>a. ag_team_id a \<noteq> t) (upd_where P f (d_agents (ab_db d))) = filter (\<lambda>a. ag_team_id a \<noteq> t) (d_agents (ab_db d))"
  proof (rule filter_upd_where_out)
    fix r assume "r \<in> set (d_agents (ab_db d))" "P r"
    with renamed(2) have "ag_team_id r = t" and f: "f r = r\<lparr>ag_display_name := ag_display_name (f r)\<rparr>" by auto
    moreover have "ag_team_id (f r) = ag_team_id r" by (subst f) simp
    ultimately show "\<not> ag_team_id r \<noteq> t \<and> \<not> ag_team_id (f r) \<noteq> t" by simp
  qed
  with renamed(1) have "foreign t d' = foreign t d" by (intro foreign_cong) simp
  with renamed(1) ags show ?thesis by (simp add: outside_def rest_of_def on_db_def credential_keys_def)
next
  case (recorded d1 w)
  then show ?thesis using change_outside [OF recorded(2) assms(2)] by (simp add: outside_audit)
qed simp_all

text \<open>A request to \<^verbatim>\<open>/admin\<close> that no credential but one of team \<open>t\<close> can answer to.\<close>

fun team_request :: "uuid \<Rightarrow> adb \<Rightarrow> service_req \<Rightarrow> bool" where
  "team_request t d (AdminQ X rnd inst now i rand h q) = (case bearer_of X h of
      Inl e \<Rightarrow> True
    | Inr raw \<Rightarrow> list_all (\<lambda>(i, team, hash). hash = hash_token X (trim raw) \<longrightarrow> team = Some t) (credential_keys d))"
| "team_request t d q = False"

lemma team_request_cong: "credential_keys d' = credential_keys d \<Longrightarrow> team_request t d' q = team_request t d q"
  by (cases q) (simp_all split: sum.split)

lemma stamped_outside:
  assumes "admin_wf d" and "c \<in> set (ab_admins d)" and "ad_team_id c = Some t"
  shows "outside t (stamped now c d) = outside t d \<and> credential_keys (stamped now c d) = credential_keys d"
proof -
  have "filter (\<lambda>r. ad_team_id r \<noteq> Some t) (upd_where (\<lambda>r. ad_id r = ad_id c) (\<lambda>r. r\<lparr>ad_last_used_at := Some now\<rparr>) (ab_admins d)) =
      filter (\<lambda>r. ad_team_id r \<noteq> Some t) (ab_admins d)"
    using same_credential [OF assms(1) _ assms(2)] assms(3) by (intro filter_upd_where_out) auto
  then show ?thesis by (simp add: stamped_def outside_def rest_of_def foreign_def credential_keys_def map_upd_where_same)
qed

lemma team_request_outside:
  assumes "team_request t (ap_db st) q" and "admin_wf (ap_db st)"
  shows "outside t (ap_db (service_exec q st)) = outside t (ap_db st) \<and>
    credential_keys (ap_db (service_exec q st)) = credential_keys (ap_db st)"
proof (cases q)
  case (AdminQ X rnd inst now i rand h r)
  show ?thesis
  proof (cases rule: require_admin_cases [of X rnd inst now h st])
    case (refused e lm)
    with AdminQ show ?thesis by (simp add: admin_request_def)
  next
    case (admitted raw c lm)
    let ?c = "\<lparr>ax_id = ad_id c, ax_team_id = ad_team_id c, ax_team_slug = Option.bind (ad_team_id c) (team_slug_of (ab_db (ap_db st)))\<rparr>"
    let ?d = "stamped now c (ap_db st)"
    have team: "ad_team_id c = Some t" using assms(1) AdminQ admitted by (auto simp: list_all_iff credential_keys_def)
    have wf: "admin_wf ?d" by (rule service_step_wf [OF stamped_step assms(2)])
    have "admin_step (ax_team_id ?c) (AdminActor (ax_id ?c)) ?d (snd (admin_handle X now i rand ?c r ?d))"
      by (rule admin_handle_step [OF wf resolved_may_act [OF assms(2) admitted(3)]])
    with step_outside [OF _ wf] have "outside t (snd (admin_handle X now i rand ?c r ?d)) = outside t ?d \<and>
        credential_keys (snd (admin_handle X now i rand ?c r ?d)) = credential_keys ?d" by (simp add: team)
    with stamped_outside [OF assms(2) admitted(3) team] AdminQ admitted show ?thesis by (simp add: admin_request_def split_beta)
  qed
qed (use assms(1) in simp_all)

lemma team_requests_outside:
  "admin_wf (ap_db st) \<Longrightarrow> list_all (team_request t (ap_db st)) qs \<Longrightarrow>
   outside t (ap_db (runs service_exec qs st)) = outside t (ap_db st)"
proof (induction qs arbitrary: st)
  case (Cons q qs)
  then have q: "outside t (ap_db (service_exec q st)) = outside t (ap_db st)"
      "credential_keys (ap_db (service_exec q st)) = credential_keys (ap_db st)"
    using team_request_outside by auto
  have "list_all (team_request t (ap_db (service_exec q st))) qs"
    using Cons.prems(2) team_request_cong [OF q(2)] by (simp add: list_all_iff)
  with Cons.IH [OF accounts.invar_step [OF Cons.prems(1)]] q(1) show ?case by simp
qed simp

section \<open>What a team sees\<close>

definition owned :: "uuid \<Rightarrow> adb \<Rightarrow> uuid \<Rightarrow> bool" where
  "owned t d i \<longleftrightarrow> list_ex (\<lambda>a. ag_id a = i) (filter (\<lambda>a. ag_team_id a = t) (d_agents (ab_db d)))"

definition visible :: "uuid \<Rightarrow> adb \<Rightarrow> team_row option \<times> agent_row list \<times> token_row list \<times> admin_token_row list" where
  "visible t d = (find (\<lambda>r. tm_id r = t) (d_teams (ab_db d)), filter (\<lambda>a. ag_team_id a = t) (d_agents (ab_db d)),
     filter (\<lambda>k. owned t d (tk_agent_id k)) (d_tokens (ab_db d)), filter (\<lambda>c. ad_team_id c = Some t) (ab_admins d))"

lemma visible_eqD:
  assumes "visible t d1 = visible t d2"
  shows "owned t d1 = owned t d2"
    "find (\<lambda>r. tm_id r = t) (d_teams (ab_db d1)) = find (\<lambda>r. tm_id r = t) (d_teams (ab_db d2))"
    "filter (\<lambda>a. ag_team_id a = t) (d_agents (ab_db d1)) = filter (\<lambda>a. ag_team_id a = t) (d_agents (ab_db d2))"
    "filter (\<lambda>k. owned t d1 (tk_agent_id k)) (d_tokens (ab_db d1)) = filter (\<lambda>k. owned t d2 (tk_agent_id k)) (d_tokens (ab_db d2))"
    "filter (\<lambda>c. ad_team_id c = Some t) (ab_admins d1) = filter (\<lambda>c. ad_team_id c = Some t) (ab_admins d2)"
  using assms by (auto simp: visible_def owned_def fun_eq_iff)

lemma find_both: "find (\<lambda>x. Q x \<and> P x) xs = find P (filter Q xs)"
  by (induction xs) auto

lemma find_in: "(\<And>x. P x \<Longrightarrow> Q x) \<Longrightarrow> find P xs = find P (filter Q xs)"
  by (induction xs) auto

lemma filter_in: "(\<And>x. P x \<Longrightarrow> Q x) \<Longrightarrow> filter P xs = filter P (filter Q xs)"
  by (induction xs) auto

lemma map_filter_in:
  "(\<And>x. \<not> Q x \<Longrightarrow> F x = None) \<Longrightarrow> (\<And>x. Q x \<Longrightarrow> F x = G x) \<Longrightarrow> List.map_filter F xs = List.map_filter G (filter Q xs)"
  by (induction xs) (auto simp: map_filter_def)

lemma agent_found: "admin_wf d \<Longrightarrow> a \<in> set (d_agents (ab_db d)) \<Longrightarrow> agent_by_id (ab_db d) (ag_id a) = Some a"
  unfolding agent_by_id_def by (rule find_unique) (simp_all add: admin_wf_def)

lemma owned_agent:
  assumes "admin_wf d" and "owned t d i"
  shows "agent_by_id (ab_db d) i = find (\<lambda>a. ag_id a = i) (filter (\<lambda>a. ag_team_id a = t) (d_agents (ab_db d)))"
proof -
  obtain a where a: "a \<in> set (d_agents (ab_db d))" "ag_team_id a = t" "ag_id a = i"
    using assms(2) by (auto simp: owned_def list_ex_iff)
  have "find (\<lambda>x. ag_id x = ag_id a) (filter (\<lambda>a. ag_team_id a = t) (d_agents (ab_db d))) = Some a"
    using assms(1) a by (intro find_unique) (auto simp: admin_wf_def distinct_map_filter)
  with agent_found [OF assms(1) a(1)] a(3) show ?thesis by simp
qed

lemma owned_iff:
  assumes "admin_wf d"
  shows "owned t d i \<longleftrightarrow> (\<exists>a. agent_by_id (ab_db d) i = Some a \<and> ag_team_id a = t)"
proof
  assume "owned t d i"
  then obtain a where a: "a \<in> set (d_agents (ab_db d))" "ag_team_id a = t" "ag_id a = i" by (auto simp: owned_def list_ex_iff)
  with agent_found [OF assms a(1)] show "\<exists>a. agent_by_id (ab_db d) i = Some a \<and> ag_team_id a = t" by auto
next
  assume "\<exists>a. agent_by_id (ab_db d) i = Some a \<and> ag_team_id a = t"
  then show "owned t d i" by (auto simp: agent_by_id_def owned_def list_ex_iff dest: find_SomeD)
qed

lemma scope_owned: "admin_wf d \<Longrightarrow> token_in_scope (ab_db d) (Some t) i k \<longleftrightarrow> owned t d (tk_agent_id k) \<and> tk_id k = i"
  by (auto simp: token_in_scope_def owned_iff split: option.splits)

lemma active_visible:
  "owned t d i \<Longrightarrow> active_tokens (ab_db d) i =
     count_rows (\<lambda>k. tk_agent_id k = i \<and> tk_revoked_at k = None) (filter (\<lambda>k. owned t d (tk_agent_id k)) (d_tokens (ab_db d)))"
  unfolding active_tokens_def count_rows_def by (subst filter_in [where Q = "\<lambda>k. owned t d (tk_agent_id k)"]) auto

lemma active_agree: "visible t d1 = visible t d2 \<Longrightarrow> owned t d1 i \<Longrightarrow> active_tokens (ab_db d1) i = active_tokens (ab_db d2) i"
  using active_visible [of t d1 i] active_visible [of t d2 i] visible_eqD(1,4) [of t d1 d2] by simp

lemma list_agents_agree:
  assumes v: "visible t d1 = visible t d2"
  shows "admin_list_agents t d1 = admin_list_agents t d2"
  unfolding admin_list_agents_def visible_eqD(3) [OF v]
proof (rule map_cong [OF refl])
  fix a assume "a \<in> set (sort_key ag_name (filter (\<lambda>a. ag_team_id a = t) (d_agents (ab_db d2))))"
  then have "owned t d2 (ag_id a)" by (auto simp: owned_def list_ex_iff)
  with visible_eqD(1) [OF v] active_agree [OF v, of "ag_id a"]
  show "\<lparr>an_id = ag_id a, an_name = ag_name a, an_display_name = ag_display_name a,
       an_disabled = (ag_disabled_at a \<noteq> None), an_active_tokens = active_tokens (ab_db d1) (ag_id a)\<rparr> =
     \<lparr>an_id = ag_id a, an_name = ag_name a, an_display_name = ag_display_name a,
       an_disabled = (ag_disabled_at a \<noteq> None), an_active_tokens = active_tokens (ab_db d2) (ag_id a)\<rparr>" by simp
qed

lemma list_tokens_agree:
  assumes "admin_wf d1" and "admin_wf d2" and "visible t d1 = visible t d2"
  shows "list_tokens t d1 = list_tokens t d2"
proof -
  define G where "G = (\<lambda>k :: token_row. (case find (\<lambda>a. ag_id a = tk_agent_id k) (filter (\<lambda>a. ag_team_id a = t) (d_agents (ab_db d1))) of
        None \<Rightarrow> None
      | Some a \<Rightarrow> Some \<lparr>ki_id = tk_id k, ki_agent = ag_name a, ki_prefix = tk_prefix k,
          ki_label = tk_label k, ki_created_at = tk_created_at k, ki_last_used_at = tk_last_used_at k,
          ki_revoked = (tk_revoked_at k \<noteq> None)\<rparr>))"
  have "list_tokens t d = sort_key (\<lambda>k. (ki_agent k, ki_created_at k)) (List.map_filter G (filter (\<lambda>k. owned t d (tk_agent_id k)) (d_tokens (ab_db d))))"
    if wf: "admin_wf d" and ags: "filter (\<lambda>a. ag_team_id a = t) (d_agents (ab_db d)) = filter (\<lambda>a. ag_team_id a = t) (d_agents (ab_db d1))" for d
  proof -
    have "owned t d (tk_agent_id k) \<Longrightarrow> \<exists>a. agent_by_id (ab_db d) (tk_agent_id k) = Some a \<and> ag_team_id a = t \<and>
        find (\<lambda>a. ag_id a = tk_agent_id k) (filter (\<lambda>a. ag_team_id a = t) (d_agents (ab_db d1))) = Some a" for k
      using owned_iff [OF wf, of t "tk_agent_id k"] owned_agent [OF wf, of t "tk_agent_id k"] unfolding ags by auto
    then show ?thesis
      unfolding list_tokens_def G_def
      by (intro arg_cong [where f = "sort_key _"] map_filter_in) (force simp: owned_iff [OF wf] split: option.split)+
  qed
  from this [OF assms(1)] this [OF assms(2)] visible_eqD [OF assms(3)] show ?thesis by simp
qed

lemma list_admins_agree: "visible t d1 = visible t d2 \<Longrightarrow> list_admins (Some t) d1 = list_admins (Some t) d2"
proof -
  assume v: "visible t d1 = visible t d2"
  have "team_slug_of (ab_db d1) t = team_slug_of (ab_db d2) t" by (simp add: team_slug_of_def visible_eqD(2) [OF v])
  then show ?thesis
    unfolding list_admins_def
    by (intro arg_cong [where f = "sort_key _"] map_cong) (auto simp: visible_eqD(5) [OF v])
qed

lemma team_by_id_agree: "visible t d1 = visible t d2 \<Longrightarrow> admin_team_by_id t d1 = admin_team_by_id t d2"
proof -
  assume v: "visible t d1 = visible t d2"
  have "team_info_of d1 r = team_info_of d2 r" if "tm_id r = t" for r
    using visible_eqD(3) [OF v] that by (simp add: team_info_of_def count_rows_def)
  then show ?thesis
    unfolding admin_team_by_id_def visible_eqD(2) [OF v]
    by (cases "find (\<lambda>r. tm_id r = t) (d_teams (ab_db d2))") (auto dest: find_SomeD)
qed

section \<open>Answers to a team credential\<close>

lemma audit_known:
  "known_actor act d \<Longrightarrow> \<exists>w. admin_audit now act action tm subj d = Inr (d\<lparr>ab_audit := ab_audit d @ [w]\<rparr>)"
  by (auto simp: known_actor_def admin_audit_def exists_row_def split: prod.split option.splits)

lemma known_actor_same: "ad_id ` set (ab_admins d') = ad_id ` set (ab_admins d) \<Longrightarrow> known_actor act d' = known_actor act d"
  by (simp add: known_actor_def split: option.split)

lemma filter_upd_where_in: "(\<And>r. Q (f r) = Q r) \<Longrightarrow> filter Q (upd_where P f rows) = upd_where P f (filter Q rows)"
  by (induction rows) auto

text \<open>The id and the secret a request draws are new.\<close>

definition unused :: "ext \<Rightarrow> uuid \<Rightarrow> string \<Rightarrow> adb \<Rightarrow> bool" where
  "unused X i rand d \<longleftrightarrow> list_all (\<lambda>a. ag_id a \<noteq> i) (d_agents (ab_db d)) \<and>
     list_all (\<lambda>k. tk_id k \<noteq> i \<and> tk_token_hash k \<noteq> hash_token X (generate_token rand)) (d_tokens (ab_db d))"

lemma create_agent_tx_agree:
  assumes "admin_wf d1" and "admin_wf d2" and v: "visible t d1 = visible t d2"
    and "unused X i rand d1" and "unused X i rand d2" and "known_actor act d1" and "known_actor act d2"
    and team: "find (\<lambda>r. tm_id r = t) (d_teams (ab_db d1)) \<noteq> None"
  shows "\<exists>j d1' d2'. create_agent_tx now i act t name display d1 = Inr (j, d1') \<and>
    create_agent_tx now i act t name display d2 = Inr (j, d2') \<and> visible t d1' = visible t d2'"
proof -
  have find: "find (agent_named t name) (d_agents (ab_db d)) = find (agent_named t name) (filter (\<lambda>a. ag_team_id a = t) (d_agents (ab_db d)))" for d
    by (rule find_in) (simp add: agent_named_def)
  have teams: "exists_row (\<lambda>r. tm_id r = t) (d_teams (ab_db d1))" "exists_row (\<lambda>r. tm_id r = t) (d_teams (ab_db d2))"
    using team visible_eqD(2) [OF v] by (auto simp: exists_row_find)
  show ?thesis
  proof (cases "find (agent_named t name) (d_agents (ab_db d2))")
    case None
    let ?a = "\<lparr>ag_id = i, ag_team_id = t, ag_name = name, ag_display_name = display, ag_disabled_at = None\<rparr>"
    have made: "\<exists>d'. create_agent_tx now i act t name display d = Inr (i, d') \<and>
        visible t d' = (find (\<lambda>r. tm_id r = t) (d_teams (ab_db d)), filter (\<lambda>a. ag_team_id a = t) (d_agents (ab_db d)) @ [?a],
          filter (\<lambda>k. owned t d (tk_agent_id k)) (d_tokens (ab_db d)), filter (\<lambda>c. ad_team_id c = Some t) (ab_admins d))"
      if "admin_wf d" "unused X i rand d" "known_actor act d" "find (agent_named t name) (d_agents (ab_db d)) = None"
        "exists_row (\<lambda>r. tm_id r = t) (d_teams (ab_db d))" for d
    proof -
      let ?d = "on_db (\<lambda>b. b\<lparr>d_agents := d_agents b @ [?a]\<rparr>) d"
      have "known_actor act ?d" using that(3) known_actor_same [of ?d d act] by simp
      then obtain w where w: "admin_audit now act ''agent.create'' (Some t) (Some i) ?d = Inr (?d\<lparr>ab_audit := ab_audit ?d @ [w]\<rparr>)"
        using audit_known by blast
      have "\<not> exists_row (\<lambda>a. ag_id a = i) (d_agents (ab_db d))" using that(2) by (auto simp: unused_def exists_row_def list_all_iff)
      with that(4,5) w have "create_agent_tx now i act t name display d = Inr (i, ?d\<lparr>ab_audit := ab_audit ?d @ [w]\<rparr>)"
        by (simp add: create_agent_tx_def)
      moreover have "tk_agent_id k \<noteq> i" if k: "k \<in> set (d_tokens (ab_db d))" for k
      proof -
        have "tk_agent_id k \<in> ag_id ` set (d_agents (ab_db d))" using \<open>admin_wf d\<close> k by (auto simp: admin_wf_def)
        then show ?thesis using \<open>unused X i rand d\<close> by (auto simp: unused_def list_all_iff)
      qed
      then have "filter (\<lambda>k. owned t d (tk_agent_id k) \<or> i = tk_agent_id k) (d_tokens (ab_db d)) =
          filter (\<lambda>k. owned t d (tk_agent_id k)) (d_tokens (ab_db d))" by (intro filter_cong) auto
      ultimately show ?thesis by (simp add: visible_def owned_def)
    qed
    have "find (agent_named t name) (d_agents (ab_db d1)) = None" using None find [of d1] find [of d2] visible_eqD(3) [OF v] by simp
    from made [OF assms(1,4,6) this teams(1)] made [OF assms(2,5,7) None teams(2)] visible_eqD [OF v] show ?thesis by metis
  next
    case (Some a)
    let ?f = "\<lambda>r. r\<lparr>ag_display_name := (case display of None \<Rightarrow> ag_display_name r | Some n \<Rightarrow> Some n), ag_disabled_at := None\<rparr>"
    have set: "\<exists>d'. create_agent_tx now i act t name display d = Inr (ag_id a, d') \<and>
        visible t d' = (find (\<lambda>r. tm_id r = t) (d_teams (ab_db d)),
          upd_where (\<lambda>r. ag_id r = ag_id a) ?f (filter (\<lambda>a. ag_team_id a = t) (d_agents (ab_db d))),
          filter (\<lambda>k. owned t d (tk_agent_id k)) (d_tokens (ab_db d)), filter (\<lambda>c. ad_team_id c = Some t) (ab_admins d))"
      if "known_actor act d" "find (agent_named t name) (d_agents (ab_db d)) = Some a" for d
    proof -
      let ?d = "on_db (\<lambda>b. b\<lparr>d_agents := upd_where (\<lambda>r. ag_id r = ag_id a) ?f (d_agents b)\<rparr>) d"
      have "known_actor act ?d" using that(1) known_actor_same [of ?d d act] by simp
      then obtain w where w: "admin_audit now act ''agent.enable'' (Some t) (Some (ag_id a)) ?d = Inr (?d\<lparr>ab_audit := ab_audit ?d @ [w]\<rparr>)"
        using audit_known by blast
      have v: "visible t ?d = (find (\<lambda>r. tm_id r = t) (d_teams (ab_db d)),
          upd_where (\<lambda>r. ag_id r = ag_id a) ?f (filter (\<lambda>a. ag_team_id a = t) (d_agents (ab_db d))),
          filter (\<lambda>k. owned t d (tk_agent_id k)) (d_tokens (ab_db d)), filter (\<lambda>c. ad_team_id c = Some t) (ab_admins d))"
        by (simp add: visible_def owned_def filter_upd_where_in list_ex_upd)
      show ?thesis
      proof (cases "ag_disabled_at a = None")
        case True
        with that(2) have "create_agent_tx now i act t name display d = Inr (ag_id a, ?d)" by (simp add: create_agent_tx_def)
        with v show ?thesis by blast
      next
        case False
        with that(2) w have tx: "create_agent_tx now i act t name display d = Inr (ag_id a, ?d\<lparr>ab_audit := ab_audit ?d @ [w]\<rparr>)"
          by (simp add: create_agent_tx_def)
        have "visible t (?d\<lparr>ab_audit := ab_audit ?d @ [w]\<rparr>) = visible t ?d" by (simp add: visible_def owned_def)
        from trans [OF this v] tx show ?thesis by (intro exI conjI) assumption+
      qed
    qed
    have "find (agent_named t name) (d_agents (ab_db d1)) = Some a" using Some find [of d1] find [of d2] visible_eqD(3) [OF v] by simp
    then obtain d1' where 1: "create_agent_tx now i act t name display d1 = Inr (ag_id a, d1')"
        "visible t d1' = (find (\<lambda>r. tm_id r = t) (d_teams (ab_db d1)),
          upd_where (\<lambda>r. ag_id r = ag_id a) ?f (filter (\<lambda>a. ag_team_id a = t) (d_agents (ab_db d1))),
          filter (\<lambda>k. owned t d1 (tk_agent_id k)) (d_tokens (ab_db d1)), filter (\<lambda>c. ad_team_id c = Some t) (ab_admins d1))"
      using set [OF assms(6)] by blast
    obtain d2' where 2: "create_agent_tx now i act t name display d2 = Inr (ag_id a, d2')"
        "visible t d2' = (find (\<lambda>r. tm_id r = t) (d_teams (ab_db d2)),
          upd_where (\<lambda>r. ag_id r = ag_id a) ?f (filter (\<lambda>a. ag_team_id a = t) (d_agents (ab_db d2))),
          filter (\<lambda>k. owned t d2 (tk_agent_id k)) (d_tokens (ab_db d2)), filter (\<lambda>c. ad_team_id c = Some t) (ab_admins d2))"
      using set [OF assms(7) Some] by blast
    have "visible t d1' = visible t d2'" unfolding 1(2) 2(2) visible_eqD(2-5) [OF v] by (rule refl)
    with 1(1) 2(1) show ?thesis by blast
  qed
qed

lemma create_agent_agree:
  assumes "admin_wf d1" and "admin_wf d2" and "visible t d1 = visible t d2"
    and "unused X i rand d1" and "unused X i rand d2" and "known_actor act d1" and "known_actor act d2"
    and "find (\<lambda>r. tm_id r = t) (d_teams (ab_db d1)) \<noteq> None"
  shows "fst (create_agent now i act t name display d1) = fst (create_agent now i act t name display d2)"
proof (cases "bindE (check_name name) (\<lambda>name. bindE (check_display display) (\<lambda>display. Inr (name, display)))")
  case (Inl e)
  then show ?thesis by (simp add: create_agent_def)
next
  case (Inr v)
  obtain n disp where v: "v = (n, disp)" by (cases v)
  obtain j d1' d2' where tx: "create_agent_tx now i act t n disp d1 = Inr (j, d1')"
      "create_agent_tx now i act t n disp d2 = Inr (j, d2')" "visible t d1' = visible t d2'"
    using create_agent_tx_agree [OF assms] by blast
  with list_agents_agree [OF tx(3)] Inr v show ?thesis by (simp add: create_agent_def transact_Inr)
qed

lemma issue_token_agree:
  assumes v: "visible t d1 = visible t d2"
    and "unused X i rand d1" and "unused X i rand d2" and "known_actor act d1" and "known_actor act d2"
  shows "fst (issue_token X now i rand act t name label d1) = fst (issue_token X now i rand act t name label d2)"
proof -
  define n where "n = to_lowercase (trim name)"
  have find: "find (agent_named t n) (d_agents (ab_db d)) = find (agent_named t n) (filter (\<lambda>a. ag_team_id a = t) (d_agents (ab_db d)))" for d
    by (rule find_in) (simp add: agent_named_def)
  have same: "find (agent_named t n) (d_agents (ab_db d1)) = find (agent_named t n) (d_agents (ab_db d2))"
    using find [of d1] find [of d2] visible_eqD(3) [OF v] by simp
  have "fst (transact (issue_token_tx X now i rand act t n l) d1) = fst (transact (issue_token_tx X now i rand act t n l) d2)" for l
  proof (cases "find (agent_named t n) (d_agents (ab_db d2))")
    case None
    with same show ?thesis by (simp add: issue_token_tx_def transact_def)
  next
    case (Some a)
    have a: "a \<in> set (d_agents (ab_db d2))" "ag_team_id a = t" using find_SomeD [OF Some] by (auto simp: agent_named_def)
    then have "owned t d2 (ag_id a)" by (auto simp: owned_def list_ex_iff)
    then have active: "active_tokens (ab_db d1) (ag_id a) = active_tokens (ab_db d2) (ag_id a)"
      using active_agree [OF v] visible_eqD(1) [OF v] by simp
    have fresh: "\<not> exists_row (\<lambda>k. tk_id k = i \<or> tk_token_hash k = hash_token X (generate_token rand)) (d_tokens (ab_db d))"
      if "unused X i rand d" for d using that by (auto simp: unused_def exists_row_def list_all_iff)
    let ?k = "\<lparr>tk_id = i, tk_agent_id = ag_id a, tk_token_hash = hash_token X (generate_token rand),
               tk_prefix = token_prefix (generate_token rand), tk_label = l, tk_created_at = now, tk_last_used_at = None, tk_revoked_at = None,
               tk_issued_by_admin = snd (actor_columns act)\<rparr>"
    have audited: "\<exists>w. admin_audit now act ''token.issue'' (Some t) (Some i) (on_db (\<lambda>b. b\<lparr>d_tokens := d_tokens b @ [?k]\<rparr>) d) =
        Inr ((on_db (\<lambda>b. b\<lparr>d_tokens := d_tokens b @ [?k]\<rparr>) d)\<lparr>ab_audit := ab_audit (on_db (\<lambda>b. b\<lparr>d_tokens := d_tokens b @ [?k]\<rparr>) d) @ [w]\<rparr>)"
      if "known_actor act d" for d
      by (rule audit_known) (use that known_actor_same [of "on_db (\<lambda>b. b\<lparr>d_tokens := d_tokens b @ [?k]\<rparr>) d" d act] in simp)
    from audited [OF assms(4)] audited [OF assms(5)] Some same a active fresh [OF assms(2)] fresh [OF assms(3)] visible_eqD(2) [OF v]
    show ?thesis by (auto simp: issue_token_tx_def transact_def Let_def split: option.split)
  qed
  then show ?thesis by (simp add: issue_token_def n_def split: sum.split)
qed

lemma revoke_token_agree:
  assumes "admin_wf d1" and "admin_wf d2" and v: "visible t d1 = visible t d2" and "known_actor act d1" and "known_actor act d2"
  shows "fst (revoke_token now act (Some t) i d1) = fst (revoke_token now act (Some t) i d2)"
proof -
  have answer: "fst (revoke_token now act (Some t) i d) =
      (if find (\<lambda>k. tk_id k = i) (filter (\<lambda>k. owned t d (tk_agent_id k)) (d_tokens (ab_db d))) = None
       then Inl (NotFound ''no token with that id'') else Inr ())"
    if wf: "admin_wf d" and known: "known_actor act d" for d
  proof -
    let ?P = "\<lambda>k. token_in_scope (ab_db d) (Some t) i k \<and> tk_revoked_at k = None"
    have any: "exists_row (token_in_scope (ab_db d) (Some t) i) (d_tokens (ab_db d)) \<longleftrightarrow>
        find (\<lambda>k. tk_id k = i) (filter (\<lambda>k. owned t d (tk_agent_id k)) (d_tokens (ab_db d))) \<noteq> None"
      unfolding exists_row_find scope_owned [OF wf] find_both [of "\<lambda>k. owned t d (tk_agent_id k)" "\<lambda>k. tk_id k = i", symmetric] by (rule refl)
    show ?thesis
    proof (cases "find ?P (d_tokens (ab_db d))")
      case None
      with any show ?thesis by (simp add: revoke_token_def transact_def Let_def)
    next
      case (Some k)
      then have "exists_row (token_in_scope (ab_db d) (Some t) i) (d_tokens (ab_db d))"
        using find_SomeD [OF Some] by (auto simp: exists_row_def)
      moreover have "fst (revoke_token now act (Some t) i d) = Inr ()"
      proof -
        let ?d = "on_db (\<lambda>b. b\<lparr>d_tokens := upd_where ?P (\<lambda>r. r\<lparr>tk_revoked_at := Some now\<rparr>) (d_tokens b),
                d_sessions := upd_where (\<lambda>s. se_parent_token s = i \<and> se_revoked_at s = None)
                  (\<lambda>s. s\<lparr>se_revoked_at := Some now\<rparr>) (d_sessions b)\<rparr>) d"
        have "known_actor act ?d" using known known_actor_same [of ?d d act] by simp
        then obtain w where "admin_audit now act ''token.revoke'' (map_option ag_team_id (agent_by_id (ab_db d) (tk_agent_id k))) (Some i) ?d =
            Inr (?d\<lparr>ab_audit := ab_audit ?d @ [w]\<rparr>)" using audit_known by blast
        with Some show ?thesis by (simp add: revoke_token_def transact_def Let_def)
      qed
      ultimately show ?thesis using any by simp
    qed
  qed
  from answer [OF assms(1,4)] answer [OF assms(2,5)] visible_eqD(4) [OF v] show ?thesis by simp
qed

lemma revoke_admin_agree:
  assumes v: "visible t d1 = visible t d2" and "known_actor act d1" and "known_actor act d2"
  shows "fst (revoke_admin now act (Some t) i d1) = fst (revoke_admin now act (Some t) i d2)"
proof -
  have answer: "fst (revoke_admin now act (Some t) i d) =
      (if find (\<lambda>c. ad_id c = i) (filter (\<lambda>c. ad_team_id c = Some t) (ab_admins d)) = None
       then Inl (NotFound ''no administrative credential with that id'') else Inr ())"
    if known: "known_actor act d" for d
  proof -
    let ?P = "\<lambda>c. admin_in_scope (Some t) i c \<and> ad_revoked_at c = None"
    have scope: "admin_in_scope (Some t) i c \<longleftrightarrow> ad_team_id c = Some t \<and> ad_id c = i" for c by (auto simp: admin_in_scope_def)
    have any: "exists_row (admin_in_scope (Some t) i) (ab_admins d) \<longleftrightarrow>
        find (\<lambda>c. ad_id c = i) (filter (\<lambda>c. ad_team_id c = Some t) (ab_admins d)) \<noteq> None"
      unfolding exists_row_find scope find_both [of "\<lambda>c. ad_team_id c = Some t" "\<lambda>c. ad_id c = i", symmetric] by (rule refl)
    show ?thesis
    proof (cases "find ?P (ab_admins d)")
      case None
      with any show ?thesis by (simp add: revoke_admin_def transact_def Let_def)
    next
      case (Some c)
      let ?d = "d\<lparr>ab_admins := upd_where ?P (\<lambda>c. c\<lparr>ad_revoked_at := Some now\<rparr>) (ab_admins d)\<rparr>"
      have "known_actor act ?d" using known known_actor_same [of ?d d act] by (simp add: image_upd_where_same)
      then obtain w where "admin_audit now act ''admin.revoke'' (ad_team_id c) (Some i) ?d = Inr (?d\<lparr>ab_audit := ab_audit ?d @ [w]\<rparr>)"
        using audit_known by blast
      with Some have "fst (revoke_admin now act (Some t) i d) = Inr ()" by (simp add: revoke_admin_def transact_def Let_def)
      moreover have "exists_row (admin_in_scope (Some t) i) (ab_admins d)" using find_SomeD [OF Some] by (auto simp: exists_row_def)
      ultimately show ?thesis using any by simp
    qed
  qed
  from answer [OF assms(2)] answer [OF assms(3)] visible_eqD(5) [OF v] show ?thesis by simp
qed

lemma admin_handle_agree:
  assumes "admin_wf d1" and "admin_wf d2" and v: "visible t d1 = visible t d2"
    and c: "ax_team_id c = Some t" "ax_team_slug c = Some own"
    and self: "list_ex (\<lambda>r. ad_id r = ax_id c \<and> ad_team_id r = Some t) (ab_admins d1)"
    and "unused X i rand d1" and "unused X i rand d2"
  shows "fst (admin_handle X now i rand c q d1) = fst (admin_handle X now i rand c q d2)"
proof -
  let ?act = "AdminActor (ax_id c)"
  obtain r where r: "r \<in> set (filter (\<lambda>r. ad_team_id r = Some t) (ab_admins d1))" "ad_id r = ax_id c"
    using self by (auto simp: list_ex_iff)
  have "r \<in> set (ab_admins d1)" "r \<in> set (ab_admins d2)" using r(1) r(1) [unfolded visible_eqD(5) [OF v]] by simp_all
  then have known: "known_actor ?act d1" "known_actor ?act d2"
    by (simp_all add: known_actor_def actor_columns_def flip: r(2))
  have "t \<in> tm_id ` set (d_teams (ab_db d1))" using assms(1) r(1) by (auto simp: admin_wf_def)
  then have team: "find (\<lambda>r. tm_id r = t) (d_teams (ab_db d1)) \<noteq> None" by (auto simp: find_None_set)
  have scoped: "scoped_team c slug d1 = scoped_team c slug d2" "scoped_team c slug d2 = Inr u \<Longrightarrow> u = t" for slug u
    using c by (auto simp: scoped_team_def Let_def split: if_splits)
  have in_team: "fst (in_team c slug run1 d1) = fst (in_team c slug run2 d2)" if "fst (run1 t d1) = fst (run2 t d2)" for slug run1 run2
    using scoped [of slug] that by (auto simp: in_team_def split: sum.split)
  have answer: "fst (answering f r1) = fst (answering f r2)" if "fst r1 = fst r2" for f and r1 r2 :: "'z res \<times> adb"
    using that by (simp add: answering_def)
  show ?thesis
  proof (cases q)
    case ListTeamsReq
    then show ?thesis using c team_by_id_agree [OF v] by (simp add: answering_def)
  next
    case (CreateTeamReq slug name)
    then show ?thesis using c by (simp add: require_global_def is_global_def)
  next
    case (ListAgentsReq slug)
    show ?thesis unfolding ListAgentsReq admin_handle.simps by (rule in_team) (simp add: list_agents_agree [OF v])
  next
    case (CreateAgentReq slug name display)
    show ?thesis
      unfolding CreateAgentReq admin_handle.simps
      by (rule in_team) (rule answer [OF create_agent_agree [OF assms(1,2) v assms(7,8) known team]])
  next
    case (ListTokensReq slug)
    show ?thesis unfolding ListTokensReq admin_handle.simps by (rule in_team) (simp add: list_tokens_agree [OF assms(1,2) v])
  next
    case (IssueTokenReq slug name label)
    show ?thesis
      unfolding IssueTokenReq admin_handle.simps by (rule in_team) (rule answer [OF issue_token_agree [OF v assms(7,8) known]])
  next
    case (RevokeTokenReq slug j)
    show ?thesis
      unfolding RevokeTokenReq admin_handle.simps by (rule in_team) (rule answer [OF revoke_token_agree [OF assms(1,2) v known]])
  next
    case ListCredentialsReq
    then show ?thesis using c list_admins_agree [OF v] by simp
  next
    case (GrantCredentialReq team label)
    then show ?thesis using c by (simp add: require_global_def is_global_def)
  next
    case (RevokeCredentialReq j)
    show ?thesis unfolding RevokeCredentialReq admin_handle.simps c by (rule answer [OF revoke_admin_agree [OF v known]])
  qed simp
qed

section \<open>Properties\<close>

text \<open>C4: the walls hold. Whatever a run of requests that answer to credentials of one team does, the rest of
  the installation stays as it was: every other team's agents, tokens, windows and credentials, and everything
  on the bus that is not an account.\<close>

theorem a_team_credential_changes_only_its_team:
  assumes "admin_wf (ap_db st)" and "list_all (team_request t (ap_db st)) qs"
  shows "outside t (ap_db (runs service_exec qs st)) = outside t (ap_db st)"
  using assms by (rule team_requests_outside)

definition demo_team_run :: "service_req list" where
  "demo_team_run = [demo_request 70 ''acsa_core'' (IssueTokenReq ''core'' ''bo'' None), demo_request 71 ''acsa_core'' (RevokeTokenReq ''core'' 50),
     demo_request 72 ''acsa_core'' (RevokeTokenReq ''ops'' 60), demo_request 73 ''acsa_core'' (RevokeCredentialReq 900)]"

lemma demo_team_requests: "list_all (team_request 1 (ap_db demo_service)) demo_team_run"
  by code_simp

theorem a_team_credential_changes_only_its_team_witness:
  "outside 1 (ap_db (runs service_exec demo_team_run demo_service)) = outside 1 (ap_db demo_service)"
  by (rule a_team_credential_changes_only_its_team [OF demo_service_wf demo_team_requests])

text \<open>C12: what a team credential is told depends on its own team alone. Two installations that agree on the team,
  its agents, their tokens and the team's credentials give it the same answer to every request, errors included,
  whatever they hold of other teams.\<close>

theorem a_team_credential_learns_only_its_team:
  assumes "admin_wf d1" and "admin_wf d2" and "visible t d1 = visible t d2"
    and "ax_team_id c = Some t" and "ax_team_slug c = Some own"
    and "list_ex (\<lambda>r. ad_id r = ax_id c \<and> ad_team_id r = Some t) (ab_admins d1)"
    and "unused X i rand d1" and "unused X i rand d2"
  shows "fst (admin_handle X now i rand c q d1) = fst (admin_handle X now i rand c q d2)"
  using assms by (rule admin_handle_agree)

text \<open>The second installation: the other team has lost its token, and the global credential is gone.\<close>

definition demo_quiet :: adb where
  "demo_quiet = on_db (\<lambda>b. b\<lparr>d_tokens := d_tokens demo_db\<rparr>) demo_accounts\<lparr>ab_admins := [demo_credential 901 (Some 1) ''acsa_core'']\<rparr>"

definition demo_team_ctx :: admin_ctx where
  "demo_team_ctx = \<lparr>ax_id = 901, ax_team_id = Some 1, ax_team_slug = Some ''core''\<rparr>"

lemma demo_quiet_wf: "admin_wf demo_quiet"
proof -
  have "sessions_wf (ab_db demo_quiet) = sessions_wf demo_db"
    by (rule sessions_wf_cong) (simp add: demo_quiet_def demo_accounts_def on_db_def)
  moreover have "swept (ab_db demo_quiet)"
    by (simp add: swept_def demo_quiet_def on_db_def demo_accounts_def demo_db_def demo_session_def empty_db_def)
  ultimately show ?thesis
    using demo_sessions_wf by (simp add: admin_wf_def demo_quiet_def on_db_def demo_accounts_def demo_credential_def demo_db_def empty_db_def)
qed

theorem a_team_credential_learns_only_its_team_witness:
  "fst (admin_handle demo_ext 9 70 ''x'' demo_team_ctx (RevokeTokenReq ''core'' 60) demo_accounts) =
   fst (admin_handle demo_ext 9 70 ''x'' demo_team_ctx (RevokeTokenReq ''core'' 60) demo_quiet)"
proof -
  have own: "owned 1 demo_quiet = owned 1 demo_accounts" by (simp add: owned_def fun_eq_iff demo_quiet_def on_db_def)
  have rows: "d_teams (ab_db demo_quiet) = d_teams (ab_db demo_accounts)" "d_agents (ab_db demo_quiet) = d_agents (ab_db demo_accounts)"
    "d_tokens (ab_db demo_quiet) = d_tokens demo_db"
    by (simp_all add: demo_quiet_def on_db_def)
  have tokens: "filter (\<lambda>k. owned 1 demo_accounts (tk_agent_id k)) (d_tokens (ab_db demo_accounts)) =
      filter (\<lambda>k. owned 1 demo_accounts (tk_agent_id k)) (d_tokens demo_db)"
    by (simp add: owned_def demo_accounts_def demo_db_def empty_db_def)
  have credentials: "filter (\<lambda>c. ad_team_id c = Some 1) (ab_admins demo_accounts) = filter (\<lambda>c. ad_team_id c = Some 1) (ab_admins demo_quiet)"
    by (simp add: demo_quiet_def on_db_def demo_accounts_def demo_credential_def)
  have "visible 1 demo_accounts = visible 1 demo_quiet"
    unfolding visible_def own rows tokens credentials by (rule refl)
  moreover have "unused demo_ext 70 ''x'' demo_accounts" "unused demo_ext 70 ''x'' demo_quiet"
    "list_ex (\<lambda>r. ad_id r = ax_id demo_team_ctx \<and> ad_team_id r = Some 1) (ab_admins demo_accounts)" by code_simp+
  ultimately show ?thesis
    by (intro a_team_credential_learns_only_its_team [OF demo_accounts_wf demo_quiet_wf, where t = 1 and own = "''core''"])
      (simp_all add: demo_team_ctx_def)
qed

end
