(* ===== verification/AdminRefusals.thy ===== *)
theory AdminRefusals
  imports AdminHistory
begin

text \<open>
  What a refused request to \<^verbatim>\<open>/admin\<close> leaves behind: the errors of every operation and their statuses.
\<close>

section \<open>Refused requests\<close>

definition strip_use :: "adb \<Rightarrow> adb" where
  "strip_use d = d\<lparr>ab_admins := map (\<lambda>c. c\<lparr>ad_last_used_at := None\<rparr>) (ab_admins d)\<rparr>"

definition presents_credential :: "ext \<Rightarrow> headers \<Rightarrow> adb \<Rightarrow> bool" where
  "presents_credential X h d \<longleftrightarrow> (case bearer_of X h of
      Inl e \<Rightarrow> False
    | Inr raw \<Rightarrow> starts_with ADMIN_TOKEN_PREFIX raw \<and> list_ex (\<lambda>c. ad_token_hash c = hash_token X raw \<and> ad_revoked_at c = None) (ab_admins d))"

text \<open>An error of an operation: the state is as before, and it is none that stands for a missing credential.\<close>

definition clean_refusal :: "adb \<Rightarrow> 'a res \<times> adb \<Rightarrow> bool" where
  "clean_refusal d r \<longleftrightarrow> (\<forall>e. fst r = Inl e \<longrightarrow> snd r = d \<and> (\<forall>m. e \<noteq> Unauthenticated m))"

lemma clean_transact: "(\<And>e m. body d = Inl e \<Longrightarrow> e \<noteq> Unauthenticated m) \<Longrightarrow> clean_refusal d (transact body d)"
  by (rule transact_cases [of body d]) (auto simp: clean_refusal_def)

lemma audit_error: "admin_audit now act a tm s d = Inl e \<Longrightarrow> e \<noteq> Unauthenticated m"
  by (auto simp: admin_audit_def split: prod.splits if_splits)

lemma check_name_error: "check_name raw = Inl e \<Longrightarrow> e \<noteq> Unauthenticated m"
  by (auto simp: check_name_def Let_def split: if_splits)

lemma check_display_error: "check_display v = Inl e \<Longrightarrow> e \<noteq> Unauthenticated m"
  by (auto simp: check_display_def Let_def split: option.splits if_splits)

lemmas plain_errors = audit_error check_name_error check_display_error

lemma check_name_fixed: "check_name raw = Inr v \<Longrightarrow> to_lowercase (trim v) = v"
  by (auto simp: check_name_def Let_def split: if_splits)

lemma create_team_clean: "clean_refusal d (create_team now i act slug name d)"
proof (cases "bindE (check_name slug) (\<lambda>slug. bindE (check_display name) (\<lambda>name. Inr (slug, unwrap_or slug name)))")
  case (Inl e)
  then show ?thesis by (auto simp: create_team_def clean_refusal_def bindE_eq_Inl dest: plain_errors)
next
  case (Inr v)
  obtain sl nm where v: "v = (sl, nm)" by (cases v)
  have fixed: "to_lowercase (trim sl) = sl" using Inr v by (auto simp: bindE_eq_Inr dest: check_name_fixed)
  define body where "body = (\<lambda>d. if exists_row (\<lambda>t. tm_slug t = sl) (d_teams (ab_db d)) then Inr ((), d)
              else if exists_row (\<lambda>t. tm_id t = i) (d_teams (ab_db d)) then Inl (Db ''duplicate key'')
              else
                let d1 = d\<lparr>ab_bus := (ab_bus d)
                  \<lparr>cd_base := (ab_db d)\<lparr>d_teams := d_teams (ab_db d) @
                     [\<lparr>tm_id = i, tm_slug = sl, tm_name = nm, tm_attachment_bytes_limit = None\<rparr>]\<rparr>,
                   cd_teams := cd_teams (ab_bus d) @
                     [\<lparr>ct_id = i, ct_conversations_enabled = False, ct_default_backend = ''postgres''\<rparr>]\<rparr>\<rparr> in
                bindE (admin_audit now act ''team.create'' (Some i) (Some i) d1) (\<lambda>d. Inr ((), d)))"
  have ct: "create_team now i act slug name d = (case transact body d of
             (Inl e, d') \<Rightarrow> (Inl e, d')
           | (Inr _, d') \<Rightarrow> (bindE (team_id_by_slug sl d') (\<lambda>i. admin_team_by_id i d'), d'))"
    unfolding create_team_def Inr v sum.case prod.case body_def [symmetric] by (rule refl)
  show ?thesis
  proof (cases rule: transact_cases [of body d])
    case (rolled_back e)
    then have "e \<noteq> Unauthenticated m" for m
      by (auto simp: body_def Let_def bindE_eq_Inl dest: audit_error split: if_splits)
    with rolled_back show ?thesis by (simp add: ct clean_refusal_def)
  next
    case (committed x d')
    then have "exists_row (\<lambda>t. tm_slug t = sl) (d_teams (ab_db d'))"
      by (auto simp: body_def Let_def bindE_eq_Inr admin_audit_def exists_row_def split: if_splits prod.splits)
    then obtain t where t: "find (\<lambda>t. tm_slug t = sl) (d_teams (ab_db d')) = Some t" by (auto simp: exists_row_find)
    have "find (\<lambda>r. tm_id r = tm_id t) (d_teams (ab_db d')) \<noteq> None" using find_SomeD [OF t] by (auto simp: find_None_set)
    with t fixed have "\<exists>x. bindE (team_id_by_slug sl d') (\<lambda>i. admin_team_by_id i d') = Inr x"
      by (auto simp: team_id_by_slug_def admin_team_by_id_def Let_def)
    with committed show ?thesis by (auto simp: ct clean_refusal_def)
  qed
qed

lemma create_agent_clean: "clean_refusal d (create_agent now i act t name display d)"
proof (cases "bindE (check_name name) (\<lambda>name. bindE (check_display display) (\<lambda>display. Inr (name, display)))")
  case (Inl e)
  then show ?thesis by (auto simp: create_agent_def clean_refusal_def bindE_eq_Inl dest: plain_errors)
next
  case (Inr v)
  obtain n disp where v: "v = (n, disp)" by (cases v)
  have ca: "create_agent now i act t name display d = (case transact (create_agent_tx now i act t n disp) d of
             (Inl e, d') \<Rightarrow> (Inl e, d')
           | (Inr i, d') \<Rightarrow> (ok_or (find (\<lambda>a. an_id a = i) (admin_list_agents t d')) (NotFound ''agent vanished after creation''), d'))"
    unfolding create_agent_def Inr v sum.case prod.case by (rule refl)
  show ?thesis
  proof (cases rule: transact_cases [of "create_agent_tx now i act t n disp" d])
    case (rolled_back e)
    then have "e \<noteq> Unauthenticated m" for m
      by (auto simp: create_agent_tx_def Let_def bindE_eq_Inl dest: audit_error split: option.splits if_splits)
    with rolled_back show ?thesis by (simp add: ca clean_refusal_def)
  next
    case (committed j d')
    have "list_ex (\<lambda>a. ag_id a = j \<and> ag_team_id a = t) (d_agents (ab_db d'))"
    proof (cases "find (agent_named t n) (d_agents (ab_db d))")
      case None
      with committed(1) show ?thesis
        by (auto simp: create_agent_tx_def bindE_eq_Inr admin_audit_def split: if_splits prod.splits)
    next
      case (Some a)
      have j: "j = ag_id a" "d_agents (ab_db d') = upd_where (\<lambda>r. ag_id r = ag_id a)
                (\<lambda>r. r\<lparr>ag_display_name := (case disp of None \<Rightarrow> ag_display_name r | Some n \<Rightarrow> Some n), ag_disabled_at := None\<rparr>) (d_agents (ab_db d))"
        using committed(1) Some by (auto simp: create_agent_tx_def bindE_eq_Inr admin_audit_def Let_def split: if_splits prod.splits)
      from find_SomeD [OF Some] show ?thesis unfolding j by (auto simp: list_ex_upd agent_named_def) (auto simp: list_ex_iff)
    qed
    then have "find (\<lambda>a. an_id a = j) (admin_list_agents t d') \<noteq> None"
      by (auto simp: find_None_set admin_list_agents_def list_ex_iff)
    with committed show ?thesis by (auto simp: ca clean_refusal_def)
  qed
qed

lemma issue_token_clean: "clean_refusal d (issue_token X now i rand act t name label d)"
proof -
  have "clean_refusal d (transact (issue_token_tx X now i rand act t n l) d)" for n l
    by (rule clean_transact) (auto simp: issue_token_tx_def Let_def bindE_eq_Inl dest: audit_error split: option.splits if_splits)
  then show ?thesis
    by (auto simp: issue_token_def clean_refusal_def check_label_def dest: check_display_error split: sum.split)
qed

lemma revoke_token_clean: "clean_refusal d (revoke_token now act sc i d)"
  unfolding revoke_token_def
  by (rule clean_transact) (auto simp: Let_def bindE_eq_Inl dest: audit_error split: option.splits if_splits)

lemma revoke_admin_clean: "clean_refusal d (revoke_admin now act sc i d)"
  unfolding revoke_admin_def
  by (rule clean_transact) (auto simp: Let_def bindE_eq_Inl dest: audit_error split: option.splits if_splits)

lemma grant_admin_clean: "clean_refusal d (grant_admin X now i rand act t l d)"
proof (cases "bindE (check_label l) (\<lambda>label.
           bindE (traverse_opt (\<lambda>t. ok_or (team_slug_of (ab_db d) t) (NotFound ''no such team'')) t) (\<lambda>slug. Inr (label, slug)))")
  case (Inl e)
  then have "e \<noteq> Unauthenticated m" for m
    by (auto simp: bindE_eq_Inl check_label_def traverse_opt_def ok_or_def dest: check_display_error split: option.splits)
  with Inl show ?thesis by (simp add: grant_admin_def clean_refusal_def)
next
  case (Inr v)
  obtain label slug where v: "v = (label, slug)" by (cases v)
  show ?thesis
    unfolding grant_admin_def Inr v sum.case prod.case Let_def
    by (rule clean_transact) (auto simp: bindE_eq_Inl dest: audit_error split: if_splits)
qed

definition api_refusal :: "adb \<Rightarrow> admin_answer api_res \<times> adb \<Rightarrow> bool" where
  "api_refusal d r \<longleftrightarrow> (\<forall>e. fst r = Inl e \<longrightarrow> snd r = d \<and> fst (api_status e) \<noteq> 401 \<and> fst (api_status e) \<noteq> 429)"

lemma api_error_status:
  assumes "\<And>m. e \<noteq> Unauthenticated m"
  shows "fst (api_status (api_error_of e)) \<noteq> 401" and "fst (api_status (api_error_of e)) \<noteq> 429"
  using assms by (cases e; auto simp: api_error_of_def api_status_def)+

lemma answering_refusal: "clean_refusal d r \<Longrightarrow> api_refusal d (answering f r)"
  unfolding api_refusal_def answering_def clean_refusal_def by (cases "fst r") (simp_all add: api_error_status)

lemma slug_error: "team_id_by_slug slug d = Inl e \<Longrightarrow> fst (api_status (api_error_of e)) = 404"
  by (auto simp: team_id_by_slug_def Let_def ok_or_def api_error_of_def api_status_def split: option.splits)

lemma in_team_refusal: "(\<And>t. api_refusal d (run t d)) \<Longrightarrow> api_refusal d (in_team c slug run d)"
  by (cases "team_id_by_slug (to_lowercase (trim slug)) d")
     (auto simp: in_team_def scoped_team_def Let_def api_refusal_def api_status_def dest!: slug_error split: option.splits)

lemma grant_scope_error: "grant_scope team d = Inl e \<Longrightarrow> fst (api_status e) \<noteq> 401 \<and> fst (api_status e) \<noteq> 429"
  by (cases "team_id_by_slug (trim (the team)) d")
    (auto simp: grant_scope_def api_status_def dest!: slug_error split: option.splits if_splits)

lemma admin_handle_refusal: "api_refusal d (admin_handle X now i rand c q d)"
proof (cases q)
  case ListTeamsReq
  have "clean_refusal d (admin_team_by_id t d, d)" for t
    by (auto simp: clean_refusal_def admin_team_by_id_def ok_or_def split: option.splits)
  with ListTeamsReq show ?thesis by (auto simp: api_refusal_def [of _ "(_, _)"] intro: answering_refusal split: option.split)
next
  case (CreateTeamReq slug name)
  then show ?thesis
    by (auto simp: require_global_def api_refusal_def [of _ "(_, _)"] api_status_def intro: answering_refusal create_team_clean)
next
  case (GrantCredentialReq team label)
  then show ?thesis
    by (auto simp: require_global_def api_refusal_def [of _ "(_, _)"] api_status_def
        intro: answering_refusal grant_admin_clean dest: grant_scope_error [unfolded api_status_def] split: sum.split)
next
  case (RevokeCredentialReq j)
  then show ?thesis by (auto intro: answering_refusal revoke_admin_clean)
qed (auto simp: api_refusal_def [of _ "(_, _)"] intro!: in_team_refusal answering_refusal create_agent_clean issue_token_clean revoke_token_clean)

lemma require_admin_refused:
  assumes "require_admin X rnd inst now h st = (Inl e, st')"
  shows "fst (api_status e) = 401 \<longleftrightarrow> \<not> presents_credential X h (ap_db st) \<and> fst (api_status e) \<noteq> 429"
proof (cases "bearer_of X h")
  case (Inl f)
  with assms show ?thesis by (auto simp: require_admin_def presents_credential_def api_status_def)
next
  case (Inr raw)
  then have raw: "trim raw = raw" by (auto simp: bearer_of_def ok_or_eq_Inr opt_filter_def split: option.splits if_splits)
  show ?thesis
  proof (cases "starts_with ADMIN_TOKEN_PREFIX raw")
    case False
    with Inr assms show ?thesis by (auto simp: require_admin_def presents_credential_def api_status_def split: if_splits)
  next
    case True
    then have "\<not> starts_with TOKEN_PREFIX raw" by (rule prefixes_are_disjoint)
    with True Inr raw assms show ?thesis
      by (auto simp: require_admin_def presents_credential_def api_status_def resolve_admin_def Let_def list_ex_iff find_None_set
          split: prod.splits sum.splits option.splits)
  qed
qed

lemma strip_use_stamped: "strip_use (stamped now c d) = strip_use d"
  by (simp add: strip_use_def stamped_def map_upd_where_same)

lemma presents_admitted:
  assumes "bearer_of X h = Inr raw" "starts_with ADMIN_TOKEN_PREFIX (trim raw)" "c \<in> set (ab_admins d)"
    "ad_token_hash c = hash_token X (trim raw)" "ad_revoked_at c = None"
  shows "presents_credential X h d"
proof -
  have "trim raw = raw" using assms(1) by (auto simp: bearer_of_def ok_or_eq_Inr opt_filter_def split: option.splits if_splits)
  with assms show ?thesis by (auto simp: presents_credential_def list_ex_iff)
qed

section \<open>Property\<close>



end
