(* ===== verification/Spool.thy ===== *)
theory Spool
  imports Inbox
begin

text \<open>
  \<^verbatim>\<open>src/src/spool.rs\<close> and the part of \<^verbatim>\<open>proxy.rs\<close> that uses it: the proxy beside a client writes the
  references a fetch returned to a file, makes the file durable, and only then tells the bus that it
  holds them.

  The file is the text it contains, and a missing one is empty. The directories, permissions and the
  \<^verbatim>\<open>fsync\<close> calls are left out; a write that a crash interrupts is a prefix of the bytes the
  write would have added. How an entry prints and parses as JSON and how a date parses are functions
  of the model (\<open>codec\<close>); \<open>codec_for\<close> states what the code relies on: printing can be parsed back, a
  printed entry is one line that is not blank, and a cut-off one is not an entry.
\<close>

record spool_entry =
  en_delivery_id :: string
  en_message_id :: string
  en_conversation_id :: string
  en_seq :: int
  en_from_address :: string
  en_created_at :: string
  en_confirmed :: bool
  en_spooled_at :: string

record codec =
  co_enc :: "spool_entry \<Rightarrow> string"
  co_dec :: "string \<Rightarrow> spool_entry option"
  co_time :: "string \<Rightarrow> time option"
  co_i64 :: "json \<Rightarrow> int option"

definition KEEP_HOURS :: int where "KEEP_HOURS = 48"

definition newline :: char where "newline = char_of (10 :: nat)"
definition carriage_return :: char where "carriage_return = char_of (13 :: nat)"

section \<open>Lines\<close>

text \<open>\<^verbatim>\<open>str::lines\<close>: pieces between newlines, the last one without its own; a terminated piece loses a
  trailing carriage return.\<close>

fun raw_lines :: "string \<Rightarrow> string list" where
  "raw_lines [] = []"
| "raw_lines (c # s) = (if c = newline then [] # raw_lines s
     else case raw_lines s of [] \<Rightarrow> [[c]] | l # ls \<Rightarrow> (c # l) # ls)"

definition ends_line :: "string \<Rightarrow> bool" where
  "ends_line s \<longleftrightarrow> s = [] \<or> last s = newline"

definition strip_cr :: "string \<Rightarrow> string" where
  "strip_cr l = (if l \<noteq> [] \<and> last l = carriage_return then butlast l else l)"

definition text_lines :: "string \<Rightarrow> string list" where
  "text_lines s = (let ls = raw_lines s in if ends_line s then map strip_cr ls else map strip_cr (butlast ls) @ [last ls])"

section \<open>The spool\<close>

definition spool_read :: "codec \<Rightarrow> string \<Rightarrow> spool_entry list" where
  "spool_read C s = List.map_filter (co_dec C) (filter (\<lambda>l. trim l \<noteq> []) (text_lines s))"

fun fresh_entries :: "string list \<Rightarrow> spool_entry list \<Rightarrow> spool_entry list" where
  "fresh_entries seen [] = []"
| "fresh_entries seen (e # es) = (if en_delivery_id e \<in> set seen then fresh_entries seen es
     else e # fresh_entries (en_delivery_id e # seen) es)"

definition repair_tail :: "string \<Rightarrow> string" where
  "repair_tail s = (if ends_line s then [] else [newline])"

definition entry_lines :: "codec \<Rightarrow> spool_entry list \<Rightarrow> string" where
  "entry_lines C es = concat (map (\<lambda>e. co_enc C e @ [newline]) es)"

text \<open>What \<^verbatim>\<open>append\<close> adds to the file, and what it returns.\<close>

definition append_bytes :: "codec \<Rightarrow> string \<Rightarrow> spool_entry list \<Rightarrow> string" where
  "append_bytes C s fresh = (if fresh = [] then [] else repair_tail s @ entry_lines C fresh)"

definition spool_append :: "codec \<Rightarrow> string \<Rightarrow> spool_entry list \<Rightarrow> spool_entry list \<times> string" where
  "spool_append C s entries =
     (let fresh = fresh_entries (map en_delivery_id (spool_read C s)) entries in (fresh, s @ append_bytes C s fresh))"

definition kept_entry :: "codec \<Rightarrow> time \<Rightarrow> spool_entry \<Rightarrow> bool" where
  "kept_entry C now e \<longleftrightarrow> \<not> en_confirmed e \<or>
     (case co_time C (en_spooled_at e) of Some t \<Rightarrow> t > now - secs (KEEP_HOURS * 3600) | None \<Rightarrow> True)"

fun join_lines :: "string list \<Rightarrow> string" where
  "join_lines [] = []"
| "join_lines [l] = l"
| "join_lines (l # ls) = l @ newline # join_lines ls"

definition spool_rewrite :: "codec \<Rightarrow> time \<Rightarrow> spool_entry list \<Rightarrow> string" where
  "spool_rewrite C now entries = join_lines (map (co_enc C) (filter (kept_entry C now) entries)) @ [newline]"

definition unconfirmed :: "spool_entry list \<Rightarrow> string list" where
  "unconfirmed entries = map en_delivery_id (filter (\<lambda>e. \<not> en_confirmed e) entries)"

section \<open>Spooling and confirming\<close>

definition json_strs :: "json option \<Rightarrow> string list" where
  "json_strs v = (case v of Some (JArr vs) \<Rightarrow> List.map_filter json_str vs | _ \<Rightarrow> [])"

definition settled_ids :: "codec \<Rightarrow> json option \<Rightarrow> string list \<Rightarrow> string list" where
  "settled_ids C reply sent = (case reply of
      None \<Rightarrow> []
    | Some v \<Rightarrow>
        if json_get ''confirmed_ids'' v \<noteq> None \<or> json_get ''already_confirmed'' v \<noteq> None
        then json_strs (json_get ''confirmed_ids'' v) @ json_strs (json_get ''already_confirmed'' v)
        else if Option.bind (json_get ''confirmed'' v) (co_i64 C) = Some (int (length sent)) then sent
        else [])"

definition text_of :: "string \<Rightarrow> json \<Rightarrow> string" where
  "text_of key v = unwrap_or [] (Option.bind (json_get key v) json_str)"

definition entry_of :: "codec \<Rightarrow> string \<Rightarrow> json \<Rightarrow> spool_entry option" where
  "entry_of C stamp r = (case (Option.bind (json_get ''delivery_id'' r) json_str, Option.bind (json_get ''message_id'' r) json_str) of
      (Some d, Some m) \<Rightarrow> Some \<lparr>en_delivery_id = d, en_message_id = m, en_conversation_id = text_of ''conversation_id'' r,
         en_seq = unwrap_or 0 (Option.bind (json_get ''seq'' r) (co_i64 C)), en_from_address = text_of ''from_address'' r,
         en_created_at = text_of ''created_at'' r, en_confirmed = False, en_spooled_at = stamp\<rparr>
    | _ \<Rightarrow> None)"

definition entries_of :: "codec \<Rightarrow> string \<Rightarrow> json \<Rightarrow> spool_entry list" where
  "entries_of C stamp structured = (case json_get ''references'' structured of
      Some (JArr refs) \<Rightarrow> List.map_filter (entry_of C stamp) refs
    | _ \<Rightarrow> [])"

definition mark_settled :: "string list \<Rightarrow> string list \<Rightarrow> spool_entry \<Rightarrow> spool_entry" where
  "mark_settled sent settled e =
     (if en_delivery_id e \<in> set sent \<and> en_delivery_id e \<in> set settled then e\<lparr>en_confirmed := True\<rparr> else e)"

text \<open>The call in its three steps: what is on disk when the confirmation is sent, the ids it sends, and
  the file after the answer. \<open>confirm_call\<close> is the forwarded call: an error, or the structured answer.\<close>

definition spool_held :: "codec \<Rightarrow> string \<Rightarrow> json \<Rightarrow> string \<Rightarrow> spool_entry list \<times> string" where
  "spool_held C stamp structured s =
     (case spool_append C s (entries_of C stamp structured) of (written, s') \<Rightarrow> (spool_read C s @ written, s'))"

definition spool_settle :: "codec \<Rightarrow> time \<Rightarrow> spool_entry list \<Rightarrow> json option res \<Rightarrow> string \<Rightarrow> string" where
  "spool_settle C now held answer s = (case answer of
      Inl e \<Rightarrow> s
    | Inr reply \<Rightarrow>
        let sent = unconfirmed held in
        spool_rewrite C now (map (mark_settled sent (settled_ids C reply sent)) held))"

definition spool_and_confirm ::
    "codec \<Rightarrow> time \<Rightarrow> string \<Rightarrow> (string list \<Rightarrow> json option res) \<Rightarrow> json option \<Rightarrow> string \<Rightarrow> string list option \<times> string" where
  "spool_and_confirm C now stamp confirm_call structured s = (case structured of
      None \<Rightarrow> (None, s)
    | Some v \<Rightarrow>
        (case spool_held C stamp v s of (held, s1) \<Rightarrow>
           let sent = unconfirmed held in
           if sent = [] then (None, s1) else (Some sent, spool_settle C now held (confirm_call sent) s1)))"

section \<open>Reading a file back\<close>

definition codec_for :: "codec \<Rightarrow> spool_entry \<Rightarrow> bool" where
  "codec_for C e \<longleftrightarrow> co_dec C (co_enc C e) = Some e \<and> newline \<notin> set (co_enc C e) \<and> carriage_return \<notin> set (co_enc C e) \<and>
     trim (co_enc C e) \<noteq> [] \<and> list_all (\<lambda>k. co_dec C (take k (co_enc C e)) = None) [0..<length (co_enc C e)]"

lemma ends_line_append: "ends_line (s @ t) \<longleftrightarrow> (if t = [] then ends_line s else last t = newline)"
  by (simp add: ends_line_def)

lemma raw_lines_Nil_iff [simp]: "raw_lines s = [] \<longleftrightarrow> s = []"
  by (cases s) (simp_all split: list.split)

lemma raw_lines_append: "ends_line s \<Longrightarrow> raw_lines (s @ t) = raw_lines s @ raw_lines t"
proof (induction s)
  case (Cons c s)
  show ?case
  proof (cases "s = []")
    case True
    with Cons.prems show ?thesis by (simp add: ends_line_def)
  next
    case False
    then have "raw_lines (s @ t) = raw_lines s @ raw_lines t" using Cons by (simp add: ends_line_def)
    with False show ?thesis by (cases "raw_lines s") auto
  qed
qed simp

lemma raw_lines_one: "newline \<notin> set l \<Longrightarrow> raw_lines l = (if l = [] then [] else [l]) \<and> raw_lines (l @ [newline]) = [l]"
  by (induction l) (auto split: if_splits)

lemma raw_lines_repair: "s \<noteq> [] \<Longrightarrow> \<not> ends_line s \<Longrightarrow> raw_lines (s @ [newline]) = raw_lines s"
proof (induction s)
  case (Cons c s)
  show ?case
  proof (cases "s = []")
    case True
    with Cons.prems show ?thesis by (simp add: ends_line_def)
  next
    case False
    then have "raw_lines (s @ [newline]) = raw_lines s" using Cons by (simp add: ends_line_def)
    with False show ?thesis by simp
  qed
qed simp

lemma raw_lines_chars: "l \<in> set (raw_lines s) \<Longrightarrow> set l \<subseteq> set s"
proof (induction s arbitrary: l)
  case (Cons c s)
  then show ?case by (cases "raw_lines s") (fastforce split: if_splits)+
qed simp

text \<open>Without carriage returns the lines are the pieces.\<close>

lemma text_lines_raw: "carriage_return \<notin> set s \<Longrightarrow> text_lines s = raw_lines s"
proof -
  assume "carriage_return \<notin> set s"
  then have no: "carriage_return \<notin> set l" if "l \<in> set (raw_lines s)" for l using raw_lines_chars [OF that] by blast
  have "strip_cr l = l" if "l \<in> set (raw_lines s)" for l using no [OF that] by (auto simp: strip_cr_def dest: last_in_set)
  then have id: "map strip_cr ls = ls" if "set ls \<subseteq> set (raw_lines s)" for ls using that by (induction ls) auto
  show ?thesis
  proof (cases "ends_line s")
    case True
    then show ?thesis by (simp add: text_lines_def Let_def id)
  next
    case False
    then have "raw_lines s \<noteq> []" by (auto simp: ends_line_def)
    moreover have "set (butlast (raw_lines s)) \<subseteq> set (raw_lines s)" by (auto dest: in_set_butlastD)
    ultimately show ?thesis using False by (simp add: text_lines_def Let_def id)
  qed
qed

lemma spool_read_append:
  "ends_line s \<Longrightarrow> carriage_return \<notin> set (s @ t) \<Longrightarrow> spool_read C (s @ t) = spool_read C s @ spool_read C t"
  by (simp add: spool_read_def text_lines_raw raw_lines_append List.map_filter_def)

lemma newline_not_cr [simp]: "newline \<noteq> carriage_return" "carriage_return \<noteq> newline"
  by (simp_all add: newline_def carriage_return_def)

lemma spool_read_repaired: "carriage_return \<notin> set s \<Longrightarrow> spool_read C (s @ repair_tail s) = spool_read C s"
proof (cases "ends_line s")
  case True
  then show ?thesis by (simp add: repair_tail_def)
next
  assume cr: "carriage_return \<notin> set s"
  case False
  then have "raw_lines (s @ [newline]) = raw_lines s" by (intro raw_lines_repair) (auto simp: ends_line_def)
  with cr False show ?thesis by (simp add: spool_read_def repair_tail_def text_lines_raw)
qed

lemma repaired_ends: "ends_line (s @ repair_tail s)"
  by (simp add: repair_tail_def ends_line_def)

lemma repair_no_cr [simp]: "carriage_return \<notin> set (repair_tail s)"
  by (simp add: repair_tail_def)

text \<open>A whole line is an entry; a line that was cut off is none, or the entry itself when only its end is missing.\<close>

lemma spool_read_line:
  assumes "codec_for C e"
  shows "spool_read C (co_enc C e @ [newline]) = [e]"
    and "spool_read C (take k (co_enc C e)) = (if length (co_enc C e) \<le> k then [e] else [])"
proof -
  let ?l = "co_enc C e"
  have l: "newline \<notin> set ?l" "carriage_return \<notin> set ?l" "co_dec C ?l = Some e" "trim ?l \<noteq> []" using assms by (auto simp: codec_for_def)
  then show "spool_read C (?l @ [newline]) = [e]"
    by (simp add: spool_read_def text_lines_raw raw_lines_one)
  have "newline \<notin> set (take k ?l)" "carriage_return \<notin> set (take k ?l)" using l by (auto dest: in_set_takeD)
  then have r: "text_lines (take k ?l) = (if take k ?l = [] then [] else [take k ?l])" by (simp add: text_lines_raw raw_lines_one)
  show "spool_read C (take k ?l) = (if length ?l \<le> k then [e] else [])"
  proof (cases "length ?l \<le> k")
    case True
    with r l show ?thesis by (auto simp: spool_read_def)
  next
    case False
    then have "co_dec C (take k ?l) = None" using assms by (simp add: codec_for_def list_all_iff)
    with False r show ?thesis by (auto simp: spool_read_def)
  qed
qed

lemma entry_lines_no_cr: "list_all (codec_for C) es \<Longrightarrow> carriage_return \<notin> set (entry_lines C es)"
  by (auto simp: entry_lines_def list_all_iff codec_for_def)

lemma ends_line_snoc [simp]: "ends_line (s @ [newline])"
  by (simp add: ends_line_def)

lemma spool_read_Nil [simp]: "spool_read C [] = []"
  by (simp add: spool_read_def text_lines_def Let_def ends_line_def)

lemma spool_read_cut:
  "list_all (codec_for C) es \<Longrightarrow> \<exists>j. spool_read C (take k (entry_lines C es)) = take j es \<and> (length (entry_lines C es) \<le> k \<longrightarrow> length es \<le> j)"
proof (induction es arbitrary: k)
  case Nil
  then show ?case by (simp add: entry_lines_def)
next
  case (Cons e es)
  let ?l = "co_enc C e"
  have lines: "entry_lines C (e # es) = ?l @ newline # entry_lines C es" by (simp add: entry_lines_def)
  show ?case
  proof (cases "k \<le> length ?l")
    case True
    then have "take k (entry_lines C (e # es)) = take k ?l" by (simp add: lines)
    then have "spool_read C (take k (entry_lines C (e # es))) = take (if length ?l \<le> k then 1 else 0) (e # es)"
      using Cons.prems by (simp add: spool_read_line)
    moreover have "\<not> length (entry_lines C (e # es)) \<le> k" using True by (simp add: lines)
    ultimately show ?thesis by blast
  next
    case False
    then obtain n where k: "k = length ?l + Suc n" by (metis add_Suc_right less_imp_Suc_add not_le)
    obtain j where j: "spool_read C (take n (entry_lines C es)) = take j es" "length (entry_lines C es) \<le> n \<longrightarrow> length es \<le> j"
      using Cons by auto
    have cr: "carriage_return \<notin> set (take n (entry_lines C es))"
      using entry_lines_no_cr [of C es] Cons.prems in_set_takeD [of carriage_return n "entry_lines C es"] by auto
    have "take k (entry_lines C (e # es)) = (?l @ [newline]) @ take n (entry_lines C es)" by (simp add: lines k)
    moreover have "spool_read C ((?l @ [newline]) @ take n (entry_lines C es)) = [e] @ take j es"
      using Cons.prems cr j(1) by (subst spool_read_append) (simp_all add: spool_read_line, simp add: codec_for_def)
    ultimately show ?thesis using j(2) by (intro exI [of _ "Suc j"]) (simp add: lines k)
  qed
qed

lemma spool_read_lines: "list_all (codec_for C) es \<Longrightarrow> spool_read C (entry_lines C es) = es"
  using spool_read_cut [of C es "length (entry_lines C es)"] by auto

section \<open>Properties\<close>

lemma append_no_cr: "list_all (codec_for C) es \<Longrightarrow> carriage_return \<notin> set (append_bytes C s es)"
  using entry_lines_no_cr [of C es] by (simp add: append_bytes_def)

lemma append_read_cut:
  assumes "carriage_return \<notin> set s" and "list_all (codec_for C) fresh"
  shows "\<exists>j. spool_read C (s @ take k (append_bytes C s fresh)) = spool_read C s @ take j fresh \<and>
    (length (append_bytes C s fresh) \<le> k \<longrightarrow> length fresh \<le> j)"
proof (cases "fresh = [] \<or> k < length (repair_tail s)")
  case True
  then have "k < length (repair_tail s) \<Longrightarrow> k = 0" by (simp add: repair_tail_def split: if_splits)
  with True show ?thesis by (intro exI [of _ 0]) (auto simp: append_bytes_def)
next
  case False
  then obtain n where k: "k = length (repair_tail s) + n" by (metis le_iff_add not_less)
  obtain j where j: "spool_read C (take n (entry_lines C fresh)) = take j fresh" "length (entry_lines C fresh) \<le> n \<longrightarrow> length fresh \<le> j"
    using spool_read_cut [OF assms(2)] by blast
  have "carriage_return \<notin> set (take n (entry_lines C fresh))" using entry_lines_no_cr [OF assms(2)] by (auto dest: in_set_takeD)
  then have "spool_read C ((s @ repair_tail s) @ take n (entry_lines C fresh)) = spool_read C (s @ repair_tail s) @ take j fresh"
    using assms(1) j(1) by (subst spool_read_append [OF repaired_ends]) auto
  then show ?thesis using False j(2) spool_read_repaired [OF assms(1)]
    by (intro exI [of _ j]) (simp add: append_bytes_def k)
qed

lemma append_read:
  assumes "carriage_return \<notin> set s" and "list_all (codec_for C) fresh"
  shows "spool_read C (s @ append_bytes C s fresh) = spool_read C s @ fresh"
  using append_read_cut [OF assms, of "length (append_bytes C s fresh)"] by auto

lemma fresh_entries_subset: "set (fresh_entries seen es) \<subseteq> set es"
  by (induction seen es rule: fresh_entries.induct) auto

lemma fresh_entries_ids:
  "distinct (map en_delivery_id (fresh_entries seen es)) \<and> set (map en_delivery_id (fresh_entries seen es)) \<inter> set seen = {}"
  by (induction seen es rule: fresh_entries.induct) auto

lemma fresh_entries_all: "e \<in> set es \<Longrightarrow> en_delivery_id e \<in> set seen \<union> en_delivery_id ` set (fresh_entries seen es)"
  by (induction seen es rule: fresh_entries.induct) auto

lemma join_lines_concat: "ls \<noteq> [] \<Longrightarrow> join_lines ls @ [newline] = concat (map (\<lambda>l. l @ [newline]) ls)"
  by (induction ls rule: join_lines.induct) simp_all

lemma spool_read_rewrite:
  assumes "list_all (codec_for C) es"
  shows "spool_read C (spool_rewrite C now es) = filter (kept_entry C now) es"
proof (cases "filter (kept_entry C now) es = []")
  case True
  have "text_lines [newline] = [[]]" by (simp add: text_lines_def ends_line_def strip_cr_def)
  then show ?thesis unfolding spool_rewrite_def True by (simp add: spool_read_def)
next
  case False
  have "spool_rewrite C now es = entry_lines C (filter (kept_entry C now) es)"
    using False join_lines_concat [of "map (co_enc C) (filter (kept_entry C now) es)"]
    by (simp add: spool_rewrite_def entry_lines_def comp_def)
  moreover have "list_all (codec_for C) (filter (kept_entry C now) es)" using assms by (auto simp: list_all_iff)
  ultimately show ?thesis by (simp add: spool_read_lines)
qed

text \<open>C16: a torn write loses nothing. Whatever a killed process left in the file, appending makes every
  reference readable after everything that was readable before, each new one once; and if the append
  itself is cut off at any byte, what is readable is everything from before and a prefix of the new
  references.\<close>

theorem a_torn_write_loses_nothing:
  assumes "carriage_return \<notin> set s" and "list_all (codec_for C) entries" and "spool_append C s entries = (fresh, s')"
  shows "spool_read C s' = spool_read C s @ fresh \<and> distinct (map en_delivery_id fresh) \<and>
    en_delivery_id ` set entries \<subseteq> en_delivery_id ` set (spool_read C s') \<and>
    en_delivery_id ` set fresh \<inter> en_delivery_id ` set (spool_read C s) = {} \<and>
    (\<exists>j. spool_read C (take (length s + k) s') = spool_read C s @ take j fresh)"
proof -
  have f: "fresh = fresh_entries (map en_delivery_id (spool_read C s)) entries" "s' = s @ append_bytes C s fresh"
    using assms(3) by (auto simp: spool_append_def Let_def)
  have ok: "list_all (codec_for C) fresh"
    using assms(2) fresh_entries_subset [of "map en_delivery_id (spool_read C s)" entries] by (auto simp: f(1) list_all_iff)
  have read: "spool_read C s' = spool_read C s @ fresh" unfolding f(2) by (rule append_read [OF assms(1) ok])
  moreover have "en_delivery_id ` set entries \<subseteq> en_delivery_id ` set (spool_read C s')"
  proof clarify
    fix e assume "e \<in> set entries"
    from fresh_entries_all [OF this, of "map en_delivery_id (spool_read C s)"]
    show "en_delivery_id e \<in> en_delivery_id ` set (spool_read C s')" by (auto simp: read f(1))
  qed
  moreover have "distinct (map en_delivery_id fresh) \<and> en_delivery_id ` set fresh \<inter> en_delivery_id ` set (spool_read C s) = {}"
    using fresh_entries_ids [of "map en_delivery_id (spool_read C s)" entries] by (simp add: f(1))
  moreover have "\<exists>j. spool_read C (take (length s + k) s') = spool_read C s @ take j fresh"
    using append_read_cut [OF assms(1) ok, of k] by (auto simp: f(2))
  ultimately show ?thesis by blast
qed

definition demo_entry :: "string \<Rightarrow> spool_entry" where
  "demo_entry i = \<lparr>en_delivery_id = i, en_message_id = ''m'', en_conversation_id = ''c'', en_seq = 1, en_from_address = ''dani'',
     en_created_at = [], en_confirmed = False, en_spooled_at = ''t''\<rparr>"

text \<open>A codec that prints an entry as its id and its flag in braces.\<close>

definition demo_codec :: codec where
  "demo_codec = \<lparr>co_enc = (\<lambda>e. ''{'' @ en_delivery_id e @ (if en_confirmed e then ''+'' else ''-'') @ ''}''),
     co_dec = (\<lambda>s. if s = ''{a-}'' then Some (demo_entry ''a'') else if s = ''{b-}'' then Some (demo_entry ''b'')
       else if s = ''{a+}'' then Some ((demo_entry ''a'')\<lparr>en_confirmed := True\<rparr>)
       else if s = ''{b+}'' then Some ((demo_entry ''b'')\<lparr>en_confirmed := True\<rparr>) else None),
     co_time = (\<lambda>s. Some 0), co_i64 = (\<lambda>v. None)\<rparr>"

theorem a_torn_write_loses_nothing_witness:
  "map en_delivery_id (spool_read demo_codec (''{a-}'' @ [newline] @ ''{b'')) = [''a''] \<and>
   (case spool_append demo_codec (''{a-}'' @ [newline] @ ''{b'') [demo_entry ''a'', demo_entry ''b''] of
      (fresh, s') \<Rightarrow> spool_read demo_codec s' = spool_read demo_codec (''{a-}'' @ [newline] @ ''{b'') @ fresh)"
proof -
  let ?s = "''{a-}'' @ [newline] @ ''{b''"
  have "map en_delivery_id (spool_read demo_codec ?s) = [''a'']" by code_simp
  moreover have "carriage_return \<notin> set ?s \<and> list_all (codec_for demo_codec) [demo_entry ''a'', demo_entry ''b'']" by code_simp
  ultimately show ?thesis
    using a_torn_write_loses_nothing [of ?s demo_codec "[demo_entry ''a'', demo_entry ''b'']"]
    by (simp split: prod.split)
qed

definition codec_marks :: "codec \<Rightarrow> spool_entry \<Rightarrow> bool" where
  "codec_marks C e \<longleftrightarrow> codec_for C e \<and> codec_for C (e\<lparr>en_confirmed := True\<rparr>)"

lemma spool_held_read:
  assumes "carriage_return \<notin> set s" and "list_all (codec_marks C) (spool_read C s @ entries_of C stamp v)"
    and "spool_held C stamp v s = (held, s1)"
  shows "spool_read C s1 = held" and "list_all (codec_marks C) held"
proof -
  obtain fresh where a: "spool_append C s (entries_of C stamp v) = (fresh, s1)" "held = spool_read C s @ fresh"
    using assms(3) by (auto simp: spool_held_def split: prod.splits)
  have "list_all (codec_for C) (entries_of C stamp v)" using assms(2) by (auto simp: codec_marks_def list_all_iff)
  from a_torn_write_loses_nothing [OF assms(1) this a(1)] show "spool_read C s1 = held" by (simp add: a(2))
  have "set fresh \<subseteq> set (entries_of C stamp v)"
    using a(1) fresh_entries_subset by (auto simp: spool_append_def Let_def)
  with assms(2) show "list_all (codec_marks C) held" by (auto simp: a(2) list_all_iff)
qed

lemma settle_read:
  assumes "list_all (codec_marks C) held"
  shows "spool_read C (spool_settle C now held (Inr reply) s) =
    filter (kept_entry C now) (map (mark_settled (unconfirmed held) (settled_ids C reply (unconfirmed held))) held)"
proof -
  have "list_all (codec_for C) (map (mark_settled sent settled) held)" for sent settled
    using assms by (auto simp: list_all_iff codec_marks_def mark_settled_def)
  then show ?thesis by (simp add: spool_settle_def Let_def spool_read_rewrite)
qed


definition demo_batch :: "string \<Rightarrow> json" where
  "demo_batch i = JObj [(''references'', JArr [JObj [(''delivery_id'', JStr i), (''message_id'', JStr ''m''),
     (''conversation_id'', JStr ''c''), (''from_address'', JStr ''dani'')]])]"

definition spool_codec :: codec where
  "spool_codec = demo_codec\<lparr>co_i64 := (\<lambda>v. Some 1), co_dec := (\<lambda>s.
     let e = (\<lambda>i. (demo_entry i)\<lparr>en_seq := 0\<rparr>) in
     if s = ''{a-}'' then Some (e ''a'') else if s = ''{b-}'' then Some (e ''b'')
     else if s = ''{a+}'' then Some ((e ''a'')\<lparr>en_confirmed := True\<rparr>)
     else if s = ''{b+}'' then Some ((e ''b'')\<lparr>en_confirmed := True\<rparr>) else None)\<rparr>"

definition settles :: "string list \<Rightarrow> string list \<Rightarrow> json option res" where
  "settles ids sent = Inr (Some (JObj [(''confirmed_ids'', JArr (map JStr ids))]))"


text \<open>A rewrite writes what its own call holds. When two calls of one proxy overlap, the rewrite of the first
  removes from the file what the second has appended meanwhile and may already be having confirmed.\<close>

lemma a_rewrite_drops_what_it_does_not_hold:
  assumes "list_all (codec_marks C) held" and "i \<notin> en_delivery_id ` set held"
  shows "i \<notin> en_delivery_id ` set (spool_read C (spool_settle C now held (Inr reply) s))"
  using assms(2) by (auto simp: settle_read [OF assms(1)] mark_settled_def)

end
