(* ===== verification/PresenceList.thy ===== *)
theory PresenceList
  imports PresenceRuns "HOL-Library.Multiset" "HOL-Library.Product_Lexorder" "HOL-Library.List_Lexorder"
begin

text \<open>
  The listing of a team's agents: one joined, sorted statement whose rows are folded under their agent.
  Against it stands the reference \<open>agent_entry\<close>, which looks one agent up at a time.
\<close>

section \<open>A stable sort of grouped rows\<close>

lemma filter_concat_map_unique:
  assumes "distinct xs" and "x \<in> set xs" and "\<And>y. y \<in> set xs \<Longrightarrow> y \<noteq> x \<Longrightarrow> filter P (g y) = []"
  shows "filter P (concat (map g xs)) = filter P (g x)"
  using assms
proof (induction xs)
  case Nil
  then show ?case by simp
next
  case (Cons y ys)
  show ?case
  proof (cases "y = x")
    case True
    with Cons.prems have "\<forall>z \<in> set ys. filter P (g z) = []" by auto
    then have "filter P (concat (map g ys)) = []" by (induction ys) auto
    with True show ?thesis by simp
  next
    case False
    with Cons show ?thesis by simp
  qed
qed

text \<open>Rows grouped by an injective first key and sorted by key: the groups in order, each sorted by itself.\<close>

lemma sort_grouped:
  fixes k :: "'a \<Rightarrow> 'k::linorder" and f :: "'r \<Rightarrow> 'k \<times> 'l::linorder"
  assumes "distinct (map k xs)" and "\<And>x r. x \<in> set xs \<Longrightarrow> r \<in> set (g x) \<Longrightarrow> fst (f r) = k x"
  shows "sort_key f (concat (map g xs)) = concat (map (\<lambda>x. sort_key f (g x)) (sort_key k xs))"
proof (rule properties_for_sort_key)
  have "mset (concat (map h (sort_key k xs))) = mset (concat (map h xs))" for h :: "'a \<Rightarrow> 'r list"
    by (simp add: mset_concat comp_def flip: sum_mset_sum_list)
  moreover have "mset (concat (map (\<lambda>x. sort_key f (g x)) ys)) = mset (concat (map g ys))" for ys
    by (induction ys) simp_all
  ultimately show "mset (concat (map (\<lambda>x. sort_key f (g x)) (sort_key k xs))) = mset (concat (map g xs))"
    by simp
next
  fix r
  assume "r \<in> set (concat (map (\<lambda>x. sort_key f (g x)) (sort_key k xs)))"
  then obtain x where x: "x \<in> set xs" "r \<in> set (g x)" by auto
  have other: "filter (\<lambda>q. f r = f q) (g y) = []" if "y \<in> set xs" "y \<noteq> x" for y
  proof -
    have "k y \<noteq> k x" using that x(1) assms(1) by (auto dest: distinct_map_inj)
    then have "f r \<noteq> f q" if "q \<in> set (g y)" for q
      using assms(2) [OF x] assms(2) [OF \<open>y \<in> set xs\<close> that] by metis
    then show ?thesis by (simp add: filter_empty_conv)
  qed
  have stable: "filter (\<lambda>q. f r = f q) (sort_key f ys) = filter (\<lambda>q. f r = f q) ys" for ys
    using sort_key_stable [of f "f r" ys] by (simp add: eq_commute)
  have d: "distinct xs" "distinct (sort_key k xs)" using assms(1) by (simp_all add: distinct_map)
  have "filter (\<lambda>q. f r = f q) (concat (map (\<lambda>x. sort_key f (g x)) (sort_key k xs))) =
      filter (\<lambda>q. f r = f q) (sort_key f (g x))"
    using d(2) x(1) other by (intro filter_concat_map_unique) (simp_all add: stable)
  also have "\<dots> = filter (\<lambda>q. f r = f q) (concat (map g xs))"
    using filter_concat_map_unique [OF d(1) x(1) other] by (simp add: stable)
  finally show "filter (\<lambda>q. f r = f q) (concat (map (\<lambda>x. sort_key f (g x)) (sort_key k xs))) =
      filter (\<lambda>q. f r = f q) (concat (map g xs))" .
next
  have "sorted (map f (concat (map (\<lambda>x. sort_key f (g x)) ys)))"
    if "sorted (map k ys)" "distinct (map k ys)" "set ys \<subseteq> set xs" for ys
    using that
  proof (induction ys)
    case Nil
    then show ?case by simp
  next
    case (Cons y ys)
    have "f r \<le> f q" if "r \<in> set (g y)" "q \<in> set (g z)" "z \<in> set ys" for r q z
    proof -
      have "k y < k z" using that(3) Cons.prems by (force simp: less_le)
      moreover have "fst (f r) = k y" "fst (f q) = k z" using that Cons.prems assms(2) by auto
      ultimately show ?thesis by (simp add: less_eq_prod_def)
    qed
    with Cons show ?case by (auto simp: sorted_append)
  qed
  moreover have "distinct (map k (sort_key k xs))"
    using assms(1) by (metis distinct_map distinct_sort set_sort)
  ultimately show "sorted (map f (concat (map (\<lambda>x. sort_key f (g x)) (sort_key k xs))))" by simp
qed


lemma insort_key_map: "insort_key f (h x) (map h ys) = map h (insort_key (\<lambda>y. f (h y)) x ys)"
  by (induction ys) simp_all

lemma sort_key_map: "sort_key f (map h xs) = map h (sort_key (\<lambda>x. f (h x)) xs)"
  by (induction xs) (simp_all add: insort_key_map)

section \<open>The fold\<close>

definition raw_info :: "time \<Rightarrow> agent_row \<Rightarrow> presence_row option list \<Rightarrow> agent_info" where
  "raw_info now a ps = (let es = map (entry_of_row now) ps in
     \<lparr>ai_name = ag_name a, ai_display_name = ag_display_name a, ai_lead = hd es, ai_online = list_ex as_online es, ai_sessions = es\<rparr>)"

lemma fold_same_agent:
  "ai_name x = ag_name a \<Longrightarrow>
   fold (fold_row now) (map (Pair a) ps) (x # acc) =
     x\<lparr>ai_online := ai_online x \<or> list_ex as_online (map (entry_of_row now) ps),
       ai_sessions := ai_sessions x @ map (entry_of_row now) ps\<rparr> # acc"
  by (induction ps arbitrary: x) (simp_all add: fold_row_def Let_def)

lemma fold_new_agent:
  assumes "ps \<noteq> []" and "case acc of [] \<Rightarrow> True | x # _ \<Rightarrow> ai_name x \<noteq> ag_name a"
  shows "fold (fold_row now) (map (Pair a) ps) acc = raw_info now a ps # acc"
proof -
  obtain p qs where ps: "ps = p # qs" using assms(1) by (cases ps) auto
  have "fold_row now (a, p) acc = raw_info now a [p] # acc"
    using assms(2) by (cases acc) (simp_all add: fold_row_def raw_info_def Let_def)
  then show ?thesis
    by (simp add: ps fold_same_agent raw_info_def Let_def del: list.map)
       (simp add: raw_info_def Let_def fold_same_agent)
qed

lemma fold_groups:
  assumes "distinct (map ag_name as)" and "case acc of [] \<Rightarrow> True | x # _ \<Rightarrow> ai_name x \<notin> ag_name ` set as"
  shows "fold (fold_row now) (concat (map (\<lambda>a. map (Pair a) (h a)) as)) acc =
    rev (map (\<lambda>a. raw_info now a (h a)) (filter (\<lambda>a. h a \<noteq> []) as)) @ acc"
  using assms
proof (induction as arbitrary: acc)
  case Nil
  then show ?case by simp
next
  case (Cons a as)
  show ?case
  proof (cases "h a = []")
    case True
    with Cons show ?thesis by (simp split: list.splits)
  next
    case False
    have "case acc of [] \<Rightarrow> True | x # _ \<Rightarrow> ai_name x \<noteq> ag_name a"
      using Cons.prems(2) by (cases acc) simp_all
    note new = fold_new_agent [OF False this, of now]
    have "ai_name (raw_info now a (h a)) \<notin> ag_name ` set as"
      using Cons.prems(1) by (simp add: raw_info_def Let_def)
    with Cons.IH [of "raw_info now a (h a) # acc"] Cons.prems(1) False new show ?thesis by simp
  qed
qed

section \<open>The reference\<close>

definition enabled_agents :: "auth_ctx \<Rightarrow> db \<Rightarrow> agent_row list" where
  "enabled_agents auth d = filter (\<lambda>a. ag_team_id a = au_team_id auth \<and> ag_disabled_at a = None) (d_agents d)"

definition windows_shown :: "time \<Rightarrow> bool \<Rightarrow> db \<Rightarrow> agent_row \<Rightarrow> presence_row option list" where
  "windows_shown now online_only d a = sort_key (\<lambda>p. presence_order now (ag_name a, p))
     (filter (\<lambda>p. online_only \<longrightarrow> online_opt now p) (join_presence d a))"

definition agent_entry :: "time \<Rightarrow> bool \<Rightarrow> db \<Rightarrow> agent_row \<Rightarrow> agent_info" where
  "agent_entry now online_only d a = hide_single (raw_info now a (windows_shown now online_only d a))"

lemma agent_rows_grouped:
  assumes "distinct (map ag_name (enabled_agents auth d))"
  shows "agent_rows now auth online_only d =
    concat (map (\<lambda>a. map (Pair a) (windows_shown now online_only d a)) (sort_key ag_name (enabled_agents auth d)))"
proof -
  let ?f = "\<lambda>(a, p). presence_order now (ag_name a, p)"
  let ?g = "\<lambda>a. map (Pair a) (filter (\<lambda>p. online_only \<longrightarrow> online_opt now p) (join_presence d a))"
  have "filter (\<lambda>(a, p). \<not> online_only \<or> online_opt now p) (concat (map (\<lambda>a. map (Pair a) (join_presence d a)) as)) =
      concat (map ?g as)" for as
    by (induction as) (simp_all add: filter_map comp_def)
  then have "agent_rows now auth online_only d = sort_key ?f (concat (map ?g (enabled_agents auth d)))"
    by (simp add: agent_rows_def enabled_agents_def)
  also have "\<dots> = concat (map (\<lambda>a. sort_key ?f (?g a)) (sort_key ag_name (enabled_agents auth d)))"
    using assms by (intro sort_grouped) (auto simp: presence_order_def)
  finally show ?thesis by (simp add: sort_key_map windows_shown_def)
qed

definition agent_key :: "agent_info \<Rightarrow> bool \<times> string" where
  "agent_key a = (\<not> ai_online a, ai_name a)"

lemma agent_entry_name [simp]: "ai_name (agent_entry now oo d a) = ag_name a"
  by (simp add: agent_entry_def hide_single_def raw_info_def Let_def)

lemma list_agents_folded:
  assumes "distinct (map ag_name (enabled_agents auth d))"
  shows "map hide_single (rev (fold (fold_row now) (agent_rows now auth online_only d) [])) =
    map (agent_entry now online_only d)
      (filter (\<lambda>a. windows_shown now online_only d a \<noteq> []) (sort_key ag_name (enabled_agents auth d)))"
proof -
  have "distinct (map ag_name (sort_key ag_name (enabled_agents auth d)))"
    using assms by (metis distinct_map distinct_sort set_sort)
  from fold_groups [OF this, of "[]" now "windows_shown now online_only d"] show ?thesis
    by (simp add: agent_rows_grouped [OF assms] agent_entry_def comp_def)
qed


definition is_shown :: "time \<Rightarrow> bool \<Rightarrow> db \<Rightarrow> agent_row \<Rightarrow> bool" where
  "is_shown now online_only d a \<longleftrightarrow> \<not> online_only \<or> list_ex (\<lambda>p. pr_agent_id p = ag_id a \<and> row_online now p) (d_presence d)"

lemma windows_shown_Nil: "windows_shown now online_only d a \<noteq> [] \<longleftrightarrow> is_shown now online_only d a"
  by (auto simp: windows_shown_def is_shown_def join_presence_def Let_def filter_empty_conv online_opt_def list_ex_iff)

lemma agent_entry_online:
  "is_shown now oo d a \<Longrightarrow> ai_online (agent_entry now oo d a) \<longleftrightarrow>
     list_ex (\<lambda>p. pr_agent_id p = ag_id a \<and> row_online now p) (d_presence d)"
  by (auto simp: agent_entry_def hide_single_def raw_info_def Let_def windows_shown_def join_presence_def list_ex_iff
      entry_of_row_def online_opt_def is_shown_def image_iff filter_empty_conv split: if_splits)

section \<open>Property\<close>

definition demo_two_windows :: db where
  "demo_two_windows = demo_present\<lparr>d_presence := d_presence demo_present @
     [(hd (d_presence demo_present))\<lparr>pr_session := ''web'', pr_expires_at := 2000000\<rparr>]\<rparr>"

lemma demo_two_windows_facts:
  "distinct (map ag_name (enabled_agents ana_api demo_two_windows)) \<and>
   map ai_name (al_agents (list_agents 3000000 ana_api False demo_two_windows)) = [''ana'', ''bo''] \<and>
   map (length \<circ> ai_sessions) (al_agents (list_agents 3000000 ana_api False demo_two_windows)) = [2, 0] \<and>
   al_online_count (list_agents 3000000 ana_api False demo_two_windows) = 1"
  by code_simp

text \<open>C28: the listing agrees with looking up each agent by itself: it holds every enabled agent of the caller's team once
  (with \<^verbatim>\<open>online_only\<close>, those with a live window), the online ones first and then by name; each entry is computed
  from that agent's own rows alone, leads with its first window in the documented order, is online when any of
  its windows is, and lists its windows when there is more than one; the count is of the online agents.\<close>

theorem list_agents_is_per_agent:
  assumes "distinct (map ag_name (enabled_agents auth d))"
  shows "al_agents (list_agents now auth online_only d) =
      sort_key agent_key (map (agent_entry now online_only d) (filter (is_shown now online_only d) (enabled_agents auth d))) \<and>
    al_online_count (list_agents now auth online_only d) =
      length (filter (\<lambda>a. list_ex (\<lambda>p. pr_agent_id p = ag_id a \<and> row_online now p) (d_presence d)) (enabled_agents auth d))"
proof -
  let ?e = "agent_entry now online_only d" and ?s = "is_shown now online_only d"
  let ?on = "\<lambda>a. list_ex (\<lambda>p. pr_agent_id p = ag_id a \<and> row_online now p) (d_presence d)"
  let ?sorted = "map ?e (filter ?s (sort_key ag_name (enabled_agents auth d)))"
    and ?plain = "map ?e (filter ?s (enabled_agents auth d))"
  have folded: "map hide_single (rev (fold (fold_row now) (agent_rows now auth online_only d) [])) = ?sorted"
    by (simp only: list_agents_folded [OF assms] windows_shown_Nil)
  have same: "mset ?sorted = mset ?plain" by simp
  have "inj_on agent_key (set ?sorted)"
    using assms by (auto simp: inj_on_def agent_key_def enabled_agents_def dest: distinct_map_inj)
  moreover have "mset ?sorted = mset (sort_key agent_key ?plain)" using same by simp
  ultimately have "sort_key agent_key ?sorted = sort_key agent_key ?plain"
    by (intro sort_key_inj_key_eq) simp_all
  then have agents: "al_agents (list_agents now auth online_only d) = sort_key agent_key ?plain"
    unfolding list_agents_def Let_def folded by (simp add: agent_key_def [abs_def])
  have "al_online_count (list_agents now auth online_only d) = length (filter ai_online ?sorted)"
    unfolding list_agents_def Let_def folded by (simp only: count_rows_def agent_list.simps)
  also have "\<dots> = size (filter_mset ai_online (mset ?sorted))"
    by (simp only: mset_filter [symmetric] size_mset)
  also have "\<dots> = length (filter ai_online ?plain)"
    unfolding same by (simp only: mset_filter [symmetric] size_mset)
  also have "\<dots> = length (filter ?on (filter ?s (enabled_agents auth d)))"
    by (simp add: filter_map comp_def) (rule arg_cong [of _ _ length], rule filter_cong, auto simp: agent_entry_online)
  also have "\<dots> = length (filter ?on (enabled_agents auth d))"
    by (rule arg_cong [of _ _ length]) (auto simp: is_shown_def intro: filter_cong)
  finally show ?thesis using agents by simp
qed

theorem list_agents_is_per_agent_witness:
  "al_agents (list_agents 3000000 ana_api False demo_two_windows) =
      sort_key agent_key (map (agent_entry 3000000 False demo_two_windows)
        (filter (is_shown 3000000 False demo_two_windows) (enabled_agents ana_api demo_two_windows))) \<and>
    map ai_name (al_agents (list_agents 3000000 ana_api False demo_two_windows)) = [''ana'', ''bo'']"
  using list_agents_is_per_agent [of ana_api demo_two_windows 3000000 False] demo_two_windows_facts by blast

end
