(* ===== verification/Spec2Isabelle.thy ===== *)
theory Spec2Isabelle
  imports RateLimit Auth Sessions Locks Tasks TaskPages Notes Attachments Messaging Delivery ThreadPages Publication Seats AdminWalls AdminRefusals Bus Spool PresenceList
begin

text \<open>
  A verification of \<^verbatim>\<open>ai-crew-sync\<close>, a coordination bus for coding agents. A team's agents work in
  windows, each with its own connection; the bus is one process over a Postgres database, whose
  tables hold all state that lasts. The development translates the operations of
  \<^verbatim>\<open>src/src/store\<close> and the code in front of them into functions on the tables, and proves what
  they promise, one by one and over every run.

  \<^bold>\<open>The program and the theories.\<close> A request comes with a bearer credential (\<^verbatim>\<open>auth.rs\<close>, \<open>Auth\<close>) that is
  charged to a limiter (\<^verbatim>\<open>ratelimit.rs\<close>, \<open>RateLimit\<close>) and resolved to an \<open>auth_ctx\<close>. A window is a row of
  \<^verbatim>\<open>agent_sessions\<close> (\<^verbatim>\<open>store/sessions.rs\<close>, \<open>Sessions\<close>): taking it over bumps its epoch, and every
  write starts with a \<open>guard\<close> that compares the epoch of the connection with the row's. Behind it are
  the components, each a group of statements run in one transaction:

    \<^item> \<open>Prelude\<close>, \<open>Schema\<close>, \<open>Contracts\<close>, \<open>Demo\<close>: strings and tables, the shared rows and errors
      (\<^verbatim>\<open>error.rs\<close>, \<^verbatim>\<open>model.rs\<close>, \<^verbatim>\<open>store/mod.rs\<close>, \<^verbatim>\<open>migrations/\<close>), the locales \<open>lease_table\<close>-like
      contracts several components meet, and the installation the witnesses evaluate.
    \<^item> \<open>Locks\<close>, \<open>Tasks\<close>, \<open>TaskPages\<close>, \<open>Notes\<close>, \<open>Attachments\<close>: \<^verbatim>\<open>store/locks.rs\<close>, \<^verbatim>\<open>tasks.rs\<close>,
      \<^verbatim>\<open>notes.rs\<close>, \<^verbatim>\<open>attachments.rs\<close> and \<^verbatim>\<open>quota.rs\<close>.
    \<^item> \<open>Messaging\<close>, \<open>Delivery\<close>: \<^verbatim>\<open>store/messaging.rs\<close>, channels and direct messages with read cursors.
    \<^item> \<open>ConvSchema\<close>, \<open>Conversations\<close>, \<open>ConvMessages\<close>, \<open>ConvDemo\<close>: \<^verbatim>\<open>store/conversations.rs\<close>, projects,
      threads, seats, messages, receipts; \<open>Outbox\<close>: \<^verbatim>\<open>store/outbox.rs\<close> and \<^verbatim>\<open>backend.rs\<close>, the queue
      that publishes stored bodies; \<open>Routing\<close>: \<^verbatim>\<open>store/routing.rs\<close>.
    \<^item> \<open>Inbox\<close>: \<^verbatim>\<open>store/inbox.rs\<close>, the references a window fetches and confirms; \<open>Spool\<close>:
      \<^verbatim>\<open>spool.rs\<close> and the part of \<^verbatim>\<open>proxy.rs\<close> that writes them to disk before confirming.
    \<^item> \<open>Presence\<close>, \<open>PresenceList\<close>: \<^verbatim>\<open>store/presence.rs\<close>.
    \<^item> \<open>Admin\<close>, \<open>AdminApi\<close>, \<open>Operator\<close>: \<^verbatim>\<open>store/admin.rs\<close>, \<^verbatim>\<open>admin_api.rs\<close> and the mutating commands of
      \<^verbatim>\<open>admin.rs\<close>.

  The state of the base tables is the record \<open>db\<close>; the tables of conversations extend it to
  \<open>cdb\<close>, those of administration to \<open>adb\<close>. A table is the list of its rows in insertion order, a
  statement is a \<open>find\<close>, a \<open>filter\<close>, an \<open>upd_where\<close> or a \<open>del_where\<close> with the predicate of its
  \<^verbatim>\<open>WHERE\<close>; an operation returns a result (\<open>Inl\<close> a \<open>bus_error\<close>) and the new state; \<open>transact\<close> rolls
  back when the result is an error. Every definition is named after the function it translates.

  \<^bold>\<open>What the lemmas show.\<close> Theories on one component hold its well-formedness invariant and what each
  operation does on every branch. The others argue over runs, as step machines that each operation is
  shown to refine: \<open>ConvRuns\<close> (every request and every statement of a worker, in any order, a request
  carrying the possibly stale state its checks read), \<open>Threads\<close> and \<open>ThreadHistory\<close> (no gaps, one
  message per request id), \<open>Publication\<close> (a message is unpublished exactly while a slot holds its
  body; what is stored stays stored), \<open>Seats\<close> (which seats change, and by whom), \<open>Reading\<close> and
  \<open>ThreadPages\<close> (who reads, and that following a cursor ends), \<open>InboxRuns\<close> and \<open>InboxHistory\<close> (what
  is handed out, that nothing owed is missed, that a confirmation is final), \<open>PresenceRuns\<close> (late
  reports and withdrawals), \<open>AdminSteps\<close>, \<open>AdminRuns\<close>, \<open>AdminHistory\<close>, \<open>AdminWalls\<close> and
  \<open>AdminRefusals\<close> (the audit trail, the cap on tokens, revocation, the walls between teams, what a
  refusal leaves), and \<open>Bus\<close>, which puts all components on one state and shows that a connection
  whose window was taken over is fenced off from all of them. The locales of \<open>Contracts\<close> state what
  a lease, a fenced write and a kept invariant are; each is interpreted on the model's operations.

  \<^bold>\<open>Assumptions.\<close> One instant per request stands for its clock readings, in microseconds. An operation that
  reads before its transaction takes two states, what it read in and what it commits to; a statement
  is atomic, and row locks are taken to serialise the transactions that hold them. A sequence does not
  survive a rolled back transaction. Text is ASCII, collated byte-wise. Error texts are shortened to
  fixed tags; the kind of an error is the code's. The free text of an audit row and the payloads of
  events are left out. Random ids and secrets, digests, JSON, base64, full-text search and the message
  broker are parameters (the record \<open>ext\<close>, \<open>backend\<close>, \<open>broker\<close>, the spool's \<open>codec\<close>), with what is relied
  upon as named hypotheses: that a decoder inverts its encoder, that a fresh id is new. Loops that
  follow cursors (\<open>all_pages\<close>, \<open>read_all\<close>) carry fuel, and it is proved how much is enough: one more
  than the rows there are to list.

  \<^bold>\<open>Not modelled.\<close> The JetStream adapter (a protocol with a server), the migration and cleanup of
  moved threads, the digest and dashboard (rendering), events and webhooks (delivery over HTTP), the
  tool surface and the process entry (decoding of arguments and wiring), the rest of the client side
  (proxy, context, hooks, wake companions, rendering), listings and printing of the operator's
  commands. Their code is calls to the operating system, to HTTP or to the operations above.
\<close>

end
